(* ===== verification/Prelude.thy ===== *)
theory Prelude
  imports Main "HOL-Library.AList"
begin

text \<open>
  Shared vocabulary of the development: Python strings, insertion-ordered dictionaries,
  the few list operations the sources use again and again (\<open>dict.fromkeys\<close>, stable grouping),
  decimal rendering, and the collections of rewrite rules the component theories add to.
\<close>

section \<open>Rule collections\<close>

named_theorems text_simps \<open>evaluation of Python strings\<close>
named_theorems row_simps \<open>unfolding of single-row database operations\<close>
named_theorems lease_simps \<open>the lease view of a job row\<close>
named_theorems doc_simps \<open>unfolding of the report document builders\<close>

section \<open>Python strings\<close>

text \<open>
  A Python \<open>str\<close> is a sequence of Unicode code points, so it is a list of naturals: \<open>len\<close>
  counts code points and not bytes. The function \<open>u\<close> embeds an ASCII literal.
\<close>

type_synonym pystr = "nat list"

type_synonym uuid = pystr

type_synonym time = int

text \<open>A \<open>datetime\<close> in microseconds; comparing a naive with an aware one raises \<open>TypeError\<close>.\<close>

datatype py_datetime = Naive int | Aware int

definition u :: "string \<Rightarrow> pystr" where
  "u s = map of_char s"

definition py_space :: "nat \<Rightarrow> bool" where
  "py_space c \<longleftrightarrow> (9 \<le> c \<and> c \<le> 13) \<or> (28 \<le> c \<and> c \<le> 32) \<or> c = 133 \<or> c = 160 \<or> c = 5760
     \<or> (8192 \<le> c \<and> c \<le> 8202) \<or> c = 8232 \<or> c = 8233 \<or> c = 8239 \<or> c = 8287 \<or> c = 12288"

definition py_lstrip :: "pystr \<Rightarrow> pystr" where
  "py_lstrip s = dropWhile py_space s"

definition py_strip :: "pystr \<Rightarrow> pystr" where
  "py_strip s = rev (py_lstrip (rev (py_lstrip s)))"

fun py_prefix :: "pystr \<Rightarrow> pystr \<Rightarrow> bool" where
  "py_prefix [] s = True"
| "py_prefix (p # ps) [] = False"
| "py_prefix (p # ps) (c # cs) = (p = c \<and> py_prefix ps cs)"

fun py_in :: "pystr \<Rightarrow> pystr \<Rightarrow> bool" where
  "py_in p [] = (p = [])"
| "py_in p (c # cs) = (py_prefix p (c # cs) \<or> py_in p cs)"

fun py_join :: "pystr \<Rightarrow> pystr list \<Rightarrow> pystr" where
  "py_join sep [] = []"
| "py_join sep [x] = x"
| "py_join sep (x # y # ys) = x @ sep @ py_join sep (y # ys)"

text \<open>\<open>s.replace(p, "")\<close> for a non-empty \<open>p\<close>.\<close>

fun py_remove :: "pystr \<Rightarrow> pystr \<Rightarrow> pystr" where
  "py_remove p [] = []"
| "py_remove p (c # cs) = (if p \<noteq> [] \<and> py_prefix p (c # cs) then py_remove p (drop (length p - 1) cs)
     else c # py_remove p cs)"

text \<open>\<open>s.split(c)\<close> for a single character.\<close>

fun split_on :: "nat \<Rightarrow> pystr \<Rightarrow> pystr list" where
  "split_on c [] = [[]]"
| "split_on c (x # xs) = (if x = c then [] # split_on c xs
     else (case split_on c xs of [] \<Rightarrow> [[x]] | p # ps \<Rightarrow> (x # p) # ps))"

text \<open>The slices \<open>s[:k]\<close> and \<open>s[k:]\<close>; a negative bound counts from the end.\<close>

definition py_slice_to :: "'a list \<Rightarrow> int \<Rightarrow> 'a list" where
  "py_slice_to s k = (if k \<ge> 0 then take (nat k) s else take (length s - nat (- k)) s)"

definition py_slice_from :: "'a list \<Rightarrow> int \<Rightarrow> 'a list" where
  "py_slice_from s k = (if k \<ge> 0 then drop (nat k) s else drop (length s - nat (- k)) s)"

text \<open>An error response of the API: status code and detail.\<close>

datatype http_error = HTTP int pystr

text \<open>ASCII lower case, which is what \<open>str.lower\<close> does to the ASCII part of a text.\<close>

definition ascii_lower :: "pystr \<Rightarrow> pystr" where
  "ascii_lower s = map (\<lambda>c. if 65 \<le> c \<and> c \<le> 90 then c + 32 else c) s"

text \<open>
  \<open>uuid.UUID(s)\<close> and its canonical string: the prefixes \<open>urn:\<close> and \<open>uuid:\<close>, enclosing braces and
  all hyphens are dropped and 32 hexadecimal digits must remain, else it raises \<open>ValueError\<close>.
  (Python also reads underscores and a sign inside the digits; such texts are rejected here.)
\<close>

definition hex_digit :: "nat \<Rightarrow> bool" where
  "hex_digit c \<longleftrightarrow> (48 \<le> c \<and> c \<le> 57) \<or> (97 \<le> c \<and> c \<le> 102) \<or> (65 \<le> c \<and> c \<le> 70)"

definition py_uuid :: "pystr \<Rightarrow> uuid option" where
  "py_uuid s =
    (let brace = (\<lambda>c. c = 123 \<or> c = 125);
         t = py_remove (u ''uuid:'') (py_remove (u ''urn:'') s);
         h = filter (\<lambda>c. c \<noteq> 45) (rev (dropWhile brace (rev (dropWhile brace t))))
     in if length h = 32 \<and> list_all hex_digit h
        then (let l = ascii_lower h in Some (take 8 l @ [45] @ take 4 (drop 8 l) @ [45]
               @ take 4 (drop 12 l) @ [45] @ take 4 (drop 16 l) @ [45] @ drop 20 l))
        else None)"

fun nat_digits :: "nat \<Rightarrow> pystr" where
  "nat_digits n = (if n < 10 then [48 + n] else nat_digits (n div 10) @ [48 + n mod 10])"

definition int_str :: "int \<Rightarrow> pystr" where
  "int_str i = (if i < 0 then 45 # nat_digits (nat (- i)) else nat_digits (nat i))"

declare nat_digits.simps [simp del]

text \<open>\<open>str(x) if x else None\<close> and \<open>x or default\<close> on optional strings.\<close>

definition truthy_opt :: "pystr option \<Rightarrow> pystr option" where
  "truthy_opt v = (case v of Some s \<Rightarrow> if s = [] then None else Some s | None \<Rightarrow> None)"

section \<open>Insertion-ordered dictionaries and lists\<close>

text \<open>
  A Python \<open>dict\<close> keeps insertion order; assigning an existing key keeps its place. That is
  what \<open>AList.update\<close> does on association lists, and \<open>map_of\<close> is \<open>dict.get\<close>.
\<close>

type_synonym ('k, 'v) pydict = "('k \<times> 'v) list"

text \<open>\<open>list(dict.fromkeys(xs))\<close>: the first occurrence of every element, in order.\<close>

fun uniq :: "'a list \<Rightarrow> 'a list" where
  "uniq [] = []"
| "uniq (x # xs) = x # filter (\<lambda>y. y \<noteq> x) (uniq xs)"

text \<open>\<open>defaultdict(list)\<close> filled by one pass: keys in order of first occurrence.\<close>

definition group_by :: "('a \<Rightarrow> 'k) \<Rightarrow> 'a list \<Rightarrow> ('k, 'a list) pydict" where
  "group_by key xs = map (\<lambda>k. (k, filter (\<lambda>x. key x = k) xs)) (uniq (map key xs))"

text \<open>The first element that satisfies a predicate: \<open>next((x for x in xs if p(x)), None)\<close>.\<close>

fun find_first :: "('a \<Rightarrow> bool) \<Rightarrow> 'a list \<Rightarrow> 'a option" where
  "find_first p [] = None"
| "find_first p (x # xs) = (if p x then Some x else find_first p xs)"

section \<open>Computations that may fail\<close>

text \<open>Sequencing of fallible steps, and a fallible step for every element of a list.\<close>

fun sbind :: "'e + 'a \<Rightarrow> ('a \<Rightarrow> 'e + 'b) \<Rightarrow> 'e + 'b" where
  "sbind (Inl e) f = Inl e"
| "sbind (Inr x) f = f x"

fun smap :: "('a \<Rightarrow> 'e + 'b) \<Rightarrow> 'a list \<Rightarrow> 'e + 'b list" where
  "smap f [] = Inr []"
| "smap f (x # xs) = sbind (f x) (\<lambda>y. sbind (smap f xs) (\<lambda>ys. Inr (y # ys)))"

text \<open>A fallible loop over a list that threads a state, and a guard.\<close>

fun sfold :: "('a \<Rightarrow> 's \<Rightarrow> 'e + 's) \<Rightarrow> 'a list \<Rightarrow> 's \<Rightarrow> 'e + 's" where
  "sfold f [] s = Inr s"
| "sfold f (x # xs) s = sbind (f x s) (sfold f xs)"

definition guard :: "bool \<Rightarrow> 'e \<Rightarrow> 'e + unit" where
  "guard ok e = (if ok then Inr () else Inl e)"

lemma guard_Inr [simp]: "guard ok e = Inr x \<longleftrightarrow> ok"
  by (simp add: guard_def)

lemma sbind_cong [fundef_cong]: "x = y \<Longrightarrow> (\<And>v. y = Inr v \<Longrightarrow> f v = g v) \<Longrightarrow> sbind x f = sbind y g"
  by (cases y) auto

lemma smap_cong [fundef_cong]: "xs = ys \<Longrightarrow> (\<And>x. x \<in> set ys \<Longrightarrow> f x = g x) \<Longrightarrow> smap f xs = smap g ys"
  by (induction ys arbitrary: xs) (auto intro!: sbind_cong)

lemma sfold_cong [fundef_cong]:
  "xs = ys \<Longrightarrow> s = t \<Longrightarrow> (\<And>x r. x \<in> set ys \<Longrightarrow> f x r = g x r) \<Longrightarrow> sfold f xs s = sfold g ys t"
proof (induction ys arbitrary: xs s t)
  case (Cons y ys)
  have e: "f y t = g y t" using Cons.prems(3) by simp
  have "sfold f ys r = sfold g ys r" for r using Cons.IH [OF refl refl] Cons.prems(3) by simp
  then show ?case using e Cons.prems(1,2) by (cases "g y t") simp_all
qed simp

lemma sbind_eq_Inr [simp]: "sbind x f = Inr y \<longleftrightarrow> (\<exists>v. x = Inr v \<and> f v = Inr y)"
  by (cases x) auto

lemma smap_eq_Inr: "smap f xs = Inr ys \<longleftrightarrow> list_all2 (\<lambda>x y. f x = Inr y) xs ys"
  by (induction xs arbitrary: ys) (auto simp: list_all2_Cons1)

lemma smap_Inr_map: "(\<And>x. x \<in> set xs \<Longrightarrow> f x = Inr (g x)) \<Longrightarrow> smap f xs = Inr (map g xs)"
  by (induction xs) auto

section \<open>Lemmas\<close>

lemma u_eq_iff [simp]: "u x = u y \<longleftrightarrow> x = y"
  by (simp add: u_def inj_map_eq_map inj_of_char)

lemma u_Nil [simp]: "u [] = []"
  by (simp add: u_def)

lemma u_eq_Nil_iff [simp]: "u x = [] \<longleftrightarrow> x = []"
  by (simp add: u_def)

lemma Nil_eq_u_iff [simp]: "[] = u x \<longleftrightarrow> x = []"
  by (auto simp: u_def)

lemma u_append: "u (x @ y) = u x @ u y"
  by (simp add: u_def)

lemma set_uniq [simp]: "set (uniq xs) = set xs"
  by (induction xs) auto

lemma distinct_uniq [simp]: "distinct (uniq xs)"
  by (induction xs) auto

lemma uniq_distinct: "distinct xs \<Longrightarrow> uniq xs = xs"
  by (induction xs) (auto intro: filter_True)

lemma length_uniq_le: "length (uniq xs) \<le> length xs"
  by (induction xs) (auto intro: le_trans [OF length_filter_le])

lemma uniq_eq_Nil_iff [simp]: "uniq xs = [] \<longleftrightarrow> xs = []"
  by (cases xs) auto

lemma find_first_Some:
  "find_first p xs = Some x \<Longrightarrow> p x \<and> x \<in> set xs"
  by (induction xs) (auto split: if_splits)

lemma find_first_None_iff: "find_first p xs = None \<longleftrightarrow> (\<forall>x\<in>set xs. \<not> p x)"
  by (induction xs) auto

lemma find_first_append:
  "find_first p (xs @ ys) = (case find_first p xs of None \<Rightarrow> find_first p ys | Some x \<Rightarrow> Some x)"
  by (induction xs) auto

lemma set_group_by_keys [simp]: "set (map fst (group_by key xs)) = key ` set xs"
  by (auto simp: group_by_def)

lemma distinct_group_by_keys [simp]: "distinct (map fst (group_by key xs))"
  by (simp add: group_by_def comp_def)

lemma group_by_members:
  "(k, ys) \<in> set (group_by key xs) \<Longrightarrow> ys = filter (\<lambda>x. key x = k) xs \<and> ys \<noteq> []"
  by (auto simp: group_by_def filter_empty_conv)

lemma concat_group_by_set: "(\<Union>(k, ys)\<in>set (group_by key xs). set ys) = set xs"
  by (auto simp: group_by_def)

lemma map_of_update_conv [simp]: "map_of (AList.update k v al) k' = (if k' = k then Some v else map_of al k')"
  by (simp add: AList.update_conv')

lemma split_on_not_Nil [simp]: "split_on c s \<noteq> []"
  by (induction s) (auto split: list.split)

lemma split_on_no_sep: "p \<in> set (split_on c s) \<Longrightarrow> c \<notin> set p"
  by (induction s arbitrary: p) (auto split: list.splits if_splits)

lemma nat_digits_not_Nil [simp]: "nat_digits n \<noteq> []"
  by (subst nat_digits.simps) simp

lemma py_prefix_iff: "py_prefix p s \<longleftrightarrow> (\<exists>r. s = p @ r)"
  by (induction p s rule: py_prefix.induct) auto

lemma py_in_iff: "py_in p s \<longleftrightarrow> (\<exists>a b. s = a @ p @ b)"
proof (induction s)
  case Nil
  then show ?case by auto
next
  case (Cons c cs)
  have "(\<exists>a b. c # cs = a @ p @ b) \<longleftrightarrow> (\<exists>b. c # cs = p @ b) \<or> (\<exists>a b. cs = a @ p @ b)"
    by (metis Cons_eq_append_conv append_Cons append_Nil)
  with Cons show ?case by (simp add: py_prefix_iff)
qed

text \<open>Invariants of a fallible loop, and facts each round establishes and later rounds keep.\<close>

lemma sfold_invariant:
  assumes "sfold f xs s = Inr t" "P s" "\<And>x s s'. x \<in> set xs \<Longrightarrow> P s \<Longrightarrow> f x s = Inr s' \<Longrightarrow> P s'"
  shows "P t"
  using assms
proof (induction xs arbitrary: s)
  case (Cons x xs)
  then obtain s1 where "f x s = Inr s1" "sfold f xs s1 = Inr t" by auto
  with Cons show ?case by (metis list.set_intros)
qed simp

lemma sfold_each:
  assumes "sfold f xs s = Inr t" "P s" "\<And>x s s'. x \<in> set xs \<Longrightarrow> P s \<Longrightarrow> f x s = Inr s' \<Longrightarrow> P s' \<and> Q x s'"
    and "\<And>x y s s'. P s \<Longrightarrow> Q x s \<Longrightarrow> f y s = Inr s' \<Longrightarrow> Q x s'"
  shows "P t \<and> (\<forall>x\<in>set xs. Q x t)"
  using assms(1,2,3)
proof (induction xs arbitrary: s)
  case (Cons x xs)
  then obtain s1 where s1: "f x s = Inr s1" "sfold f xs s1 = Inr t" by auto
  then have p: "P s1" "Q x s1" using Cons.prems(2) Cons.prems(3) [of x s s1] by auto
  have ih: "P t \<and> (\<forall>x\<in>set xs. Q x t)"
    by (rule Cons.IH [OF s1(2) p(1)]) (rule Cons.prems(3), simp_all)
  have step: "P b \<and> Q x b" if "y \<in> set xs" "P a \<and> Q x a" "f y a = Inr b" for y a b
    using Cons.prems(3) [of y a b] assms(4) [of a x y b] that by simp
  have "P t \<and> Q x t"
    using sfold_invariant [where P = "\<lambda>s. P s \<and> Q x s", OF s1(2)] p step by blast
  with ih show ?case by simp
qed simp

end
