(* ===== verification/Job_Store.thy ===== *)
theory Job_Store
  imports Prelude
begin

text \<open>
  The durable job table and its lease protocol: \<^verbatim>\<open>bridge/noc_bridge/db.py\<close>. Each function of
  that module is one SQL transaction; it becomes one function on the tables. The clock
  (\<open>datetime.now\<close>) and the fresh claim token (\<open>uuid4\<close>) are arguments. Instants are integers in
  microseconds. A lease is the triple of a claim token, an expiry and the status \<open>PROCESSING\<close>.
\<close>

section \<open>Tables\<close>

datatype job_status = QUEUED | PROCESSING | COMPLETED | FAILED | RETRYING | Other_Status pystr

record job_row =
  j_status :: job_status
  j_attempt :: int
  j_error_code :: "pystr option"
  j_error_message :: "pystr option"
  j_started_at :: "time option"
  j_completed_at :: "time option"
  j_claimed_at :: "time option"
  j_claim_token :: "pystr option"
  j_lease_expires_at :: "time option"
  j_worker_id :: "pystr option"

text \<open>The storage identity dictionaries that travel in \<open>artifact_metadata\<close>.\<close>

record artifact =
  a_bucket :: "pystr option"
  a_object_key :: "pystr option"
  a_version_id :: "pystr option"
  a_sha256 :: "pystr option"
  a_byte_size :: "int option"
  a_content_type :: "pystr option"

record provenance =
  p_runtime_name :: "pystr option"
  p_runtime_version :: "pystr option"
  p_runtime_profile :: "pystr option"
  p_provider :: "pystr option"
  p_runtime_model :: "pystr option"
  p_input_manifest_sha256 :: "pystr option"
  p_output_sha256 :: "pystr option"
  p_input_tokens :: "int option"
  p_output_tokens :: "int option"
  p_duration_ms :: "int option"

record artifact_metadata =
  am_report :: "artifact option"
  am_document :: "artifact option"
  am_screenshots :: "artifact option"
  am_provenance :: "provenance option"

text \<open>
  The columns of \<open>reports\<close> that the worker writes. The preview columns have no bucket of their
  own, so \<open>a_bucket\<close> of the two preview identities stays as it is in the row.
\<close>

record report_cols =
  r_job_id :: uuid
  r_report :: artifact
  r_document :: artifact
  r_screenshots :: artifact
  r_provenance :: provenance
  r_generated_at :: "time option"

record job_db =
  jobs :: "uuid \<rightharpoonup> job_row"
  reports :: "report_cols list"

section \<open>Claim results\<close>

datatype JobClaimDisposition = CLAIMED | ALREADY_COMPLETED | LEASE_BUSY | NOT_CLAIMABLE

record JobClaimResult =
  disposition :: JobClaimDisposition
  claim_job_row :: "job_row option"

section \<open>Operations\<close>

text \<open>\<open>WHERE id = %s\<close> with the optional \<open>AND claim_token = %s\<close>: the row the update touches.\<close>

definition row_matches :: "pystr option \<Rightarrow> job_row \<Rightarrow> bool" where
  "row_matches tok r \<longleftrightarrow> (case tok of None \<Rightarrow> True | Some t \<Rightarrow> j_claim_token r = Some t)"

text \<open>One conditional \<open>UPDATE jobs SET \<dots>\<close>; the result is \<open>rowcount == 1\<close>.\<close>

definition update_job ::
  "uuid \<Rightarrow> (job_row \<Rightarrow> bool) \<Rightarrow> (job_row \<Rightarrow> job_row) \<Rightarrow> job_db \<Rightarrow> bool \<times> job_db" where
  "update_job j cond f s = (case jobs s j of
      None \<Rightarrow> (False, s)
    | Some r \<Rightarrow> if cond r then (True, s\<lparr>jobs := (jobs s)(j \<mapsto> f r)\<rparr>) else (False, s))"

definition release_lease :: "job_row \<Rightarrow> job_row" where
  "release_lease r = r\<lparr>j_claimed_at := None, j_claim_token := None, j_lease_expires_at := None\<rparr>"

definition mark_started :: "uuid \<Rightarrow> pystr option \<Rightarrow> time \<Rightarrow> job_db \<Rightarrow> bool \<times> job_db" where
  "mark_started j tok now s =
     update_job j (row_matches tok) (\<lambda>r. r\<lparr>j_status := PROCESSING, j_started_at := Some now\<rparr>) s"

text \<open>\<open>UPDATE reports SET \<dots> WHERE job_id = %s\<close>.\<close>

definition update_reports :: "uuid \<Rightarrow> (report_cols \<Rightarrow> report_cols) \<Rightarrow> job_db \<Rightarrow> job_db" where
  "update_reports j f s = s\<lparr>reports := map (\<lambda>r. if r_job_id r = j then f r else r) (reports s)\<rparr>"

definition keep_bucket :: "artifact \<Rightarrow> artifact \<Rightarrow> artifact" where
  "keep_bucket new old = new\<lparr>a_bucket := a_bucket old\<rparr>"

definition store_artifacts :: "uuid \<Rightarrow> time \<Rightarrow> artifact_metadata \<Rightarrow> job_db \<Rightarrow> job_db" where
  "store_artifacts j now am s =
    (let s1 = (case am_report am of None \<Rightarrow> s
                | Some a \<Rightarrow> update_reports j (\<lambda>r. r\<lparr>r_report := a\<rparr>) s);
         s2 = (case (am_document am, am_screenshots am) of
                  (Some d, Some sc) \<Rightarrow>
                    update_reports j (\<lambda>r. r\<lparr>r_document := keep_bucket d (r_document r),
                                            r_screenshots := keep_bucket sc (r_screenshots r)\<rparr>) s1
                | _ \<Rightarrow> s1)
     in (case am_provenance am of None \<Rightarrow> s2
          | Some p \<Rightarrow> update_reports j
              (\<lambda>r. r\<lparr>r_provenance := p,
                     r_generated_at := (case r_generated_at r of None \<Rightarrow> Some now | Some t \<Rightarrow> Some t)\<rparr>) s2))"

definition mark_completed ::
  "uuid \<Rightarrow> artifact_metadata option \<Rightarrow> pystr option \<Rightarrow> time \<Rightarrow> job_db \<Rightarrow> bool \<times> job_db" where
  "mark_completed j am tok now s =
    (let (updated, s') = update_job j (row_matches tok)
          (\<lambda>r. release_lease (r\<lparr>j_status := COMPLETED, j_completed_at := Some now,
                 j_error_code := None, j_error_message := None\<rparr>)) s
     in if \<not> updated then (False, s')
        else (True, (case am of None \<Rightarrow> s' | Some a \<Rightarrow> store_artifacts j now a s')))"

definition mark_failed ::
  "uuid \<Rightarrow> pystr \<Rightarrow> pystr \<Rightarrow> pystr option \<Rightarrow> time \<Rightarrow> job_db \<Rightarrow> bool \<times> job_db" where
  "mark_failed j code msg tok now s =
     update_job j (row_matches tok)
       (\<lambda>r. release_lease (r\<lparr>j_status := FAILED, j_completed_at := Some now,
              j_error_code := Some code, j_error_message := Some msg\<rparr>)) s"

definition mark_retrying :: "uuid \<Rightarrow> pystr \<Rightarrow> pystr \<Rightarrow> job_db \<Rightarrow> bool \<times> job_db" where
  "mark_retrying j code msg s =
     update_job j (\<lambda>r. True)
       (\<lambda>r. release_lease (r\<lparr>j_status := RETRYING, j_completed_at := None,
              j_error_code := Some code, j_error_message := Some msg\<rparr>)) s"

definition bump_attempt :: "uuid \<Rightarrow> int \<Rightarrow> job_db \<Rightarrow> job_db" where
  "bump_attempt j n s = snd (update_job j (\<lambda>r. True) (\<lambda>r. r\<lparr>j_attempt := n\<rparr>) s)"

definition fetch_job_row :: "uuid \<Rightarrow> job_db \<Rightarrow> job_row option" where
  "fetch_job_row j s = jobs s j"

text \<open>\<open>lease_seconds * interval '1 second'\<close>.\<close>

definition interval_seconds :: "int \<Rightarrow> time" where
  "interval_seconds n = n * 1000000"

definition claimable :: "time \<Rightarrow> job_row \<Rightarrow> bool" where
  "claimable now r \<longleftrightarrow>
     j_status r \<noteq> COMPLETED \<and>
     (j_status r \<in> {QUEUED, FAILED, RETRYING} \<or>
      (j_status r = PROCESSING \<and>
        (case j_lease_expires_at r of None \<Rightarrow> True | Some e \<Rightarrow> e < now)))"

definition claim_job ::
  "uuid \<Rightarrow> pystr \<Rightarrow> int \<Rightarrow> pystr \<Rightarrow> time \<Rightarrow> job_db \<Rightarrow> JobClaimResult \<times> job_db" where
  "claim_job j worker lease_seconds token now s =
    (let (updated, s') = update_job j (claimable now)
          (\<lambda>r. r\<lparr>j_status := PROCESSING, j_started_at := Some now, j_claimed_at := Some now,
                 j_claim_token := Some token,
                 j_lease_expires_at := Some (now + interval_seconds lease_seconds),
                 j_worker_id := Some worker\<rparr>) s
     in if updated then (\<lparr>disposition = CLAIMED, claim_job_row = jobs s' j\<rparr>, s')
        else (case jobs s' j of
            None \<Rightarrow> (\<lparr>disposition = NOT_CLAIMABLE, claim_job_row = None\<rparr>, s')
          | Some r \<Rightarrow>
              (if j_status r = COMPLETED
               then (\<lparr>disposition = ALREADY_COMPLETED, claim_job_row = Some r\<rparr>, s')
               else (case j_lease_expires_at r of
                   Some e \<Rightarrow> if j_status r = PROCESSING \<and> now \<le> e
                     then (\<lparr>disposition = LEASE_BUSY, claim_job_row = Some r\<rparr>, s')
                     else (\<lparr>disposition = NOT_CLAIMABLE, claim_job_row = Some r\<rparr>, s')
                 | None \<Rightarrow> (\<lparr>disposition = NOT_CLAIMABLE, claim_job_row = Some r\<rparr>, s')))))"

definition renew_job_lease ::
  "uuid \<Rightarrow> pystr \<Rightarrow> int \<Rightarrow> time \<Rightarrow> job_db \<Rightarrow> bool \<times> job_db" where
  "renew_job_lease j token lease_seconds now s =
     update_job j (\<lambda>r. j_status r = PROCESSING \<and> j_claim_token r = Some token)
       (\<lambda>r. r\<lparr>j_lease_expires_at := Some (now + interval_seconds lease_seconds)\<rparr>) s"

end
