(* ===== verification/Lease_Protocol.thy ===== *)
theory Lease_Protocol
  imports Job_Store
begin

text \<open>
  What the job table promises to a worker: a lease lock. The specification is a four-state lock;
  the locale \<open>lease_service\<close> states the contract of an implementation (it simulates the lock
  and keeps its own invariant) and proves the client's facts once: a live lease cannot be taken,
  finished or failed by anyone else, a token that lost its lease is fenced for good, and a
  finished job stays finished. The job table of \<^verbatim>\<open>bridge/noc_bridge/db.py\<close> is an instance.
\<close>

section \<open>Specification: a lease lock\<close>

datatype lease = Free | Held pystr time | Done | Stuck

fun spec_claim :: "time \<Rightarrow> pystr \<Rightarrow> time \<Rightarrow> lease \<Rightarrow> bool \<times> lease" where
  "spec_claim dur tok now Free = (True, Held tok (now + dur))"
| "spec_claim dur tok now (Held t e) =
     (if e < now then (True, Held tok (now + dur)) else (False, Held t e))"
| "spec_claim dur tok now Done = (False, Done)"
| "spec_claim dur tok now Stuck = (False, Stuck)"

fun spec_renew :: "time \<Rightarrow> pystr \<Rightarrow> time \<Rightarrow> lease \<Rightarrow> bool \<times> lease" where
  "spec_renew dur tok now (Held t e) =
     (if t = tok then (True, Held t (now + dur)) else (False, Held t e))"
| "spec_renew dur tok now l = (False, l)"

fun spec_finish :: "pystr \<Rightarrow> lease \<Rightarrow> bool \<times> lease" where
  "spec_finish tok (Held t e) = (if t = tok then (True, Done) else (False, Held t e))"
| "spec_finish tok l = (False, l)"

fun spec_fail :: "pystr \<Rightarrow> lease \<Rightarrow> bool \<times> lease" where
  "spec_fail tok (Held t e) = (if t = tok then (True, Free) else (False, Held t e))"
| "spec_fail tok l = (False, l)"

text \<open>The token-guarded operations of a worker, each at an instant.\<close>

datatype lease_op =
    Claim pystr time
  | Renew pystr time
  | Finish pystr time
  | Fail pystr time

fun op_token :: "lease_op \<Rightarrow> pystr" where
  "op_token (Claim t _) = t"
| "op_token (Renew t _) = t"
| "op_token (Finish t _) = t"
| "op_token (Fail t _) = t"

fun op_time :: "lease_op \<Rightarrow> time" where
  "op_time (Claim _ n) = n"
| "op_time (Renew _ n) = n"
| "op_time (Finish _ n) = n"
| "op_time (Fail _ n) = n"

fun is_claim :: "lease_op \<Rightarrow> bool" where
  "is_claim (Claim _ _) = True"
| "is_claim _ = False"

fun spec_op :: "time \<Rightarrow> lease_op \<Rightarrow> lease \<Rightarrow> bool \<times> lease" where
  "spec_op dur (Claim t n) l = spec_claim dur t n l"
| "spec_op dur (Renew t n) l = spec_renew dur t n l"
| "spec_op dur (Finish t n) l = spec_finish t l"
| "spec_op dur (Fail t n) l = spec_fail t l"

section \<open>The job table's view of a lease\<close>

definition wf_row :: "job_row \<Rightarrow> bool" where
  "wf_row r \<longleftrightarrow> (j_claim_token r = None \<longleftrightarrow> j_lease_expires_at r = None)
             \<and> (j_claim_token r \<noteq> None \<longrightarrow> j_status r = PROCESSING)"

definition wf_db :: "job_db \<Rightarrow> bool" where
  "wf_db s \<longleftrightarrow> (\<forall>j r. jobs s j = Some r \<longrightarrow> wf_row r)"

definition lease_of :: "job_row \<Rightarrow> lease" where
  "lease_of r = (case j_status r of
      COMPLETED \<Rightarrow> Done
    | PROCESSING \<Rightarrow> (case (j_claim_token r, j_lease_expires_at r) of
          (Some t, Some e) \<Rightarrow> Held t e
        | _ \<Rightarrow> Free)
    | Other_Status _ \<Rightarrow> Stuck
    | _ \<Rightarrow> Free)"

definition lease_view :: "uuid \<Rightarrow> job_db \<Rightarrow> lease" where
  "lease_view j s = (case jobs s j of None \<Rightarrow> Stuck | Some r \<Rightarrow> lease_of r)"

text \<open>The worker's four operations on one job, as boolean-valued transactions.\<close>

definition js_claim :: "uuid \<Rightarrow> pystr \<Rightarrow> int \<Rightarrow> pystr \<Rightarrow> time \<Rightarrow> job_db \<Rightarrow> bool \<times> job_db" where
  "js_claim j w L tok now s =
     (let (res, s') = claim_job j w L tok now s in (disposition res = CLAIMED, s'))"

definition js_finish :: "uuid \<Rightarrow> artifact_metadata option \<Rightarrow> pystr \<Rightarrow> time \<Rightarrow> job_db \<Rightarrow> bool \<times> job_db" where
  "js_finish j am tok now s = mark_completed j am (Some tok) now s"

definition js_fail :: "uuid \<Rightarrow> pystr \<Rightarrow> pystr \<Rightarrow> pystr \<Rightarrow> time \<Rightarrow> job_db \<Rightarrow> bool \<times> job_db" where
  "js_fail j code msg tok now s = mark_failed j code msg (Some tok) now s"

section \<open>Contract of an implementation and its client facts\<close>

locale lease_service =
  fixes view :: "'s \<Rightarrow> lease"
    and inv :: "'s \<Rightarrow> bool"
    and dur :: time
    and claim :: "pystr \<Rightarrow> time \<Rightarrow> 's \<Rightarrow> bool \<times> 's"
    and renew :: "pystr \<Rightarrow> time \<Rightarrow> 's \<Rightarrow> bool \<times> 's"
    and finish :: "pystr \<Rightarrow> time \<Rightarrow> 's \<Rightarrow> bool \<times> 's"
    and fail :: "pystr \<Rightarrow> time \<Rightarrow> 's \<Rightarrow> bool \<times> 's"
  assumes claim_sim: "inv s \<Longrightarrow> map_prod id view (claim t n s) = spec_claim dur t n (view s)"
    and renew_sim: "inv s \<Longrightarrow> map_prod id view (renew t n s) = spec_renew dur t n (view s)"
    and finish_sim: "inv s \<Longrightarrow> map_prod id view (finish t n s) = spec_finish t (view s)"
    and fail_sim: "inv s \<Longrightarrow> map_prod id view (fail t n s) = spec_fail t (view s)"
    and claim_inv: "inv s \<Longrightarrow> inv (snd (claim t n s))"
    and renew_inv: "inv s \<Longrightarrow> inv (snd (renew t n s))"
    and finish_inv: "inv s \<Longrightarrow> inv (snd (finish t n s))"
    and fail_inv: "inv s \<Longrightarrow> inv (snd (fail t n s))"
begin

fun exec :: "lease_op \<Rightarrow> 's \<Rightarrow> bool \<times> 's" where
  "exec (Claim t n) s = claim t n s"
| "exec (Renew t n) s = renew t n s"
| "exec (Finish t n) s = finish t n s"
| "exec (Fail t n) s = fail t n s"

fun run :: "lease_op list \<Rightarrow> 's \<Rightarrow> 's" where
  "run [] s = s"
| "run (x # xs) s = run xs (snd (exec x s))"

lemmas sims = claim_sim renew_sim finish_sim fail_sim
lemmas invs = claim_inv renew_inv finish_inv fail_inv

lemma exec_sim: "inv s \<Longrightarrow> map_prod id view (exec x s) = spec_op dur x (view s)"
  by (cases x) (simp_all add: sims)

lemma exec_view: "inv s \<Longrightarrow> view (snd (exec x s)) = snd (spec_op dur x (view s))"
  using exec_sim [of s x] by (metis snd_map_prod)

lemma exec_result: "inv s \<Longrightarrow> fst (exec x s) = fst (spec_op dur x (view s))"
  using exec_sim [of s x] by (metis fst_map_prod id_apply)

lemma exec_inv: "inv s \<Longrightarrow> inv (snd (exec x s))"
  by (cases x) (simp_all add: invs)

lemma run_inv: "inv s \<Longrightarrow> inv (run xs s)"
  by (induction xs arbitrary: s) (simp_all add: exec_inv)

text \<open>Operations of other workers before the expiry leave the lease where it is.\<close>

lemma exec_foreign:
  assumes "inv s" and "view s = Held t e" and "op_token x \<noteq> t" and "op_time x \<le> e"
  shows "view (snd (exec x s)) = Held t e \<and> fst (exec x s) = False"
  using assms by (cases x) (auto simp: exec_view exec_result simp del: exec.simps)

lemma live_lease_exclusive:
  assumes "inv s" and "view s = Held t e"
    and "\<forall>x\<in>set xs. op_token x \<noteq> t \<and> op_time x \<le> e"
  shows "view (run xs s) = Held t e"
  using assms
proof (induction xs arbitrary: s)
  case Nil
  then show ?case by simp
next
  case (Cons x xs)
  have "view (snd (exec x s)) = Held t e"
    using Cons.prems exec_foreign [of s t e x] by simp
  moreover have "inv (snd (exec x s))" using Cons.prems(1) by (rule exec_inv)
  ultimately show ?case using Cons.IH [of "snd (exec x s)"] Cons.prems(3) by simp
qed

text \<open>A token that does not hold the lease and is not claimed again is fenced.\<close>

lemma exec_fenced:
  assumes "inv s" and "\<And>e. view s \<noteq> Held t e" and "\<not> (is_claim x \<and> op_token x = t)"
  shows "view (snd (exec x s)) \<noteq> Held t e"
  using assms by (cases x; cases "view s") (auto simp: exec_view simp del: exec.simps split: if_splits)

lemma run_fenced:
  assumes "inv s" and "\<And>e. view s \<noteq> Held t e"
    and "\<forall>x\<in>set xs. \<not> (is_claim x \<and> op_token x = t)"
  shows "view (run xs s) \<noteq> Held t e"
  using assms
proof (induction xs arbitrary: s)
  case Nil
  then show ?case by simp
next
  case (Cons x xs)
  have "inv (snd (exec x s))" using Cons.prems(1) by (rule exec_inv)
  moreover have "\<And>e. view (snd (exec x s)) \<noteq> Held t e"
    using Cons.prems by (intro exec_fenced) auto
  ultimately show ?case using Cons.IH [of "snd (exec x s)"] Cons.prems(3) by simp
qed

lemma fenced_token_powerless:
  assumes "inv s" and "\<And>e. view s \<noteq> Held t e"
    and "\<forall>x\<in>set xs. \<not> (is_claim x \<and> op_token x = t)"
  shows "fst (renew t n (run xs s)) = False \<and> fst (finish t n (run xs s)) = False
       \<and> fst (fail t n (run xs s)) = False"
proof -
  have i: "inv (run xs s)" using assms(1) by (rule run_inv)
  have v: "\<And>e. view (run xs s) \<noteq> Held t e" using assms by (intro run_fenced)
  have "fst (exec (Renew t n) (run xs s)) = False" "fst (exec (Finish t n) (run xs s)) = False"
    "fst (exec (Fail t n) (run xs s)) = False"
    using v by (cases "view (run xs s)"; auto simp: exec_result [OF i] simp del: exec.simps)+
  then show ?thesis by simp
qed

lemma done_stable: "inv s \<Longrightarrow> view s = Done \<Longrightarrow> view (run xs s) = Done"
proof (induction xs arbitrary: s)
  case Nil
  then show ?case by simp
next
  case (Cons x xs)
  have "view (snd (exec x s)) = Done"
    using Cons.prems by (cases x) (simp_all add: exec_view del: exec.simps)
  then show ?case using Cons.IH Cons.prems(1) exec_inv by simp
qed

end

section \<open>The job table implements the lease lock\<close>

lemmas update_job_simps [row_simps] = update_job_def row_matches_def release_lease_def

lemma update_job_other: "i \<noteq> j \<Longrightarrow> jobs (snd (update_job j c f s)) i = jobs s i"
  by (auto simp: update_job_def split: option.splits)

lemma update_job_wf:
  assumes "wf_db s" and "\<And>r. jobs s j = Some r \<Longrightarrow> c r \<Longrightarrow> wf_row r \<Longrightarrow> wf_row (f r)"
  shows "wf_db (snd (update_job j c f s))"
  using assms by (auto simp: update_job_def wf_db_def split: option.splits)

lemma jobs_store_artifacts [simp]: "jobs (store_artifacts j now am s) = jobs s"
  by (simp add: store_artifacts_def update_reports_def Let_def split: option.splits)

lemma wf_db_jobs_cong: "jobs s = jobs s' \<Longrightarrow> wf_db s = wf_db s'"
  by (simp add: wf_db_def)

lemma lease_view_jobs_cong: "jobs s j = jobs s' j \<Longrightarrow> lease_view j s = lease_view j s'"
  by (simp add: lease_view_def)

lemma jobs_mark_completed:
  "jobs (snd (mark_completed j am tok now s)) =
   jobs (snd (update_job j (row_matches tok)
          (\<lambda>r. release_lease (r\<lparr>j_status := COMPLETED, j_completed_at := Some now,
                 j_error_code := None, j_error_message := None\<rparr>)) s))"
  by (auto simp: mark_completed_def Let_def split: prod.splits option.splits)

lemma claim_job_state:
  "snd (claim_job j w L tok now s) = snd (update_job j (claimable now)
     (\<lambda>r. r\<lparr>j_status := PROCESSING, j_started_at := Some now, j_claimed_at := Some now,
            j_claim_token := Some tok,
            j_lease_expires_at := Some (now + interval_seconds L),
            j_worker_id := Some w\<rparr>) s)"
  by (auto simp: claim_job_def Let_def split: prod.splits option.splits if_splits)

text \<open>Every operation of the module keeps token, expiry and status consistent.\<close>

lemma claim_job_wf: "wf_db s \<Longrightarrow> wf_db (snd (claim_job j w L tok now s))"
  unfolding claim_job_state by (rule update_job_wf) (auto simp: wf_row_def)

lemma renew_job_lease_wf: "wf_db s \<Longrightarrow> wf_db (snd (renew_job_lease j tok L now s))"
  unfolding renew_job_lease_def by (rule update_job_wf) (auto simp: wf_row_def)

lemma mark_started_wf: "wf_db s \<Longrightarrow> wf_db (snd (mark_started j tok now s))"
  unfolding mark_started_def by (rule update_job_wf) (auto simp: wf_row_def)

lemma mark_failed_wf: "wf_db s \<Longrightarrow> wf_db (snd (mark_failed j code msg tok now s))"
  unfolding mark_failed_def by (rule update_job_wf) (auto simp: wf_row_def release_lease_def)

lemma mark_retrying_wf: "wf_db s \<Longrightarrow> wf_db (snd (mark_retrying j code msg s))"
  unfolding mark_retrying_def by (rule update_job_wf) (auto simp: wf_row_def release_lease_def)

lemma bump_attempt_wf: "wf_db s \<Longrightarrow> wf_db (bump_attempt j n s)"
  unfolding bump_attempt_def by (rule update_job_wf) (auto simp: wf_row_def)

lemma mark_completed_wf:
  assumes "wf_db s"
  shows "wf_db (snd (mark_completed j am tok now s))"
proof -
  have "wf_db (snd (update_job j (row_matches tok)
          (\<lambda>r. release_lease (r\<lparr>j_status := COMPLETED, j_completed_at := Some now,
                 j_error_code := None, j_error_message := None\<rparr>)) s))"
    using assms by (rule update_job_wf) (auto simp: wf_row_def release_lease_def)
  then show ?thesis using wf_db_jobs_cong [OF jobs_mark_completed] by simp
qed

lemmas job_store_wf = claim_job_wf renew_job_lease_wf mark_started_wf mark_completed_wf
  mark_failed_wf mark_retrying_wf bump_attempt_wf

text \<open>The four simulations, one row at a time.\<close>

lemma js_claim_sim:
  assumes "wf_db s"
  shows "map_prod id (lease_view j) (js_claim j w L tok now s)
       = spec_claim (interval_seconds L) tok now (lease_view j s)"
proof (cases "jobs s j")
  case None
  then show ?thesis by (simp add: js_claim_def claim_job_def update_job_def lease_view_def)
next
  case (Some r)
  with assms have wf: "wf_row r" by (simp add: wf_db_def)
  show ?thesis
    using Some wf
    by (cases "j_status r")
       (auto simp: js_claim_def claim_job_def update_job_def lease_view_def lease_of_def
          claimable_def wf_row_def split: option.splits)
qed

lemma renew_sim_row:
  assumes "wf_db s"
  shows "map_prod id (lease_view j) (renew_job_lease j tok L now s)
       = spec_renew (interval_seconds L) tok now (lease_view j s)"
proof (cases "jobs s j")
  case None
  then show ?thesis by (simp add: renew_job_lease_def update_job_def lease_view_def)
next
  case (Some r)
  with assms have wf: "wf_row r" by (simp add: wf_db_def)
  show ?thesis
    using Some wf
    by (cases "j_status r")
       (auto simp: renew_job_lease_def update_job_def lease_view_def lease_of_def wf_row_def
          split: option.splits)
qed

lemma js_finish_sim:
  assumes "wf_db s"
  shows "map_prod id (lease_view j) (js_finish j am tok now s) = spec_finish tok (lease_view j s)"
proof (cases "jobs s j")
  case None
  then show ?thesis by (simp add: js_finish_def mark_completed_def update_job_def lease_view_def)
next
  case (Some r)
  with assms have wf: "wf_row r" by (simp add: wf_db_def)
  show ?thesis
    using Some wf
    by (cases "j_status r")
       (auto simp: js_finish_def mark_completed_def row_simps lease_view_def lease_of_def
          wf_row_def split: option.splits)
qed

lemma js_fail_sim:
  assumes "wf_db s"
  shows "map_prod id (lease_view j) (js_fail j code msg tok now s) = spec_fail tok (lease_view j s)"
proof (cases "jobs s j")
  case None
  then show ?thesis by (simp add: js_fail_def mark_failed_def update_job_def lease_view_def)
next
  case (Some r)
  with assms have wf: "wf_row r" by (simp add: wf_db_def)
  show ?thesis
    using Some wf
    by (cases "j_status r")
       (auto simp: js_fail_def mark_failed_def row_simps lease_view_def lease_of_def
          wf_row_def split: option.splits)
qed

lemma js_claim_wf: "wf_db s \<Longrightarrow> wf_db (snd (js_claim j w L tok now s))"
  by (simp add: js_claim_def case_prod_beta claim_job_wf)

lemma js_finish_wf: "wf_db s \<Longrightarrow> wf_db (snd (js_finish j am tok now s))"
  by (simp add: js_finish_def mark_completed_wf)

lemma js_fail_wf: "wf_db s \<Longrightarrow> wf_db (snd (js_fail j code msg tok now s))"
  by (simp add: js_fail_def mark_failed_wf)

interpretation js: lease_service "lease_view j" wf_db "interval_seconds L"
  "js_claim j w L" "\<lambda>t n s. renew_job_lease j t L n s" "js_finish j am" "js_fail j code msg"
  for j w L am code msg
  by unfold_locales
    (simp_all add: js_claim_sim renew_sim_row js_finish_sim js_fail_sim
       js_claim_wf renew_job_lease_wf js_finish_wf js_fail_wf)

text \<open>A run of worker transactions on one job, written out over the module's own functions.\<close>

fun job_exec :: "uuid \<Rightarrow> pystr \<Rightarrow> int \<Rightarrow> artifact_metadata option \<Rightarrow> pystr \<Rightarrow> pystr
    \<Rightarrow> lease_op \<Rightarrow> job_db \<Rightarrow> bool \<times> job_db" where
  "job_exec j w L am code msg (Claim t n) s =
     (let (res, s') = claim_job j w L t n s in (disposition res = CLAIMED, s'))"
| "job_exec j w L am code msg (Renew t n) s = renew_job_lease j t L n s"
| "job_exec j w L am code msg (Finish t n) s = mark_completed j am (Some t) n s"
| "job_exec j w L am code msg (Fail t n) s = mark_failed j code msg (Some t) n s"

fun job_run :: "uuid \<Rightarrow> pystr \<Rightarrow> int \<Rightarrow> artifact_metadata option \<Rightarrow> pystr \<Rightarrow> pystr
    \<Rightarrow> lease_op list \<Rightarrow> job_db \<Rightarrow> job_db" where
  "job_run j w L am code msg [] s = s"
| "job_run j w L am code msg (x # xs) s =
     job_run j w L am code msg xs (snd (job_exec j w L am code msg x s))"

lemma job_exec_eq: "job_exec j w L am code msg x s = js.exec j w L am code msg x s"
  by (cases x) (simp_all add: js_claim_def js_finish_def js_fail_def)

lemma job_run_eq: "job_run j w L am code msg xs s = js.run j w L am code msg xs s"
  by (induction xs arbitrary: s) (simp_all add: job_exec_eq)

text \<open>A concrete table with one job under a lease, for the witnesses.\<close>

definition sample_row :: job_row where
  "sample_row = \<lparr>j_status = PROCESSING, j_attempt = 1, j_error_code = None, j_error_message = None,
     j_started_at = Some 100, j_completed_at = None, j_claimed_at = Some 100,
     j_claim_token = Some (u ''t1''), j_lease_expires_at = Some 200, j_worker_id = Some (u ''w1'')\<rparr>"

definition sample_db :: job_db where
  "sample_db = \<lparr>jobs = [u ''job'' \<mapsto> sample_row], reports = []\<rparr>"

lemma sample_wf: "wf_db sample_db"
  by (auto simp: wf_db_def sample_db_def sample_row_def wf_row_def split: if_splits)

lemma sample_lease: "lease_view (u ''job'') sample_db = Held (u ''t1'') 200"
  by (simp add: lease_view_def lease_of_def sample_db_def sample_row_def)

section \<open>Properties\<close>

text \<open>C1. Refinement: every token-guarded transaction of the job table behaves as the
  corresponding operation of the lease lock, both in its boolean answer and in the lease
  that results.\<close>

theorem job_table_refines_lease_lock:
  assumes "wf_db s"
  shows "map_prod id (lease_view j) (job_exec j w L am code msg x s)
       = spec_op (interval_seconds L) x (lease_view j s)"
  using js.exec_sim [OF assms] by (simp add: job_exec_eq)

theorem job_table_refines_lease_lock_witness:
  "wf_db sample_db
   \<and> map_prod id (lease_view (u ''job''))
       (job_exec (u ''job'') (u ''w2'') 60 None [] [] (Claim (u ''t2'') 150) sample_db)
     = (False, Held (u ''t1'') 200)"
  using job_table_refines_lease_lock [OF sample_wf,
      of "u ''job''" "u ''w2''" 60 None "[]" "[]" "Claim (u ''t2'') 150"]
  by (simp add: sample_wf sample_lease)

text \<open>C2. While a worker holds a live lease, no sequence of claims, renewals, completions or
  failures by holders of other tokens, made up to the expiry, changes that lease.\<close>

theorem live_lease_is_exclusive:
  assumes "wf_db s" and "lease_view j s = Held t e"
    and "\<forall>x\<in>set xs. op_token x \<noteq> t \<and> op_time x \<le> e"
  shows "lease_view j (job_run j w L am code msg xs s) = Held t e"
  using js.live_lease_exclusive [OF assms] by (simp add: job_run_eq)

theorem live_lease_is_exclusive_witness:
  "lease_view (u ''job'') (job_run (u ''job'') (u ''w2'') 60 None [] []
     [Claim (u ''t2'') 150, Finish (u ''t2'') 180, Fail (u ''t3'') 200] sample_db) = Held (u ''t1'') 200"
  by (rule live_lease_is_exclusive [OF sample_wf sample_lease]) simp

text \<open>C3. A worker whose token no longer holds the lease is fenced: whatever the other workers do,
  as long as the token is not claimed again, its renewals, completions and token-guarded failures
  are refused.\<close>

theorem stale_token_is_fenced:
  assumes "wf_db s" and "\<And>e. lease_view j s \<noteq> Held t e"
    and "\<forall>x\<in>set xs. \<not> (is_claim x \<and> op_token x = t)"
  shows "fst (renew_job_lease j t L n (job_run j w L am code msg xs s)) = False
       \<and> fst (mark_completed j am (Some t) n (job_run j w L am code msg xs s)) = False
       \<and> fst (mark_failed j code msg (Some t) n (job_run j w L am code msg xs s)) = False"
  using js.fenced_token_powerless [OF assms] by (simp add: job_run_eq js_finish_def js_fail_def)

theorem stale_token_is_fenced_witness:
  "fst (mark_completed (u ''job'') None (Some (u ''t0'')) 500
     (job_run (u ''job'') (u ''w2'') 60 None [] [] [Claim (u ''t2'') 300, Finish (u ''t2'') 400] sample_db)) = False"
  using stale_token_is_fenced [OF sample_wf, of "u ''job''" "u ''t0''"
      "[Claim (u ''t2'') 300, Finish (u ''t2'') 400]" 60 500 "u ''w2''" None "[]" "[]"]
  by (simp add: sample_lease)

text \<open>The disposition of a claim is exactly the state of the lease: a free or expired lease is
  claimed, a live one is busy, a completed job is reported as such, anything else is not claimable;
  an unsuccessful claim changes nothing.\<close>

theorem claim_job_disposition:
  assumes "wf_db s"
  shows "disposition (fst (claim_job j w L tok now s)) = (case lease_view j s of
            Free \<Rightarrow> CLAIMED
          | Held t e \<Rightarrow> if e < now then CLAIMED else LEASE_BUSY
          | Done \<Rightarrow> ALREADY_COMPLETED
          | Stuck \<Rightarrow> NOT_CLAIMABLE)
       \<and> (disposition (fst (claim_job j w L tok now s)) \<noteq> CLAIMED
            \<longrightarrow> snd (claim_job j w L tok now s) = s)"
proof (cases "jobs s j")
  case None
  then show ?thesis by (simp add: claim_job_def update_job_def lease_view_def)
next
  case (Some r)
  with assms have wf: "wf_row r" by (simp add: wf_db_def)
  show ?thesis
    using Some wf
    by (cases "j_status r")
       (auto simp: claim_job_def update_job_def lease_view_def lease_of_def
          claimable_def wf_row_def split: option.splits)
qed

theorem claim_job_disposition_witness:
  "disposition (fst (claim_job (u ''job'') (u ''w2'') 60 (u ''t2'') 150 sample_db)) = LEASE_BUSY
   \<and> disposition (fst (claim_job (u ''job'') (u ''w2'') 60 (u ''t2'') 250 sample_db)) = CLAIMED
   \<and> snd (claim_job (u ''job'') (u ''w2'') 60 (u ''t2'') 150 sample_db) = sample_db"
  using claim_job_disposition [OF sample_wf, of "u ''job''" "u ''w2''" 60 "u ''t2''" 150]
    claim_job_disposition [OF sample_wf, of "u ''job''" "u ''w2''" 60 "u ''t2''" 250]
  by (simp add: sample_lease)

end
