(* ===== verification/Failures.thy ===== *)
theory Failures
  imports Prelude
begin

text \<open>
  Exceptions of the runtime support package and their retry policy:
  \<^verbatim>\<open>bridge/noc_bridge/failures.py\<close>, with the exception classes that
  \<^verbatim>\<open>hermes.py\<close>, \<^verbatim>\<open>worker.py\<close>, \<^verbatim>\<open>storage.py\<close>, \<^verbatim>\<open>validation.py\<close> and
  \<^verbatim>\<open>skill_registry.py\<close> declare. An exception is its class and its message.
\<close>

datatype exn_class =
    HermesError | HermesUnavailable | HermesTimeout | HermesAuthenticationError
  | HermesProviderAuthenticationError | HermesProviderTemporaryError
  | HermesProviderRateLimitError | HermesInvalidResponse | HermesPolicyError
  | WorkerInputError | EvidenceVerificationError | SkillConfigurationError | JobLeaseError
  | EvidenceRetrievalError | EvidenceIntegrityError
  | OutputValidationError | SkillHashMismatch | SkillSnapshotMissing | ChecksumMismatch
  | ValueError
  | OtherException pystr bool

record py_exn =
  ex_class :: exn_class
  ex_message :: pystr

text \<open>The class attribute \<open>retryable\<close>; \<open>None\<close> where \<open>hasattr(exc, "retryable")\<close> is false.\<close>

fun retryable_attr :: "exn_class \<Rightarrow> bool option" where
  "retryable_attr HermesError = Some True"
| "retryable_attr HermesUnavailable = Some True"
| "retryable_attr HermesTimeout = Some True"
| "retryable_attr HermesAuthenticationError = Some False"
| "retryable_attr HermesProviderAuthenticationError = Some False"
| "retryable_attr HermesProviderTemporaryError = Some True"
| "retryable_attr HermesProviderRateLimitError = Some True"
| "retryable_attr HermesInvalidResponse = Some False"
| "retryable_attr HermesPolicyError = Some False"
| "retryable_attr WorkerInputError = Some False"
| "retryable_attr EvidenceVerificationError = Some False"
| "retryable_attr SkillConfigurationError = Some False"
| "retryable_attr JobLeaseError = Some True"
| "retryable_attr _ = None"

text \<open>The class attribute \<open>error_code\<close>.\<close>

fun error_code_attr :: "exn_class \<Rightarrow> string option" where
  "error_code_attr HermesError = Some ''HERMES_ERROR''"
| "error_code_attr HermesUnavailable = Some ''HERMES_UNAVAILABLE''"
| "error_code_attr HermesTimeout = Some ''HERMES_TIMEOUT''"
| "error_code_attr HermesAuthenticationError = Some ''HERMES_AUTHENTICATION_ERROR''"
| "error_code_attr HermesProviderAuthenticationError = Some ''PROVIDER_AUTHENTICATION_ERROR''"
| "error_code_attr HermesProviderTemporaryError = Some ''PROVIDER_TEMPORARY_FAILURE''"
| "error_code_attr HermesProviderRateLimitError = Some ''PROVIDER_RATE_LIMIT''"
| "error_code_attr HermesInvalidResponse = Some ''HERMES_INVALID_OUTPUT''"
| "error_code_attr HermesPolicyError = Some ''HERMES_TOOL_POLICY_VIOLATION''"
| "error_code_attr WorkerInputError = Some ''WORKER_INPUT_INVALID''"
| "error_code_attr EvidenceVerificationError = Some ''EVIDENCE_VERIFICATION_FAILED''"
| "error_code_attr SkillConfigurationError = Some ''SKILL_CONFIGURATION_FAILED''"
| "error_code_attr JobLeaseError = Some ''JOB_LEASE_LOST''"
| "error_code_attr _ = None"

text \<open>\<open>type(exc).__name__\<close>.\<close>

fun type_name :: "exn_class \<Rightarrow> pystr" where
  "type_name HermesError = u ''HermesError''"
| "type_name HermesUnavailable = u ''HermesUnavailable''"
| "type_name HermesTimeout = u ''HermesTimeout''"
| "type_name HermesAuthenticationError = u ''HermesAuthenticationError''"
| "type_name HermesProviderAuthenticationError = u ''HermesProviderAuthenticationError''"
| "type_name HermesProviderTemporaryError = u ''HermesProviderTemporaryError''"
| "type_name HermesProviderRateLimitError = u ''HermesProviderRateLimitError''"
| "type_name HermesInvalidResponse = u ''HermesInvalidResponse''"
| "type_name HermesPolicyError = u ''HermesPolicyError''"
| "type_name WorkerInputError = u ''WorkerInputError''"
| "type_name EvidenceVerificationError = u ''EvidenceVerificationError''"
| "type_name SkillConfigurationError = u ''SkillConfigurationError''"
| "type_name JobLeaseError = u ''JobLeaseError''"
| "type_name EvidenceRetrievalError = u ''EvidenceRetrievalError''"
| "type_name EvidenceIntegrityError = u ''EvidenceIntegrityError''"
| "type_name OutputValidationError = u ''OutputValidationError''"
| "type_name SkillHashMismatch = u ''SkillHashMismatch''"
| "type_name SkillSnapshotMissing = u ''SkillSnapshotMissing''"
| "type_name ChecksumMismatch = u ''ChecksumMismatch''"
| "type_name ValueError = u ''ValueError''"
| "type_name (OtherException n b) = n"

text \<open>\<open>isinstance(exc, ValueError)\<close>: \<open>OutputValidationError\<close> is a subclass, and any other
  exception class (of a library) says with its flag whether it is one.\<close>

fun is_value_error :: "exn_class \<Rightarrow> bool" where
  "is_value_error ValueError = True"
| "is_value_error OutputValidationError = True"
| "is_value_error (OtherException n b) = b"
| "is_value_error _ = False"

text \<open>
  \<open>str.lower\<close> as far as an ASCII substring search can tell: the only non-ASCII characters whose
  lower case contains ASCII letters are U+212A (Kelvin sign) and U+0130 (dotted capital I).
\<close>

definition py_lower :: "pystr \<Rightarrow> pystr" where
  "py_lower s = concat (map (\<lambda>c. if 65 \<le> c \<and> c \<le> 90 then [c + 32]
      else if c = 8490 then [107] else if c = 304 then [105, 775] else [c]) s)"

definition TERMINAL_MESSAGE_MARKERS :: "pystr list" where
  "TERMINAL_MESSAGE_MARKERS = map u [''unauthorized'', ''unsupported skill'', ''invalid schema'',
     ''invalid evidence'', ''prompt too large'', ''security violation'',
     ''missing required immutable snapshot'']"

definition RETRYABLE_MESSAGE_MARKERS :: "pystr list" where
  "RETRYABLE_MESSAGE_MARKERS = map u [''structured_output_retry_exhausted'']"

datatype failure_disposition = RETRYABLE | TERMINAL

definition classify_failure :: "py_exn \<Rightarrow> failure_disposition" where
  "classify_failure e = (case retryable_attr (ex_class e) of
      Some b \<Rightarrow> if b then RETRYABLE else TERMINAL
    | None \<Rightarrow>
        if is_value_error (ex_class e) \<and> py_in (u ''unsupported'') (py_lower (ex_message e)) then TERMINAL
        else if ex_class e = EvidenceIntegrityError then TERMINAL
        else if ex_class e = EvidenceRetrievalError then RETRYABLE
        else if ex_class e = OutputValidationError then TERMINAL
        else if ex_class e = SkillHashMismatch then TERMINAL
        else if ex_class e = SkillSnapshotMissing then TERMINAL
        else if ex_class e = ChecksumMismatch then RETRYABLE
        else if \<exists>m\<in>set TERMINAL_MESSAGE_MARKERS. py_in m (py_lower (ex_message e)) then TERMINAL
        else if \<exists>m\<in>set RETRYABLE_MESSAGE_MARKERS. py_in m (py_lower (ex_message e)) then RETRYABLE
        else RETRYABLE)"

text \<open>\<open>_error_detail\<close> of the worker: only the code and the class name leave the process.\<close>

definition error_detail :: "py_exn \<Rightarrow> pystr \<times> pystr" where
  "error_detail e = (case error_code_attr (ex_class e) of None \<Rightarrow> u ''WORKER_FAILURE'' | Some c \<Rightarrow> u c,
                     type_name (ex_class e))"

section \<open>Lemmas\<close>

text \<open>An explicit retry policy on the class wins over every message heuristic.\<close>

lemma classify_failure_attr:
  "retryable_attr (ex_class e) = Some b \<Longrightarrow> classify_failure e = (if b then RETRYABLE else TERMINAL)"
  by (simp add: classify_failure_def)

lemma classify_failure_snapshot_missing:
  "ex_class e \<in> {SkillHashMismatch, SkillSnapshotMissing, OutputValidationError, EvidenceIntegrityError}
   \<Longrightarrow> classify_failure e = TERMINAL"
  by (auto simp: classify_failure_def)

lemma classify_failure_lease: "ex_class e = JobLeaseError \<Longrightarrow> classify_failure e = RETRYABLE"
  by (simp add: classify_failure_def)

end
