(* ===== verification/Json.thy ===== *)
theory Json
  imports Complex_Main Prelude
begin

text \<open>
  JSON documents as Python sees them after \<open>json.loads\<close>: an object is an insertion-ordered
  dictionary, a number is an \<open>int\<close> or a \<open>float\<close> (an exact rational here), and \<open>True\<close> is an
  instance of \<open>int\<close>. The accessors are the dictionary and truth-value operations the sources use.
\<close>

datatype json =
    JNull
  | JBool bool
  | JInt int
  | JFloat rat
  | JStr pystr
  | JArr "json list"
  | JObj "(pystr, json) pydict"

section \<open>Accessors\<close>

text \<open>\<open>d.get(k)\<close> on a dictionary; a value that is not a dictionary has no keys.\<close>

fun jlookup :: "json \<Rightarrow> pystr \<Rightarrow> json option" where
  "jlookup (JObj kvs) k = map_of kvs k"
| "jlookup _ k = None"

definition jget :: "json \<Rightarrow> string \<Rightarrow> json" where
  "jget d k = (case jlookup d (u k) of None \<Rightarrow> JNull | Some v \<Rightarrow> v)"

definition jhas :: "json \<Rightarrow> string \<Rightarrow> bool" where
  "jhas d k \<longleftrightarrow> jlookup d (u k) \<noteq> None"

fun jset :: "json \<Rightarrow> string \<Rightarrow> json \<Rightarrow> json" where
  "jset (JObj kvs) k v = JObj (AList.update (u k) v kvs)"
| "jset d k v = d"

fun jkeys :: "json \<Rightarrow> pystr list" where
  "jkeys (JObj kvs) = map fst kvs"
| "jkeys _ = []"

text \<open>Python's truth value of a JSON value.\<close>

fun truthy :: "json \<Rightarrow> bool" where
  "truthy JNull = False"
| "truthy (JBool b) = b"
| "truthy (JInt i) = (i \<noteq> 0)"
| "truthy (JFloat r) = (r \<noteq> 0)"
| "truthy (JStr s) = (s \<noteq> [])"
| "truthy (JArr xs) = (xs \<noteq> [])"
| "truthy (JObj kvs) = (kvs \<noteq> [])"

text \<open>\<open>a or b\<close>.\<close>

definition por :: "json \<Rightarrow> json \<Rightarrow> json" where
  "por a b = (if truthy a then a else b)"

fun is_str :: "json \<Rightarrow> bool" where
  "is_str (JStr s) = True"
| "is_str _ = False"

fun is_dict :: "json \<Rightarrow> bool" where
  "is_dict (JObj kvs) = True"
| "is_dict _ = False"

fun is_list :: "json \<Rightarrow> bool" where
  "is_list (JArr xs) = True"
| "is_list _ = False"

text \<open>The elements of a list value; any other value has none.\<close>

fun jelems :: "json \<Rightarrow> json list" where
  "jelems (JArr xs) = xs"
| "jelems _ = []"

fun jstr :: "json \<Rightarrow> pystr" where
  "jstr (JStr s) = s"
| "jstr _ = []"

text \<open>\<open>isinstance(v, int) and not isinstance(v, bool)\<close>.\<close>

fun as_int :: "json \<Rightarrow> int option" where
  "as_int (JInt i) = Some i"
| "as_int _ = None"

text \<open>A string or null column of a JSON document.\<close>

definition jopt :: "pystr option \<Rightarrow> json" where
  "jopt v = (case v of None \<Rightarrow> JNull | Some s \<Rightarrow> JStr s)"

section \<open>Conversion to text\<close>

text \<open>The hash of a UTF-8 text (\<open>sha256(s.encode("utf-8")).hexdigest()\<close>) and \<open>str()\<close> of floats and
  containers are functions of the environment.\<close>

record py_env =
  sha256_hex :: "pystr \<Rightarrow> pystr"
  py_repr :: "json \<Rightarrow> pystr"

text \<open>\<open>str(v)\<close>.\<close>

definition py_str :: "py_env \<Rightarrow> json \<Rightarrow> pystr" where
  "py_str env v = (case v of JStr s \<Rightarrow> s | JInt i \<Rightarrow> int_str i | JNull \<Rightarrow> u ''None''
     | JBool b \<Rightarrow> (if b then u ''True'' else u ''False'') | _ \<Rightarrow> py_repr env v)"

section \<open>Lemmas\<close>

lemma jlookup_jset:
  "is_dict d \<Longrightarrow> jlookup (jset d k v) k' = (if k' = u k then Some v else jlookup d k')"
  by (cases d) auto

lemma jget_jset_same [simp]: "is_dict d \<Longrightarrow> jget (jset d k v) k = v"
  by (simp add: jget_def jlookup_jset)

lemma jget_jset_other [simp]: "is_dict d \<Longrightarrow> k' \<noteq> k \<Longrightarrow> jget (jset d k v) k' = jget d k'"
  by (simp add: jget_def jlookup_jset)

lemma jhas_jset [simp]: "is_dict d \<Longrightarrow> jhas (jset d k v) k' \<longleftrightarrow> k' = k \<or> jhas d k'"
  by (auto simp: jhas_def jlookup_jset)

lemma is_dict_jset [simp]: "is_dict (jset d k v) = is_dict d"
  by (cases d) auto

lemma jhas_iff_key: "jhas d k \<longleftrightarrow> u k \<in> set (jkeys d)"
  by (cases d) (auto simp: jhas_def weak_map_of_SomeI map_of_eq_None_iff dest: map_of_SomeD)

lemma jget_not_null_has: "jget d k \<noteq> JNull \<Longrightarrow> jhas d k"
  by (auto simp: jget_def jhas_def split: option.splits)

lemma as_int_Some_iff [simp]: "as_int v = Some i \<longleftrightarrow> v = JInt i"
  by (cases v) auto

lemma is_dict_iff: "is_dict d \<longleftrightarrow> (\<exists>kvs. d = JObj kvs)"
  by (cases d) auto

lemma is_list_iff: "is_list d \<longleftrightarrow> (\<exists>xs. d = JArr xs)"
  by (cases d) auto

lemma is_str_iff: "is_str d \<longleftrightarrow> (\<exists>s. d = JStr s)"
  by (cases d) auto

section \<open>Python operations on dynamic values\<close>

datatype doc_error = Key_Error | Type_Error | Attribute_Error | Value_Error

text \<open>\<open>format(x, ",")\<close> of a float and \<open>int(s)\<close> of a string are functions of the environment.\<close>

record doc_env =
  de_py :: py_env
  de_comma :: "rat \<Rightarrow> pystr"
  de_int :: "pystr \<Rightarrow> int option"

definition str_of :: "doc_env \<Rightarrow> json \<Rightarrow> json" where
  "str_of env v = JStr (py_str (de_py env) v)"

text \<open>\<open>str(v) if v is not None else None\<close>.\<close>

definition opt_str :: "doc_env \<Rightarrow> json \<Rightarrow> json" where
  "opt_str env v = (if v = JNull then JNull else str_of env v)"

definition py_int :: "doc_env \<Rightarrow> json \<Rightarrow> doc_error + int" where
  "py_int env v = (case v of JInt i \<Rightarrow> Inr i | JBool b \<Rightarrow> Inr (if b then 1 else 0)
     | JFloat r \<Rightarrow> Inr (if 0 \<le> r then \<lfloor>r\<rfloor> else \<lceil>r\<rceil>)
     | JStr s \<Rightarrow> (case de_int env s of Some i \<Rightarrow> Inr i | None \<Rightarrow> Inl Value_Error)
     | _ \<Rightarrow> Inl Type_Error)"

text \<open>\<open>d[k]\<close>, \<open>d.get(k, default)\<close> and iteration.\<close>

definition jitem :: "json \<Rightarrow> string \<Rightarrow> doc_error + json" where
  "jitem d k = (if \<not> is_dict d then Inl Type_Error
     else (case jlookup d (u k) of None \<Rightarrow> Inl Key_Error | Some v \<Rightarrow> Inr v))"

definition jget_or :: "json \<Rightarrow> string \<Rightarrow> json \<Rightarrow> json" where
  "jget_or d k dflt = (case jlookup d (u k) of None \<Rightarrow> dflt | Some v \<Rightarrow> v)"

fun py_iter :: "json \<Rightarrow> doc_error + json list" where
  "py_iter (JArr xs) = Inr xs"
| "py_iter (JStr s) = Inr (map (\<lambda>c. JStr [c]) s)"
| "py_iter (JObj kvs) = Inr (map (\<lambda>kv. JStr (fst kv)) kvs)"
| "py_iter _ = Inl Type_Error"

definition each :: "json \<Rightarrow> (json \<Rightarrow> doc_error + 'a) \<Rightarrow> doc_error + 'a list" where
  "each v f = sbind (py_iter v) (smap f)"

text \<open>\<open>k in v\<close> for a string \<open>k\<close>: a key of a dictionary, an element of a list, a substring. Membership
  in a set hashes its operand, so it raises for lists and dictionaries.\<close>

fun py_contains :: "json \<Rightarrow> string \<Rightarrow> doc_error + bool" where
  "py_contains (JObj kvs) k = Inr (jhas (JObj kvs) k)"
| "py_contains (JArr xs) k = Inr (JStr (u k) \<in> set xs)"
| "py_contains (JStr s) k = Inr (py_in (u k) s)"
| "py_contains _ k = Inl Type_Error"

definition in_set :: "json \<Rightarrow> json list \<Rightarrow> doc_error + bool" where
  "in_set v xs = (if is_dict v \<or> is_list v then Inl Type_Error else Inr (v \<in> set xs))"

end
