(* ===== verification/Job_Protocol.thy ===== *)
theory Job_Protocol
  imports Json
begin

text \<open>
  The RabbitMQ topology and the job message: \<^verbatim>\<open>apps/api/app/core/queue.py\<close> (producer),
  \<^verbatim>\<open>bridge/noc_bridge/queue_topology.py\<close> (consumer) and the shared contract files under
  \<^verbatim>\<open>packages/contracts/\<close>. What the code does to the broker is recorded as the list of
  channel operations it issues. RabbitMQ itself and the \<^verbatim>\<open>jsonschema\<close> validator are not part
  of the repository: message routing and schema validity are parameters, with the documented
  behaviour the code relies on stated as \<open>amqp_direct\<close> and \<open>schema_contract\<close>.
\<close>

section \<open>Shared contract\<close>

definition PROTOCOL_VERSION :: int where "PROTOCOL_VERSION = 1"

definition JOB_TYPES :: "pystr list" where
  "JOB_TYPES = [u ''log_triage'', u ''daily_report'']"

definition JOBS_EXCHANGE :: pystr where "JOBS_EXCHANGE = u ''noc.jobs''"
definition EVENTS_EXCHANGE :: pystr where "EVENTS_EXCHANGE = u ''noc.events''"
definition DLX_EXCHANGE :: pystr where "DLX_EXCHANGE = u ''noc.dlx''"
definition RETRY_TTL_MS :: int where "RETRY_TTL_MS = 30000"

record queue_names_t =
  qn_main :: pystr
  qn_retry :: pystr
  qn_dlq :: pystr
  qn_routing_key :: pystr

text \<open>\<open>job_type.replace("_", "-")\<close>.\<close>

definition slug :: "pystr \<Rightarrow> pystr" where
  "slug s = map (\<lambda>c. if c = 95 then 45 else c) s"

definition queue_names :: "pystr \<Rightarrow> queue_names_t" where
  "queue_names jt = \<lparr>qn_main = u ''noc.jobs.'' @ slug jt,
     qn_retry = u ''noc.jobs.'' @ slug jt @ u ''.retry'',
     qn_dlq = u ''noc.jobs.'' @ slug jt @ u ''.dlq'',
     qn_routing_key = u ''job.'' @ jt\<rparr>"

section \<open>Topology\<close>

datatype exchange_kind = Direct | Topic

record queue_args =
  x_dead_letter_exchange :: "pystr option"
  x_dead_letter_routing_key :: "pystr option"
  x_message_ttl :: "int option"

record topology =
  t_exchanges :: "(pystr \<times> exchange_kind) list"
  t_queues :: "(pystr \<times> queue_args) list"
  t_bindings :: "(pystr \<times> pystr \<times> pystr) list"

definition empty_topology :: topology where
  "empty_topology = \<lparr>t_exchanges = [], t_queues = [], t_bindings = []\<rparr>"

text \<open>Declarations are idempotent: declaring again what is there changes nothing.\<close>

definition declare_once :: "'a \<Rightarrow> 'a list \<Rightarrow> 'a list" where
  "declare_once x xs = (if x \<in> set xs then xs else xs @ [x])"

definition exchange_declare :: "pystr \<Rightarrow> exchange_kind \<Rightarrow> topology \<Rightarrow> topology" where
  "exchange_declare x k T = T\<lparr>t_exchanges := declare_once (x, k) (t_exchanges T)\<rparr>"

definition queue_declare :: "pystr \<Rightarrow> queue_args \<Rightarrow> topology \<Rightarrow> topology" where
  "queue_declare q a T = T\<lparr>t_queues := declare_once (q, a) (t_queues T)\<rparr>"

definition queue_bind :: "pystr \<Rightarrow> pystr \<Rightarrow> pystr \<Rightarrow> topology \<Rightarrow> topology" where
  "queue_bind q x k T = T\<lparr>t_bindings := declare_once (q, x, k) (t_bindings T)\<rparr>"

definition no_args :: queue_args where
  "no_args = \<lparr>x_dead_letter_exchange = None, x_dead_letter_routing_key = None, x_message_ttl = None\<rparr>"

definition main_args :: "pystr \<Rightarrow> queue_args" where
  "main_args rk = \<lparr>x_dead_letter_exchange = Some DLX_EXCHANGE,
     x_dead_letter_routing_key = Some rk, x_message_ttl = None\<rparr>"

definition retry_args :: "pystr \<Rightarrow> queue_args" where
  "retry_args rk = \<lparr>x_dead_letter_exchange = Some JOBS_EXCHANGE,
     x_dead_letter_routing_key = Some rk, x_message_ttl = Some RETRY_TTL_MS\<rparr>"

text \<open>The body of the loop over \<open>JOB_TYPES\<close>.\<close>

definition declare_job_queues :: "pystr \<Rightarrow> topology \<Rightarrow> topology" where
  "declare_job_queues jt T =
    (let names = queue_names jt; rk = qn_routing_key names;
         T1 = queue_declare (qn_main names) (main_args rk) T;
         T2 = queue_bind (qn_main names) JOBS_EXCHANGE rk T1;
         T3 = queue_declare (qn_retry names) (retry_args rk) T2;
         T4 = queue_bind (qn_retry names) DLX_EXCHANGE rk T3;
         T5 = queue_declare (qn_dlq names) no_args T4
     in queue_bind (qn_dlq names) DLX_EXCHANGE (rk @ u ''.dlq'') T5)"

definition declare_topology :: "topology \<Rightarrow> topology" where
  "declare_topology T =
    (let T1 = exchange_declare JOBS_EXCHANGE Direct T;
         T2 = exchange_declare EVENTS_EXCHANGE Topic T1;
         T3 = exchange_declare DLX_EXCHANGE Direct T2;
         T4 = fold declare_job_queues JOB_TYPES T3;
         T5 = queue_declare (u ''noc.events.log'') no_args T4
     in queue_bind (u ''noc.events.log'') EVENTS_EXCHANGE (u ''event.job.#'') T5)"

text \<open>The routing of a direct exchange, as AMQP documents it.\<close>

definition amqp_direct :: "(topology \<Rightarrow> pystr \<Rightarrow> pystr \<Rightarrow> pystr set) \<Rightarrow> bool" where
  "amqp_direct routed \<longleftrightarrow> (\<forall>T x k. (x, Direct) \<in> set (t_exchanges T)
      \<longrightarrow> routed T x k = {q. (q, x, k) \<in> set (t_bindings T)})"

section \<open>Job messages\<close>

text \<open>\<open>required\<close> and \<open>properties\<close> of \<^verbatim>\<open>job_message.schema.json\<close>.\<close>

definition schema_required :: "string list" where
  "schema_required = [''protocol_version'', ''job_id'', ''job_type'', ''incident_id'', ''object_refs'',
     ''model'', ''effort'', ''skill_name'', ''skill_version'', ''skill_hash'', ''correlation_id'', ''attempt'']"

definition schema_properties :: "string list" where
  "schema_properties = [''protocol_version'', ''job_id'', ''job_type'', ''incident_id'', ''object_refs'',
     ''model'', ''effort'', ''skill_name'', ''skill_version'', ''skill_hash'', ''skill_execution_hash'',
     ''skill_snapshot_id'', ''expected_output_type'', ''ai_policy'', ''correlation_id'', ''attempt'']"

text \<open>
  What draft-07 validation against that schema guarantees of an accepted document: it is an
  object with every required key and no other key than the listed ones, its identity fields are
  strings, the job id has the format \<open>uuid\<close>, which the format checker decides with \<open>uuid.UUID\<close>,
  and its attempt is an integer of at least one (a float with an integral value is an integer in
  draft-07).
\<close>

definition attempt_number :: "json \<Rightarrow> int option" where
  "attempt_number v = (case v of JInt i \<Rightarrow> Some i
     | JFloat r \<Rightarrow> if r = of_int \<lfloor>r\<rfloor> then Some \<lfloor>r\<rfloor> else None | _ \<Rightarrow> None)"

definition schema_contract :: "(json \<Rightarrow> bool) \<Rightarrow> bool" where
  "schema_contract valid \<longleftrightarrow> (\<forall>m. valid m \<longrightarrow>
      is_dict m \<and> (\<forall>k\<in>set schema_required. jhas m k) \<and> set (jkeys m) \<subseteq> u ` set schema_properties
    \<and> is_str (jget m ''job_id'') \<and> py_uuid (jstr (jget m ''job_id'')) \<noteq> None \<and> is_str (jget m ''job_type'')
    \<and> (\<exists>i\<ge>1. attempt_number (jget m ''attempt'') = Some i))"

record job_request =
  jr_job_id :: uuid
  jr_job_type :: pystr
  jr_incident_id :: "pystr option"
  jr_object_refs :: "json list"
  jr_model :: "pystr option"
  jr_effort :: "pystr option"
  jr_skill_name :: pystr
  jr_skill_version :: pystr
  jr_correlation_id :: pystr
  jr_attempt :: int
  jr_skill_hash :: "pystr option"
  jr_skill_execution_hash :: "pystr option"
  jr_skill_snapshot_id :: "pystr option"
  jr_protocol_version :: int
  jr_expected_output_type :: "pystr option"
  jr_ai_policy :: "json option"

definition job_message_body :: "job_request \<Rightarrow> json" where
  "job_message_body r = JObj [
     (u ''protocol_version'', JInt (jr_protocol_version r)),
     (u ''job_id'', JStr (jr_job_id r)),
     (u ''job_type'', JStr (jr_job_type r)),
     (u ''incident_id'', jopt (jr_incident_id r)),
     (u ''object_refs'', JArr (jr_object_refs r)),
     (u ''model'', jopt (jr_model r)),
     (u ''effort'', jopt (jr_effort r)),
     (u ''skill_name'', JStr (jr_skill_name r)),
     (u ''skill_version'', JStr (jr_skill_version r)),
     (u ''skill_hash'', jopt (jr_skill_hash r)),
     (u ''skill_execution_hash'', jopt (jr_skill_execution_hash r)),
     (u ''skill_snapshot_id'', jopt (truthy_opt (jr_skill_snapshot_id r))),
     (u ''expected_output_type'', JStr (case truthy_opt (jr_expected_output_type r) of
          Some t \<Rightarrow> t | None \<Rightarrow> jr_job_type r @ u ''.result'')),
     (u ''ai_policy'', (case jr_ai_policy r of Some p \<Rightarrow> p
        | None \<Rightarrow> JObj (filter (\<lambda>(k, v). v \<noteq> JNull)
             [(u ''model'', jopt (jr_model r)), (u ''effort'', jopt (jr_effort r))]))),
     (u ''correlation_id'', JStr (jr_correlation_id r)),
     (u ''attempt'', JInt (jr_attempt r))]"

datatype message_error = Unknown_Job_Type pystr | Schema_Violation json

definition build_job_message :: "(json \<Rightarrow> bool) \<Rightarrow> job_request \<Rightarrow> message_error + json" where
  "build_job_message valid r =
    (if jr_job_type r \<notin> set JOB_TYPES then Inl (Unknown_Job_Type (jr_job_type r))
     else let m = job_message_body r in if valid m then Inr m else Inl (Schema_Violation m))"

section \<open>Channel operations\<close>

record publication =
  pub_exchange :: pystr
  pub_routing_key :: pystr
  pub_body :: json
  pub_persistent :: bool
  pub_mandatory :: bool
  pub_message_id :: "pystr option"

datatype chan_op = Publish publication | Ack nat | Nack nat bool

text \<open>\<open>publish_message\<close>: confirmed, persistent, mandatory.\<close>

definition publish_message :: "pystr \<Rightarrow> pystr \<Rightarrow> json \<Rightarrow> pystr option \<Rightarrow> chan_op" where
  "publish_message x rk payload mid = Publish \<lparr>pub_exchange = x, pub_routing_key = rk, pub_body = payload,
     pub_persistent = True, pub_mandatory = True, pub_message_id = mid\<rparr>"

definition publish_job :: "(json \<Rightarrow> bool) \<Rightarrow> job_request \<Rightarrow> message_error + chan_op" where
  "publish_job valid r = (case build_job_message valid r of
      Inl e \<Rightarrow> Inl e
    | Inr body \<Rightarrow> Inr (publish_message JOBS_EXCHANGE (qn_routing_key (queue_names (jr_job_type r))) body
        (Some (jr_job_id r))))"

text \<open>\<open>emitted_at\<close> is the clock's ISO text; \<open>detail or {}\<close>.\<close>

definition publish_status_event :: "pystr \<Rightarrow> uuid \<Rightarrow> pystr \<Rightarrow> json option \<Rightarrow> chan_op" where
  "publish_status_event emitted_at j event detail = Publish \<lparr>pub_exchange = EVENTS_EXCHANGE,
     pub_routing_key = u ''event.job.'' @ event,
     pub_body = JObj [(u ''job_id'', JStr j), (u ''event'', JStr event),
       (u ''detail'', por (case detail of Some d \<Rightarrow> d | None \<Rightarrow> JNull) (JObj [])),
       (u ''emitted_at'', JStr emitted_at)],
     pub_persistent = True, pub_mandatory = False, pub_message_id = None\<rparr>"

definition send_to_dlq :: "pystr \<Rightarrow> json \<Rightarrow> chan_op" where
  "send_to_dlq jt body = Publish \<lparr>pub_exchange = DLX_EXCHANGE,
     pub_routing_key = qn_routing_key (queue_names jt) @ u ''.dlq'', pub_body = body,
     pub_persistent = True, pub_mandatory = False, pub_message_id = None\<rparr>"

text \<open>\<open>base64.b64encode\<close> on bytes.\<close>

definition b64_char :: "nat \<Rightarrow> nat" where
  "b64_char v = (if v < 26 then 65 + v else if v < 52 then 71 + v else if v < 62 then v - 4
     else if v = 62 then 43 else 47)"

fun b64encode :: "nat list \<Rightarrow> pystr" where
  "b64encode [] = []"
| "b64encode [a] = [b64_char (a div 4), b64_char (a mod 4 * 16), 61, 61]"
| "b64encode [a, b] = [b64_char (a div 4), b64_char (a mod 4 * 16 + b div 16),
     b64_char (b mod 16 * 4), 61]"
| "b64encode (a # b # c # r) = b64_char (a div 4) # b64_char (a mod 4 * 16 + b div 16)
     # b64_char (b mod 16 * 4 + c div 64) # b64_char (c mod 64) # b64encode r"

definition send_raw_to_dlq :: "pystr \<Rightarrow> nat list \<Rightarrow> pystr \<Rightarrow> chan_op" where
  "send_raw_to_dlq jt body reason = send_to_dlq jt (JObj [
     (u ''quarantine'', JStr (u ''invalid_job_message'')),
     (u ''reason'', JStr reason),
     (u ''body_size'', JInt (int (length body))),
     (u ''body_truncated'', JBool (length body > 4096)),
     (u ''body_base64'', JStr (b64encode (take 4096 body)))])"

text \<open>
  \<open>requeue_one_dlq_message\<close>: \<open>got\<close> is what \<open>basic_get\<close> returned (the delivery tag, the message id
  and the decoded body), \<open>None\<close> for an empty queue. A body that is not an object makes the
  assignment of the attempt fail; dead-lettered bodies are always objects.
\<close>

definition requeue_one_dlq_message ::
  "pystr \<Rightarrow> (nat \<times> pystr option \<times> json) option \<Rightarrow> json option \<times> chan_op list" where
  "requeue_one_dlq_message jt got = (case got of
      None \<Rightarrow> (None, [])
    | Some (tag, mid, body) \<Rightarrow>
        (let payload = jset body ''attempt'' (JInt 1)
         in (Some payload,
             [publish_message JOBS_EXCHANGE (qn_routing_key (queue_names jt)) payload mid, Ack tag])))"

text \<open>
  The consumer's own copy of the topology, \<^verbatim>\<open>queue_topology.py\<close>: the same contract file, declared
  by a second implementation.
\<close>

definition bridge_queue_names :: "pystr \<Rightarrow> queue_names_t" where
  "bridge_queue_names jt = (let s = map (\<lambda>c. if c = 95 then 45 else c) jt in
     \<lparr>qn_main = u ''noc.jobs.'' @ s, qn_retry = u ''noc.jobs.'' @ s @ u ''.retry'',
      qn_dlq = u ''noc.jobs.'' @ s @ u ''.dlq'', qn_routing_key = u ''job.'' @ jt\<rparr>)"

fun bridge_declare_jobs :: "pystr list \<Rightarrow> topology \<Rightarrow> topology" where
  "bridge_declare_jobs [] T = T"
| "bridge_declare_jobs (jt # jts) T =
    (let n = bridge_queue_names jt;
         T1 = queue_declare (qn_main n) \<lparr>x_dead_letter_exchange = Some DLX_EXCHANGE,
                x_dead_letter_routing_key = Some (qn_routing_key n), x_message_ttl = None\<rparr> T;
         T2 = queue_bind (qn_main n) JOBS_EXCHANGE (qn_routing_key n) T1;
         T3 = queue_declare (qn_retry n) \<lparr>x_dead_letter_exchange = Some JOBS_EXCHANGE,
                x_dead_letter_routing_key = Some (qn_routing_key n),
                x_message_ttl = Some RETRY_TTL_MS\<rparr> T2;
         T4 = queue_bind (qn_retry n) DLX_EXCHANGE (qn_routing_key n) T3;
         T5 = queue_declare (qn_dlq n) no_args T4;
         T6 = queue_bind (qn_dlq n) DLX_EXCHANGE (qn_routing_key n @ u ''.dlq'') T5
     in bridge_declare_jobs jts T6)"

definition bridge_declare_topology :: "topology \<Rightarrow> topology" where
  "bridge_declare_topology T =
    (let T3 = exchange_declare DLX_EXCHANGE Direct
                (exchange_declare EVENTS_EXCHANGE Topic (exchange_declare JOBS_EXCHANGE Direct T));
         T4 = bridge_declare_jobs JOB_TYPES T3
     in queue_bind (u ''noc.events.log'') EVENTS_EXCHANGE (u ''event.job.#'')
          (queue_declare (u ''noc.events.log'') no_args T4))"

section \<open>Lemmas\<close>

text \<open>The decoder of RFC 4648, to say that a quarantined body can be read back.\<close>

definition b64_val :: "nat \<Rightarrow> nat" where
  "b64_val c = (if 65 \<le> c \<and> c \<le> 90 then c - 65 else if 97 \<le> c \<and> c \<le> 122 then c - 71
     else if 48 \<le> c \<and> c \<le> 57 then c + 4 else if c = 43 then 62 else 63)"

fun b64decode :: "pystr \<Rightarrow> nat list" where
  "b64decode (a # b # c # d # r) =
    (if c = 61 then [b64_val a * 4 + b64_val b div 16]
     else if d = 61 then [b64_val a * 4 + b64_val b div 16, b64_val b mod 16 * 16 + b64_val c div 4]
     else (b64_val a * 4 + b64_val b div 16) # (b64_val b mod 16 * 16 + b64_val c div 4)
        # (b64_val c mod 4 * 64 + b64_val d) # b64decode r)"
| "b64decode _ = []"

lemma b64_val_char [simp]: "v < 64 \<Longrightarrow> b64_val (b64_char v) = v"
  by (auto simp: b64_val_def b64_char_def)

lemma b64_char_not_pad [simp]: "v < 64 \<Longrightarrow> b64_char v \<noteq> 61"
  by (auto simp: b64_char_def)

lemma b64_index_bounds:
  assumes "a < (256::nat)" "b < 256"
  shows "a div 4 < 64" "a mod 4 * 16 < 64" "a mod 4 * 16 + b div 16 < 64" "a mod 16 * 4 < 64"
    "a mod 16 * 4 + b div 64 < 64" "a mod 64 < 64"
proof -
  have "a mod 4 < 4" "a mod 16 < 16" "b div 16 < 16" "b div 64 < 4" using assms by auto
  then show "a mod 4 * 16 < 64" "a mod 4 * 16 + b div 16 < 64" "a mod 16 * 4 < 64"
    "a mod 16 * 4 + b div 64 < 64" by linarith+
  show "a div 4 < 64" "a mod 64 < 64" using assms by auto
qed

lemma b64decode_encode: "\<forall>x\<in>set bs. x < 256 \<Longrightarrow> b64decode (b64encode bs) = bs"
proof (induction bs rule: b64encode.induct)
  case (4 a b c r)
  then have "a < 256" "b < 256" "c < 256" by auto
  note i = b64_index_bounds [OF this(1) this(2)] b64_index_bounds [OF this(2) this(3)]
    b64_index_bounds [OF this(3) this(3)]
  have "(a mod 4 * 16 + b div 16) div 16 = a mod 4" "(a mod 4 * 16 + b div 16) mod 16 = b div 16"
    "(b mod 16 * 4 + c div 64) div 4 = b mod 16" "(b mod 16 * 4 + c div 64) mod 4 = c div 64"
    using \<open>b < 256\<close> \<open>c < 256\<close> by (auto simp: div_mult_self3 mod_mult_self4)
  with 4 i show ?case by simp
next
  case (3 a b)
  then have "a < 256" "b < 256" by auto
  note i = b64_index_bounds [OF this] b64_index_bounds [OF this(2) this(2)]
  have "(a mod 4 * 16 + b div 16) div 16 = a mod 4" "(a mod 4 * 16 + b div 16) mod 16 = b div 16"
    using \<open>b < 256\<close> by (auto simp: div_mult_self3 mod_mult_self4)
  with i show ?case by simp
next
  case (2 a)
  then have "a < 256" by auto
  with b64_index_bounds [OF this this] show ?case by simp
qed simp

lemma set_declare_once [simp]: "set (declare_once x xs) = insert x (set xs)"
  by (auto simp: declare_once_def)

lemma declare_once_absorb [simp]: "x \<in> set xs \<Longrightarrow> declare_once x xs = xs"
  by (simp add: declare_once_def)

lemma set_fold_declare_once: "set (fold declare_once xs ys) = set xs \<union> set ys"
  by (induction xs arbitrary: ys) auto

lemma fold_declare_once_absorb: "set xs \<subseteq> set ys \<Longrightarrow> fold declare_once xs ys = ys"
  by (induction xs) auto

lemma fold_declare_once_fresh: "distinct (ys @ xs) \<Longrightarrow> fold declare_once xs ys = ys @ xs"
  by (induction xs arbitrary: ys) (auto simp: declare_once_def)

lemmas topology_ops = exchange_declare_def queue_declare_def queue_bind_def

text \<open>The three components of the declared topology, as one list of declarations each.\<close>

definition job_queue_decls :: "pystr \<Rightarrow> (pystr \<times> queue_args) list" where
  "job_queue_decls jt = (let n = queue_names jt; rk = qn_routing_key n in
     [(qn_main n, main_args rk), (qn_retry n, retry_args rk), (qn_dlq n, no_args)])"

definition job_binding_decls :: "pystr \<Rightarrow> (pystr \<times> pystr \<times> pystr) list" where
  "job_binding_decls jt = (let n = queue_names jt; rk = qn_routing_key n in
     [(qn_main n, JOBS_EXCHANGE, rk), (qn_retry n, DLX_EXCHANGE, rk), (qn_dlq n, DLX_EXCHANGE, rk @ u ''.dlq'')])"

definition exchange_decls :: "(pystr \<times> exchange_kind) list" where
  "exchange_decls = [(JOBS_EXCHANGE, Direct), (EVENTS_EXCHANGE, Topic), (DLX_EXCHANGE, Direct)]"

definition queue_decls :: "(pystr \<times> queue_args) list" where
  "queue_decls = concat (map job_queue_decls JOB_TYPES) @ [(u ''noc.events.log'', no_args)]"

definition binding_decls :: "(pystr \<times> pystr \<times> pystr) list" where
  "binding_decls = concat (map job_binding_decls JOB_TYPES)
     @ [(u ''noc.events.log'', EVENTS_EXCHANGE, u ''event.job.#'')]"

lemma declare_job_queues_eq:
  "declare_job_queues jt T = T\<lparr>t_queues := fold declare_once (job_queue_decls jt) (t_queues T),
     t_bindings := fold declare_once (job_binding_decls jt) (t_bindings T)\<rparr>"
  by (simp add: declare_job_queues_def job_queue_decls_def job_binding_decls_def topology_ops Let_def)

lemma fold_declare_job_queues:
  "fold declare_job_queues jts T =
   T\<lparr>t_queues := fold declare_once (concat (map job_queue_decls jts)) (t_queues T),
     t_bindings := fold declare_once (concat (map job_binding_decls jts)) (t_bindings T)\<rparr>"
  by (induction jts arbitrary: T) (simp_all add: declare_job_queues_eq)

lemma declare_topology_eq:
  "declare_topology T = \<lparr>t_exchanges = fold declare_once exchange_decls (t_exchanges T),
     t_queues = fold declare_once queue_decls (t_queues T),
     t_bindings = fold declare_once binding_decls (t_bindings T)\<rparr>"
  by (cases T) (simp add: declare_topology_def fold_declare_job_queues topology_ops Let_def
      exchange_decls_def queue_decls_def binding_decls_def)

lemma bridge_declare_jobs_eq: "bridge_declare_jobs jts T = fold declare_job_queues jts T"
  by (induction jts arbitrary: T)
     (simp_all add: declare_job_queues_def bridge_queue_names_def queue_names_def slug_def
        main_args_def retry_args_def Let_def)

lemmas protocol_consts = JOB_TYPES_def JOBS_EXCHANGE_def EVENTS_EXCHANGE_def DLX_EXCHANGE_def

text \<open>An association of literals decides equality of embedded literals after concatenation.\<close>

lemma u_append_eq [simp]: "u a @ u b = u (a @ b)"
  by (simp add: u_append)

lemma slug_u: "slug (u s) = u (map (\<lambda>c. if c = CHR ''_'' then CHR ''-'' else c) s)"
proof -
  have "of_char c = (95::nat) \<longleftrightarrow> c = CHR ''_''" for c
    using of_char_eq_iff [where 'a = nat, of c "CHR ''_''"] by simp
  then show ?thesis by (simp add: slug_def u_def)
qed

lemma queue_decls_distinct: "distinct queue_decls"
  by (simp add: queue_decls_def job_queue_decls_def queue_names_def JOB_TYPES_def slug_u Let_def)

section \<open>Properties\<close>

text \<open>Producer and consumer declare the same topology from the shared protocol file, whatever
  the broker already holds.\<close>

theorem topologies_agree: "bridge_declare_topology T = declare_topology T"
  by (simp add: bridge_declare_topology_def declare_topology_def bridge_declare_jobs_eq)

text \<open>Declaring the topology is idempotent: a second declaration, by either side and against
  any broker state, changes nothing.\<close>

theorem declare_topology_idempotent:
  "declare_topology (declare_topology T) = declare_topology T"
  by (simp add: declare_topology_eq fold_declare_once_absorb set_fold_declare_once)

text \<open>The delayed-retry cycle, for every job type on a fresh broker with AMQP's direct
  routing: a job message goes to its own main queue only; what the main queue dead-letters goes to its
  own retry queue only; what expires there after 30 seconds goes back to the main queue only; the
  \<open>.dlq\<close> key reaches the dead-letter queue only, and nothing leaves that queue by itself.\<close>

theorem retry_cycle:
  assumes "amqp_direct routed" and "jt \<in> set JOB_TYPES"
    and "T = declare_topology empty_topology" and "n = queue_names jt"
  shows "routed T JOBS_EXCHANGE (qn_routing_key n) = {qn_main n}
    \<and> map_of (t_queues T) (qn_main n) = Some (main_args (qn_routing_key n))
    \<and> routed T DLX_EXCHANGE (qn_routing_key n) = {qn_retry n}
    \<and> map_of (t_queues T) (qn_retry n) = Some (retry_args (qn_routing_key n))
    \<and> routed T DLX_EXCHANGE (qn_routing_key n @ u ''.dlq'') = {qn_dlq n}
    \<and> map_of (t_queues T) (qn_dlq n) = Some no_args"
proof -
  have jt: "jt = u ''log_triage'' \<or> jt = u ''daily_report''"
    using assms(2) by (simp add: JOB_TYPES_def)
  have r: "routed T x k = {q. (q, x, k) \<in> set binding_decls}" if "x = JOBS_EXCHANGE \<or> x = DLX_EXCHANGE" for x k
    using assms(1,3) that
    by (auto simp: amqp_direct_def declare_topology_eq empty_topology_def set_fold_declare_once exchange_decls_def)
  have q: "t_queues T = queue_decls"
    unfolding assms(3) declare_topology_eq empty_topology_def
    by (simp add: fold_declare_once_fresh queue_decls_distinct)
  show ?thesis
    using jt unfolding assms(4)
    by (elim disjE)
       (simp_all add: r q binding_decls_def queue_decls_def job_binding_decls_def job_queue_decls_def
          queue_names_def slug_u protocol_consts Let_def set_eq_iff)
qed

theorem retry_cycle_witness:
  "(\<lambda>T x k. {q. (q, x, k) \<in> set (t_bindings T)}) (declare_topology empty_topology)
      JOBS_EXCHANGE (u ''job.log_triage'') = {u ''noc.jobs.log-triage''}"
proof -
  have a: "amqp_direct (\<lambda>T x k. {q. (q, x, k) \<in> set (t_bindings T)})"
    by (simp add: amqp_direct_def)
  have j: "u ''log_triage'' \<in> set JOB_TYPES"
    by (simp add: JOB_TYPES_def)
  show ?thesis
    using retry_cycle [OF a j refl refl] by (simp add: queue_names_def slug_u)
qed

end
