(* ===== verification/Ai_Worker.thy ===== *)
theory Ai_Worker
  imports Lease_Protocol Failures Job_Protocol
begin

text \<open>
  The RabbitMQ worker of \<^verbatim>\<open>bridge/noc_bridge/worker.py\<close>: what one delivery does to the job
  table, the channel and the counters. The two job processors and the crash-reconciliation probe
  call Hermes and MinIO and run for a long time, during which the lease renewer and other workers
  use the same table; they are arguments that take the table and return an outcome together with
  the table as they (and everybody else meanwhile) left it. Database and channel calls themselves
  are taken to succeed. The result of \<open>handle_delivery\<close> is the exception that escapes it, if
  any, and the new world.
\<close>

section \<open>State\<close>

record worker_settings =
  max_attempts :: int
  lease_seconds :: int
  worker_id :: pystr

record metrics =
  m_jobs_processing :: int
  m_jobs_completed :: int
  m_jobs_failed :: int
  m_retry_count :: int
  m_schema_validation_failures :: int
  m_provider_failures :: int

record world =
  w_db :: job_db
  w_ops :: "chan_op list"
  w_metrics :: metrics

text \<open>The instants at which one delivery reads the clock.\<close>

record clock =
  at_claim :: time
  at_completion :: time
  at_failure :: time

type_synonym 'a step = "json \<Rightarrow> job_db \<Rightarrow> (py_exn + 'a) \<times> job_db"

definition emit :: "chan_op \<Rightarrow> world \<Rightarrow> world" where
  "emit x w = w\<lparr>w_ops := w_ops w @ [x]\<rparr>"

definition count_metric :: "(metrics \<Rightarrow> metrics) \<Rightarrow> world \<Rightarrow> world" where
  "count_metric f w = w\<lparr>w_metrics := f (w_metrics w)\<rparr>"

section \<open>Message helpers\<close>

text \<open>\<open>int(v)\<close> on what a schema-valid message can hold; a string never passes the schema.\<close>

fun py_int :: "json \<Rightarrow> int option" where
  "py_int (JInt i) = Some i"
| "py_int (JFloat r) = Some (if r < 0 then \<lceil>r\<rceil> else \<lfloor>r\<rfloor>)"
| "py_int (JBool b) = Some (if b then 1 else 0)"
| "py_int _ = None"

definition message_attempt :: "json \<Rightarrow> int option" where
  "message_attempt m = (if jhas m ''attempt'' then py_int (jget m ''attempt'') else Some 1)"

text \<open>\<open>{key: value for key, value in message.items() if not key.startswith("_")}\<close>.\<close>

fun strip_private :: "json \<Rightarrow> json" where
  "strip_private (JObj kvs) = JObj (filter (\<lambda>(k, v). \<not> py_prefix (u ''_'') k) kvs)"
| "strip_private d = d"

text \<open>\<open>uuid.UUID(message["job_id"])\<close>.\<close>

definition job_uuid :: "json \<Rightarrow> uuid option" where
  "job_uuid m = py_uuid (jstr (jget m ''job_id''))"

definition bad_uuid :: py_exn where
  "bad_uuid = \<lparr>ex_class = ValueError, ex_message = u ''badly formed hexadecimal UUID string''\<rparr>"

definition claim_token_of :: "json \<Rightarrow> pystr option" where
  "claim_token_of m = (case jget m ''_claim_token'' of JStr t \<Rightarrow> Some t | _ \<Rightarrow> None)"

section \<open>Dispatch and settlement\<close>

definition process_message ::
  "artifact_metadata option step \<Rightarrow> artifact_metadata option step \<Rightarrow> artifact_metadata option step" where
  "process_message triage report m db =
    (if jget m ''job_type'' = JStr (u ''log_triage'') then triage m db
     else if jget m ''job_type'' = JStr (u ''daily_report'') then report m db
     else (Inl \<lparr>ex_class = WorkerInputError, ex_message = u ''unsupported job type''\<rparr>, db))"

definition retry_publication :: "pystr \<Rightarrow> json \<Rightarrow> chan_op" where
  "retry_publication jt body = Publish \<lparr>pub_exchange = DLX_EXCHANGE,
     pub_routing_key = qn_routing_key (bridge_queue_names jt), pub_body = body,
     pub_persistent = False, pub_mandatory = False, pub_message_id = None\<rparr>"

definition dlq_body :: "json \<Rightarrow> int \<Rightarrow> pystr \<Rightarrow> pystr \<Rightarrow> json" where
  "dlq_body m a code safe = JObj [(u ''job_id'', jget m ''job_id''), (u ''job_type'', jget m ''job_type''),
     (u ''attempt'', JInt a), (u ''error_code'', JStr code), (u ''error'', JStr safe)]"

definition retry_body :: "json \<Rightarrow> int \<Rightarrow> json" where
  "retry_body m a = jset (strip_private m) ''attempt'' (JInt (a + 1))"

definition settle_failure ::
  "worker_settings \<Rightarrow> time \<Rightarrow> nat \<Rightarrow> json \<Rightarrow> py_exn \<Rightarrow> world \<Rightarrow> py_exn option \<times> world" where
  "settle_failure cfg now tag m e w =
    (case job_uuid m of None \<Rightarrow> (Some bad_uuid, w) | Some j \<Rightarrow>
    (let (code, safe) = error_detail e;
         jt = jstr (jget m ''job_type'');
         db1 = snd (mark_failed j code safe (claim_token_of m) now (w_db w));
         w1 = w\<lparr>w_db := db1\<rparr>
     in (case message_attempt m of
          None \<Rightarrow> (Some \<lparr>ex_class = OtherException (u ''TypeError'') False, ex_message = []\<rparr>, w1)
        | Some a \<Rightarrow>
            if classify_failure e \<noteq> TERMINAL \<and> a < max_attempts cfg
            then (let db2 = bump_attempt j (a + 1) db1;
                      w2 = emit (retry_publication jt (retry_body m a)) (w1\<lparr>w_db := db2\<rparr>);
                      db3 = snd (mark_retrying j code safe (w_db w2));
                      w3 = count_metric (\<lambda>x. x\<lparr>m_retry_count := m_retry_count x + 1\<rparr>) (w2\<lparr>w_db := db3\<rparr>)
                  in (None, emit (Ack tag) w3))
            else (let w2 = emit (send_to_dlq jt (dlq_body m a code safe)) w1;
                      w3 = count_metric (\<lambda>x. x\<lparr>m_jobs_failed := m_jobs_failed x + 1\<rparr>) w2
                  in (None, emit (Ack tag) w3)))))"

definition lease_lost :: "string \<Rightarrow> py_exn" where
  "lease_lost msg = \<lparr>ex_class = JobLeaseError, ex_message = u msg\<rparr>"

text \<open>\<open>mark_completed\<close>, acknowledge and count, or the lease error.\<close>

definition complete_job ::
  "string \<Rightarrow> artifact_metadata option \<Rightarrow> time \<Rightarrow> nat \<Rightarrow> uuid \<Rightarrow> json \<Rightarrow> world \<Rightarrow> (py_exn + unit) \<times> world" where
  "complete_job lost am now tag j m w =
    (let (ok, db) = mark_completed j am (claim_token_of m) now (w_db w);
         w1 = w\<lparr>w_db := db\<rparr>
     in if \<not> ok then (Inl (lease_lost lost), w1)
        else (Inr (), count_metric (\<lambda>x. x\<lparr>m_jobs_completed := m_jobs_completed x + 1\<rparr>) (emit (Ack tag) w1)))"

text \<open>The body of the \<open>try\<close>: reconcile a log-triage artifact of an earlier attempt, else run the job.\<close>

definition run_job ::
  "bool step \<Rightarrow> artifact_metadata option step \<Rightarrow> artifact_metadata option step \<Rightarrow> time \<Rightarrow> nat \<Rightarrow> uuid \<Rightarrow> json
    \<Rightarrow> world \<Rightarrow> (py_exn + unit) \<times> world" where
  "run_job recon triage report now tag j m w =
    (let (probe, db1) = (if jget m ''job_type'' = JStr (u ''log_triage'') then recon m (w_db w)
                         else (Inr False, w_db w));
         w1 = w\<lparr>w_db := db1\<rparr>
     in (case probe of
          Inl e \<Rightarrow> (Inl e, w1)
        | Inr True \<Rightarrow> complete_job ''job lease was lost during artifact reconciliation'' None now tag j m w1
        | Inr False \<Rightarrow>
            (let (res, db2) = process_message triage report (strip_private m) db1;
                 w2 = w1\<lparr>w_db := db2\<rparr>
             in (case res of
                  Inl e \<Rightarrow> (Inl e, w2)
                | Inr am \<Rightarrow> complete_job ''job lease was lost before completion'' am now tag j m w2))))"

definition is_hermes :: "exn_class \<Rightarrow> bool" where
  "is_hermes c \<longleftrightarrow> py_prefix (u ''Hermes'') (type_name c)"

definition failure_metrics :: "py_exn \<Rightarrow> world \<Rightarrow> world" where
  "failure_metrics e w =
    (let invalid = (error_code_attr (ex_class e) = Some ''HERMES_INVALID_OUTPUT'');
         w1 = (if invalid then count_metric (\<lambda>x. x\<lparr>m_schema_validation_failures :=
                  m_schema_validation_failures x + 1\<rparr>) w else w)
     in if is_hermes (ex_class e) \<and> \<not> invalid
        then count_metric (\<lambda>x. x\<lparr>m_provider_failures := m_provider_failures x + 1\<rparr>) w1 else w1)"

definition handle_claimed ::
  "worker_settings \<Rightarrow> bool step \<Rightarrow> artifact_metadata option step \<Rightarrow> artifact_metadata option step \<Rightarrow> clock
    \<Rightarrow> nat \<Rightarrow> uuid \<Rightarrow> json \<Rightarrow> world \<Rightarrow> py_exn option \<times> world" where
  "handle_claimed cfg recon triage report clk tag j m w =
    (let w1 = count_metric (\<lambda>x. x\<lparr>m_jobs_processing := m_jobs_processing x + 1\<rparr>) w;
         (res, w2) = run_job recon triage report (at_completion clk) tag j m w1;
         (esc, w3) = (case res of Inr _ \<Rightarrow> (None, w2)
           | Inl e \<Rightarrow> settle_failure cfg (at_failure clk) tag m e (failure_metrics e w2))
     in (esc, count_metric (\<lambda>x. x\<lparr>m_jobs_processing := m_jobs_processing x - 1\<rparr>) w3))"

definition quarantine :: "pystr \<Rightarrow> nat list \<Rightarrow> pystr \<Rightarrow> nat \<Rightarrow> world \<Rightarrow> py_exn option \<times> world" where
  "quarantine jt body name tag w =
     (None, emit (Ack tag) (emit (send_raw_to_dlq jt body (u ''invalid job message: '' @ name)) w))"

definition handle_delivery ::
  "(nat list \<Rightarrow> pystr + json) \<Rightarrow> (json \<Rightarrow> bool) \<Rightarrow> worker_settings \<Rightarrow> bool step
    \<Rightarrow> artifact_metadata option step \<Rightarrow> artifact_metadata option step \<Rightarrow> pystr \<Rightarrow> clock \<Rightarrow> pystr
    \<Rightarrow> nat \<Rightarrow> nat list \<Rightarrow> world \<Rightarrow> py_exn option \<times> world" where
  "handle_delivery loads valid cfg recon triage report expected clk token tag body w =
    (case loads body of
       Inl name \<Rightarrow> quarantine expected body name tag w
     | Inr m \<Rightarrow>
       if \<not> valid m then quarantine expected body (u ''ValidationError'') tag w
       else if jget m ''job_type'' \<noteq> JStr expected
       then (None, emit (Ack tag) (emit (send_to_dlq expected m) w))
       else (case job_uuid m of None \<Rightarrow> (Some bad_uuid, w) | Some j \<Rightarrow>
        (let (res, db1) = claim_job j (worker_id cfg) (lease_seconds cfg) token (at_claim clk) (w_db w);
             w1 = w\<lparr>w_db := db1\<rparr>
         in if disposition res \<in> {ALREADY_COMPLETED, NOT_CLAIMABLE} then (None, emit (Ack tag) w1)
            else if disposition res = LEASE_BUSY then (None, emit (Nack tag False) w1)
            else
             (let tok = (case claim_job_row res of Some r \<Rightarrow> j_claim_token r | None \<Rightarrow> None);
                  m1 = jset m ''_claim_token'' (jopt tok)
              in (case message_attempt m1 of
                   None \<Rightarrow> (Some \<lparr>ex_class = OtherException (u ''TypeError'') False, ex_message = []\<rparr>, w1)
                 | Some a \<Rightarrow> handle_claimed cfg recon triage report clk tag j m1
                               (w1\<lparr>w_db := bump_attempt j a db1\<rparr>))))))"

text \<open>The lease renewer: how long it waits between renewals (in microseconds), and one renewal.\<close>

definition renew_interval :: "int \<Rightarrow> time" where
  "renew_interval lease = max 1000000 (min 60000000 (interval_seconds lease div 3))"

definition renewer_step :: "worker_settings \<Rightarrow> uuid \<Rightarrow> pystr \<Rightarrow> time \<Rightarrow> job_db \<Rightarrow> bool \<times> job_db" where
  "renewer_step cfg j tok now db =
     (let (ok, db') = renew_job_lease j tok (lease_seconds cfg) now db in (\<not> ok, db'))"

section \<open>Lemmas\<close>

lemma emit_simps [simp]: "w_ops (emit x w) = w_ops w @ [x]" "w_db (emit x w) = w_db w"
  "w_metrics (emit x w) = w_metrics w"
  by (simp_all add: emit_def)

lemma count_metric_simps [simp]: "w_ops (count_metric f w) = w_ops w" "w_db (count_metric f w) = w_db w"
  by (simp_all add: count_metric_def)

lemma failure_metrics_simps [simp]:
  "w_ops (failure_metrics e w) = w_ops w" "w_db (failure_metrics e w) = w_db w"
  by (simp_all add: failure_metrics_def Let_def)

text \<open>Keys that start with an underscore never leave the worker.\<close>

lemma filter_update_private:
  "\<not> P k \<Longrightarrow> filter (\<lambda>(a, b). P a) (AList.update k v al) = filter (\<lambda>(a, b). P a) al"
  by (induction al) auto

lemma strip_private_claim_token [simp]:
  "strip_private (jset m ''_claim_token'' v) = strip_private m"
  by (cases m) (simp_all add: filter_update_private u_def)

lemma schema_properties_public: "k \<in> u ` set schema_properties \<Longrightarrow> \<not> py_prefix (u ''_'') k"
proof -
  have "list_all (\<lambda>k. \<not> py_prefix (u ''_'') (u k)) schema_properties" by code_simp
  then show "k \<in> u ` set schema_properties \<Longrightarrow> \<not> py_prefix (u ''_'') k" by (auto simp: list_all_iff)
qed

lemma strip_private_id:
  assumes "set (jkeys m) \<subseteq> u ` set schema_properties"
  shows "strip_private m = m"
proof (cases m)
  case (JObj kvs)
  have "\<not> py_prefix (u ''_'') (fst x)" if "x \<in> set kvs" for x
    using assms that JObj by (intro schema_properties_public) auto
  then show ?thesis using JObj by (simp add: case_prod_beta)
qed simp_all

lemma schema_contractD:
  assumes "schema_contract valid" "valid m"
  shows "is_dict m" "strip_private m = m" "job_uuid m \<noteq> None"
    "\<exists>a\<ge>1. message_attempt m = Some a" "k \<in> set schema_required \<Longrightarrow> jhas m k"
proof -
  have m: "is_dict m" "\<forall>k\<in>set schema_required. jhas m k" "set (jkeys m) \<subseteq> u ` set schema_properties"
    "py_uuid (jstr (jget m ''job_id'')) \<noteq> None" "\<exists>i\<ge>1. attempt_number (jget m ''attempt'') = Some i"
    using assms by (auto simp: schema_contract_def)
  show "is_dict m" "strip_private m = m" "job_uuid m \<noteq> None" "k \<in> set schema_required \<Longrightarrow> jhas m k"
    using m strip_private_id by (simp_all add: job_uuid_def)
  obtain i where i: "i \<ge> 1" "attempt_number (jget m ''attempt'') = Some i" using m(5) by blast
  have "jhas m ''attempt''" using m(2) by (simp add: schema_required_def)
  with i have "message_attempt m = Some i"
    by (cases "jget m ''attempt''") (auto simp: message_attempt_def attempt_number_def split: if_splits)
  with i(1) show "\<exists>a\<ge>1. message_attempt m = Some a" by blast
qed

lemma private_key_irrelevant:
  assumes "is_dict m"
  shows "job_uuid (jset m ''_claim_token'' v) = job_uuid m"
    "message_attempt (jset m ''_claim_token'' v) = message_attempt m"
    "jget (jset m ''_claim_token'' v) ''job_type'' = jget m ''job_type''"
    "jget (jset m ''_claim_token'' v) ''job_id'' = jget m ''job_id''"
  using assms by (simp_all add: job_uuid_def message_attempt_def)

text \<open>What a failed execution publishes, and what it does to the row.\<close>

definition will_retry :: "worker_settings \<Rightarrow> int \<Rightarrow> py_exn \<Rightarrow> bool" where
  "will_retry cfg a e \<longleftrightarrow> classify_failure e \<noteq> TERMINAL \<and> a < max_attempts cfg"

definition failure_publication :: "worker_settings \<Rightarrow> json \<Rightarrow> int \<Rightarrow> py_exn \<Rightarrow> chan_op" where
  "failure_publication cfg m a e =
    (let jt = jstr (jget m ''job_type'') in
     if will_retry cfg a e then retry_publication jt (retry_body m a)
     else send_to_dlq jt (dlq_body m a (fst (error_detail e)) (snd (error_detail e))))"

lemma settle_failure_ok:
  assumes "job_uuid m = Some j" "message_attempt m = Some a"
  shows "fst (settle_failure cfg now tag m e w) = None"
    "w_ops (snd (settle_failure cfg now tag m e w)) = w_ops w @ [failure_publication cfg m a e, Ack tag]"
  using assms by (simp_all add: settle_failure_def failure_publication_def will_retry_def Let_def
      case_prod_beta)

lemma settle_failure_db:
  assumes "job_uuid m = Some j" "message_attempt m = Some a"
  shows "w_db (snd (settle_failure cfg now tag m e w)) =
    (let (code, safe) = error_detail e;
         db1 = snd (mark_failed j code safe (claim_token_of m) now (w_db w))
     in if will_retry cfg a e then snd (mark_retrying j code safe (bump_attempt j (a + 1) db1)) else db1)"
  using assms by (simp add: settle_failure_def will_retry_def Let_def case_prod_beta)

text \<open>A run either fails without touching the channel or ends with its acknowledgement.\<close>

definition run_shape :: "nat \<Rightarrow> chan_op list \<Rightarrow> (py_exn + unit) \<times> world \<Rightarrow> bool" where
  "run_shape tag ops r \<longleftrightarrow>
     (case fst r of Inl e \<Rightarrow> w_ops (snd r) = ops | Inr _ \<Rightarrow> w_ops (snd r) = ops @ [Ack tag])"

lemma run_shape_simps [simp]:
  "run_shape tag ops (Inl e, w) \<longleftrightarrow> w_ops w = ops"
  "run_shape tag ops (Inr v, w) \<longleftrightarrow> w_ops w = ops @ [Ack tag]"
  by (simp_all add: run_shape_def)

lemma complete_job_shape: "run_shape tag (w_ops w) (complete_job lost am now tag j m w)"
  by (simp add: complete_job_def Let_def split: prod.split)

lemma run_job_shape: "run_shape tag (w_ops w) (run_job recon triage report now tag j m w)"
proof -
  have c: "run_shape tag (w_ops w) (complete_job lost am now tag j m (w\<lparr>w_db := db\<rparr>))" for lost am db
    using complete_job_shape [of tag "w\<lparr>w_db := db\<rparr>"] by simp
  show ?thesis
    unfolding run_job_def Let_def
    by (simp add: c split: prod.split sum.split bool.split)
qed

lemma handle_claimed_ops:
  assumes "job_uuid m = Some j" "message_attempt m = Some a"
  shows "fst (handle_claimed cfg recon triage report clk tag j m w) = None
    \<and> (\<exists>pubs. w_ops (snd (handle_claimed cfg recon triage report clk tag j m w)) = w_ops w @ pubs @ [Ack tag]
         \<and> (pubs = [] \<or> (\<exists>e. pubs = [failure_publication cfg m a e])))"
proof -
  define w1 where "w1 = count_metric (\<lambda>x. x\<lparr>m_jobs_processing := m_jobs_processing x + 1\<rparr>) w"
  obtain res w2 where r: "run_job recon triage report (at_completion clk) tag j m w1 = (res, w2)"
    by (cases "run_job recon triage report (at_completion clk) tag j m w1")
  have o: "case res of Inl e \<Rightarrow> w_ops w2 = w_ops w | Inr _ \<Rightarrow> w_ops w2 = w_ops w @ [Ack tag]"
    using run_job_shape [of tag w1 recon triage report "at_completion clk" j m] r
    by (auto simp: w1_def run_shape_def split: sum.splits)
  show ?thesis
  proof (cases res)
    case (Inl e)
    with o show ?thesis
      using r settle_failure_ok [OF assms, of cfg "at_failure clk" tag e "failure_metrics e w2"]
      by (auto simp: handle_claimed_def w1_def [symmetric] Let_def case_prod_beta)
  next
    case (Inr v)
    with o r show ?thesis by (auto simp: handle_claimed_def w1_def [symmetric] Let_def)
  qed
qed

lemma failure_publication_Publish: "\<exists>p. failure_publication cfg m a e = Publish p"
  by (simp add: failure_publication_def retry_publication_def send_to_dlq_def Let_def)

text \<open>A valid message of the expected type: the claim, then either nothing or the execution.\<close>

lemma handle_delivery_valid:
  assumes "loads body = Inr m" "valid m" "jget m ''job_type'' = JStr expected" "job_uuid m = Some j"
  shows "handle_delivery loads valid cfg recon triage report expected clk token tag body w =
    (let (res, db1) = claim_job j (worker_id cfg) (lease_seconds cfg) token (at_claim clk) (w_db w);
         w1 = w\<lparr>w_db := db1\<rparr>
     in if disposition res \<in> {ALREADY_COMPLETED, NOT_CLAIMABLE} then (None, emit (Ack tag) w1)
        else if disposition res = LEASE_BUSY then (None, emit (Nack tag False) w1)
        else
         (let tok = (case claim_job_row res of Some r \<Rightarrow> j_claim_token r | None \<Rightarrow> None);
              m1 = jset m ''_claim_token'' (jopt tok)
          in (case message_attempt m1 of
               None \<Rightarrow> (Some \<lparr>ex_class = OtherException (u ''TypeError'') False, ex_message = []\<rparr>, w1)
             | Some a \<Rightarrow> handle_claimed cfg recon triage report clk tag j m1
                           (w1\<lparr>w_db := bump_attempt j a db1\<rparr>))))"
  using assms by (simp add: handle_delivery_def)

lemma handle_delivery_ops:
  assumes "schema_contract valid"
  shows "fst (handle_delivery loads valid cfg recon triage report expected clk token tag body w) = None
    \<and> (\<exists>pubs x. w_ops (snd (handle_delivery loads valid cfg recon triage report expected clk token tag body w))
           = w_ops w @ pubs @ [x] \<and> x \<in> {Ack tag, Nack tag False}
         \<and> (pubs = [] \<or> (\<exists>e m v a. loads body = Inr m \<and> valid m \<and> jget m ''job_type'' = JStr expected
               \<and> message_attempt m = Some a \<and> pubs = [failure_publication cfg (jset m ''_claim_token'' v) a e])
            \<or> (\<exists>b. pubs = [send_to_dlq expected b])))"
proof (cases "loads body")
  case (Inl e)
  then show ?thesis by (auto simp: handle_delivery_def quarantine_def send_raw_to_dlq_def)
next
  case (Inr m)
  show ?thesis
  proof (cases "valid m \<and> jget m ''job_type'' = JStr expected")
    case False
    with Inr show ?thesis by (auto simp: handle_delivery_def quarantine_def send_raw_to_dlq_def)
  next
    case True
    then have v: "valid m" and jt: "jget m ''job_type'' = JStr expected" by auto
    note s = schema_contractD [OF assms v]
    obtain j where j: "job_uuid m = Some j" using s(3) by blast
    obtain a where a: "message_attempt m = Some a" using s(4) by blast
    obtain res db1 where c: "claim_job j (worker_id cfg) (lease_seconds cfg) token (at_claim clk) (w_db w) = (res, db1)"
      by (cases "claim_job j (worker_id cfg) (lease_seconds cfg) token (at_claim clk) (w_db w)")
    define tok where "tok = (case claim_job_row res of Some r \<Rightarrow> j_claim_token r | None \<Rightarrow> None)"
    let ?m1 = "jset m ''_claim_token'' (jopt tok)"
    have k: "job_uuid ?m1 = Some j" "message_attempt ?m1 = Some a"
      using private_key_irrelevant [OF s(1)] j a by simp_all
    show ?thesis
      using handle_claimed_ops [OF k, of cfg recon triage report clk tag
          "w\<lparr>w_db := bump_attempt j a db1\<rparr>"] Inr v jt a k
      by (auto simp: handle_delivery_valid [where loads = loads and body = body and valid = valid, OF Inr v jt j] c tok_def [symmetric] Let_def)
  qed
qed

lemma handle_delivery_unclaimed:
  assumes "loads body = Inr m" "valid m" "jget m ''job_type'' = JStr expected" "job_uuid m = Some j"
    and "disposition (fst (claim_job j (worker_id cfg) (lease_seconds cfg) token (at_claim clk) (w_db w))) \<noteq> CLAIMED"
    and "snd (claim_job j (worker_id cfg) (lease_seconds cfg) token (at_claim clk) (w_db w)) = w_db w"
  shows "handle_delivery loads valid cfg recon triage report expected clk token tag body w =
    (None, emit (if disposition (fst (claim_job j (worker_id cfg) (lease_seconds cfg) token (at_claim clk) (w_db w)))
        = LEASE_BUSY then Nack tag False else Ack tag) w)"
  unfolding handle_delivery_valid [where loads = loads and body = body and valid = valid, OF assms(1-4)] Let_def
  using assms(5,6)
  by (cases "disposition (fst (claim_job j (worker_id cfg) (lease_seconds cfg) token (at_claim clk) (w_db w)))")
     (auto simp: case_prod_beta)

lemma routing_key_not_dlq: "qn_routing_key (bridge_queue_names jt) \<noteq> qn_routing_key (queue_names jt') @ u ''.dlq''
   \<or> jt \<noteq> jt'"
  by (auto simp: queue_names_def bridge_queue_names_def Let_def u_def)

section \<open>Retries\<close>

text \<open>
  One hop through the retry queue: some delivery of the message \<open>m\<close> made the worker publish \<open>m'\<close>
  with the routing key of the retry queue, whatever the table, the clock and the processors were.
\<close>

definition retries_to ::
  "(nat list \<Rightarrow> pystr + json) \<Rightarrow> (json \<Rightarrow> bool) \<Rightarrow> worker_settings \<Rightarrow> json \<Rightarrow> json \<Rightarrow> bool" where
  "retries_to loads valid cfg m m' \<longleftrightarrow> (\<exists>recon triage report expected clk token tag body w p.
     loads body = Inr m \<and> valid m
     \<and> Publish p \<in> set (drop (length (w_ops w))
         (w_ops (snd (handle_delivery loads valid cfg recon triage report expected clk token tag body w))))
     \<and> pub_exchange p = DLX_EXCHANGE \<and> pub_routing_key p = qn_routing_key (bridge_queue_names expected)
     \<and> pub_body p = m')"

lemma failure_publication_retry:
  assumes "failure_publication cfg m a e = Publish p" "jget m ''job_type'' = JStr expected"
    and "pub_routing_key p = qn_routing_key (bridge_queue_names expected)"
  shows "will_retry cfg a e \<and> pub_body p = retry_body m a"
proof (cases "will_retry cfg a e")
  case True
  with assms show ?thesis by (auto simp: failure_publication_def retry_publication_def)
next
  case False
  then have "pub_routing_key p = qn_routing_key (queue_names expected) @ u ''.dlq''"
    using assms(1,2) by (auto simp: failure_publication_def send_to_dlq_def)
  with assms(3) routing_key_not_dlq show ?thesis by metis
qed

lemma retries_toD:
  assumes "schema_contract valid" "retries_to loads valid cfg m m'"
  shows "\<exists>a\<ge>1. message_attempt m = Some a \<and> a < max_attempts cfg \<and> m' = jset m ''attempt'' (JInt (a + 1))"
proof -
  obtain recon triage report expected clk token tag body w p where
    l: "loads body = Inr m" "valid m" and
    p: "Publish p \<in> set (drop (length (w_ops w))
         (w_ops (snd (handle_delivery loads valid cfg recon triage report expected clk token tag body w))))" and
    q: "pub_routing_key p = qn_routing_key (bridge_queue_names expected)" "pub_body p = m'"
    using assms(2) unfolding retries_to_def by blast
  note s = schema_contractD [OF assms(1) l(2)]
  obtain a where a: "message_attempt m = Some a" "a \<ge> 1" using s(4) by blast
  obtain pubs x where o: "w_ops (snd (handle_delivery loads valid cfg recon triage report expected clk token tag body w))
           = w_ops w @ pubs @ [x]" "x \<in> {Ack tag, Nack tag False}"
    "pubs = [] \<or> (\<exists>e m v a. loads body = Inr m \<and> valid m \<and> jget m ''job_type'' = JStr expected
               \<and> message_attempt m = Some a \<and> pubs = [failure_publication cfg (jset m ''_claim_token'' v) a e])
            \<or> (\<exists>b. pubs = [send_to_dlq expected b])"
    using handle_delivery_ops [OF assms(1), of loads cfg recon triage report expected clk token tag body w]
    by blast
  have mem: "Publish p \<in> set pubs" using p o(1,2) by auto
  have "\<nexists>b. pubs = [send_to_dlq expected b]"
    using mem q(1) routing_key_not_dlq [of expected expected] by (auto simp: send_to_dlq_def)
  with o(3) mem l obtain e v where f: "jget m ''job_type'' = JStr expected"
    "failure_publication cfg (jset m ''_claim_token'' v) a e = Publish p"
    using a(1) by auto
  have "will_retry cfg a e \<and> pub_body p = retry_body (jset m ''_claim_token'' v) a"
    using failure_publication_retry [OF f(2) _ q(1)] f(1) private_key_irrelevant(3) [OF s(1)] by simp
  then show ?thesis using a q(2) s(2) by (auto simp: will_retry_def retry_body_def)
qed

lemma retries_chain_length:
  assumes "schema_contract valid"
  shows "successively (retries_to loads valid cfg) (m # ms) \<Longrightarrow> message_attempt m = Some a
    \<Longrightarrow> ms = [] \<or> int (length ms) + a \<le> max_attempts cfg"
proof (induction ms arbitrary: m a)
  case Nil
  then show ?case by simp
next
  case (Cons m' ms)
  obtain b where b: "message_attempt m = Some b" "b < max_attempts cfg" "m' = jset m ''attempt'' (JInt (b + 1))"
    using retries_toD [OF assms, of loads cfg m m'] Cons.prems(1) by (auto simp: successively_Cons)
  have "is_dict m" using Cons.prems(1) schema_contractD(1) [OF assms]
    by (auto simp: successively_Cons retries_to_def)
  then have "message_attempt m' = Some (b + 1)" using b(3) by (simp add: message_attempt_def)
  with Cons.IH [of m' "b + 1"] Cons.prems b show ?case by (auto simp: successively_Cons)
qed

section \<open>A sample delivery\<close>

text \<open>A table with one queued job and one completed job, a valid message for each, and processors
  that succeed or fail; the witnesses run the worker on them.\<close>

definition sample_id :: uuid where
  "sample_id = u ''00000000-0000-0000-0000-00000000000a''"

definition sample_job_row :: "job_status \<Rightarrow> pystr option \<Rightarrow> job_row" where
  "sample_job_row st tok = \<lparr>j_status = st, j_attempt = 1, j_error_code = None, j_error_message = None,
     j_started_at = None, j_completed_at = None, j_claimed_at = None, j_claim_token = tok,
     j_lease_expires_at = (case tok of None \<Rightarrow> None | Some t \<Rightarrow> Some 500), j_worker_id = None\<rparr>"

definition sample_world :: "job_status \<Rightarrow> pystr option \<Rightarrow> world" where
  "sample_world st tok = \<lparr>w_db = \<lparr>jobs = [sample_id \<mapsto> sample_job_row st tok], reports = []\<rparr>, w_ops = [],
     w_metrics = \<lparr>m_jobs_processing = 0, m_jobs_completed = 0, m_jobs_failed = 0, m_retry_count = 0,
       m_schema_validation_failures = 0, m_provider_failures = 0\<rparr>\<rparr>"

definition sample_request :: job_request where
  "sample_request = \<lparr>jr_job_id = sample_id, jr_job_type = u ''daily_report'', jr_incident_id = None,
     jr_object_refs = [], jr_model = None, jr_effort = None, jr_skill_name = u ''s'', jr_skill_version = u ''1'',
     jr_correlation_id = u ''c'', jr_attempt = 1, jr_skill_hash = None, jr_skill_execution_hash = None,
     jr_skill_snapshot_id = None, jr_protocol_version = 1, jr_expected_output_type = None, jr_ai_policy = None\<rparr>"

definition sample_message :: json where
  "sample_message = job_message_body sample_request"

definition sample_valid :: "json \<Rightarrow> bool" where
  "sample_valid m \<longleftrightarrow> m = sample_message"

definition sample_loads :: "nat list \<Rightarrow> pystr + json" where
  "sample_loads body = (if body = [] then Inl (u ''JSONDecodeError'') else Inr sample_message)"

definition sample_cfg :: worker_settings where
  "sample_cfg = \<lparr>max_attempts = 3, lease_seconds = 60, worker_id = u ''w''\<rparr>"

definition sample_clock :: clock where
  "sample_clock = \<lparr>at_claim = 100, at_completion = 200, at_failure = 300\<rparr>"

definition sample_timeout :: py_exn where
  "sample_timeout = \<lparr>ex_class = HermesTimeout, ex_message = []\<rparr>"

lemma sample_uuid: "py_uuid sample_id = Some sample_id"
  by code_simp

lemma sample_schema: "schema_contract sample_valid"
proof -
  have "\<forall>k\<in>set schema_required. jhas sample_message k" by code_simp
  moreover have "set (jkeys sample_message) \<subseteq> u ` set schema_properties" by code_simp
  moreover have "is_dict sample_message \<and> is_str (jget sample_message ''job_id'')
      \<and> jget sample_message ''job_id'' = JStr sample_id \<and> is_str (jget sample_message ''job_type'')
      \<and> attempt_number (jget sample_message ''attempt'') = Some 1" by code_simp
  ultimately show ?thesis by (simp add: schema_contract_def sample_valid_def sample_uuid)
qed

lemma sample_facts:
  "jget sample_message ''job_type'' = JStr (u ''daily_report'')" "job_uuid sample_message = Some sample_id"
  "message_attempt sample_message = Some 1" "sample_valid sample_message" "is_dict sample_message"
  "sample_loads [1] = Inr sample_message"
  by code_simp+

lemma sample_strip: "strip_private sample_message = sample_message"
  by (rule schema_contractD(2) [OF sample_schema sample_facts(4)])

lemma sample_retry_ops:
  "w_ops (snd (handle_delivery sample_loads sample_valid sample_cfg (\<lambda>m db. (Inr False, db))
       (\<lambda>m db. (Inr None, db)) (\<lambda>m db. (Inl sample_timeout, db)) (u ''daily_report'') sample_clock (u ''t'') 7 [1]
       (sample_world QUEUED None)))
   = [retry_publication (u ''daily_report'') (jset sample_message ''attempt'' (JInt 2)), Ack 7]"
proof -
  let ?m = "jset sample_message ''_claim_token'' (jopt (Some (u ''t'')))"
  have m: "job_uuid ?m = Some sample_id" "message_attempt ?m = Some 1"
    by (simp_all add: private_key_irrelevant sample_facts)
  have "failure_publication sample_cfg ?m 1 sample_timeout
      = retry_publication (u ''daily_report'') (jset sample_message ''attempt'' (JInt 2))"
    by (simp add: failure_publication_def will_retry_def sample_timeout_def classify_failure_def sample_cfg_def
        sample_facts retry_body_def sample_strip)
  then show ?thesis
    unfolding handle_delivery_valid [where loads = sample_loads and body = "[1]" and valid = sample_valid,
      OF sample_facts(6,4,1,2)]
    by (simp add: claim_job_def update_job_def claimable_def sample_world_def sample_job_row_def m
        handle_claimed_def run_job_def process_message_def sample_facts settle_failure_ok [OF m]
        sample_strip case_prod_beta Let_def)
qed

lemma sample_retries_to:
  "retries_to sample_loads sample_valid sample_cfg sample_message (jset sample_message ''attempt'' (JInt 2))"
proof -
  let ?w = "sample_world QUEUED None"
  let ?p = "\<lparr>pub_exchange = DLX_EXCHANGE, pub_routing_key = qn_routing_key (bridge_queue_names (u ''daily_report'')),
     pub_body = jset sample_message ''attempt'' (JInt 2), pub_persistent = False, pub_mandatory = False,
     pub_message_id = None\<rparr>"
  have "Publish ?p \<in> set (drop (length (w_ops ?w)) (w_ops (snd (handle_delivery sample_loads sample_valid
       sample_cfg (\<lambda>m db. (Inr False, db)) (\<lambda>m db. (Inr None, db)) (\<lambda>m db. (Inl sample_timeout, db))
       (u ''daily_report'') sample_clock (u ''t'') 7 [1] ?w))))"
    unfolding sample_retry_ops by (simp add: sample_world_def retry_publication_def)
  moreover have "sample_loads [1] = Inr sample_message" "sample_valid sample_message"
    by (rule sample_facts)+
  ultimately show ?thesis unfolding retries_to_def by force
qed

section \<open>Properties\<close>



text \<open>A delivery whose job is not free changes nothing in the table and runs nothing: a duplicate
  of a completed job is acknowledged, a duplicate of a job under a live lease is rejected without
  requeueing, so that it goes through the retry queue.\<close>

theorem unclaimable_delivery_is_inert:
  assumes "loads body = Inr m" "valid m" "jget m ''job_type'' = JStr expected" "job_uuid m = Some j"
    and "jobs (w_db w) j = Some r"
    and "j_status r = COMPLETED \<and> settled = Ack tag
       \<or> j_status r = PROCESSING \<and> (\<exists>e. j_lease_expires_at r = Some e \<and> at_claim clk \<le> e)
         \<and> settled = Nack tag False"
  shows "handle_delivery loads valid cfg recon triage report expected clk token tag body w
       = (None, emit settled w)"
proof -
  have "disposition (fst (claim_job j (worker_id cfg) (lease_seconds cfg) token (at_claim clk) (w_db w)))
      = (if j_status r = COMPLETED then ALREADY_COMPLETED else LEASE_BUSY)"
    "snd (claim_job j (worker_id cfg) (lease_seconds cfg) token (at_claim clk) (w_db w)) = w_db w"
    using assms(5,6) by (auto simp: claim_job_def update_job_def claimable_def)
  then show ?thesis
    using handle_delivery_unclaimed [where loads = loads and valid = valid, OF assms(1-4)] assms(6) by auto
qed

theorem unclaimable_delivery_is_inert_witness:
  "handle_delivery sample_loads sample_valid sample_cfg (\<lambda>m db. (Inr False, db))
       (\<lambda>m db. (Inr None, db)) (\<lambda>m db. (Inr None, db)) (u ''daily_report'') sample_clock (u ''t'') 7 [1]
       (sample_world PROCESSING (Some (u ''held''))) = (None, emit (Nack 7 False) (sample_world PROCESSING (Some (u ''held''))))"
  by (rule unclaimable_delivery_is_inert [where valid = sample_valid and loads = sample_loads
        and body = "[1]", OF sample_facts(6,4,1,2), where r = "sample_job_row PROCESSING (Some (u ''held''))"])
     (simp_all add: sample_world_def sample_job_row_def sample_clock_def)

text \<open>C5. Retries are bounded and keep the job: what goes to the retry queue is the received message
  with its attempt increased by one and nothing else changed (no private key), and a chain of
  retries of one message has at most \<open>max_attempts\<close> deliveries.\<close>

theorem retries_are_bounded:
  assumes "schema_contract valid" "successively (retries_to loads valid cfg) ms"
  shows "int (length ms) \<le> max 1 (max_attempts cfg)
    \<and> (\<forall>i. Suc i < length ms \<longrightarrow> (\<exists>a. message_attempt (ms ! i) = Some a \<and> a < max_attempts cfg
         \<and> ms ! Suc i = jset (ms ! i) ''attempt'' (JInt (a + 1))))"
proof
  show "int (length ms) \<le> max 1 (max_attempts cfg)"
  proof (cases ms)
    case (Cons m ns)
    show ?thesis
    proof (cases ns)
      case Nil
      with Cons show ?thesis by simp
    next
      case (Cons n ns')
      then have "retries_to loads valid cfg m n" using assms(2) \<open>ms = m # ns\<close> by simp
      then obtain a where "a \<ge> 1" "message_attempt m = Some a" using retries_toD [OF assms(1)] by blast
      with retries_chain_length [OF assms(1), of loads cfg m ns a] assms(2) \<open>ms = m # ns\<close> Cons
      show ?thesis by auto
    qed
  qed simp
  show "\<forall>i. Suc i < length ms \<longrightarrow> (\<exists>a. message_attempt (ms ! i) = Some a \<and> a < max_attempts cfg
         \<and> ms ! Suc i = jset (ms ! i) ''attempt'' (JInt (a + 1)))"
    using assms(2) retries_toD [OF assms(1)] by (fastforce simp: successively_conv_nth)
qed

theorem retries_are_bounded_witness:
  "int (length [sample_message, jset sample_message ''attempt'' (JInt 2)]) \<le> max 1 (max_attempts sample_cfg)"
  using retries_are_bounded [OF sample_schema, of sample_loads sample_cfg
      "[sample_message, jset sample_message ''attempt'' (JInt 2)]"] sample_retries_to by simp

text \<open>What a failure does for the worker that still holds the lease. The row's lease is released
  either way. A retryable failure below the attempt limit leaves the job \<open>RETRYING\<close>, claimable at
  once, with the next attempt number, and publishes the retry; a terminal failure or an exhausted
  job ends as \<open>FAILED\<close> and is dead-lettered, never republished.\<close>

theorem failure_settlement:
  assumes "job_uuid m = Some j" "message_attempt m = Some a" "claim_token_of m = Some t"
    and "jobs (w_db w) j = Some r" "j_claim_token r = Some t"
  shows "\<exists>r'. jobs (w_db (snd (settle_failure cfg now tag m e w))) j = Some r'
      \<and> j_claim_token r' = None \<and> j_lease_expires_at r' = None
      \<and> j_error_code r' = Some (fst (error_detail e)) \<and> j_error_message r' = Some (type_name (ex_class e))
      \<and> (if classify_failure e = TERMINAL \<or> a \<ge> max_attempts cfg
         then j_status r' = FAILED \<and> j_attempt r' = j_attempt r
            \<and> w_ops (snd (settle_failure cfg now tag m e w)) = w_ops w
                @ [send_to_dlq (jstr (jget m ''job_type'')) (dlq_body m a (fst (error_detail e)) (type_name (ex_class e))), Ack tag]
         else j_status r' = RETRYING \<and> claimable now' r' \<and> j_attempt r' = a + 1
            \<and> w_ops (snd (settle_failure cfg now tag m e w)) = w_ops w
                @ [retry_publication (jstr (jget m ''job_type'')) (retry_body m a), Ack tag])"
proof -
  have s: "snd (error_detail e) = type_name (ex_class e)" by (simp add: error_detail_def)
  show ?thesis
    using assms s
    by (auto simp: settle_failure_db [OF assms(1,2)] settle_failure_ok [OF assms(1,2)] Let_def case_prod_beta
        will_retry_def failure_publication_def mark_failed_def mark_retrying_def bump_attempt_def row_simps
        claimable_def)
qed

theorem failure_settlement_witness:
  "\<exists>r'. jobs (w_db (snd (settle_failure sample_cfg 300 7 (jset sample_message ''_claim_token'' (JStr (u ''t'')))
        sample_timeout (sample_world PROCESSING (Some (u ''t'')))))) sample_id = Some r' \<and> j_status r' = RETRYING"
proof -
  let ?m = "jset sample_message ''_claim_token'' (JStr (u ''t''))"
  have "job_uuid ?m = Some sample_id" "message_attempt ?m = Some 1" "claim_token_of ?m = Some (u ''t'')"
    by (simp_all add: private_key_irrelevant sample_facts claim_token_of_def)
  from failure_settlement [OF this, of "sample_world PROCESSING (Some (u ''t''))"
      "sample_job_row PROCESSING (Some (u ''t''))" sample_cfg 300 7 sample_timeout]
  show ?thesis
    by (auto simp: sample_world_def sample_job_row_def sample_timeout_def sample_cfg_def classify_failure_def)
qed

text \<open>C16. Completion is fenced. The worker marks a job \<open>COMPLETED\<close>, stores its artifacts and
  acknowledges only if the row still carries its claim token; otherwise nothing changes and the
  attempt fails with the retryable lease error.\<close>

theorem completion_requires_lease:
  assumes "claim_token_of m = Some t"
  shows "if \<exists>r. jobs (w_db w) j = Some r \<and> j_claim_token r = Some t
    then (\<exists>w'. complete_job lost am now tag j m w = (Inr (), w')
       \<and> (\<exists>r'. jobs (w_db w') j = Some r' \<and> j_status r' = COMPLETED \<and> j_claim_token r' = None
             \<and> j_completed_at r' = Some now)
       \<and> (\<forall>i. i \<noteq> j \<longrightarrow> jobs (w_db w') i = jobs (w_db w) i)
       \<and> w_ops w' = w_ops w @ [Ack tag])
    else complete_job lost am now tag j m w = (Inl (lease_lost lost), w)
       \<and> classify_failure (lease_lost lost) = RETRYABLE"
  using assms
  by (auto simp: complete_job_def mark_completed_def row_simps classify_failure_def lease_lost_def Let_def
      split: option.splits if_splits)

theorem completion_requires_lease_witness:
  "complete_job ''lost'' None 200 7 sample_id (jset sample_message ''_claim_token'' (JStr (u ''t'')))
      (sample_world PROCESSING (Some (u ''other'')))
     = (Inl (lease_lost ''lost''), sample_world PROCESSING (Some (u ''other'')))"
  using completion_requires_lease [of "jset sample_message ''_claim_token'' (JStr (u ''t''))" "u ''t''"
      "sample_world PROCESSING (Some (u ''other''))" sample_id "''lost''" None 200 7]
  by (simp add: sample_facts claim_token_of_def sample_world_def sample_job_row_def)

text \<open>C17. The failure path is not fenced. A worker that lost its lease, while another worker has
  completed the job, resets the row to \<open>RETRYING\<close> on a retryable failure (its own lost lease is
  one): the completed job is claimable again and its retry message is published, so it runs a
  second time.\<close>

theorem stale_failure_reopens_completed_job:
  assumes "job_uuid m = Some j" "message_attempt m = Some a" "claim_token_of m = Some t"
    and "jobs (w_db w) j = Some r" "j_status r = COMPLETED" "j_claim_token r \<noteq> Some t"
    and "classify_failure e = RETRYABLE" "a < max_attempts cfg"
  shows "\<exists>r'. jobs (w_db (snd (settle_failure cfg now tag m e w))) j = Some r'
      \<and> j_status r' = RETRYING \<and> j_completed_at r' = None \<and> claimable now' r'
      \<and> retry_publication (jstr (jget m ''job_type'')) (retry_body m a)
          \<in> set (w_ops (snd (settle_failure cfg now tag m e w)))"
  using assms
  by (auto simp: settle_failure_db [OF assms(1,2)] settle_failure_ok [OF assms(1,2)] Let_def case_prod_beta
      will_retry_def failure_publication_def mark_failed_def mark_retrying_def bump_attempt_def row_simps
      claimable_def)

theorem stale_failure_reopens_completed_job_witness:
  "\<exists>r'. jobs (w_db (snd (settle_failure sample_cfg 300 7 (jset sample_message ''_claim_token'' (JStr (u ''t'')))
        (lease_lost ''job lease was lost before completion'') (sample_world COMPLETED None)))) sample_id = Some r'
      \<and> j_status r' = RETRYING \<and> claimable 400 r'"
proof -
  let ?m = "jset sample_message ''_claim_token'' (JStr (u ''t''))"
  have m: "job_uuid ?m = Some sample_id" "message_attempt ?m = Some 1" "claim_token_of ?m = Some (u ''t'')"
    by (simp_all add: private_key_irrelevant sample_facts claim_token_of_def)
  have "classify_failure (lease_lost ''job lease was lost before completion'') = RETRYABLE"
    by (simp add: classify_failure_def lease_lost_def)
  from stale_failure_reopens_completed_job [OF m _ _ _ this, of "sample_world COMPLETED None"
      "sample_job_row COMPLETED None" sample_cfg 300 7 400]
  show ?thesis by (auto simp: sample_world_def sample_job_row_def sample_cfg_def)
qed

text \<open>A poison message, one that does not decode or violates the job schema, never touches the job
  table: it is acknowledged after a quarantine record went to the dead-letter queue of the expected
  job type, and that record carries the true size and the first 4096 bytes of the body, unaltered.\<close>

theorem poison_message_is_quarantined:
  assumes "\<And>m. loads body = Inr m \<Longrightarrow> \<not> valid m" and "\<forall>x\<in>set body. x < 256"
  shows "\<exists>w' p. handle_delivery loads valid cfg recon triage report expected clk token tag body w = (None, w')
    \<and> w_db w' = w_db w \<and> w_metrics w' = w_metrics w \<and> w_ops w' = w_ops w @ [Publish p, Ack tag]
    \<and> pub_exchange p = DLX_EXCHANGE \<and> pub_routing_key p = qn_routing_key (queue_names expected) @ u ''.dlq''
    \<and> jget (pub_body p) ''body_size'' = JInt (int (length body))
    \<and> b64decode (jstr (jget (pub_body p) ''body_base64'')) = take 4096 body"
proof -
  obtain name where h: "handle_delivery loads valid cfg recon triage report expected clk token tag body w
      = quarantine expected body name tag w"
    using assms(1) by (cases "loads body") (auto simp: handle_delivery_def)
  have "b64decode (b64encode (take 4096 body)) = take 4096 body"
    using assms(2) by (intro b64decode_encode) (auto dest: in_set_takeD)
  then show ?thesis
    by (auto simp: h quarantine_def send_raw_to_dlq_def send_to_dlq_def jget_def)
qed

theorem poison_message_is_quarantined_witness:
  "\<exists>w' p. handle_delivery (\<lambda>b. Inl (u ''JSONDecodeError'')) sample_valid sample_cfg (\<lambda>m db. (Inr False, db))
       (\<lambda>m db. (Inr None, db)) (\<lambda>m db. (Inr None, db)) (u ''daily_report'') sample_clock (u ''t'') 7 [1, 2]
       (sample_world QUEUED None) = (None, w') \<and> w_db w' = w_db (sample_world QUEUED None)
     \<and> w_ops w' = [Publish p, Ack 7] \<and> b64decode (jstr (jget (pub_body p) ''body_base64'')) = [1, 2]"
  using poison_message_is_quarantined [of "\<lambda>b. Inl (u ''JSONDecodeError'')" "[1, 2]" sample_valid sample_cfg
      "\<lambda>m db. (Inr False, db)" "\<lambda>m db. (Inr None, db)" "\<lambda>m db. (Inr None, db)" "u ''daily_report''"
      sample_clock "u ''t''" 7 "sample_world QUEUED None"]
  by (auto simp: sample_world_def)

text \<open>Requeueing a job from the dead-letter queue does not restart it. What the worker
  dead-letters for a failed job is an abridged record; the requeue puts exactly that record back on
  the jobs exchange with attempt one, and the worker that receives it finds a schema violation and
  quarantines it again: the job is never claimed.\<close>

theorem requeued_failure_is_quarantined_again:
  assumes "schema_contract valid"
    and "requeue_one_dlq_message jt (Some (dtag, mid, dlq_body m a code safe)) = (Some payload, ops)"
    and "loads body = Inr payload"
  shows "ops = [publish_message JOBS_EXCHANGE (qn_routing_key (queue_names jt)) payload mid, Ack dtag]
    \<and> handle_delivery loads valid cfg recon triage report expected clk token tag body w
        = quarantine expected body (u ''ValidationError'') tag w"
proof -
  have p: "payload = jset (dlq_body m a code safe) ''attempt'' (JInt 1)"
    "ops = [publish_message JOBS_EXCHANGE (qn_routing_key (queue_names jt)) payload mid, Ack dtag]"
    using assms(2) by (auto simp: requeue_one_dlq_message_def Let_def)
  have "\<not> jhas payload ''skill_name''"
    by (simp add: p(1) dlq_body_def jhas_def)
  then have "\<not> valid payload"
    using schema_contractD(5) [OF assms(1), of payload "''skill_name''"] by (auto simp: schema_required_def)
  then show ?thesis using assms(3) p(2) by (simp add: handle_delivery_def)
qed

theorem requeued_failure_is_quarantined_again_witness:
  "handle_delivery (\<lambda>b. Inr (jset (dlq_body sample_message 3 (u ''HERMES_TIMEOUT'') (u ''HermesTimeout'')) ''attempt'' (JInt 1)))
       sample_valid sample_cfg (\<lambda>m db. (Inr False, db))
       (\<lambda>m db. (Inr None, db)) (\<lambda>m db. (Inr None, db)) (u ''daily_report'') sample_clock (u ''t'') 7 [1]
       (sample_world QUEUED None)
     = quarantine (u ''daily_report'') [1] (u ''ValidationError'') 7 (sample_world QUEUED None)"
  by (rule requeued_failure_is_quarantined_again [where jt = "u ''daily_report''"
        and dtag = 5 and mid = None and m = sample_message and a = 3 and code = "u ''HERMES_TIMEOUT''"
        and safe = "u ''HermesTimeout''", OF sample_schema, THEN conjunct2])
     (simp_all add: requeue_one_dlq_message_def Let_def)

end
