(* ===== verification/Outbox.thy ===== *)
theory Outbox
  imports Job_Store Job_Protocol
begin

text \<open>
  The transactional outbox: \<^verbatim>\<open>apps/api/app/jobs.py\<close> (creation of a job together with its event),
  \<^verbatim>\<open>outbox.py\<close> (dispatch of pending events, retention cleanup) and the dead-letter requeue of
  \<^verbatim>\<open>routers/admin.py\<close>. A table is the list of its rows; PostgreSQL may return rows with equal
  \<open>created_at\<close> in any order, the model takes the first in the list. What the broker answers, which
  rows other dispatchers have locked and the clock are the environment of one loop iteration.
\<close>

section \<open>Rows\<close>

record outbox_event =
  o_id :: uuid
  o_job_id :: uuid
  o_routing_key :: pystr
  o_payload :: json
  o_created_at :: time
  o_published_at :: "time option"
  o_attempt_count :: int
  o_last_error :: "pystr option"

section \<open>Creation\<close>

datatype enqueue_error = Bad_Incident_Id pystr | Message_Error message_error

text \<open>
  \<open>enqueue_job\<close>: the job row and its event, written in the caller's transaction. Fresh identifiers
  and the clock are arguments; an exception leaves both tables as they were, because the caller's
  transaction is rolled back. Of the job row only the life-cycle columns are kept; the identity
  columns repeat the message.
\<close>

definition fresh_job_row :: job_row where
  "fresh_job_row = \<lparr>j_status = QUEUED, j_attempt = 1, j_error_code = None, j_error_message = None,
     j_started_at = None, j_completed_at = None, j_claimed_at = None, j_claim_token = None,
     j_lease_expires_at = None, j_worker_id = None\<rparr>"

definition enqueue_job ::
  "(json \<Rightarrow> bool) \<Rightarrow> job_request \<Rightarrow> uuid \<Rightarrow> time \<Rightarrow> job_db \<times> outbox_event list
    \<Rightarrow> enqueue_error + (job_db \<times> outbox_event list)" where
  "enqueue_job valid req event_id now = (\<lambda>(db, events).
    (let checked = (case truthy_opt (jr_incident_id req) of
       Some i \<Rightarrow> if py_uuid i = None then Inl (Bad_Incident_Id i) else Inr ()
     | None \<Rightarrow> Inr ())
     in case checked of Inl e \<Rightarrow> Inl e | Inr _ \<Rightarrow>
       (case build_job_message valid (req\<lparr>jr_attempt := 1, jr_protocol_version := PROTOCOL_VERSION,
              jr_expected_output_type := None\<rparr>) of
          Inl e \<Rightarrow> Inl (Message_Error e)
        | Inr m \<Rightarrow> Inr (db\<lparr>jobs := (jobs db)(jr_job_id req \<mapsto> fresh_job_row)\<rparr>,
            events @ [\<lparr>o_id = event_id, o_job_id = jr_job_id req,
              o_routing_key = qn_routing_key (queue_names (jr_job_type req)), o_payload = m,
              o_created_at = now, o_published_at = None, o_attempt_count = 0, o_last_error = None\<rparr>]))))"

section \<open>Dispatch\<close>

text \<open>One iteration's environment: the rows other transactions hold, the broker's answer (an error
  text, or \<open>None\<close> for a confirm) and \<open>now()\<close>.\<close>

record dispatch_env =
  env_locked :: "uuid list"
  env_error :: "pystr option"
  env_now :: time

record outbox =
  events :: "outbox_event list"
  wire :: "(uuid \<times> chan_op) list"

definition pending :: "outbox_event \<Rightarrow> bool" where
  "pending r \<longleftrightarrow> o_published_at r = None"

text \<open>\<open>ORDER BY key LIMIT 1\<close>: the first row with the least key.\<close>

fun oldest :: "('a \<Rightarrow> time) \<Rightarrow> 'a list \<Rightarrow> 'a option" where
  "oldest key [] = None"
| "oldest key (r # rs) = (case oldest key rs of None \<Rightarrow> Some r
     | Some r' \<Rightarrow> if key r \<le> key r' then Some r else Some r')"

definition next_event :: "uuid list \<Rightarrow> uuid list \<Rightarrow> outbox_event list \<Rightarrow> outbox_event option" where
  "next_event locked failed rows =
     oldest o_created_at (filter (\<lambda>r. pending r \<and> o_id r \<notin> set failed \<and> o_id r \<notin> set locked) rows)"

definition update_event :: "uuid \<Rightarrow> (outbox_event \<Rightarrow> outbox_event) \<Rightarrow> outbox_event list \<Rightarrow> outbox_event list" where
  "update_event i f rows = map (\<lambda>r. if o_id r = i then f r else r) rows"

definition event_publication :: "outbox_event \<Rightarrow> chan_op" where
  "event_publication r = publish_message JOBS_EXCHANGE (o_routing_key r) (o_payload r) (Some (o_job_id r))"

text \<open>One transaction: claim a row, publish it, record the outcome. The result is the row claimed
  and whether it was published; \<open>None\<close> where the query found nothing.\<close>

definition dispatch_one :: "dispatch_env \<Rightarrow> uuid list \<Rightarrow> outbox \<Rightarrow> (outbox_event \<times> bool) option \<times> outbox" where
  "dispatch_one env failed s = (case next_event (env_locked env) failed (events s) of
      None \<Rightarrow> (None, s)
    | Some r \<Rightarrow> (case env_error env of
        Some err \<Rightarrow> (Some (r, False), s\<lparr>events := update_event (o_id r)
          (\<lambda>x. x\<lparr>o_attempt_count := o_attempt_count x + 1, o_last_error := Some (take 2000 err)\<rparr>) (events s)\<rparr>)
      | None \<Rightarrow> (Some (r, True), \<lparr>events = update_event (o_id r)
          (\<lambda>x. x\<lparr>o_published_at := Some (env_now env), o_last_error := None\<rparr>) (events s),
          wire = wire s @ [(o_id r, event_publication r)]\<rparr>)))"

text \<open>The loop \<open>for _ in range(batch_size)\<close>: one environment per iteration. Besides the number of
  published rows it returns the identifiers it claimed, in order.\<close>

fun dispatch_loop :: "dispatch_env list \<Rightarrow> uuid list \<Rightarrow> outbox \<Rightarrow> nat \<times> uuid list \<times> outbox" where
  "dispatch_loop [] failed s = (0, [], s)"
| "dispatch_loop (env # envs) failed s = (case dispatch_one env failed s of
      (None, s') \<Rightarrow> (0, [], s')
    | (Some (r, False), s') \<Rightarrow>
        (let (n, ids, s'') = dispatch_loop envs (o_id r # failed) s' in (n, o_id r # ids, s''))
    | (Some (r, True), s') \<Rightarrow>
        (let (n, ids, s'') = dispatch_loop envs failed s' in (Suc n, o_id r # ids, s'')))"

definition dispatch_pending_events :: "dispatch_env list \<Rightarrow> outbox \<Rightarrow> nat \<times> uuid list \<times> outbox" where
  "dispatch_pending_events envs s = dispatch_loop envs [] s"

section \<open>Retention\<close>

datatype purge_error = Negative_Retention | Non_Positive_Batch

definition day :: time where "day = 86400000000"

text \<open>Insertion sort on the order \<open>(published_at, id)\<close> of the query.\<close>

fun lex_le :: "pystr \<Rightarrow> pystr \<Rightarrow> bool" where
  "lex_le [] ys = True"
| "lex_le (x # xs) [] = False"
| "lex_le (x # xs) (y # ys) = (x < y \<or> x = y \<and> lex_le xs ys)"

definition published_before :: "outbox_event \<Rightarrow> outbox_event \<Rightarrow> bool" where
  "published_before a b \<longleftrightarrow>
    (case (o_published_at a, o_published_at b) of
       (Some x, Some y) \<Rightarrow> x < y \<or> x = y \<and> lex_le (o_id a) (o_id b)
     | _ \<Rightarrow> True)"

fun insert_event :: "outbox_event \<Rightarrow> outbox_event list \<Rightarrow> outbox_event list" where
  "insert_event r [] = [r]"
| "insert_event r (x # xs) = (if published_before r x then r # x # xs else x # insert_event r xs)"

definition expired :: "time \<Rightarrow> outbox_event \<Rightarrow> bool" where
  "expired cutoff r \<longleftrightarrow> (case o_published_at r of None \<Rightarrow> False | Some t \<Rightarrow> t < cutoff)"

definition purge_published_events ::
  "int \<Rightarrow> int \<Rightarrow> time \<Rightarrow> uuid list \<Rightarrow> outbox_event list \<Rightarrow> purge_error + (nat \<times> outbox_event list)" where
  "purge_published_events retention_days batch_size now locked rows =
    (if retention_days < 0 then Inl Negative_Retention
     else if batch_size < 1 then Inl Non_Positive_Batch
     else
      (let cutoff = now - retention_days * day;
           eligible = foldr insert_event (filter (\<lambda>r. expired cutoff r \<and> o_id r \<notin> set locked) rows) [];
           ids = map o_id (take (nat batch_size) eligible);
           rest = filter (\<lambda>r. \<not> (o_id r \<in> set ids \<and> expired cutoff r)) rows
       in Inr (length rows - length rest, rest)))"

section \<open>Dispatcher process\<close>

text \<open>The reconnect delay of the dispatcher process, in seconds, after \<open>n\<close> failures in a row.\<close>

definition RECONNECT_BACKOFF_SECONDS :: int where "RECONNECT_BACKOFF_SECONDS = 1"
definition RECONNECT_BACKOFF_MAX_SECONDS :: int where "RECONNECT_BACKOFF_MAX_SECONDS = 30"

definition next_backoff :: "int \<Rightarrow> int" where
  "next_backoff b = min (b * 2) RECONNECT_BACKOFF_MAX_SECONDS"

fun backoff_after :: "nat \<Rightarrow> int" where
  "backoff_after 0 = RECONNECT_BACKOFF_SECONDS"
| "backoff_after (Suc n) = next_backoff (backoff_after n)"

section \<open>Dead-letter requeue\<close>

definition reset_job :: "job_row \<Rightarrow> job_row" where
  "reset_job r = (if j_status r \<in> {FAILED, RETRYING, QUEUED}
     then \<lparr>j_status = QUEUED, j_attempt = 1, j_error_code = None, j_error_message = None,
       j_started_at = None, j_completed_at = None, j_claimed_at = None, j_claim_token = None,
       j_lease_expires_at = None, j_worker_id = None\<rparr>
     else r)"

text \<open>
  \<open>requeue_dlq\<close>: the number of requeued messages, the channel operations and the table. The audit
  entry is not kept. A \<open>job_id\<close> that is present but is not a UUID text raises (an internal error, 500), after the
  message was published.
\<close>

definition requeue_dlq ::
  "pystr \<Rightarrow> (nat \<times> pystr option \<times> json) option \<Rightarrow> job_db \<Rightarrow> (http_error + nat) \<times> chan_op list \<times> job_db" where
  "requeue_dlq jt got db =
    (if jt \<notin> set JOB_TYPES then (Inl (HTTP 404 (u ''Unknown job_type'')), [], db)
     else (case requeue_one_dlq_message jt got of
        (None, ops) \<Rightarrow> (Inr 0, ops, db)
      | (Some payload, ops) \<Rightarrow>
          if \<not> truthy (jget payload ''job_id'') then (Inr 1, ops, db)
          else (case py_uuid (jstr (jget payload ''job_id'')) of
              None \<Rightarrow> (Inl (HTTP 500 (u ''ValueError'')), ops, db)
            | Some j \<Rightarrow> (Inr 1, ops, (case jobs db j of None \<Rightarrow> db
                | Some r \<Rightarrow> db\<lparr>jobs := (jobs db)(j \<mapsto> reset_job r)\<rparr>)))))"

section \<open>Lemmas\<close>

lemma oldest_None_iff [simp]: "oldest key rs = None \<longleftrightarrow> rs = []"
  by (cases rs) (auto split: option.splits)

lemma oldest_Some: "oldest key rs = Some r \<Longrightarrow> r \<in> set rs \<and> (\<forall>x\<in>set rs. key r \<le> key x)"
proof (induction rs arbitrary: r)
  case (Cons a rs)
  show ?case
  proof (cases "oldest key rs")
    case None
    with Cons.prems show ?thesis by simp
  next
    case (Some b)
    with Cons.IH Cons.prems show ?thesis by (auto split: if_splits)
  qed
qed simp

lemma next_event_Some:
  assumes "next_event locked failed rows = Some r"
  shows "r \<in> set rows" "pending r" "o_id r \<notin> set failed" "o_id r \<notin> set locked"
  using oldest_Some assms unfolding next_event_def by (metis (no_types, lifting) mem_Collect_eq set_filter)+

text \<open>The columns that never change after creation.\<close>

definition identity :: "outbox_event \<Rightarrow> uuid \<times> uuid \<times> pystr \<times> json \<times> time" where
  "identity r = (o_id r, o_job_id r, o_routing_key r, o_payload r, o_created_at r)"

lemma identity_publication: "identity r = identity r' \<Longrightarrow> event_publication r = event_publication r' \<and> o_id r = o_id r'"
  by (simp add: identity_def event_publication_def)

lemma update_event_identity:
  "(\<And>r. identity (f r) = identity r) \<Longrightarrow> map identity (update_event i f rows) = map identity rows"
  by (simp add: update_event_def comp_def)

lemma update_event_id:
  assumes "\<And>r. identity (f r) = identity r"
  shows "map o_id (update_event i f rows) = map o_id rows"
proof -
  have "o_id = fst \<circ> identity" by (auto simp: identity_def)
  then show ?thesis using update_event_identity [OF assms] by (metis List.map.compositionality)
qed

lemma identity_simps [simp]:
  "identity (r\<lparr>o_attempt_count := a, o_last_error := e\<rparr>) = identity r"
  "identity (r\<lparr>o_published_at := p, o_last_error := e\<rparr>) = identity r"
  by (simp_all add: identity_def)

lemma dispatch_one_ids: "map o_id (events (snd (dispatch_one env failed s))) = map o_id (events s)"
  by (auto simp: dispatch_one_def update_event_id split: option.split)

text \<open>The claimed row, after the transaction.\<close>

lemma dispatch_one_cases:
  assumes "dispatch_one env failed s = (res, s')"
  obtains (Nothing) "res = None" "s' = s" "next_event (env_locked env) failed (events s) = None"
  | (Failed) r f where "res = Some (r, False)" "next_event (env_locked env) failed (events s) = Some r"
      "s' = s\<lparr>events := update_event (o_id r) f (events s)\<rparr>" "\<And>x. identity (f x) = identity x"
      "\<And>x. pending (f x) = pending x"
  | (Published) r f where "res = Some (r, True)" "next_event (env_locked env) failed (events s) = Some r"
      "s' = \<lparr>events = update_event (o_id r) f (events s), wire = wire s @ [(o_id r, event_publication r)]\<rparr>"
      "\<And>x. identity (f x) = identity x" "\<And>x. \<not> pending (f x)"
proof (cases "next_event (env_locked env) failed (events s)")
  case None
  with assms show thesis by (intro Nothing) (auto simp: dispatch_one_def)
next
  case (Some r)
  show thesis
  proof (cases "env_error env")
    case None
    with Some assms show thesis
      by (intro Published [of r "\<lambda>x. x\<lparr>o_published_at := Some (env_now env), o_last_error := None\<rparr>"])
         (auto simp: dispatch_one_def pending_def)
  next
    case (Some err)
    with assms \<open>next_event _ _ _ = Some r\<close> show thesis
      by (intro Failed [of r "\<lambda>x. x\<lparr>o_attempt_count := o_attempt_count x + 1, o_last_error := Some (take 2000 err)\<rparr>"])
         (auto simp: dispatch_one_def pending_def)
  qed
qed

section \<open>The outbox as a transition system\<close>

text \<open>
  Any number of API processes, dispatchers and cleanup jobs share the table; each of their
  transactions is one step. With \<open>crash\<close> a dispatcher may also die between the broker's confirm and
  its commit. \<open>failed\<close> and the environment are arbitrary, so the relation covers every dispatcher
  loop in every interleaving.
\<close>

inductive outbox_step :: "bool \<Rightarrow> outbox \<Rightarrow> outbox \<Rightarrow> bool" for crash :: bool where
  Enqueue: "enqueue_job valid req i now (db, events s) = Inr (db', evs) \<Longrightarrow> i \<notin> o_id ` set (events s)
    \<Longrightarrow> i \<notin> fst ` set (wire s) \<Longrightarrow> outbox_step crash s (s\<lparr>events := evs\<rparr>)"
| Dispatch: "dispatch_one env failed s = (res, s') \<Longrightarrow> outbox_step crash s s'"
| Purge: "purge_published_events days batch now locked (events s) = Inr (n, rest)
    \<Longrightarrow> outbox_step crash s (s\<lparr>events := rest\<rparr>)"
| Crash: "crash \<Longrightarrow> next_event locked failed (events s) = Some r
    \<Longrightarrow> outbox_step crash s (s\<lparr>wire := wire s @ [(o_id r, event_publication r)]\<rparr>)"

inductive_cases outbox_stepE: "outbox_step crash s s'"

definition outbox_inv :: "outbox \<Rightarrow> bool" where
  "outbox_inv s \<longleftrightarrow> distinct (map o_id (events s))
     \<and> (\<forall>r\<in>set (events s). \<not> pending r \<longrightarrow> (o_id r, event_publication r) \<in> set (wire s))"

definition once_inv :: "outbox \<Rightarrow> bool" where
  "once_inv s \<longleftrightarrow> distinct (map fst (wire s))
     \<and> (\<forall>r\<in>set (events s). pending r \<longrightarrow> o_id r \<notin> fst ` set (wire s))"

lemma enqueue_job_events:
  assumes "enqueue_job valid req i now (db, evs) = Inr (db', evs')"
  obtains r where "evs' = evs @ [r]" "o_id r = i" "pending r" "o_job_id r = jr_job_id req"
  using assms by (auto simp: enqueue_job_def Let_def pending_def split: option.splits sum.splits if_splits)

lemma purge_keeps:
  assumes "purge_published_events days batch now locked rows = Inr (n, rest)"
  shows "set rest \<subseteq> set rows" "distinct (map o_id rows) \<Longrightarrow> distinct (map o_id rest)"
    "r \<in> set rows \<Longrightarrow> pending r \<Longrightarrow> r \<in> set rest"
  using assms
  by (auto simp: purge_published_events_def Let_def expired_def pending_def distinct_map_filter split: if_splits)

lemma update_event_memD:
  assumes "r \<in> set (update_event i f rows)"
  obtains x where "x \<in> set rows" "r = (if o_id x = i then f x else x)"
  using assms by (auto simp: update_event_def)

lemma outbox_inv_step: "outbox_step crash s s' \<Longrightarrow> outbox_inv s \<Longrightarrow> outbox_inv s'"
proof (induction rule: outbox_step.induct)
  case (Enqueue valid req i now db s db' evs)
  from Enqueue(1) obtain r where "evs = events s @ [r]" "o_id r = i" "pending r" by (rule enqueue_job_events)
  with Enqueue show ?case by (auto simp: outbox_inv_def)
next
  case (Dispatch env failed s res s')
  from Dispatch(1) show ?case
  proof (cases rule: dispatch_one_cases)
    case Nothing
    with Dispatch show ?thesis by simp
  next
    case (Failed r f)
    with Dispatch(2) show ?thesis
      by (auto simp: outbox_inv_def update_event_id elim!: update_event_memD simp: identity_publication [OF Failed(4)]
          split: if_splits)
  next
    case (Published r f)
    have "event_publication x = event_publication r" if "x \<in> set (events s)" "o_id x = o_id r" for x
      using Dispatch(2) next_event_Some(1) [OF Published(2)] that by (auto simp: outbox_inv_def distinct_map inj_on_def)
    with Published Dispatch(2) show ?thesis
      by (auto simp: outbox_inv_def update_event_id elim!: update_event_memD
          simp: identity_publication [OF Published(4)] split: if_splits)
  qed
next
  case (Purge days batch now locked s n rest)
  with purge_keeps [OF Purge(1)] show ?case by (auto simp: outbox_inv_def)
next
  case (Crash locked failed s r)
  then show ?case by (auto simp: outbox_inv_def)
qed

lemma once_inv_step: "outbox_step crash s s' \<Longrightarrow> \<not> crash \<Longrightarrow> outbox_inv s \<Longrightarrow> once_inv s \<Longrightarrow> once_inv s'"
proof (induction rule: outbox_step.induct)
  case (Enqueue valid req i now db s db' evs)
  from Enqueue(1) obtain r where "evs = events s @ [r]" "o_id r = i" by (rule enqueue_job_events)
  with Enqueue show ?case by (auto simp: once_inv_def)
next
  case (Dispatch env failed s res s')
  from Dispatch(1) show ?case
  proof (cases rule: dispatch_one_cases)
    case Nothing
    with Dispatch show ?thesis by simp
  next
    case (Failed r f)
    have "o_id y \<notin> fst ` set (wire s)" if y: "y \<in> set (update_event (o_id r) f (events s))" "pending y" for y
    proof -
      obtain x where "x \<in> set (events s)" "y = (if o_id x = o_id r then f x else x)"
        using y(1) by (rule update_event_memD)
      moreover from this have "pending x" "o_id y = o_id x"
        using y(2) Failed(5) identity_publication [OF Failed(4)] by (auto split: if_splits)
      ultimately show ?thesis using Dispatch(4) by (auto simp: once_inv_def)
    qed
    with Dispatch(4) Failed(3) show ?thesis by (simp add: once_inv_def)
  next
    case (Published r f)
    have "o_id r \<notin> fst ` set (wire s)"
      using Dispatch(4) next_event_Some [OF Published(2)] by (auto simp: once_inv_def)
    with Published Dispatch(4) show ?thesis
      by (auto simp: once_inv_def elim!: update_event_memD split: if_splits)
  qed
next
  case (Purge days batch now locked s n rest)
  with purge_keeps(1) [OF Purge(1)] show ?case by (auto simp: once_inv_def)
next
  case (Crash locked failed s r)
  then show ?case by simp
qed

definition empty_outbox :: outbox where
  "empty_outbox = \<lparr>events = [], wire = []\<rparr>"

lemma empty_outbox_inv: "outbox_inv empty_outbox \<and> once_inv empty_outbox"
  by (simp add: outbox_inv_def once_inv_def empty_outbox_def)

lemma outbox_inv_reach: "(outbox_step crash)\<^sup>*\<^sup>* s s' \<Longrightarrow> outbox_inv s \<Longrightarrow> outbox_inv s'"
  by (induction rule: rtranclp_induct) (auto intro: outbox_inv_step)

lemma once_inv_reach:
  "(outbox_step False)\<^sup>*\<^sup>* s s' \<Longrightarrow> outbox_inv s \<Longrightarrow> once_inv s \<Longrightarrow> once_inv s'"
  by (induction rule: rtranclp_induct) (auto intro: once_inv_step outbox_inv_reach)

text \<open>An event is due (still pending, unchanged) or was handed to the broker.\<close>

definition due_or_sent :: "outbox_event \<Rightarrow> outbox \<Rightarrow> bool" where
  "due_or_sent r s \<longleftrightarrow> (\<exists>r'\<in>set (events s). pending r' \<and> identity r' = identity r)
     \<or> (o_id r, event_publication r) \<in> set (wire s)"

lemma update_event_pendingI:
  assumes "x \<in> set rows" "pending x" "\<And>y. identity (f y) = identity y"
    "o_id x = i \<Longrightarrow> pending (f x)"
  shows "\<exists>r'\<in>set (update_event i f rows). pending r' \<and> identity r' = identity x"
  using assms by (auto simp: update_event_def)

lemma due_or_sent_step:
  assumes "outbox_step crash s s'" "outbox_inv s" "due_or_sent r s"
  shows "due_or_sent r s'"
  using assms
proof (induction rule: outbox_step.induct)
  case (Enqueue valid req i now db s db' evs)
  from Enqueue(1) obtain q where "evs = events s @ [q]" by (rule enqueue_job_events)
  with Enqueue show ?case by (auto simp: due_or_sent_def)
next
  case (Dispatch env failed s res s')
  from Dispatch(1) show ?case
  proof (cases rule: dispatch_one_cases)
    case Nothing
    with Dispatch show ?thesis by simp
  next
    case (Failed q f)
    then show ?thesis
      using Dispatch(3) update_event_pendingI [OF _ _ Failed(4), of _ "events s" "o_id q"] Failed(5)
      by (fastforce simp: due_or_sent_def)
  next
    case (Published q f)
    have q: "q \<in> set (events s)" using Published(2) by (rule next_event_Some)
    show ?thesis
    proof (cases "(o_id r, event_publication r) \<in> set (wire s)")
      case False
      then obtain r' where r': "r' \<in> set (events s)" "pending r'" "identity r' = identity r"
        using Dispatch(3) by (auto simp: due_or_sent_def)
      show ?thesis
      proof (cases "o_id r' = o_id q")
        case True
        then have "r' = q" using Dispatch(2) q r'(1) by (auto simp: outbox_inv_def distinct_map inj_on_def)
        with Published identity_publication [OF r'(3)] show ?thesis by (simp add: due_or_sent_def)
      next
        case False
        with update_event_pendingI [OF r'(1,2) Published(4), of "o_id q"] Published(3) r'(3) show ?thesis
          by (auto simp: due_or_sent_def)
      qed
    qed (use Published in \<open>simp add: due_or_sent_def\<close>)
  qed
next
  case (Purge days batch now locked s n rest)
  then show ?case using purge_keeps(3) [OF Purge(1)] by (auto simp: due_or_sent_def)
next
  case (Crash locked failed s q)
  then show ?case by (auto simp: due_or_sent_def)
qed

lemma due_or_sent_reach:
  "(outbox_step crash)\<^sup>*\<^sup>* s s' \<Longrightarrow> outbox_inv s \<Longrightarrow> due_or_sent r s \<Longrightarrow> due_or_sent r s'"
proof (induction rule: rtranclp_induct)
  case (step y z)
  then show ?case using due_or_sent_step outbox_inv_reach by blast
qed simp

section \<open>One dispatcher pass\<close>

definition due_ids :: "uuid list \<Rightarrow> outbox \<Rightarrow> uuid set" where
  "due_ids failed s = {o_id r |r. r \<in> set (events s) \<and> pending r \<and> o_id r \<notin> set failed}"

lemma finite_due_ids [simp]: "finite (due_ids failed s)"
  by (rule finite_subset [of _ "o_id ` set (events s)"]) (auto simp: due_ids_def)

lemma due_ids_failed:
  assumes "\<And>x. identity (f x) = identity x" "\<And>x. pending (f x) = pending x"
  shows "due_ids (i # failed) (s\<lparr>events := update_event i f (events s)\<rparr>) = due_ids failed s - {i}"
  using identity_publication [OF assms(1)] assms(2) by (auto simp: due_ids_def update_event_def)

lemma due_ids_published:
  assumes "\<And>x. identity (f x) = identity x" "\<And>x. \<not> pending (f x)"
  shows "due_ids failed \<lparr>events = update_event i f (events s), wire = ws\<rparr> = due_ids failed s - {i}"
  using identity_publication [OF assms(1)] assms(2) by (auto simp: due_ids_def update_event_def split: if_splits)

lemma next_event_due: "next_event locked failed (events s) = Some r \<Longrightarrow> o_id r \<in> due_ids failed s"
  using next_event_Some [of locked failed "events s" r] by (auto simp: due_ids_def)

lemma next_event_None: "next_event [] failed (events s) = None \<Longrightarrow> due_ids failed s = {}"
  by (auto simp: next_event_def due_ids_def filter_empty_conv)

definition pass_ok :: "dispatch_env list \<Rightarrow> uuid list \<Rightarrow> outbox \<Rightarrow> nat \<times> uuid list \<times> outbox \<Rightarrow> bool" where
  "pass_ok envs failed s = (\<lambda>(n, ids, s').
      distinct ids \<and> set ids \<subseteq> due_ids failed s \<and> length ids \<le> length envs
    \<and> (\<exists>ws. wire s' = wire s @ ws \<and> length ws = n \<and> set (map fst ws) \<subseteq> set ids)
    \<and> ((\<forall>env\<in>set envs. env_locked env = []) \<and> card (due_ids failed s) \<le> length envs
         \<longrightarrow> set ids = due_ids failed s)
    \<and> ((\<forall>env\<in>set envs. env_error env = None) \<longrightarrow> n = length ids))"

lemma pass_ok_step:
  assumes "pass_ok envs failed' s1 (n, ids, s2)" "i \<in> due_ids failed s" "due_ids failed' s1 = due_ids failed s - {i}"
    and "wire s1 = wire s \<and> env_error env \<noteq> None \<and> k = n
       \<or> (\<exists>x. wire s1 = wire s @ [(i, x)]) \<and> k = Suc n"
  shows "pass_ok (env # envs) failed s (k, i # ids, s2)"
proof -
  have c: "card (due_ids failed s) \<le> Suc (length envs) \<Longrightarrow> card (due_ids failed' s1) \<le> length envs"
    using assms(2,3) by simp
  obtain ws where ws: "wire s2 = wire s1 @ ws" "length ws = n" "set (map fst ws) \<subseteq> set ids"
    using assms(1) by (auto simp: pass_ok_def)
  have "\<exists>ws. wire s2 = wire s @ ws \<and> length ws = k \<and> set (map fst ws) \<subseteq> set (i # ids)"
    using assms(4)
  proof
    assume "wire s1 = wire s \<and> env_error env \<noteq> None \<and> k = n"
    with ws show ?thesis by (intro exI [of _ ws]) auto
  next
    assume "(\<exists>x. wire s1 = wire s @ [(i, x)]) \<and> k = Suc n"
    then obtain x where "wire s1 = wire s @ [(i, x)]" "k = Suc n" by blast
    with ws show ?thesis by (intro exI [of _ "(i, x) # ws"]) auto
  qed
  moreover have "distinct (i # ids)" "set (i # ids) \<subseteq> due_ids failed s" "length (i # ids) \<le> length (env # envs)"
    using assms(1,2,3) by (auto simp: pass_ok_def)
  moreover have "set (i # ids) = due_ids failed s"
    if "\<forall>env\<in>set (env # envs). env_locked env = []" "card (due_ids failed s) \<le> length (env # envs)"
  proof -
    have "set ids = due_ids failed' s1" using that c assms(1) by (simp add: pass_ok_def)
    with assms(2,3) show ?thesis by auto
  qed
  moreover have "k = length (i # ids)" if "\<forall>env\<in>set (env # envs). env_error env = None"
    using that assms(1,4) by (auto simp: pass_ok_def)
  ultimately show ?thesis unfolding pass_ok_def by blast
qed

lemma dispatch_loop_pass: "pass_ok envs failed s (dispatch_loop envs failed s)"
proof (induction envs arbitrary: failed s)
  case Nil
  then show ?case by (simp add: pass_ok_def)
next
  case (Cons env envs)
  obtain res s1 where d: "dispatch_one env failed s = (res, s1)" by (cases "dispatch_one env failed s")
  then show ?case
  proof (cases rule: dispatch_one_cases)
    case Nothing
    with d next_event_None show ?thesis by (auto simp: pass_ok_def)
  next
    case (Failed r f)
    obtain n ids s2 where l: "dispatch_loop envs (o_id r # failed) s1 = (n, ids, s2)"
      by (cases "dispatch_loop envs (o_id r # failed) s1")
    have "env_error env \<noteq> None" using d Failed(1,2) by (auto simp: dispatch_one_def split: option.splits)
    with Cons.IH [of "o_id r # failed" s1] show ?thesis
      using pass_ok_step [OF _ next_event_due [OF Failed(2)]] due_ids_failed [OF Failed(4,5)] Failed(1,3) d l
      by simp
  next
    case (Published r f)
    obtain n ids s2 where l: "dispatch_loop envs failed s1 = (n, ids, s2)"
      by (cases "dispatch_loop envs failed s1")
    from Cons.IH [of failed s1] show ?thesis
      using pass_ok_step [OF _ next_event_due [OF Published(2)]] due_ids_published [OF Published(4,5)]
        Published(1,3) d l by simp
  qed
qed

definition sample_event :: outbox_event where
  "sample_event = \<lparr>o_id = u ''e1'', o_job_id = u ''j1'', o_routing_key = u ''job.daily_report'',
     o_payload = JObj [], o_created_at = 10, o_published_at = None, o_attempt_count = 0, o_last_error = None\<rparr>"

definition sample_env :: dispatch_env where
  "sample_env = \<lparr>env_locked = [], env_error = None, env_now = 20\<rparr>"

definition sample_outbox :: outbox where
  "sample_outbox = \<lparr>events = [sample_event], wire = []\<rparr>"

lemma sample_outbox_inv: "outbox_inv sample_outbox"
  by (simp add: outbox_inv_def sample_outbox_def sample_event_def pending_def)

lemma sample_dispatch_reach: "(outbox_step False)\<^sup>*\<^sup>* sample_outbox (snd (dispatch_one sample_env [] sample_outbox))"
  by (rule r_into_rtranclp, rule Dispatch) (rule surjective_pairing)

definition sample_enqueue_request :: job_request where
  "sample_enqueue_request = \<lparr>jr_job_id = u ''j1'', jr_job_type = u ''daily_report'', jr_incident_id = None,
     jr_object_refs = [], jr_model = None, jr_effort = None, jr_skill_name = u ''s'', jr_skill_version = u ''1'',
     jr_correlation_id = u ''c'', jr_attempt = 1, jr_skill_hash = None, jr_skill_execution_hash = None,
     jr_skill_snapshot_id = None, jr_protocol_version = 1, jr_expected_output_type = None, jr_ai_policy = None\<rparr>"

definition sample_enqueued :: outbox where
  "sample_enqueued = \<lparr>events = [\<lparr>o_id = u ''e1'', o_job_id = u ''j1'', o_routing_key = u ''job.daily_report'',
     o_payload = job_message_body sample_enqueue_request, o_created_at = 10, o_published_at = None,
     o_attempt_count = 0, o_last_error = None\<rparr>], wire = []\<rparr>"

lemma sample_enqueue_step: "outbox_step False empty_outbox sample_enqueued"
proof -
  have "enqueue_job (\<lambda>m. True) sample_enqueue_request (u ''e1'') 10 (\<lparr>jobs = Map.empty, reports = []\<rparr>, events empty_outbox)
      = Inr (\<lparr>jobs = [u ''j1'' \<mapsto> fresh_job_row], reports = []\<rparr>, events sample_enqueued)"
    by (simp add: enqueue_job_def truthy_opt_def build_job_message_def JOB_TYPES_def sample_enqueue_request_def
        PROTOCOL_VERSION_def sample_enqueued_def empty_outbox_def queue_names_def u_append [symmetric] Let_def)
  from Enqueue [OF this] show ?thesis by (simp add: empty_outbox_def sample_enqueued_def)
qed

section \<open>Properties\<close>





text \<open>A dispatcher pass claims a row at most once even when its publication fails, so a
  persistently failing row cannot take the turns of the others: with a batch at least as large as
  the backlog and no row locked elsewhere every pending row gets its turn. The returned number is
  the number of confirmed publications, and with a healthy broker it is the number of claimed rows.\<close>

theorem dispatch_pass_is_fair:
  assumes "dispatch_pending_events envs s = (n, ids, s')"
  shows "distinct ids \<and> length ids \<le> length envs \<and> set ids \<subseteq> {o_id r |r. r \<in> set (events s) \<and> pending r}
    \<and> length (wire s') = length (wire s) + n
    \<and> ((\<forall>env\<in>set envs. env_locked env = []) \<and> card {o_id r |r. r \<in> set (events s) \<and> pending r} \<le> length envs
         \<longrightarrow> set ids = {o_id r |r. r \<in> set (events s) \<and> pending r})
    \<and> ((\<forall>env\<in>set envs. env_error env = None) \<longrightarrow> n = length ids)"
  using dispatch_loop_pass [of envs "[]" s] assms
  by (auto simp: dispatch_pending_events_def pass_ok_def due_ids_def)

theorem dispatch_pass_is_fair_witness:
  "fst (snd (dispatch_pending_events [sample_env, sample_env] sample_outbox)) = [u ''e1'']
   \<and> distinct (fst (snd (dispatch_pending_events [sample_env, sample_env] sample_outbox)))"
proof -
  obtain n ids s' where d: "dispatch_pending_events [sample_env, sample_env] sample_outbox = (n, ids, s')"
    by (cases "dispatch_pending_events [sample_env, sample_env] sample_outbox")
  have "ids = [u ''e1'']"
    using d by (simp add: dispatch_pending_events_def dispatch_one_def next_event_def sample_outbox_def
        sample_event_def sample_env_def pending_def update_event_def)
  with dispatch_pass_is_fair [OF d] d show ?thesis by simp
qed

text \<open>Retention never touches what is still due: cleanup removes only rows whose publication is
  older than the cutoff, at most one batch of them, in the order of their publication, and it
  reports how many.\<close>

theorem purge_removes_only_expired:
  assumes "purge_published_events days batch now locked rows = Inr (n, rest)"
    and "distinct (map o_id rows)"
  shows "set rest \<subseteq> set rows \<and> n = length rows - length rest \<and> int n \<le> batch
    \<and> (\<forall>r\<in>set rows. r \<notin> set rest \<longrightarrow> (\<exists>t. o_published_at r = Some t \<and> t < now - days * day) \<and> o_id r \<notin> set locked)"
proof -
  define P where "P = expired (now - days * day)"
  define el where "el = foldr insert_event (filter (\<lambda>r. P r \<and> o_id r \<notin> set locked) rows) []"
  define ids where "ids = map o_id (take (nat batch) el)"
  have b: "batch \<ge> 1" and rest: "rest = filter (\<lambda>r. \<not> (o_id r \<in> set ids \<and> P r)) rows"
    and n: "n = length rows - length rest"
    using assms(1) by (auto simp: purge_published_events_def Let_def P_def el_def ids_def split: if_splits)
  have el_set: "set el = {r \<in> set rows. P r \<and> o_id r \<notin> set locked}"
  proof -
    have "set (insert_event x xs) = insert x (set xs)" for x xs by (induction xs) auto
    then have "set (foldr insert_event xs []) = set xs" for xs by (induction xs) auto
    then show ?thesis by (auto simp: el_def)
  qed
  have "length rows - length rest = length (filter (\<lambda>r. o_id r \<in> set ids \<and> P r) rows)"
    using sum_length_filter_compl [of "\<lambda>r. o_id r \<in> set ids \<and> P r" rows] by (simp add: rest)
  also have "\<dots> = length (map o_id (filter (\<lambda>r. o_id r \<in> set ids \<and> P r) rows))" by simp
  also have "\<dots> = card (set (map o_id (filter (\<lambda>r. o_id r \<in> set ids \<and> P r) rows)))"
    using assms(2) by (intro distinct_card [symmetric]) (rule distinct_map_filter)
  also have "\<dots> \<le> card (set ids)" by (intro card_mono) auto
  also have "\<dots> \<le> nat batch" using card_length [of ids] by (simp add: ids_def)
  finally have "int n \<le> batch" using n b by linarith
  moreover have "P r \<and> o_id r \<notin> set locked" if "r \<in> set rows" "r \<notin> set rest" for r
  proof -
    from that rest have r: "o_id r \<in> set ids" "P r" by auto
    then obtain x where "x \<in> set el" "o_id x = o_id r" by (auto simp: ids_def dest: in_set_takeD)
    with el_set r show ?thesis by auto
  qed
  ultimately show ?thesis using n rest by (auto simp: P_def expired_def split: option.splits)
qed

theorem purge_removes_only_expired_witness:
  "purge_published_events 1 10 (3 * day) [] [sample_event, sample_event\<lparr>o_id := u ''e2'', o_published_at := Some 5\<rparr>]
     = Inr (1, [sample_event]) \<and> o_published_at sample_event = None"
proof -
  let ?rows = "[sample_event, sample_event\<lparr>o_id := u ''e2'', o_published_at := Some 5\<rparr>]"
  have p: "purge_published_events 1 10 (3 * day) [] ?rows = Inr (1, [sample_event])"
    by (simp add: purge_published_events_def expired_def sample_event_def day_def)
  have "distinct (map o_id ?rows)" by (simp add: sample_event_def)
  from purge_removes_only_expired [OF p this] p show ?thesis by (simp add: sample_event_def)
qed

text \<open>An administrator's requeue never disturbs a job that is running or done: rows in
  \<open>PROCESSING\<close> or \<open>COMPLETED\<close> and all other jobs stay as they are, a failed job becomes claimable
  again with a clean lease, and the dead letter is acknowledged only after it was republished.\<close>

theorem requeue_preserves_live_jobs:
  assumes "requeue_dlq jt (Some (tag, mid, body)) db = (res, ops, db')" "jt \<in> set JOB_TYPES"
  shows "(\<exists>p. ops = [Publish p, Ack tag] \<and> pub_exchange p = JOBS_EXCHANGE \<and> pub_persistent p \<and> pub_mandatory p)
    \<and> reports db' = reports db
    \<and> (\<forall>j. jobs db' j = jobs db j
        \<or> (\<exists>r r'. jobs db j = Some r \<and> jobs db' j = Some r' \<and> py_uuid (jstr (jget body ''job_id'')) = Some j
             \<and> j_status r \<in> {FAILED, RETRYING, QUEUED} \<and> j_status r' = QUEUED \<and> j_attempt r' = 1
             \<and> j_claim_token r' = None \<and> (\<forall>now. claimable now r')))"
proof -
  let ?payload = "jset body ''attempt'' (JInt 1)"
  have j: "jget ?payload ''job_id'' = jget body ''job_id''"
    by (cases body) (simp_all add: jget_def)
  have ops: "ops = [publish_message JOBS_EXCHANGE (qn_routing_key (queue_names jt)) ?payload mid, Ack tag]"
    using assms by (auto simp: requeue_dlq_def requeue_one_dlq_message_def Let_def split: if_splits option.splits)
  have "db' = db \<or> (\<exists>i r. py_uuid (jstr (jget body ''job_id'')) = Some i \<and> jobs db i = Some r
      \<and> db' = db\<lparr>jobs := (jobs db)(i \<mapsto> reset_job r)\<rparr>)"
    using assms by (auto simp: requeue_dlq_def requeue_one_dlq_message_def Let_def j split: if_splits option.splits)
  then have "reports db' = reports db
    \<and> (\<forall>j. jobs db' j = jobs db j \<or> (\<exists>r. jobs db j = Some r \<and> jobs db' j = Some (reset_job r)
         \<and> reset_job r \<noteq> r \<and> py_uuid (jstr (jget body ''job_id'')) = Some j))"
    by (elim disjE exE conjE) auto
  moreover have "j_status r \<in> {FAILED, RETRYING, QUEUED} \<and> j_status (reset_job r) = QUEUED
      \<and> j_attempt (reset_job r) = 1 \<and> j_claim_token (reset_job r) = None \<and> (\<forall>now. claimable now (reset_job r))"
    if "reset_job r \<noteq> r" for r
    using that by (auto simp: reset_job_def claimable_def split: if_splits)
  ultimately show ?thesis unfolding ops publish_message_def by (metis (no_types, lifting) publication.select_convs)
qed

theorem requeue_preserves_live_jobs_witness:
  "case requeue_dlq (u ''daily_report'') (Some (4, None, JObj [(u ''job_id'', JStr (u ''x''))])) \<lparr>jobs = Map.empty, reports = []\<rparr>
   of (res, ops, db') \<Rightarrow> res = Inl (HTTP 500 (u ''ValueError'')) \<and> length ops = 2 \<and> jobs db' = Map.empty"
proof -
  let ?r = "requeue_dlq (u ''daily_report'') (Some (4, None, JObj [(u ''job_id'', JStr (u ''x''))])) \<lparr>jobs = Map.empty, reports = []\<rparr>"
  obtain res ops db' where r: "?r = (res, ops, db')" by (cases ?r)
  have jt: "u ''daily_report'' \<in> set JOB_TYPES" by (simp add: JOB_TYPES_def)
  have x: "py_uuid (u ''x'') = None" by code_simp
  have "res = Inl (HTTP 500 (u ''ValueError''))"
    using r jt x by (simp add: requeue_dlq_def requeue_one_dlq_message_def Let_def jget_def)
  moreover have "length ops = 2" "jobs db' = Map.empty"
    using requeue_preserves_live_jobs [OF r jt] by auto
  ultimately show ?thesis using r by simp
qed

end
