(* ===== verification/Evidence.thy ===== *)
theory Evidence
  imports Json
begin

text \<open>
  Evidence uploads, purges and their maintenance sweeps: \<^verbatim>\<open>apps/api/app/evidence_lifecycle.py\<close>,
  \<^verbatim>\<open>evidence_purge_worker.py\<close> and \<^verbatim>\<open>api/v1/routers/evidence.py\<close>, with the key layout of
  \<^verbatim>\<open>core/storage.py\<close>. Every request handler is a function on the tables; what it does to MinIO is
  the list of deletions it issues. MinIO's answers (the head of an object, the hash of a version, the
  outcome of a deletion), rows locked by other transactions, fresh identifiers and the clock are
  arguments. Audit entries are not kept.
\<close>

section \<open>Tables\<close>

datatype lifecycle_state = ACTIVE | PURGE_PENDING | PURGED

datatype intent_state = INTENT_OPEN | INTENT_EXPIRED | INTENT_COMPLETED | INTENT_CLEANED

record evidence_row =
  e_id :: uuid
  e_incident_id :: uuid
  e_type :: pystr
  e_bucket :: pystr
  e_object_key :: pystr
  e_filename :: pystr
  e_mime_type :: "pystr option"
  e_byte_size :: int
  e_sha256 :: pystr
  e_version_id :: "pystr option"
  e_uploaded_by :: uuid
  e_created_at :: time
  e_lifecycle :: lifecycle_state
  e_deleted_at :: "time option"

record intent_row =
  i_id :: uuid
  i_incident_id :: uuid
  i_created_by :: uuid
  i_bucket :: pystr
  i_object_key :: pystr
  i_type :: pystr
  i_filename :: pystr
  i_content_type :: "pystr option"
  i_byte_size :: "int option"
  i_state :: intent_state
  i_expires_at :: time
  i_evidence_id :: "uuid option"
  i_created_at :: time
  i_completed_at :: "time option"

record evidence_db =
  incident_ids :: "uuid list"
  evidence :: "evidence_row list"
  intents :: "intent_row list"
  ocr_evidence_ids :: "uuid list"
  analysis_evidence_ids :: "uuid list"
  snapshots :: "json list"

record evidence_settings =
  evidence_bucket :: pystr
  max_upload_bytes :: int
  intent_ttl_seconds :: int

datatype storage_op = DeleteObject pystr pystr "pystr option" | DeleteObjectVersions pystr pystr

datatype storage_result = Storage_Ok | Client_Error pystr | Storage_Failure

record head_info =
  h_length :: "int option"
  h_content_type :: "pystr option"
  h_version_id :: "pystr option"

definition get_evidence :: "evidence_db \<Rightarrow> uuid \<Rightarrow> evidence_row option" where
  "get_evidence db i = find_first (\<lambda>r. e_id r = i) (evidence db)"

definition update_evidence :: "uuid \<Rightarrow> (evidence_row \<Rightarrow> evidence_row) \<Rightarrow> evidence_db \<Rightarrow> evidence_db" where
  "update_evidence i f db = db\<lparr>evidence := map (\<lambda>r. if e_id r = i then f r else r) (evidence db)\<rparr>"

definition update_intent :: "uuid \<Rightarrow> (intent_row \<Rightarrow> intent_row) \<Rightarrow> evidence_db \<Rightarrow> evidence_db" where
  "update_intent i f db = db\<lparr>intents := map (\<lambda>r. if i_id r = i then f r else r) (intents db)\<rparr>"

section \<open>Object keys\<close>

text \<open>\<open>pathlib.PurePath(s).name\<close> for a POSIX path: the last component that is not empty or \<open>.\<close>.\<close>

definition path_name :: "pystr \<Rightarrow> pystr" where
  "path_name s = (case filter (\<lambda>p. p \<noteq> [] \<and> p \<noteq> u ''.'') (split_on 47 s) of [] \<Rightarrow> [] | ps \<Rightarrow> last ps)"

definition evidence_subdir :: "pystr \<Rightarrow> pystr" where
  "evidence_subdir t = (if t = u ''ALERT_SCREENSHOT'' then u ''alert''
     else if t = u ''GRAFANA_SCREENSHOT'' then u ''alert''
     else if t = u ''LOG'' then u ''logs'' else u ''supporting'')"

definition evidence_object_key :: "uuid \<Rightarrow> pystr \<Rightarrow> pystr \<Rightarrow> uuid \<Rightarrow> pystr" where
  "evidence_object_key incident_id evidence_type filename upload_id =
    (let safe = map (\<lambda>c. if c = 47 then 95 else c)
                  (path_name (map (\<lambda>c. if c = 92 then 47 else c) filename))
     in u ''incidents/'' @ incident_id @ u ''/'' @ evidence_subdir evidence_type @ u ''/''
        @ upload_id @ u ''-'' @ safe)"

section \<open>References and purges\<close>

text \<open>
  \<open>_contains_evidence_id\<close>. The identifier is the text of a UUID, so \<open>str(v) == evidence_id\<close> holds
  of strings only.
\<close>

lemma size_pair_list [termination_simp]: "x \<in> set xs \<Longrightarrow> size (snd x) < Suc (size_list (size_prod (\<lambda>x. 0) size) xs)"
  by (induction xs) (auto simp: size_prod_def split: prod.splits)

fun contains_evidence_id :: "json \<Rightarrow> pystr \<Rightarrow> bool" where
  "contains_evidence_id (JObj kvs) i = (map_of kvs (u ''evidence_id'') = Some (JStr i)
     \<or> list_ex (\<lambda>kv. contains_evidence_id (snd kv) i) kvs)"
| "contains_evidence_id (JArr xs) i = list_ex (\<lambda>x. contains_evidence_id x i) xs"
| "contains_evidence_id _ i = False"

definition references_for :: "evidence_db \<Rightarrow> uuid \<Rightarrow> pystr list" where
  "references_for db i =
     (if i \<in> set (ocr_evidence_ids db) then [u ''OCR''] else [])
   @ (if i \<in> set (analysis_evidence_ids db) then [u ''analysis''] else [])
   @ (if list_ex (\<lambda>s. contains_evidence_id s i) (snapshots db) then [u ''historical report snapshot''] else [])"

record purge_plan =
  pp_evidence_id :: uuid
  pp_bucket :: pystr
  pp_object_key :: pystr
  pp_version_id :: "pystr option"

definition purge_plan_of :: "evidence_row \<Rightarrow> purge_plan" where
  "purge_plan_of r = \<lparr>pp_evidence_id = e_id r, pp_bucket = e_bucket r, pp_object_key = e_object_key r,
     pp_version_id = e_version_id r\<rparr>"

definition tombstone :: "time \<Rightarrow> evidence_row \<Rightarrow> evidence_row" where
  "tombstone now r = r\<lparr>e_lifecycle := PURGE_PENDING,
     e_deleted_at := Some (case e_deleted_at r of Some t \<Rightarrow> t | None \<Rightarrow> now)\<rparr>"

text \<open>\<open>request_purge\<close>: the references that protect the record, or the plan and the tombstone.\<close>

definition request_purge ::
  "time \<Rightarrow> evidence_row \<Rightarrow> evidence_db \<Rightarrow> pystr list + (purge_plan \<times> evidence_db)" where
  "request_purge now r db =
    (if e_lifecycle r = PURGED then Inr (purge_plan_of r, db)
     else if references_for db (e_id r) \<noteq> [] then Inl (references_for db (e_id r))
     else Inr (purge_plan_of r, update_evidence (e_id r) (tombstone now) db))"

definition missing_codes :: "pystr list" where
  "missing_codes = [u ''404'', u ''NoSuchKey'', u ''NoSuchVersion'', u ''NotFound'']"

text \<open>\<open>purge_storage\<close>: the deletion it issues and whether it raises.\<close>

definition purge_storage :: "storage_result \<Rightarrow> purge_plan \<Rightarrow> storage_result \<times> storage_op" where
  "purge_storage outcome p =
    ((case outcome of Client_Error code \<Rightarrow> if code \<in> set missing_codes then Storage_Ok else outcome | _ \<Rightarrow> outcome),
     DeleteObject (pp_bucket p) (pp_object_key p) (truthy_opt (pp_version_id p)))"

definition mark_purged :: "uuid \<Rightarrow> evidence_db \<Rightarrow> evidence_db" where
  "mark_purged i db = update_evidence i (\<lambda>r. r\<lparr>e_lifecycle := PURGED\<rparr>) db"

section \<open>Request handlers\<close>

definition request_upload_url ::
  "evidence_settings \<Rightarrow> uuid \<Rightarrow> time \<Rightarrow> uuid \<Rightarrow> uuid \<Rightarrow> pystr \<Rightarrow> pystr \<Rightarrow> pystr option \<Rightarrow> int option
    \<Rightarrow> evidence_db \<Rightarrow> (http_error + intent_row) \<times> evidence_db" where
  "request_upload_url cfg upload_id now user incident evidence_type filename content_type expected_size db =
    (if incident \<notin> set (incident_ids db) then (Inl (HTTP 404 (u ''Incident not found'')), db)
     else if (case expected_size of Some n \<Rightarrow> n > max_upload_bytes cfg | None \<Rightarrow> False)
     then (Inl (HTTP 413 (u ''File exceeds the configured upload limit'')), db)
     else
      (let row = \<lparr>i_id = upload_id, i_incident_id = incident, i_created_by = user,
             i_bucket = evidence_bucket cfg,
             i_object_key = evidence_object_key incident evidence_type filename upload_id,
             i_type = evidence_type, i_filename = filename, i_content_type = content_type,
             i_byte_size = expected_size, i_state = INTENT_OPEN,
             i_expires_at = now + intent_ttl_seconds cfg * 1000000, i_evidence_id = None,
             i_created_at = now, i_completed_at = None\<rparr>
       in (Inr row, db\<lparr>intents := intents db @ [row]\<rparr>)))"

fun intent_state_name :: "intent_state \<Rightarrow> pystr" where
  "intent_state_name INTENT_OPEN = u ''open''"
| "intent_state_name INTENT_EXPIRED = u ''expired''"
| "intent_state_name INTENT_COMPLETED = u ''completed''"
| "intent_state_name INTENT_CLEANED = u ''cleaned''"

text \<open>The checks on the stored object, in the order of the code: an error, or the size.\<close>

definition check_object :: "evidence_settings \<Rightarrow> intent_row \<Rightarrow> head_info \<Rightarrow> http_error + int" where
  "check_object cfg it h =
    (let sz = (case h_length h of Some n \<Rightarrow> n | None \<Rightarrow> 0) in
     if (case i_byte_size it of Some n \<Rightarrow> sz \<noteq> n | None \<Rightarrow> False)
     then Inl (HTTP 400 (u ''Uploaded object size does not match the upload intent''))
     else if truthy_opt (i_content_type it) \<noteq> None \<and> h_content_type h \<noteq> i_content_type it
     then Inl (HTTP 415 (u ''Uploaded object MIME type does not match the upload intent''))
     else if sz > max_upload_bytes cfg
     then Inl (HTTP 413 (u ''File exceeds the '' @ int_str (max_upload_bytes cfg div 1048576) @ u '' MB upload limit''))
     else Inr sz)"

text \<open>The evidence row of a checked upload.\<close>

definition new_evidence ::
  "uuid \<Rightarrow> time \<Rightarrow> uuid \<Rightarrow> intent_row \<Rightarrow> head_info \<Rightarrow> int \<Rightarrow> pystr \<Rightarrow> evidence_row" where
  "new_evidence new_id now user it h sz sha =
     \<lparr>e_id = new_id, e_incident_id = i_incident_id it, e_type = i_type it, e_bucket = i_bucket it,
      e_object_key = i_object_key it, e_filename = i_filename it,
      e_mime_type = (case truthy_opt (h_content_type h) of Some c \<Rightarrow> Some c | None \<Rightarrow> i_content_type it),
      e_byte_size = sz, e_sha256 = sha, e_version_id = h_version_id h, e_uploaded_by = user,
      e_created_at = now, e_lifecycle = ACTIVE, e_deleted_at = None\<rparr>"

definition complete_open_intent ::
  "evidence_settings \<Rightarrow> (pystr \<Rightarrow> pystr \<Rightarrow> head_info option) \<Rightarrow> (pystr \<Rightarrow> pystr \<Rightarrow> pystr option \<Rightarrow> pystr)
    \<Rightarrow> uuid \<Rightarrow> time \<Rightarrow> uuid \<Rightarrow> intent_row \<Rightarrow> evidence_db
    \<Rightarrow> (http_error + evidence_row) \<times> storage_op list \<times> evidence_db" where
  "complete_open_intent cfg head sha new_id now user it db =
    (case head (i_bucket it) (i_object_key it) of
       None \<Rightarrow> (Inl (HTTP 400 (u ''Object not found in storage '' @ [8212] @
           u '' upload must complete before calling this endpoint'')), [], db)
     | Some h \<Rightarrow> (case check_object cfg it h of
         Inl e \<Rightarrow> (Inl e, [DeleteObject (i_bucket it) (i_object_key it) (truthy_opt (h_version_id h))], db)
       | Inr sz \<Rightarrow>
          (let r = new_evidence new_id now user it h sz (sha (i_bucket it) (i_object_key it) (h_version_id h))
           in (Inr r, [], update_intent (i_id it)
                (\<lambda>x. x\<lparr>i_state := INTENT_COMPLETED, i_evidence_id := Some new_id, i_completed_at := Some now\<rparr>)
                (db\<lparr>evidence := evidence db @ [r]\<rparr>)))))"

definition complete_upload ::
  "evidence_settings \<Rightarrow> (pystr \<Rightarrow> pystr \<Rightarrow> head_info option) \<Rightarrow> (pystr \<Rightarrow> pystr \<Rightarrow> pystr option \<Rightarrow> pystr)
    \<Rightarrow> uuid \<Rightarrow> time \<Rightarrow> uuid \<Rightarrow> uuid \<Rightarrow> uuid \<Rightarrow> evidence_db
    \<Rightarrow> (http_error + evidence_row) \<times> storage_op list \<times> evidence_db" where
  "complete_upload cfg head sha new_id now user incident upload_id db =
    (if incident \<notin> set (incident_ids db) then (Inl (HTTP 404 (u ''Incident not found'')), [], db)
     else (case find_first (\<lambda>x. i_id x = upload_id) (intents db) of
         None \<Rightarrow> (Inl (HTTP 404 (u ''Upload intent not found'')), [], db)
       | Some it \<Rightarrow>
          if i_incident_id it \<noteq> incident then (Inl (HTTP 404 (u ''Upload intent not found'')), [], db)
          else if i_created_by it \<noteq> user
          then (Inl (HTTP 403 (u ''Upload intent belongs to another user'')), [], db)
          else (case (if i_state it = INTENT_COMPLETED
                      then (case i_evidence_id it of None \<Rightarrow> None | Some e \<Rightarrow> get_evidence db e) else None) of
              Some existing \<Rightarrow> (Inr existing, [], db)
            | None \<Rightarrow>
                if i_state it \<noteq> INTENT_OPEN
                then (Inl (HTTP 409 (u ''Upload intent is '' @ intent_state_name (i_state it))), [], db)
                else if i_expires_at it \<le> now
                then (Inl (HTTP 410 (u ''Upload intent has expired'')), [],
                      update_intent (i_id it) (\<lambda>x. x\<lparr>i_state := INTENT_EXPIRED\<rparr>) db)
                else complete_open_intent cfg head sha new_id now user it db)))"

text \<open>\<open>ORDER BY created_at\<close>: a stable insertion sort.\<close>

fun insert_by :: "('a \<Rightarrow> time) \<Rightarrow> 'a \<Rightarrow> 'a list \<Rightarrow> 'a list" where
  "insert_by key x [] = [x]"
| "insert_by key x (y # ys) = (if key x \<le> key y then x # y # ys else y # insert_by key x ys)"

definition list_evidence :: "uuid \<Rightarrow> evidence_db \<Rightarrow> http_error + evidence_row list" where
  "list_evidence incident db =
    (if incident \<notin> set (incident_ids db) then Inl (HTTP 404 (u ''Incident not found''))
     else Inr (foldr (insert_by e_created_at)
       (filter (\<lambda>r. e_incident_id r = incident \<and> e_lifecycle r \<in> {ACTIVE, PURGE_PENDING}) (evidence db)) []))"

text \<open>The object a download URL is signed for.\<close>

definition get_download_url :: "uuid \<Rightarrow> evidence_db \<Rightarrow> http_error + (pystr \<times> pystr \<times> pystr option)" where
  "get_download_url i db = (case get_evidence db i of
      None \<Rightarrow> Inl (HTTP 404 (u ''Evidence not found''))
    | Some r \<Rightarrow> if e_lifecycle r \<noteq> ACTIVE then Inl (HTTP 410 (u ''Evidence is no longer available''))
        else Inr (e_bucket r, e_object_key r, truthy_opt (e_version_id r)))"

definition delete_evidence ::
  "storage_result \<Rightarrow> time \<Rightarrow> uuid \<Rightarrow> evidence_db \<Rightarrow> (http_error + unit) \<times> storage_op list \<times> evidence_db" where
  "delete_evidence outcome now i db = (case get_evidence db i of
      None \<Rightarrow> (Inl (HTTP 404 (u ''Evidence not found'')), [], db)
    | Some r \<Rightarrow> (case request_purge now r db of
        Inl refs \<Rightarrow> (Inl (HTTP 409 (u ''evidence is retained by: '' @ py_join (u '', '') refs)), [], db)
      | Inr (plan, db1) \<Rightarrow> (case purge_storage outcome plan of
          (Storage_Ok, x) \<Rightarrow> (Inr (), [x], mark_purged i db1)
        | (Client_Error c, x) \<Rightarrow> (Inl (HTTP 503 (u ''Evidence cleanup is pending retry'')), [x], db1)
        | (Storage_Failure, x) \<Rightarrow> (Inl (HTTP 500 []), [x], db1))))"

section \<open>Maintenance sweeps\<close>

text \<open>The first row in the order of a two-column key, \<open>NULL\<close> last.\<close>

definition key_le :: "time option \<times> time \<Rightarrow> time option \<times> time \<Rightarrow> bool" where
  "key_le a b = (case (fst a, fst b) of
      (Some x, Some y) \<Rightarrow> x < y \<or> x = y \<and> snd a \<le> snd b
    | (Some x, None) \<Rightarrow> True
    | (None, Some y) \<Rightarrow> False
    | (None, None) \<Rightarrow> snd a \<le> snd b)"

fun first_row :: "('a \<Rightarrow> time option \<times> time) \<Rightarrow> 'a list \<Rightarrow> 'a option" where
  "first_row key [] = None"
| "first_row key (r # rs) = (case first_row key rs of None \<Rightarrow> Some r
     | Some r' \<Rightarrow> if key_le (key r) (key r') then Some r else Some r')"

text \<open>One iteration: the rows other transactions hold and what MinIO answers.\<close>

record sweep_env =
  sw_locked :: "uuid list"
  sw_outcome :: storage_result

definition next_purge :: "uuid list \<Rightarrow> uuid list \<Rightarrow> evidence_db \<Rightarrow> evidence_row option" where
  "next_purge locked skipped db = first_row (\<lambda>r. (e_deleted_at r, e_created_at r))
     (filter (\<lambda>r. e_lifecycle r = PURGE_PENDING \<and> e_id r \<notin> set skipped \<and> e_id r \<notin> set locked) (evidence db))"

fun sweep_pending_purges ::
  "sweep_env list \<Rightarrow> uuid list \<Rightarrow> evidence_db \<Rightarrow> nat \<times> storage_op list \<times> evidence_db" where
  "sweep_pending_purges [] skipped db = (0, [], db)"
| "sweep_pending_purges (env # envs) skipped db = (case next_purge (sw_locked env) skipped db of
      None \<Rightarrow> (0, [], db)
    | Some r \<Rightarrow>
        if references_for db (e_id r) \<noteq> [] then sweep_pending_purges envs (e_id r # skipped) db
        else (case purge_storage (sw_outcome env) (purge_plan_of r) of
            (Storage_Ok, x) \<Rightarrow>
              (let (n, xs, db') = sweep_pending_purges envs skipped (mark_purged (e_id r) db)
               in (Suc n, x # xs, db'))
          | (_, x) \<Rightarrow> (let (n, xs, db') = sweep_pending_purges envs skipped db in (n, x # xs, db'))))"

definition next_abandoned :: "time \<Rightarrow> uuid list \<Rightarrow> uuid list \<Rightarrow> evidence_db \<Rightarrow> intent_row option" where
  "next_abandoned now locked skipped db = first_row (\<lambda>r. (Some (i_expires_at r), i_created_at r))
     (filter (\<lambda>r. i_state r \<in> {INTENT_OPEN, INTENT_EXPIRED} \<and> i_expires_at r \<le> now
        \<and> i_id r \<notin> set skipped \<and> i_id r \<notin> set locked) (intents db))"

definition identity_is_valid :: "evidence_settings \<Rightarrow> intent_row \<Rightarrow> bool" where
  "identity_is_valid cfg it \<longleftrightarrow> i_bucket it = evidence_bucket cfg
     \<and> i_object_key it = evidence_object_key (i_incident_id it) (i_type it) (i_filename it) (i_id it)"

fun sweep_abandoned_upload_intents ::
  "evidence_settings \<Rightarrow> time \<Rightarrow> sweep_env list \<Rightarrow> uuid list \<Rightarrow> evidence_db
    \<Rightarrow> nat \<times> storage_op list \<times> evidence_db" where
  "sweep_abandoned_upload_intents cfg now [] skipped db = (0, [], db)"
| "sweep_abandoned_upload_intents cfg now (env # envs) skipped db =
    (case next_abandoned now (sw_locked env) skipped db of
       None \<Rightarrow> (0, [], db)
     | Some it \<Rightarrow>
        if i_evidence_id it \<noteq> None
        then (let (n, xs, db') = sweep_abandoned_upload_intents cfg now envs skipped
                (update_intent (i_id it) (\<lambda>x. x\<lparr>i_state := INTENT_COMPLETED\<rparr>) db) in (Suc n, xs, db'))
        else if \<not> identity_is_valid cfg it
        then sweep_abandoned_upload_intents cfg now envs (i_id it # skipped)
               (update_intent (i_id it) (\<lambda>x. x\<lparr>i_state := INTENT_EXPIRED\<rparr>) db)
        else (case find_first (\<lambda>r. e_bucket r = i_bucket it \<and> e_object_key r = i_object_key it) (evidence db) of
            Some r \<Rightarrow> (let (n, xs, db') = sweep_abandoned_upload_intents cfg now envs skipped
                (update_intent (i_id it) (\<lambda>x. x\<lparr>i_state := INTENT_COMPLETED, i_evidence_id := Some (e_id r)\<rparr>) db)
                in (Suc n, xs, db'))
          | None \<Rightarrow>
             (let x = DeleteObjectVersions (i_bucket it) (i_object_key it) in
              if sw_outcome env = Storage_Ok
              then (let (n, xs, db') = sweep_abandoned_upload_intents cfg now envs skipped
                      (update_intent (i_id it) (\<lambda>x. x\<lparr>i_state := INTENT_CLEANED\<rparr>) db) in (Suc n, x # xs, db'))
              else (let (n, xs, db') = sweep_abandoned_upload_intents cfg now envs (i_id it # skipped) db
                    in (n, x # xs, db')))))"

section \<open>Lemmas\<close>

lemma first_row_None_iff [simp]: "first_row key rs = None \<longleftrightarrow> rs = []"
  by (cases rs) (auto split: option.splits)

lemma first_row_in: "first_row key rs = Some r \<Longrightarrow> r \<in> set rs"
  by (induction rs arbitrary: r) (auto split: option.splits if_splits)

lemma next_purge_Some:
  "next_purge locked skipped db = Some r \<Longrightarrow>
     r \<in> set (evidence db) \<and> e_lifecycle r = PURGE_PENDING \<and> e_id r \<notin> set skipped"
  unfolding next_purge_def by (drule first_row_in) simp

lemma next_abandoned_Some:
  "next_abandoned now locked skipped db = Some it \<Longrightarrow>
     it \<in> set (intents db) \<and> i_state it \<in> {INTENT_OPEN, INTENT_EXPIRED} \<and> i_expires_at it \<le> now"
  unfolding next_abandoned_def by (drule first_row_in) simp

lemma update_evidence_simps [simp]:
  "references_for (update_evidence i f db) = references_for db"
  "references_for (mark_purged i db) = references_for db"
  "intents (update_evidence i f db) = intents db" "incident_ids (update_evidence i f db) = incident_ids db"
  by (simp_all add: update_evidence_def mark_purged_def references_for_def fun_eq_iff)

lemma update_intent_simps [simp]: "evidence (update_intent i f db) = evidence db"
  "incident_ids (update_intent i f db) = incident_ids db"
  by (simp_all add: update_intent_def)

text \<open>A record only moves forward, and its storage identity never changes.\<close>

fun lifecycle_rank :: "lifecycle_state \<Rightarrow> nat" where
  "lifecycle_rank ACTIVE = 0"
| "lifecycle_rank PURGE_PENDING = 1"
| "lifecycle_rank PURGED = 2"

definition later :: "evidence_row \<Rightarrow> evidence_row \<Rightarrow> bool" where
  "later r r' \<longleftrightarrow> e_id r' = e_id r \<and> e_bucket r' = e_bucket r \<and> e_object_key r' = e_object_key r
     \<and> e_version_id r' = e_version_id r \<and> e_sha256 r' = e_sha256 r
     \<and> lifecycle_rank (e_lifecycle r) \<le> lifecycle_rank (e_lifecycle r')"

lemma later_refl [simp]: "later r r"
  by (simp add: later_def)

lemma later_trans: "later a b \<Longrightarrow> later b c \<Longrightarrow> later a c"
  by (auto simp: later_def)

definition advances :: "evidence_row list \<Rightarrow> evidence_row list \<Rightarrow> bool" where
  "advances rs rs' \<longleftrightarrow> length rs \<le> length rs' \<and> list_all2 later rs (take (length rs) rs')"

lemma advances_refl [simp]: "advances rs rs"
  by (simp add: advances_def list_all2_refl)

lemma advances_trans: "advances a b \<Longrightarrow> advances b c \<Longrightarrow> advances a c"
proof -
  assume a: "advances a b" and b: "advances b c"
  have "list_all2 later (take (length a) b) (take (length a) (take (length b) c))"
    using b unfolding advances_def by (intro list_all2_takeI) blast
  moreover have "take (length a) (take (length b) c) = take (length a) c"
    using a by (simp add: advances_def min_def)
  ultimately have "list_all2 later a (take (length a) c)"
    using a list_all2_trans [of later later later a "take (length a) b" "take (length a) c"] later_trans
    by (simp add: advances_def)
  then show ?thesis using a b by (simp add: advances_def)
qed

lemma advances_append [simp]: "advances rs (rs @ news)"
  by (simp add: advances_def list_all2_refl)

lemma advances_memD: "advances rs rs' \<Longrightarrow> r \<in> set rs \<Longrightarrow> \<exists>r'\<in>set rs'. later r r'"
  unfolding advances_def by (metis in_set_conv_nth in_set_takeD list_all2_conv_all_nth nth_mem)

abbreviation ids_distinct :: "evidence_db \<Rightarrow> bool" where
  "ids_distinct db \<equiv> distinct (map e_id (evidence db))"

lemma map_eid_update: "(\<And>r. e_id (f r) = e_id r) \<Longrightarrow>
   map e_id (map (\<lambda>r. if e_id r = i then f r else r) rs) = map e_id rs"
  by simp

lemma update_evidence_advances:
  assumes "\<And>x. x \<in> set (evidence db) \<Longrightarrow> e_id x = i \<Longrightarrow> later x (f x)"
  shows "advances (evidence db) (evidence (update_evidence i f db))"
  using assms by (auto simp: advances_def update_evidence_def list_all2_conv_all_nth)

lemma ids_distinct_update: "(\<And>r. e_id (f r) = e_id r) \<Longrightarrow> ids_distinct db \<Longrightarrow> ids_distinct (update_evidence i f db)"
  by (simp add: update_evidence_def comp_def if_distrib cong: if_cong)

lemma mark_purged_advances: "advances (evidence db) (evidence (mark_purged i db))"
  unfolding mark_purged_def
proof (rule update_evidence_advances)
  show "later x (x\<lparr>e_lifecycle := PURGED\<rparr>)" for x by (cases "e_lifecycle x") (simp_all add: later_def)
qed

lemma mark_purged_ids: "ids_distinct db \<Longrightarrow> ids_distinct (mark_purged i db)"
  unfolding mark_purged_def by (rule ids_distinct_update) simp

lemma get_evidence_unique:
  "ids_distinct db \<Longrightarrow> r \<in> set (evidence db) \<Longrightarrow> get_evidence db (e_id r) = Some r"
proof -
  assume d: "ids_distinct db" and r: "r \<in> set (evidence db)"
  obtain x where x: "get_evidence db (e_id r) = Some x"
    using r by (cases "get_evidence db (e_id r)") (auto simp: get_evidence_def find_first_None_iff)
  then have "x \<in> set (evidence db)" "e_id x = e_id r" by (auto simp: get_evidence_def dest: find_first_Some)
  with d r x show ?thesis by (auto simp: distinct_map inj_on_def)
qed

lemma request_purge_advances:
  assumes "ids_distinct db" "r \<in> set (evidence db)" "request_purge now r db = Inr (plan, db1)"
  shows "advances (evidence db) (evidence db1)" "ids_distinct db1" "plan = purge_plan_of r"
    "e_lifecycle r = PURGED \<or> references_for db (e_id r) = []"
proof -
  have u: "x = r" if "x \<in> set (evidence db)" "e_id x = e_id r" for x
    using assms(1,2) that by (auto simp: distinct_map inj_on_def)
  have "later r (tombstone now r)" if "e_lifecycle r \<noteq> PURGED"
    using that by (cases "e_lifecycle r") (simp_all add: later_def tombstone_def)
  with u have "advances (evidence db) (evidence (update_evidence (e_id r) (tombstone now) db))"
    if "e_lifecycle r \<noteq> PURGED" using that by (intro update_evidence_advances) auto
  then show "advances (evidence db) (evidence db1)"
    using assms(3) by (auto simp: request_purge_def split: if_splits)
  have "ids_distinct (update_evidence (e_id r) (tombstone now) db)"
    using assms(1) by (rule ids_distinct_update [rotated]) (simp add: tombstone_def)
  then show "ids_distinct db1"
    using assms(1,3) by (auto simp: request_purge_def split: if_splits)
  show "plan = purge_plan_of r" "e_lifecycle r = PURGED \<or> references_for db (e_id r) = []"
    using assms(3) by (auto simp: request_purge_def split: if_splits)
qed

lemma delete_evidence_advances:
  assumes "ids_distinct db" "delete_evidence outcome now i db = (res, ops, db')"
  shows "advances (evidence db) (evidence db') \<and> ids_distinct db'"
proof (cases "get_evidence db i")
  case None
  with assms show ?thesis by (auto simp: delete_evidence_def)
next
  case (Some r)
  then have r: "r \<in> set (evidence db)" by (auto simp: get_evidence_def dest: find_first_Some)
  show ?thesis
  proof (cases "request_purge now r db")
    case (Inl refs)
    with assms Some show ?thesis by (auto simp: delete_evidence_def)
  next
    case (Inr p)
    obtain plan db1 where p: "p = (plan, db1)" by (cases p)
    note a = request_purge_advances [OF assms(1) r Inr [unfolded p]]
    have "db' = db1 \<or> db' = mark_purged i db1"
      using assms(2) Some Inr p by (auto simp: delete_evidence_def split: prod.splits storage_result.splits)
    with a show ?thesis using advances_trans mark_purged_advances mark_purged_ids by blast
  qed
qed

lemma sweep_purge_ops:
  "sweep_pending_purges envs skipped db = (n, ops, db') \<Longrightarrow> ids_distinct db \<Longrightarrow>
     advances (evidence db) (evidence db') \<and> ids_distinct db'
   \<and> (\<forall>x\<in>set ops. \<exists>r\<in>set (evidence db). e_lifecycle r = PURGE_PENDING \<and> references_for db (e_id r) = []
         \<and> x = DeleteObject (e_bucket r) (e_object_key r) (truthy_opt (e_version_id r)))
   \<and> (\<forall>r\<in>set (evidence db). references_for db (e_id r) \<noteq> [] \<longrightarrow> r \<in> set (evidence db'))"
proof (induction envs arbitrary: skipped db n ops db')
  case Nil
  then show ?case by simp
next
  case (Cons env envs)
  show ?case
  proof (cases "next_purge (sw_locked env) skipped db")
    case None
    with Cons.prems show ?thesis by simp
  next
    case (Some r)
    note r = next_purge_Some [OF Some]
    show ?thesis
    proof (cases "references_for db (e_id r) = []")
      case False
      with Some Cons.prems have "sweep_pending_purges envs (e_id r # skipped) db = (n, ops, db')" by simp
      from Cons.IH [OF this Cons.prems(2)] show ?thesis .
    next
      case refs: True
      let ?x = "DeleteObject (e_bucket r) (e_object_key r) (truthy_opt (e_version_id r))"
      obtain res x where ps: "purge_storage (sw_outcome env) (purge_plan_of r) = (res, x)"
        by (cases "purge_storage (sw_outcome env) (purge_plan_of r)")
      then have x: "x = ?x" by (auto simp: purge_storage_def purge_plan_of_def)
      show ?thesis
      proof (cases "res = Storage_Ok")
        case True
        obtain n1 xs where s: "sweep_pending_purges envs skipped (mark_purged (e_id r) db) = (n1, xs, db')"
          and o: "ops = ?x # xs"
          using Cons.prems(1) Some refs ps x True by (auto split: prod.splits)
        note ih = Cons.IH [OF s mark_purged_ids [OF Cons.prems(2)]]
        have keep: "\<forall>q\<in>set (evidence db). references_for db (e_id q) \<noteq> [] \<longrightarrow> q \<in> set (evidence (mark_purged (e_id r) db))"
          using refs by (auto simp: mark_purged_def update_evidence_def image_iff)
        have pend: "q \<in> set (evidence (mark_purged i db)) \<Longrightarrow> e_lifecycle q = PURGE_PENDING \<Longrightarrow> q \<in> set (evidence db)" for q i
          by (auto simp: mark_purged_def update_evidence_def split: if_splits)
        have "advances (evidence db) (evidence db')"
          using ih mark_purged_advances advances_trans by blast
        moreover have "\<forall>y\<in>set ops. \<exists>q\<in>set (evidence db). e_lifecycle q = PURGE_PENDING \<and> references_for db (e_id q) = []
            \<and> y = DeleteObject (e_bucket q) (e_object_key q) (truthy_opt (e_version_id q))"
          using ih r refs pend unfolding o by (auto simp del: evidence_row.simps) (meson pend)+
        moreover have "\<forall>q\<in>set (evidence db). references_for db (e_id q) \<noteq> [] \<longrightarrow> q \<in> set (evidence db')"
          using ih keep by simp
        ultimately show ?thesis using ih by blast
      next
        case False
        obtain n1 xs where s: "sweep_pending_purges envs skipped db = (n1, xs, db')" and o: "ops = ?x # xs"
          using Cons.prems(1) Some refs ps x False by (cases res) (auto split: prod.splits)
        from Cons.IH [OF s Cons.prems(2)] r refs show ?thesis unfolding o by auto
      qed
    qed
  qed
qed

lemma sweep_intents_ops:
  "sweep_abandoned_upload_intents cfg now envs skipped db = (n, ops, db') \<Longrightarrow>
     evidence db' = evidence db
   \<and> (\<forall>x\<in>set ops. \<exists>b k. x = DeleteObjectVersions b k \<and> b = evidence_bucket cfg
        \<and> (\<forall>r\<in>set (evidence db). \<not> (e_bucket r = b \<and> e_object_key r = k)))"
proof (induction envs arbitrary: skipped db n ops db')
  case Nil
  then show ?case by simp
next
  case (Cons env envs)
  show ?case
  proof (cases "next_abandoned now (sw_locked env) skipped db")
    case None
    with Cons.prems show ?thesis by simp
  next
    case (Some it)
    let ?f = "find_first (\<lambda>r. e_bucket r = i_bucket it \<and> e_object_key r = i_object_key it) (evidence db)"
    consider (skip) f skipped' n1 where "sweep_abandoned_upload_intents cfg now envs skipped'
          (update_intent (i_id it) f db) = (n1, ops, db')"
      | (delete) skipped' f xs n1 where "sweep_abandoned_upload_intents cfg now envs skipped'
          (update_intent (i_id it) f db) = (n1, xs, db')"
          "ops = DeleteObjectVersions (i_bucket it) (i_object_key it) # xs"
          "identity_is_valid cfg it" "?f = None"
    proof (cases "i_evidence_id it = None \<and> identity_is_valid cfg it \<and> ?f = None")
      case True
      moreover have "update_intent (i_id it) (\<lambda>x. x) db = db" by (simp add: update_intent_def)
      ultimately show thesis
        using Cons.prems Some by (auto simp: Let_def split: prod.splits if_splits intro: delete [of _ "\<lambda>x. x"])
          (metis delete)+
    next
      case False
      with Cons.prems Some show thesis
        by (auto simp: Let_def split: prod.splits if_splits option.splits intro: skip)
    qed
    then show ?thesis
    proof cases
      case skip
      from Cons.IH [OF skip] show ?thesis by simp
    next
      case delete
      from Cons.IH [OF delete(1)] delete(2,3,4) show ?thesis
        by (auto simp: identity_is_valid_def find_first_None_iff)
    qed
  qed
qed

section \<open>The evidence tables as a transition system\<close>

text \<open>Every transaction that can touch the tables; the last rule is any other component, which adds
  incidents and references but never writes evidence or intents.\<close>

inductive evidence_step :: "evidence_db \<Rightarrow> evidence_db \<Rightarrow> bool" where
  Request: "request_upload_url cfg i now user inc ty fn ct sz db = (res, db') \<Longrightarrow> evidence_step db db'"
| Complete: "complete_upload cfg head sha new_id now user inc up db = (res, ops, db')
    \<Longrightarrow> new_id \<notin> e_id ` set (evidence db) \<Longrightarrow> evidence_step db db'"
| Delete: "delete_evidence outcome now i db = (res, ops, db') \<Longrightarrow> evidence_step db db'"
| SweepPurges: "sweep_pending_purges envs skipped db = (n, ops, db') \<Longrightarrow> evidence_step db db'"
| SweepIntents: "sweep_abandoned_upload_intents cfg now envs skipped db = (n, ops, db') \<Longrightarrow> evidence_step db db'"
| Other: "evidence db' = evidence db \<Longrightarrow> intents db' = intents db \<Longrightarrow> evidence_step db db'"

inductive_cases evidence_stepE: "evidence_step db db'"

text \<open>The outcomes of a completion.\<close>

lemma complete_upload_cases:
  assumes "complete_upload cfg head sha new_id now user inc up db = (res, ops, db')"
  obtains (Unchanged) "evidence db' = evidence db" "ops = []" "\<And>r. res = Inr r \<Longrightarrow> r \<in> set (evidence db) \<and> db' = db"
  | (Rejected) "evidence db' = evidence db" "\<exists>e. res = Inl e"
  | (Created) it h sz where "find_first (\<lambda>x. i_id x = up) (intents db) = Some it" "inc \<in> set (incident_ids db)"
      "i_incident_id it = inc" "i_created_by it = user" "i_state it = INTENT_OPEN" "now < i_expires_at it"
      "head (i_bucket it) (i_object_key it) = Some h" "check_object cfg it h = Inr sz"
      "res = Inr (new_evidence new_id now user it h sz (sha (i_bucket it) (i_object_key it) (h_version_id h)))"
      "ops = []"
      "db' = update_intent (i_id it)
         (\<lambda>x. x\<lparr>i_state := INTENT_COMPLETED, i_evidence_id := Some new_id, i_completed_at := Some now\<rparr>)
         (db\<lparr>evidence := evidence db
            @ [new_evidence new_id now user it h sz (sha (i_bucket it) (i_object_key it) (h_version_id h))]\<rparr>)"
proof (cases "find_first (\<lambda>x. i_id x = up) (intents db)")
  case None
  with assms show thesis by (intro Rejected) (auto simp: complete_upload_def split: if_splits)
next
  case (Some it)
  let ?ex = "if i_state it = INTENT_COMPLETED
    then (case i_evidence_id it of None \<Rightarrow> None | Some e \<Rightarrow> get_evidence db e) else None"
  show thesis
  proof (cases "inc \<in> set (incident_ids db) \<and> i_incident_id it = inc \<and> i_created_by it = user
      \<and> i_state it = INTENT_OPEN \<and> now < i_expires_at it")
    case False
    then consider (existing) r where "?ex = Some r" "res = Inr r" "ops = []" "db' = db"
      | (error) e where "res = Inl e" "evidence db' = evidence db"
      using assms Some by (cases ?ex) (auto simp: complete_upload_def split: if_splits)
    then show thesis
    proof cases
      case existing
      then have "r \<in> set (evidence db)"
        by (auto simp: get_evidence_def dest: find_first_Some split: if_splits option.splits)
      with existing show thesis by (intro Unchanged) auto
    next
      case error
      then show thesis by (intro Rejected) auto
    qed
  next
    case True
    then have c: "complete_upload cfg head sha new_id now user inc up db = complete_open_intent cfg head sha new_id now user it db"
      using Some by (simp add: complete_upload_def)
    show thesis
    proof (cases "\<exists>h sz. head (i_bucket it) (i_object_key it) = Some h \<and> check_object cfg it h = Inr sz")
      case False
      with assms c show thesis
        by (intro Rejected) (auto simp: complete_open_intent_def split: option.splits sum.splits)
    next
      case ok: True
      then obtain h sz where "head (i_bucket it) (i_object_key it) = Some h" "check_object cfg it h = Inr sz" by blast
      with True Some assms c show thesis by (intro Created) (auto simp: complete_open_intent_def Let_def)
    qed
  qed
qed

lemma evidence_step_advances:
  "evidence_step db db' \<Longrightarrow> ids_distinct db \<Longrightarrow> advances (evidence db) (evidence db') \<and> ids_distinct db'"
proof (induction rule: evidence_step.induct)
  case (Request cfg i now user inc ty fn ct sz db res db')
  then have "evidence db' = evidence db" by (auto simp: request_upload_url_def Let_def split: if_splits)
  with Request show ?case by simp
next
  case (Complete cfg head sha new_id now user inc up db res ops db')
  from Complete(1) show ?case
  proof (cases rule: complete_upload_cases)
    case (Created it h sz)
    with Complete show ?thesis by (simp add: new_evidence_def)
  qed (use Complete in simp_all)
next
  case (Delete outcome now i db res ops db')
  then show ?case by (intro delete_evidence_advances)
next
  case (SweepPurges envs skipped db n ops db')
  then show ?case using sweep_purge_ops by blast
next
  case (SweepIntents cfg now envs skipped db n ops db')
  then show ?case using sweep_intents_ops [OF SweepIntents(1)] by simp
qed simp

lemma evidence_reach_advances:
  "evidence_step\<^sup>*\<^sup>* db db' \<Longrightarrow> ids_distinct db \<Longrightarrow> advances (evidence db) (evidence db') \<and> ids_distinct db'"
proof (induction rule: rtranclp_induct)
  case (step y z)
  then show ?case using evidence_step_advances advances_trans by blast
qed simp

section \<open>Sample tables\<close>

definition sample_evidence :: "lifecycle_state \<Rightarrow> evidence_row" where
  "sample_evidence st = \<lparr>e_id = u ''e'', e_incident_id = u ''i'', e_type = u ''LOG'', e_bucket = u ''b'',
     e_object_key = u ''k'', e_filename = u ''f'', e_mime_type = None, e_byte_size = 3, e_sha256 = u ''h'',
     e_version_id = Some (u ''v''), e_uploaded_by = u ''me'', e_created_at = 5, e_lifecycle = st,
     e_deleted_at = None\<rparr>"

definition sample_edb :: "lifecycle_state \<Rightarrow> json list \<Rightarrow> evidence_db" where
  "sample_edb st sn = \<lparr>incident_ids = [u ''i''], evidence = [sample_evidence st], intents = [],
     ocr_evidence_ids = [], analysis_evidence_ids = [], snapshots = sn\<rparr>"

definition sample_snapshot :: json where
  "sample_snapshot = JObj [(u ''incidents'', JArr [JObj [(u ''evidence_id'', JStr (u ''e''))]])]"

definition sample_ecfg :: evidence_settings where
  "sample_ecfg = \<lparr>evidence_bucket = u ''b'', max_upload_bytes = 100, intent_ttl_seconds = 900\<rparr>"

lemma sample_edb_ids: "ids_distinct (sample_edb st sn)"
  by (simp add: sample_edb_def)

section \<open>Properties\<close>

text \<open>C8. Evidence that a report snapshot, an OCR run or an analysis refers to is never purged: a
  deletion request is refused with the list of references, nothing is deleted from storage and the
  record stays as it is; and a maintenance sweep, whatever it meets, leaves the record unchanged and
  deletes exactly the objects of pending records that nothing refers to.\<close>

theorem referenced_evidence_is_never_purged:
  assumes "ids_distinct db" "r \<in> set (evidence db)" "references_for db (e_id r) \<noteq> []" "e_lifecycle r \<noteq> PURGED"
  shows "delete_evidence outcome now (e_id r) db =
      (Inl (HTTP 409 (u ''evidence is retained by: '' @ py_join (u '', '') (references_for db (e_id r)))), [], db)
    \<and> (case sweep_pending_purges envs skipped db of (n, ops, db') \<Rightarrow>
        r \<in> set (evidence db')
      \<and> (\<forall>x\<in>set ops. \<exists>q\<in>set (evidence db). e_lifecycle q = PURGE_PENDING \<and> references_for db (e_id q) = []
           \<and> x = DeleteObject (e_bucket q) (e_object_key q) (truthy_opt (e_version_id q))))"
proof
  show "delete_evidence outcome now (e_id r) db =
      (Inl (HTTP 409 (u ''evidence is retained by: '' @ py_join (u '', '') (references_for db (e_id r)))), [], db)"
    using assms get_evidence_unique [OF assms(1,2)] by (simp add: delete_evidence_def request_purge_def)
  obtain n ops db' where s: "sweep_pending_purges envs skipped db = (n, ops, db')"
    by (cases "sweep_pending_purges envs skipped db")
  with sweep_purge_ops [OF s assms(1)] assms(2,3)
  show "case sweep_pending_purges envs skipped db of (n, ops, db') \<Rightarrow>
        r \<in> set (evidence db')
      \<and> (\<forall>x\<in>set ops. \<exists>q\<in>set (evidence db). e_lifecycle q = PURGE_PENDING \<and> references_for db (e_id q) = []
           \<and> x = DeleteObject (e_bucket q) (e_object_key q) (truthy_opt (e_version_id q)))"
    by auto
qed

theorem referenced_evidence_is_never_purged_witness:
  "delete_evidence Storage_Ok 9 (u ''e'') (sample_edb ACTIVE [sample_snapshot]) =
     (Inl (HTTP 409 (u ''evidence is retained by: historical report snapshot'')), [], sample_edb ACTIVE [sample_snapshot])"
proof -
  have r: "references_for (sample_edb ACTIVE [sample_snapshot]) (u ''e'') = [u ''historical report snapshot'']"
    by (simp add: references_for_def sample_edb_def sample_snapshot_def)
  have "sample_evidence ACTIVE \<in> set (evidence (sample_edb ACTIVE [sample_snapshot]))" by (simp add: sample_edb_def)
  from referenced_evidence_is_never_purged [OF sample_edb_ids this, of Storage_Ok 9] r show ?thesis
    by (simp add: sample_evidence_def u_append [symmetric])
qed



text \<open>C19. Completing an upload creates evidence only for the caller's own open and unexpired intent
  and for an object that is in storage with the announced size and type and within the limit; the
  record takes its storage identity from the server-side intent and its version and hash from
  storage. Completing it again, later, creates nothing and returns the same record.\<close>

theorem complete_upload_is_verified_and_idempotent:
  assumes "complete_upload cfg head sha new_id now user inc up db = (Inr r, ops, db')"
    and "r \<notin> set (evidence db)" "new_id \<notin> e_id ` set (evidence db)"
  shows "(\<exists>it h. it \<in> set (intents db) \<and> i_id it = up \<and> i_incident_id it = inc \<and> i_created_by it = user
        \<and> i_state it = INTENT_OPEN \<and> now < i_expires_at it
        \<and> head (i_bucket it) (i_object_key it) = Some h
        \<and> e_byte_size r \<le> max_upload_bytes cfg \<and> (\<forall>n. i_byte_size it = Some n \<longrightarrow> e_byte_size r = n)
        \<and> (\<forall>c. i_content_type it = Some c \<and> c \<noteq> [] \<longrightarrow> h_content_type h = Some c)
        \<and> e_bucket r = i_bucket it \<and> e_object_key r = i_object_key it \<and> e_version_id r = h_version_id h
        \<and> e_sha256 r = sha (i_bucket it) (i_object_key it) (h_version_id h) \<and> e_lifecycle r = ACTIVE)
    \<and> ops = [] \<and> evidence db' = evidence db @ [r]
    \<and> complete_upload cfg' head' sha' new_id' now' user inc up db' = (Inr r, [], db')"
  using assms(1)
proof (cases rule: complete_upload_cases)
  case (Created it h sz)
  have it: "it \<in> set (intents db)" "i_id it = up" using find_first_Some [OF Created(1)] by auto
  have size: "sz \<le> max_upload_bytes cfg" "\<forall>n. i_byte_size it = Some n \<longrightarrow> sz = n"
    "\<forall>c. i_content_type it = Some c \<and> c \<noteq> [] \<longrightarrow> h_content_type h = Some c"
    using Created(8) by (auto simp: check_object_def Let_def truthy_opt_def split: if_splits option.splits)
  let ?f = "\<lambda>x. x\<lparr>i_state := INTENT_COMPLETED, i_evidence_id := Some new_id, i_completed_at := Some now\<rparr>"
  have ff: "find_first (\<lambda>x. i_id x = up) (map (\<lambda>x. if i_id x = up then ?f x else x) xs) = Some (?f it)"
    if "find_first (\<lambda>x. i_id x = up) xs = Some it" for xs
    using that by (induction xs) (auto split: if_splits)
  have e: "evidence db' = evidence db @ [r]" using Created(9,11) by simp
  have "find_first (\<lambda>x. i_id x = up) (intents db') = Some (?f it)"
    using Created(11) ff [OF Created(1)] it(2) by (simp add: update_intent_def)
  moreover have "get_evidence db' new_id = Some r"
  proof -
    have "find_first (\<lambda>x. e_id x = new_id) (evidence db) = None" using assms(3) by (auto simp: find_first_None_iff)
    moreover have "e_id r = new_id" using Created(9) by (simp add: new_evidence_def)
    ultimately show ?thesis using e by (simp add: get_evidence_def find_first_append)
  qed
  moreover have "incident_ids db' = incident_ids db" using Created(11) by (simp add: update_intent_def)
  ultimately have "complete_upload cfg' head' sha' new_id' now' user inc up db' = (Inr r, [], db')"
    using Created(2,3,4) by (simp add: complete_upload_def)
  moreover have "e_byte_size r = sz" "e_bucket r = i_bucket it" "e_object_key r = i_object_key it"
      "e_version_id r = h_version_id h" "e_lifecycle r = ACTIVE"
      "e_sha256 r = sha (i_bucket it) (i_object_key it) (h_version_id h)"
    using Created(9) by (simp_all add: new_evidence_def)
  ultimately show ?thesis
    using Created(3-7,10) it size e by (intro conjI exI [of _ it] exI [of _ h]) simp_all
qed (use assms(2) in auto)

definition sample_intent :: intent_row where
  "sample_intent = \<lparr>i_id = u ''up'', i_incident_id = u ''i'', i_created_by = u ''me'', i_bucket = u ''b'',
     i_object_key = u ''k2'', i_type = u ''LOG'', i_filename = u ''f'', i_content_type = None,
     i_byte_size = Some 3, i_state = INTENT_OPEN, i_expires_at = 100, i_evidence_id = None,
     i_created_at = 1, i_completed_at = None\<rparr>"

definition sample_head :: "pystr \<Rightarrow> pystr \<Rightarrow> head_info option" where
  "sample_head b k = Some \<lparr>h_length = Some 3, h_content_type = None, h_version_id = Some (u ''v'')\<rparr>"

theorem complete_upload_is_verified_and_idempotent_witness:
  "\<exists>r db'. complete_upload sample_ecfg sample_head (\<lambda>b k v. u ''sha'') (u ''new'') 50 (u ''me'') (u ''i'') (u ''up'')
       ((sample_edb ACTIVE [])\<lparr>intents := [sample_intent]\<rparr>) = (Inr r, [], db') \<and> e_sha256 r = u ''sha''
     \<and> complete_upload sample_ecfg sample_head (\<lambda>b k v. u ''other'') (u ''new2'') 500 (u ''me'') (u ''i'') (u ''up'') db'
         = (Inr r, [], db')"
proof -
  let ?db = "(sample_edb ACTIVE [])\<lparr>intents := [sample_intent]\<rparr>"
  let ?h = "\<lparr>h_length = Some 3, h_content_type = None, h_version_id = Some (u ''v'')\<rparr>"
  let ?r = "new_evidence (u ''new'') 50 (u ''me'') sample_intent ?h 3 (u ''sha'')"
  obtain db' where c: "complete_upload sample_ecfg sample_head (\<lambda>b k v. u ''sha'') (u ''new'') 50 (u ''me'') (u ''i'') (u ''up'') ?db
      = (Inr ?r, [], db')"
    by (simp add: complete_upload_def complete_open_intent_def check_object_def sample_edb_def sample_intent_def
        sample_head_def sample_ecfg_def truthy_opt_def Let_def)
  have "?r \<notin> set (evidence ?db)" "u ''new'' \<notin> e_id ` set (evidence ?db)"
    by (simp_all add: sample_edb_def sample_evidence_def new_evidence_def)
  from complete_upload_is_verified_and_idempotent [OF c this] c show ?thesis
    by (intro exI [of _ ?r] exI [of _ db']) (auto simp: new_evidence_def)
qed

text \<open>The orphan sweep is safe: it never changes the evidence table, and everything it deletes
  from storage lies in the evidence bucket under a key that no evidence record uses, whatever rows
  other transactions hold and whatever storage answers.\<close>

theorem orphan_sweep_spares_evidence:
  "case sweep_abandoned_upload_intents cfg now envs skipped db of (n, ops, db') \<Rightarrow>
     evidence db' = evidence db
   \<and> (\<forall>x\<in>set ops. \<exists>k. x = DeleteObjectVersions (evidence_bucket cfg) k
        \<and> (\<forall>r\<in>set (evidence db). \<not> (e_bucket r = evidence_bucket cfg \<and> e_object_key r = k)))"
proof -
  obtain n ops db' where s: "sweep_abandoned_upload_intents cfg now envs skipped db = (n, ops, db')"
    by (cases "sweep_abandoned_upload_intents cfg now envs skipped db")
  with sweep_intents_ops [OF s] show ?thesis by auto
qed

theorem orphan_sweep_spares_evidence_witness:
  "evidence (snd (snd (sweep_abandoned_upload_intents sample_ecfg 200 [\<lparr>sw_locked = [], sw_outcome = Storage_Ok\<rparr>] []
      ((sample_edb ACTIVE [])\<lparr>intents := [sample_intent]\<rparr>)))) = [sample_evidence ACTIVE]"
  using orphan_sweep_spares_evidence [where cfg = sample_ecfg and now = 200 and skipped = "[]"
      and envs = "[\<lparr>sw_locked = [], sw_outcome = Storage_Ok\<rparr>]"
      and db = "(sample_edb ACTIVE [])\<lparr>intents := [sample_intent]\<rparr>"]
  by (auto simp: sample_edb_def split: prod.splits)

text \<open>One failing purge blocks the whole sweep: unlike a protected record, a record whose storage
  deletion fails is not skipped for the rest of the sweep, so while it stays the first pending one
  every iteration picks it again and no other pending record is purged, whatever the limit.\<close>

theorem failing_purge_starves_sweep:
  assumes "next_purge [] [] db = Some r" "references_for db (e_id r) = []"
    and "\<forall>env\<in>set envs. sw_locked env = [] \<and> sw_outcome env = Storage_Failure"
  shows "sweep_pending_purges envs [] db =
    (0, replicate (length envs) (DeleteObject (e_bucket r) (e_object_key r) (truthy_opt (e_version_id r))), db)"
  using assms(3)
proof (induction envs)
  case (Cons env envs)
  have e: "sw_locked env = []" "sw_outcome env = Storage_Failure" using Cons.prems by simp_all
  have "sweep_pending_purges envs [] db =
    (0, replicate (length envs) (DeleteObject (e_bucket r) (e_object_key r) (truthy_opt (e_version_id r))), db)"
    using Cons.prems by (intro Cons.IH) simp
  then show ?case using assms(1,2) by (simp add: e purge_storage_def purge_plan_of_def)
qed simp

theorem failing_purge_starves_sweep_witness:
  "sweep_pending_purges (replicate 2 \<lparr>sw_locked = [], sw_outcome = Storage_Failure\<rparr>) []
     ((sample_edb PURGE_PENDING [])\<lparr>evidence := [sample_evidence PURGE_PENDING,
         (sample_evidence PURGE_PENDING)\<lparr>e_id := u ''e2'', e_created_at := 7\<rparr>]\<rparr>)
   = (0, replicate 2 (DeleteObject (u ''b'') (u ''k'') (Some (u ''v''))),
      (sample_edb PURGE_PENDING [])\<lparr>evidence := [sample_evidence PURGE_PENDING,
         (sample_evidence PURGE_PENDING)\<lparr>e_id := u ''e2'', e_created_at := 7\<rparr>]\<rparr>)"
proof -
  let ?db = "(sample_edb PURGE_PENDING [])\<lparr>evidence := [sample_evidence PURGE_PENDING,
         (sample_evidence PURGE_PENDING)\<lparr>e_id := u ''e2'', e_created_at := 7\<rparr>]\<rparr>"
  have n: "next_purge [] [] ?db = Some (sample_evidence PURGE_PENDING)"
    by (simp add: next_purge_def sample_evidence_def key_le_def)
  have r: "references_for ?db (e_id (sample_evidence PURGE_PENDING)) = []"
    by (simp add: references_for_def sample_edb_def)
  show ?thesis
    using failing_purge_starves_sweep [OF n r, of "replicate 2 \<lparr>sw_locked = [], sw_outcome = Storage_Failure\<rparr>"]
    by (simp add: sample_evidence_def truthy_opt_def)
qed

text \<open>Object keys identify the upload: uploads with different identifiers (of equal length, as UUID
  texts are) never share a key, whatever their file names are, and a file name cannot add a path
  component.\<close>

theorem evidence_object_key_identifies_upload:
  assumes "length inc = length inc'" "length up = length up'"
    and "evidence_object_key inc ty fn up = evidence_object_key inc' ty' fn' up'"
  shows "inc = inc' \<and> up = up' \<and> evidence_subdir ty = evidence_subdir ty'"
proof -
  have *: "inc = inc' \<and> u ''/'' @ evidence_subdir ty @ u ''/'' @ up @ u ''-'' @ n
      = u ''/'' @ evidence_subdir ty' @ u ''/'' @ up' @ u ''-'' @ n' \<Longrightarrow> ?thesis" for n n'
    using assms(2) by (auto simp: evidence_subdir_def u_def split: if_splits)
  show ?thesis
    using assms(1,3) by (intro *) (auto simp: evidence_object_key_def Let_def)
qed

theorem evidence_object_key_identifies_upload_witness:
  "u ''incidents/a/logs/1-x.log'' = evidence_object_key (u ''a'') (u ''LOG'') (u ''../x.log'') (u ''1'')
   \<and> evidence_object_key (u ''a'') (u ''LOG'') (u ''x'') (u ''1'') \<noteq> evidence_object_key (u ''a'') (u ''LOG'') (u ''x'') (u ''2'')"
proof -
  have "u ''incidents/a/logs/1-x.log'' = evidence_object_key (u ''a'') (u ''LOG'') (u ''../x.log'') (u ''1'')"
    by code_simp
  moreover have "evidence_object_key (u ''a'') (u ''LOG'') (u ''x'') (u ''1'') \<noteq> evidence_object_key (u ''a'') (u ''LOG'') (u ''x'') (u ''2'')"
    using evidence_object_key_identifies_upload [of "u ''a''" "u ''a''" "u ''1''" "u ''2''" "u ''LOG''" "u ''x''" "u ''LOG''" "u ''x''"]
    by (auto simp: u_def)
  ultimately show ?thesis by blast
qed

end
