(* ===== verification/Py_Float.thy ===== *)
theory Py_Float
  imports Complex_Main "HOL-Library.Log_Nat"
begin

text \<open>
  Python floats where the sources compute percentages. A finite double is the rational it denotes;
  \<open>fl\<close> is correct rounding to 53 significant bits (to nearest, ties to even) for values in the
  normal range, which \<open>n / total\<close> and its multiples are. \<open>py_round2 x\<close> is \<open>round(x, 2)\<close>: the exact
  value rounded to two decimals, ties to even, and then to the nearest double.
\<close>

section \<open>Rounding\<close>

definition round_half_even :: "rat \<Rightarrow> int" where
  "round_half_even x = (let f = \<lfloor>x\<rfloor>; d = x - of_int f in
     if d < 1 / 2 then f else if d > 1 / 2 then f + 1 else if even f then f else f + 1)"

text \<open>\<open>\<lfloor>log\<^sub>2 x\<rfloor>\<close> of a positive rational.\<close>

definition rat_log2 :: "rat \<Rightarrow> int" where
  "rat_log2 x = (if x \<ge> 1 then int (floorlog 2 (nat \<lfloor>x\<rfloor>)) - 1 else - int (floorlog 2 (nat (\<lceil>1 / x\<rceil> - 1))))"

definition fl :: "rat \<Rightarrow> rat" where
  "fl x = (if x = 0 then 0
     else let s = (if x < 0 then - 1 else 1); a = \<bar>x\<bar>; k = power_int 2 (rat_log2 a - 52)
          in s * (of_int (round_half_even (a / k)) * k))"

definition py_round2 :: "rat \<Rightarrow> rat" where
  "py_round2 x = fl (of_int (round_half_even (x * 100)) / 100)"

definition py_round3 :: "rat \<Rightarrow> rat" where
  "py_round3 x = fl (of_int (round_half_even (x * 1000)) / 1000)"

text \<open>\<open>round((count / total) * 100, 2) if total else 0.0\<close>.\<close>

definition percentage_of :: "int \<Rightarrow> int \<Rightarrow> rat" where
  "percentage_of n m =
    (if m = 0 then 0 else py_round2 (fl (fl (of_int n / of_int m) * 100)))"

section \<open>Lemmas\<close>

lemma round_half_even_bounds: "\<lfloor>x\<rfloor> \<le> round_half_even x" "round_half_even x \<le> \<lfloor>x\<rfloor> + 1"
  by (auto simp: round_half_even_def Let_def)

lemma round_half_even_mono: "x \<le> y \<Longrightarrow> round_half_even x \<le> round_half_even y"
proof (cases "\<lfloor>x\<rfloor> = \<lfloor>y\<rfloor>")
  case True
  moreover assume "x \<le> y"
  ultimately show ?thesis by (auto simp: round_half_even_def Let_def)
next
  case False
  assume "x \<le> y"
  then have "\<lfloor>x\<rfloor> + 1 \<le> \<lfloor>y\<rfloor>" using False floor_mono [of x y] by linarith
  then show ?thesis using round_half_even_bounds [of x] round_half_even_bounds [of y] by linarith
qed

lemma round_half_even_of_int [simp]: "round_half_even (of_int i) = i"
  by (simp add: round_half_even_def)

lemma round_half_even_numeral [simp]: "round_half_even 0 = 0" "round_half_even 1 = 1"
  "round_half_even (numeral n) = numeral n"
  using round_half_even_of_int [of 0] round_half_even_of_int [of 1] round_half_even_of_int [of "numeral n"]
  by simp_all

lemma floorlog2_bounds:
  assumes "n > (0::nat)"
  shows "floorlog 2 n > 0" "(2::rat) ^ (floorlog 2 n - 1) \<le> of_nat n" "of_nat n + 1 \<le> (2::rat) ^ floorlog 2 n"
proof -
  have b: "2 ^ (floorlog 2 n - 1) \<le> n" "n < 2 ^ floorlog 2 n"
    using floorlog_bounds [OF assms, of 2] by auto
  show "floorlog 2 n > 0" using b(2) assms by (cases "floorlog 2 n") auto
  show "(2::rat) ^ (floorlog 2 n - 1) \<le> of_nat n"
    using of_nat_mono [OF b(1), where ?'a = rat] by simp
  have "Suc n \<le> 2 ^ floorlog 2 n" using b(2) by simp
  from of_nat_mono [OF this, where ?'a = rat] show "of_nat n + 1 \<le> (2::rat) ^ floorlog 2 n" by simp
qed

lemma power_int_2_nat: "power_int (2::rat) (int n) = 2 ^ n" "power_int (2::rat) (- int n) = 1 / 2 ^ n"
  by (simp_all add: power_int_minus divide_inverse)

lemma rat_log2_bounds:
  assumes "x > 0"
  shows "power_int 2 (rat_log2 x) \<le> x \<and> x < power_int 2 (rat_log2 x + 1)"
proof (cases "x \<ge> 1")
  case True
  define n where "n = nat \<lfloor>x\<rfloor>"
  have i: "of_nat n = (of_int \<lfloor>x\<rfloor> :: rat)" using True by (simp add: n_def of_nat_nat)
  have x: "of_nat n \<le> x" "x < of_nat n + 1" unfolding i by linarith+
  have "n > 0" using True by (simp add: n_def zero_less_nat_eq)
  note b = floorlog2_bounds [OF this]
  have e: "rat_log2 x = int (floorlog 2 n - 1)" "rat_log2 x + 1 = int (floorlog 2 n)"
    using True b(1) by (simp_all add: rat_log2_def n_def)
  have "(2::rat) ^ (floorlog 2 n - 1) \<le> x" "x < 2 ^ floorlog 2 n" using b(2,3) x by linarith+
  then show ?thesis unfolding e(2) unfolding e(1) power_int_2_nat by simp
next
  case False
  define n where "n = nat (\<lceil>1 / x\<rceil> - 1)"
  have "1 / x > 1" using False assms by simp
  then have c: "\<lceil>1 / x\<rceil> \<ge> 2" by linarith
  then have i: "of_nat n = (of_int (\<lceil>1 / x\<rceil> - 1) :: rat)"
    unfolding n_def by (intro of_nat_nat) linarith
  have x: "of_nat n < 1 / x" "1 / x \<le> of_nat n + 1" unfolding i by linarith+
  have "n > 0" using c by (simp add: n_def)
  note b = floorlog2_bounds [OF this]
  have e: "rat_log2 x = - int (floorlog 2 n)" "rat_log2 x + 1 = - int (floorlog 2 n - 1)"
    using False b(1) by (simp_all add: rat_log2_def n_def)
  have "1 / x \<le> 2 ^ floorlog 2 n" "2 ^ (floorlog 2 n - 1) < 1 / x" using b(2,3) x by linarith+
  then have "1 / 2 ^ floorlog 2 n \<le> x" "x < 1 / 2 ^ (floorlog 2 n - 1)"
    using assms by (simp_all add: field_simps)
  then show ?thesis unfolding e(2) unfolding e(1) power_int_2_nat by simp
qed

text \<open>On positive values: the result lies between the two powers of two around the argument.\<close>

lemma power_int_split: "power_int (2::rat) (e - 52) * 2 ^ 52 = power_int 2 e"
  by (simp add: power_int_diff)

lemma fl_pos:
  assumes "x > 0"
  shows "fl x = of_int (round_half_even (x / power_int 2 (rat_log2 x - 52))) * power_int 2 (rat_log2 x - 52)"
  using assms by (simp add: fl_def Let_def)

lemma fl_range:
  assumes "x > 0"
  shows "power_int 2 (rat_log2 x) \<le> fl x \<and> fl x \<le> power_int 2 (rat_log2 x + 1)"
proof -
  define k :: rat where "k = power_int 2 (rat_log2 x - 52)"
  have k: "k > 0" by (simp add: k_def)
  have lo: "k * 2 ^ 52 \<le> x" and hi: "x < k * 2 ^ 53"
    using rat_log2_bounds [OF assms] power_int_split [of "rat_log2 x"] power_int_split [of "rat_log2 x + 1"]
    by (simp_all add: k_def power_int_add power_int_diff)
  have "(2::rat) ^ 52 \<le> x / k" "x / k \<le> 2 ^ 53" using lo hi k by (simp_all add: field_simps)
  then have "of_int (2 ^ 52) \<le> x / k" "x / k \<le> of_int (2 ^ 53)" by simp_all
  from this [THEN round_half_even_mono]
  have "2 ^ 52 \<le> round_half_even (x / k)" "round_half_even (x / k) \<le> 2 ^ 53"
    by (simp_all only: round_half_even_of_int)
  then have "(2::rat) ^ 52 \<le> of_int (round_half_even (x / k))" "of_int (round_half_even (x / k)) \<le> (2::rat) ^ 53"
    by (metis of_int_le_iff of_int_numeral of_int_power)+
  then have "2 ^ 52 * k \<le> fl x" "fl x \<le> 2 ^ 53 * k"
    using k by (simp_all add: fl_pos [OF assms] k_def [symmetric])
  then show ?thesis
    using power_int_split [of "rat_log2 x"] by (simp add: k_def power_int_add power_int_diff)
qed

lemma rat_log2_mono:
  assumes "0 < x" "x \<le> y"
  shows "rat_log2 x \<le> rat_log2 y"
proof (rule ccontr)
  assume "\<not> ?thesis"
  then have "rat_log2 y + 1 \<le> rat_log2 x" by simp
  then have "power_int (2::rat) (rat_log2 y + 1) \<le> power_int 2 (rat_log2 x)" by (simp add: power_int_increasing)
  with rat_log2_bounds [of x] rat_log2_bounds [of y] assms show False by linarith
qed

lemma fl_zero [simp]: "fl 0 = 0"
  by (simp add: fl_def)

lemma fl_mono:
  assumes "0 \<le> x" "x \<le> y"
  shows "fl x \<le> fl y"
proof (cases "x = 0")
  case True
  show ?thesis
  proof (cases "y = 0")
    case False
    then have "0 < y" using assms by simp
    then have "0 \<le> fl y" using fl_range by (meson order_trans zero_le_power_int zero_le_numeral)
    with True show ?thesis by simp
  qed (use True in simp)
next
  case False
  then have x: "0 < x" and y: "0 < y" using assms by linarith+
  show ?thesis
  proof (cases "rat_log2 x = rat_log2 y")
    case True
    have "x / power_int 2 (rat_log2 y - 52) \<le> y / power_int 2 (rat_log2 y - 52)"
      using assms(2) by (intro divide_right_mono) simp_all
    then have "of_int (round_half_even (x / power_int 2 (rat_log2 y - 52)))
        \<le> (of_int (round_half_even (y / power_int 2 (rat_log2 y - 52))) :: rat)"
      by (intro iffD2 [OF of_int_le_iff] round_half_even_mono)
    then show ?thesis unfolding fl_pos [OF x] fl_pos [OF y] True by (intro mult_right_mono) simp_all
  next
    case False
    then have "rat_log2 x + 1 \<le> rat_log2 y" using rat_log2_mono [OF x assms(2)] by simp
    then have "power_int (2::rat) (rat_log2 x + 1) \<le> power_int 2 (rat_log2 y)" by (simp add: power_int_increasing)
    then show ?thesis using fl_range [OF x] fl_range [OF y] by linarith
  qed
qed

text \<open>Small integers are doubles: powers of two times integers below \<open>2 ^ 53\<close> are exact.\<close>

lemma fl_of_int:
  assumes "0 < i" "i < 2 ^ 53"
  shows "fl (of_int i) = of_int i"
proof -
  define e where "e = rat_log2 (of_int i)"
  have i: "(of_int i :: rat) > 0" using assms(1) by simp
  have b: "power_int 2 e \<le> (of_int i :: rat)" using rat_log2_bounds [OF i] by (simp add: e_def)
  have "e \<le> 52"
  proof (rule ccontr)
    assume "\<not> e \<le> 52"
    then have "power_int (2::rat) 53 \<le> power_int 2 e" by (intro power_int_increasing) simp_all
    with b have "(2::rat) ^ 53 \<le> of_int i" by simp
    then have "(2::int) ^ 53 \<le> i" by (metis of_int_le_iff of_int_numeral of_int_power)
    with assms(2) show False by simp
  qed
  then obtain n where n: "52 - e = int n" using zero_le_imp_eq_int [of "52 - e"] by auto
  then have k: "power_int (2::rat) (e - 52) = 1 / 2 ^ n"
    using power_int_2_nat(2) [of n] by (metis minus_diff_eq)
  have "of_int i / power_int (2::rat) (e - 52) = of_int (i * 2 ^ n)" by (simp add: k)
  then have "fl (of_int i) = of_int (i * 2 ^ n) * (1 / 2 ^ n)"
    unfolding fl_pos [OF i] e_def [symmetric] by (simp only: round_half_even_of_int k)
  then show ?thesis by simp
qed

lemma fl_one [simp]: "fl 1 = 1" and fl_hundred [simp]: "fl 100 = 100"
  using fl_of_int [of 1] fl_of_int [of 100] by simp_all

lemma fl_nonneg: "0 \<le> x \<Longrightarrow> 0 \<le> fl x"
  using fl_mono [of 0 x] by simp

lemma py_round2_bounds: "0 \<le> x \<Longrightarrow> x \<le> 100 \<Longrightarrow> 0 \<le> py_round2 x \<and> py_round2 x \<le> 100"
proof
  assume x: "0 \<le> x" "x \<le> 100"
  have "round_half_even 0 \<le> round_half_even (x * 100)" "round_half_even (x * 100) \<le> round_half_even (of_int 10000)"
    using x by (intro round_half_even_mono; simp)+
  then have r: "0 \<le> round_half_even (x * 100)" "round_half_even (x * 100) \<le> 10000"
    by (simp_all only: round_half_even_of_int round_half_even_numeral)
  then have q: "0 \<le> (of_int (round_half_even (x * 100)) / 100 :: rat)"
      "of_int (round_half_even (x * 100)) / 100 \<le> (100 :: rat)"
    by (simp_all add: divide_le_eq)
  show "0 \<le> py_round2 x" unfolding py_round2_def by (rule fl_nonneg [OF q(1)])
  show "py_round2 x \<le> 100" unfolding py_round2_def using fl_mono [OF q] by simp
qed

lemma percentage_of_bounds:
  assumes "0 \<le> n" "n \<le> m"
  shows "0 \<le> percentage_of n m \<and> percentage_of n m \<le> 100"
proof (cases "m = 0")
  case True
  then show ?thesis by (simp add: percentage_of_def)
next
  case False
  then have m: "m > 0" using assms by simp
  have q: "0 \<le> (of_int n / of_int m :: rat)" "of_int n / of_int m \<le> (1 :: rat)" using assms m by simp_all
  have f: "0 \<le> fl (of_int n / of_int m)" "fl (of_int n / of_int m) \<le> 1"
    using fl_nonneg [OF q(1)] fl_mono [OF q] by simp_all
  have "fl (fl (of_int n / of_int m) * 100) \<le> fl 100" using f by (intro fl_mono) simp_all
  then have "fl (fl (of_int n / of_int m) * 100) \<le> 100" by simp
  moreover have "0 \<le> fl (fl (of_int n / of_int m) * 100)" using f by (intro fl_nonneg) simp
  ultimately show ?thesis using False py_round2_bounds by (simp add: percentage_of_def)
qed

end
