(* ===== verification/Reconcile.thy ===== *)
theory Reconcile
  imports Json Py_Float "HOL-Library.List_Lexorder" "HOL-Library.Multiset"
begin

text \<open>
  Post-inference reconciliation of a log analysis, \<^verbatim>\<open>sandbox/preprocessing.py\<close>: the language model
  only selects entries of the log for each cause it names; \<open>_reconcile_entry_grouped_result\<close>
  replaces every number by one computed from the deterministic entry manifest. Findings are the
  dictionaries the model returned. The hash (\<open>sha256(\<dots>).hexdigest()\<close> of a UTF-8 text) and \<open>str()\<close> of
  floats and containers are functions of the environment. The code updates the dictionaries in
  place; the model returns the new ones, and on an error only the error.
\<close>

section \<open>Statistics\<close>

text \<open>The fields of one item of \<open>entry_manifest\<close>.\<close>

record log_entry =
  le_id :: int
  le_level :: "pystr option"
  le_text :: pystr
  le_pattern_id :: pystr
  le_family_id :: "pystr option"
  le_trace_id :: "pystr option"

record log_statistics =
  st_entries :: "log_entry list"
  st_total :: int

record triage_result =
  key_finds :: "json list"
  secondary_finds :: "json list"
  other_fields :: "(pystr, json) pydict"

datatype reconcile_error = Not_Integer_Ids | Unknown_Entry int | Assigned_Twice int

section \<open>Identities and counts\<close>

definition semantic_pattern_id :: "py_env \<Rightarrow> json \<Rightarrow> pystr" where
  "semantic_pattern_id env finding = u ''semantic-'' @ take 12 (sha256_hex env (u ''semantic-v1:''
     @ py_str env (por (jget finding ''id'') (JStr (u ''finding'')))))"

text \<open>\<open>entry_by_id\<close>: a later item with the same id replaces an earlier one.\<close>

definition entry_by_id :: "log_statistics \<Rightarrow> int \<Rightarrow> log_entry option" where
  "entry_by_id st i = map_of (rev (map (\<lambda>e. (le_id e, e)) (st_entries st))) i"

definition occurrence_key :: "log_statistics \<Rightarrow> int \<Rightarrow> pystr" where
  "occurrence_key st i = (case entry_by_id st i of
      Some e \<Rightarrow> (case truthy_opt (le_trace_id e) of Some t \<Rightarrow> u ''trace:'' @ t | None \<Rightarrow> u ''entry:'' @ int_str i)
    | None \<Rightarrow> u ''entry:'' @ int_str i)"

definition occurrence_count :: "log_statistics \<Rightarrow> int list \<Rightarrow> int" where
  "occurrence_count st ids = int (length (remdups (map (occurrence_key st) ids)))"

text \<open>A selected entry stands for every entry of its cause family, or of its pattern if it has none.\<close>

definition expand_entry :: "log_statistics \<Rightarrow> int \<Rightarrow> int list" where
  "expand_entry st i = (case entry_by_id st i of
      None \<Rightarrow> []
    | Some e \<Rightarrow> (case truthy_opt (le_family_id e) of
        Some f \<Rightarrow> map le_id (filter (\<lambda>x. le_family_id x = Some f) (st_entries st))
      | None \<Rightarrow> map le_id (filter (\<lambda>x. le_pattern_id x = le_pattern_id e) (st_entries st))))"

text \<open>The numbers written into a finding that owns the entries \<open>ids\<close>.\<close>

definition finding_percentage :: "log_statistics \<Rightarrow> int list \<Rightarrow> json" where
  "finding_percentage st ids = JFloat (percentage_of (int (length ids)) (st_total st))"

section \<open>Selected findings\<close>

text \<open>A list of integers, booleans excluded.\<close>

fun int_list :: "json list \<Rightarrow> int list option" where
  "int_list [] = Some []"
| "int_list (JInt i # xs) = (case int_list xs of None \<Rightarrow> None | Some is \<Rightarrow> Some (i # is))"
| "int_list _ = None"

definition raw_entry_ids :: "json \<Rightarrow> int list option" where
  "raw_entry_ids f = (case jget f ''evidence_entry_ids'' of JArr xs \<Rightarrow> int_list xs | _ \<Rightarrow> None)"

definition quantify :: "py_env \<Rightarrow> log_statistics \<Rightarrow> int list \<Rightarrow> json \<Rightarrow> json" where
  "quantify env st expanded f =
    (if expanded \<noteq> [] then
      (let f1 = jset f ''pattern_ids'' (JArr [JStr (semantic_pattern_id env f)]);
           f2 = jset f1 ''evidence_entry_ids'' (JArr (map JInt expanded));
           f3 = jset f2 ''physical_entry_count'' (JInt (int (length expanded)));
           f4 = jset f3 ''occurrence_count'' (JInt (occurrence_count st expanded));
           f5 = jset f4 ''count'' (JInt (int (length expanded)))
       in jset f5 ''percentage'' (finding_percentage st expanded))
     else jset (jset (jset f ''pattern_ids'' (JArr [JStr (u ''unquantified'')])) ''count'' JNull) ''percentage'' JNull)"

text \<open>One turn of the loop: the entries claimed afterwards and the new finding.\<close>

definition reconcile_finding ::
  "py_env \<Rightarrow> log_statistics \<Rightarrow> int list \<Rightarrow> json \<Rightarrow> reconcile_error + int list \<times> json" where
  "reconcile_finding env st claimed f =
    (if \<not> jhas f ''evidence_entry_ids'' then Inr (claimed, f)
     else (case raw_entry_ids f of
         None \<Rightarrow> Inl Not_Integer_Ids
       | Some raw \<Rightarrow>
          (let ids = uniq raw;
               unknown = filter (\<lambda>i. entry_by_id st i = None) ids;
               overlap = filter (\<lambda>i. i \<in> set claimed) ids
           in case unknown of
                i # _ \<Rightarrow> Inl (Unknown_Entry i)
              | [] \<Rightarrow>
                 if overlap \<noteq> [] then Inl (Assigned_Twice (Min (set overlap)))
                 else
                  (let expanded = sort (remdups (filter (\<lambda>i. i \<notin> set claimed) (concat (map (expand_entry st) ids))))
                   in Inr (claimed @ expanded, quantify env st expanded f)))))"

fun reconcile_findings ::
  "py_env \<Rightarrow> log_statistics \<Rightarrow> int list \<Rightarrow> json list \<Rightarrow> reconcile_error + int list \<times> json list" where
  "reconcile_findings env st claimed [] = Inr (claimed, [])"
| "reconcile_findings env st claimed (f # fs) = (case reconcile_finding env st claimed f of
      Inl e \<Rightarrow> Inl e
    | Inr (claimed1, f') \<Rightarrow> (case reconcile_findings env st claimed1 fs of
        Inl e \<Rightarrow> Inl e
      | Inr (claimed2, fs') \<Rightarrow> Inr (claimed2, f' # fs')))"

section \<open>Unclaimed entries\<close>

text \<open>Presentation of recoverable families: English label, Chinese label, English detail, Chinese
  detail.\<close>

definition RECOVERABLE_FAMILY_PRESENTATIONS :: "(pystr, pystr \<times> pystr \<times> pystr \<times> pystr) pydict" where
  "RECOVERABLE_FAMILY_PRESENTATIONS = [
   (u ''sms-opted-out'',
     u ''SMS recipient opted out'',
     [30701, 20449, 22240, 25910, 20214, 20154, 22312, 36864, 35746, 21517, 21333, 20013, 32780,
       22833, 36133],
     u ''The recipient was on the provider opt-out list; this is a business rejection rather than an infrastructure failure.'',
     [25910, 20214, 20154, 22312, 30701, 20449, 26381, 21153, 21830, 36864, 35746, 21517, 21333,
       20013, 65307, 36825, 26159, 19994, 21153, 25298, 32477, 32780, 38750, 22522, 30784, 35774,
       26045, 25925, 38556, 12290]),
   (u ''sms-invalid-destination'',
     u ''SMS destination validation failure'',
     [30701, 20449, 30446, 26631, 21495, 30721, 26684, 24335, 26657, 39564, 22833, 36133],
     u ''The SMS provider rejected the destination format, so delivery could not proceed.'',
     [30701, 20449, 26381, 21153, 21830, 25298, 32477, 20102, 30446, 26631, 21495, 30721, 26684,
       24335, 65292, 22240, 27492, 26080, 27861, 32487, 32493, 21457, 36865, 12290]),
   (u ''sms-command-failure'',
     u ''SMS provider command failure'',
     [30701, 20449, 26381, 21153, 21830, 21629, 20196, 22833, 36133],
     u ''The SMS provider returned a command or destination error while processing delivery.'',
     [30701, 20449, 26381, 21153, 21830, 22312, 22788, 29702, 21457, 36865, 26102, 36820, 22238,
       20102, 21629, 20196, 25110, 30446, 26631, 38169, 35823, 12290]),
   (u ''sms-missing-phone'',
     u ''SMS user phone number missing'',
     [30701, 20449, 29992, 25143, 25163, 26426, 21495, 32570, 22833],
     u ''The application could not send the marketing message because the user record had no phone number.'',
     [30001, 20110, 29992, 25143, 35760, 24405, 32570, 23569, 25163, 26426, 21495, 65292, 24212,
       29992, 26080, 27861, 21457, 36865, 33829, 38144, 30701, 20449, 12290]),
   (u ''face-compare-timeout'',
     u ''Face comparison timeout'',
     [20154, 33080, 27604, 23545, 36229, 26102],
     u ''The face-comparison fast path timed out and the service fell back to the alternate RunPod path.'',
     [20154, 33080, 27604, 23545, 24555, 36895, 36335, 24452, 36229, 26102, 65292, 26381, 21153,
       38477, 32423, 21040, 22791, 29992] @ u ''RunPod'' @ [36335, 24452, 12290]),
   (u ''login-account-empty'',
     u ''Login account validation empty'',
     [30331, 24405, 36134, 21495, 26657, 39564, 20026, 31354],
     u ''The login request did not resolve to an existing account; the log does not establish a broader service outage.'',
     [30331, 24405, 35831, 27714, 26410, 21305, 37197, 21040, 29616, 26377, 36134, 21495, 65307,
       26085, 24535, 26080, 27861, 35777, 26126, 36825, 26159, 26356, 24191, 27867, 30340, 26381,
       21153, 25925, 38556, 12290]),
   (u ''google-login-null'',
     u ''Google login returned null'',
     [35895, 27468, 30331, 24405, 36820, 22238, 31354, 32467, 26524],
     u ''The Google login validation returned a null result and the file does not show the underlying cause.'',
     [35895, 27468, 30331, 24405, 26657, 39564, 36820, 22238, 31354, 32467, 26524, 65292, 26085,
       24535, 26410, 35828, 26126, 20855, 20307, 21407, 22240, 12290]),
   (u ''generic:zipexception'',
     u ''Export archive creation failure'',
     [23548, 20986, 21387, 32553, 25991, 20214, 29983, 25104, 22833, 36133],
     u ''An export job could not create its archive because the input file list was empty.'',
     [23548, 20986, 20219, 21153, 22240, 36755, 20837, 25991, 20214, 21015, 34920, 20026, 31354,
       32780, 26080, 27861, 29983, 25104, 21387, 32553, 25991, 20214, 12290]),
   (u ''third-party-game-api'',
     u ''Third-party game API failure'',
     [31532, 19977, 26041, 28216, 25103, 25509, 21475, 24322, 24120],
     u ''A third-party FC/EVO game API request returned an error response; the file does not establish a shared cause with the other findings.'',
     [31532, 19977, 26041] @ u ''FC/EVO'' @ [28216, 25103, 25509, 21475, 36820, 22238, 38169,
       35823, 65307, 26085, 24535, 26080, 27861, 35777, 26126, 20854, 19982, 20854, 20182, 25925,
       38556, 20849, 20139, 21516, 19968, 26681, 22240, 12290]),
   (u ''withdrawal-order-status'',
     u ''Withdrawal order status unavailable'',
     [25552, 29616, 35746, 21333, 29366, 24577, 19981, 21487, 29992],
     u ''Withdrawal workers could not resolve the payment order status and received a null withdrawal record.'',
     [25552, 29616, 24322, 27493, 20219, 21153, 26080, 27861, 35299, 26512, 25903, 20184, 35746,
       21333, 29366, 24577, 65292, 36820, 22238, 30340, 25552, 29616, 35760, 24405, 20026, 31354,
       12290]),
   (u ''export-file-missing'',
     u ''Export file operation failure'',
     [23548, 20986, 25991, 20214, 25805, 20316, 22833, 36133],
     u ''An export task reported a missing output file after attempting to complete the export.'',
     [23548, 20986, 20219, 21153, 23436, 25104, 21518, 26410, 25214, 21040, 39044, 26399, 30340,
       36755, 20986, 25991, 20214, 12290]),
   (u ''generic:resourceaccessexception:sslexception'',
     u ''Third-party game API transport failure'',
     [31532, 19977, 26041, 28216, 25103, 25509, 21475, 20256, 36755, 22833, 36133],
     u ''A third-party game API request failed during transport with a resource-access/SSL exception.'',
     [31532, 19977, 26041, 28216, 25103, 25509, 21475, 35831, 27714, 22312, 20256, 36755, 38454,
       27573, 22240, 36164, 28304, 35775, 38382, 25110] @ u ''SSL'' @ [24322, 24120, 22833, 36133,
       12290])]"

definition fallback_finding ::
  "py_env \<Rightarrow> log_statistics \<Rightarrow> pystr \<Rightarrow> pystr \<times> pystr \<times> pystr \<times> pystr \<Rightarrow> int list \<Rightarrow> json" where
  "fallback_finding env st ident p ids = (case p of (label_en, label_zh, detail_en, detail_zh) \<Rightarrow>
     (let f = JObj [(u ''id'', JStr ident), (u ''label_en'', JStr label_en), (u ''label_zh'', JStr label_zh),
            (u ''count'', JInt (int (length ids))), (u ''percentage'', finding_percentage st ids),
            (u ''physical_entry_count'', JInt (int (length ids))),
            (u ''occurrence_count'', JInt (occurrence_count st ids)), (u ''pattern_ids'', JArr []),
            (u ''evidence_entry_ids'', JArr (map JInt ids)), (u ''detail_en'', JStr detail_en),
            (u ''detail_zh'', JStr detail_zh)]
      in jset f ''pattern_ids'' (JArr [JStr (semantic_pattern_id env f)])))"

definition OTHER_ACTIVITY :: "pystr \<times> pystr \<times> pystr \<times> pystr" where
  "OTHER_ACTIVITY = (u ''Other observed log activity'',
     [20854, 20182, 26085, 24535, 27963, 21160],
     u ''These records were not assigned to a named semantic cause, so they remain included for complete evidence accounting.'',
     [36825, 20123, 35760, 24405, 26410, 34987, 20998, 37197, 21040, 24050, 21629, 21517,
         30340, 35821, 20041, 25925, 38556, 65292, 20294, 20173, 20445, 30041, 22312, 32467, 26524,
         20013, 20197, 30830, 20445, 23436, 25972, 35777, 25454, 32479, 35745, 12290])"

definition family_of :: "log_statistics \<Rightarrow> int \<Rightarrow> pystr" where
  "family_of st i = (case entry_by_id st i of
     Some e \<Rightarrow> (case le_family_id e of Some f \<Rightarrow> f | None \<Rightarrow> u ''other'') | None \<Rightarrow> u ''other'')"

definition recoverable :: "pystr \<times> int list \<Rightarrow> bool" where
  "recoverable g \<longleftrightarrow> map_of RECOVERABLE_FAMILY_PRESENTATIONS (fst g) \<noteq> None"

text \<open>The findings appended for the entries no finding claimed.\<close>

definition fallback_findings :: "py_env \<Rightarrow> log_statistics \<Rightarrow> int list \<Rightarrow> json list" where
  "fallback_findings env st unclaimed =
    (let groups = sort_key fst (group_by (family_of st) unclaimed);
         remaining = concat (map snd (filter (\<lambda>g. \<not> recoverable g) groups))
     in map (\<lambda>(family, ids). fallback_finding env st (u ''recovered-'' @ family)
              (the (map_of RECOVERABLE_FAMILY_PRESENTATIONS family)) ids) (filter recoverable groups)
        @ (if remaining \<noteq> [] then [fallback_finding env st (u ''other-observed-log-activity'') OTHER_ACTIVITY remaining]
           else []))"

definition reconcile_entry_grouped_result ::
  "py_env \<Rightarrow> log_statistics \<Rightarrow> triage_result \<Rightarrow> reconcile_error + triage_result" where
  "reconcile_entry_grouped_result env st res =
    (case reconcile_findings env st [] (key_finds res @ secondary_finds res) of
       Inl e \<Rightarrow> Inl e
     | Inr (claimed, fs) \<Rightarrow>
        (let n = length (key_finds res);
             unclaimed = sort (filter (\<lambda>i. i \<notin> set claimed) (remdups (map le_id (st_entries st))))
         in Inr \<lparr>key_finds = take n fs,
              secondary_finds = drop n fs @ (if unclaimed \<noteq> [] then fallback_findings env st unclaimed else []),
              other_fields = AList.update (u ''total_entries'') (JInt (st_total st)) (other_fields res)\<rparr>))"

section \<open>Lemmas\<close>

definition manifest_ids :: "log_statistics \<Rightarrow> int list" where
  "manifest_ids st = map le_id (st_entries st)"

text \<open>What \<open>preprocess_log\<close> produces: the entries are numbered, and their number is the total.\<close>

definition wf_statistics :: "log_statistics \<Rightarrow> bool" where
  "wf_statistics st \<longleftrightarrow> manifest_ids st = map int [0..<length (st_entries st)]
     \<and> st_total st = int (length (st_entries st))"

lemma wf_statistics_distinct: "wf_statistics st \<Longrightarrow> distinct (manifest_ids st)"
  by (simp add: wf_statistics_def distinct_map inj_on_def)

lemma wf_statistics_nonneg: "wf_statistics st \<Longrightarrow> i \<in> set (manifest_ids st) \<Longrightarrow> 0 \<le> i"
  by (auto simp: wf_statistics_def)

definition evidence_ids :: "json \<Rightarrow> int list" where
  "evidence_ids f = (case raw_entry_ids f of None \<Rightarrow> [] | Some is \<Rightarrow> is)"

lemma int_list_map [simp]: "int_list (map JInt is) = Some is"
  by (induction "is") auto

lemma entry_by_id_ids: "entry_by_id st i = Some e \<Longrightarrow> e \<in> set (st_entries st) \<and> le_id e = i"
  by (auto simp: entry_by_id_def dest: map_of_SomeD)

lemma entry_by_id_None_iff: "entry_by_id st i = None \<longleftrightarrow> i \<notin> set (manifest_ids st)"
  by (force simp: entry_by_id_def manifest_ids_def map_of_eq_None_iff)

lemma entry_by_id_unique:
  assumes "distinct (manifest_ids st)" "e \<in> set (st_entries st)"
  shows "entry_by_id st (le_id e) = Some e"
proof -
  have "map fst (rev (map (\<lambda>e. (le_id e, e)) (st_entries st))) = rev (manifest_ids st)"
    by (simp add: manifest_ids_def rev_map comp_def)
  then have "distinct (map fst (rev (map (\<lambda>e. (le_id e, e)) (st_entries st))))" using assms(1) by simp
  moreover have "(le_id e, e) \<in> set (rev (map (\<lambda>e. (le_id e, e)) (st_entries st)))" using assms(2) by simp
  ultimately show ?thesis unfolding entry_by_id_def by (rule map_of_is_SomeI)
qed

lemma expand_entry_subset: "set (expand_entry st i) \<subseteq> set (manifest_ids st)"
  by (auto simp: expand_entry_def manifest_ids_def split: option.splits)

lemma expand_entry_self:
  assumes "entry_by_id st i \<noteq> None"
  shows "i \<in> set (expand_entry st i)"
proof -
  obtain e where e: "entry_by_id st i = Some e" using assms by blast
  note m = entry_by_id_ids [OF e]
  have "le_family_id e = Some f" if "truthy_opt (le_family_id e) = Some f" for f
    using that by (auto simp: truthy_opt_def split: option.splits if_splits)
  with e m show ?thesis by (auto simp: expand_entry_def image_iff split: option.split)
qed

text \<open>A finding with consistent numbers: it owns entries and carries their exact counts, or it owns
  none and claims no number.\<close>

definition quantified_ok :: "log_statistics \<Rightarrow> json \<Rightarrow> bool" where
  "quantified_ok st f \<longleftrightarrow>
     (let ids = evidence_ids f; n = int (length ids) in
      distinct ids \<and> ids \<noteq> [] \<and> jget f ''count'' = JInt n \<and> jget f ''physical_entry_count'' = JInt n
    \<and> jget f ''percentage'' = JFloat (percentage_of n (st_total st))
    \<and> (\<exists>k. jget f ''occurrence_count'' = JInt k \<and> 1 \<le> k \<and> k \<le> n)
    \<and> (\<exists>x. jget f ''pattern_ids'' = JArr [JStr (u ''semantic-'' @ x)]))"

definition unquantified :: "json \<Rightarrow> bool" where
  "unquantified f \<longleftrightarrow> evidence_ids f = [] \<and> jget f ''count'' = JNull \<and> jget f ''percentage'' = JNull
     \<and> jget f ''pattern_ids'' = JArr [JStr (u ''unquantified'')]"

lemma occurrence_bounds:
  assumes "ids \<noteq> []"
  shows "1 \<le> occurrence_count st ids \<and> occurrence_count st ids \<le> int (length ids)"
proof -
  have "remdups (map (occurrence_key st) ids) \<noteq> []" using assms by simp
  then have "length (remdups (map (occurrence_key st) ids)) \<ge> 1"
    by (metis One_nat_def Suc_leI length_greater_0_conv)
  moreover have "length (remdups (map (occurrence_key st) ids)) \<le> length ids"
    using length_remdups_leq [of "map (occurrence_key st) ids"] by simp
  ultimately show ?thesis by (simp add: occurrence_count_def)
qed

lemma quantify_ok:
  assumes "is_dict f" "distinct ids" "ids \<noteq> []"
  shows "quantified_ok st (quantify env st ids f)" "evidence_ids (quantify env st ids f) = ids"
proof -
  show e: "evidence_ids (quantify env st ids f) = ids"
    using assms by (simp add: evidence_ids_def raw_entry_ids_def quantify_def)
  show "quantified_ok st (quantify env st ids f)"
    using assms occurrence_bounds [OF assms(3), of st] unfolding quantified_ok_def e
    by (auto simp: quantify_def finding_percentage_def semantic_pattern_id_def Let_def)
qed

lemma fallback_finding_ok:
  assumes "distinct ids" "ids \<noteq> []"
  shows "quantified_ok st (fallback_finding env st ident p ids)"
    "evidence_ids (fallback_finding env st ident p ids) = ids"
proof -
  obtain a b c d where p: "p = (a, b, c, d)" by (cases p)
  show e: "evidence_ids (fallback_finding env st ident p ids) = ids"
    by (simp add: p evidence_ids_def raw_entry_ids_def fallback_finding_def jget_def)
  show "quantified_ok st (fallback_finding env st ident p ids)"
    using assms occurrence_bounds [OF assms(2), of st] unfolding quantified_ok_def e
    by (auto simp: p fallback_finding_def finding_percentage_def semantic_pattern_id_def Let_def jget_def)
qed

text \<open>One turn of the loop extends the claimed entries by exactly those of the new finding.\<close>

lemma reconcile_finding_step:
  assumes "reconcile_finding env st claimed f = Inr (claimed', f')" "jhas f ''evidence_entry_ids''" "is_dict f"
    and "distinct claimed" "set claimed \<subseteq> set (manifest_ids st)"
  shows "claimed' = claimed @ evidence_ids f'" "distinct claimed'" "set claimed' \<subseteq> set (manifest_ids st)"
    "quantified_ok st f' \<or> unquantified f'"
proof -
  obtain raw where raw: "raw_entry_ids f = Some raw"
    using assms(1,2) by (auto simp: reconcile_finding_def split: option.splits)
  define expanded where "expanded =
    sort (remdups (filter (\<lambda>i. i \<notin> set claimed) (concat (map (expand_entry st) (uniq raw)))))"
  have r: "claimed' = claimed @ expanded" "f' = quantify env st expanded f"
      "\<forall>i\<in>set raw. entry_by_id st i \<noteq> None" "set raw \<inter> set claimed = {}"
    using assms(1,2) raw
    by (auto simp: reconcile_finding_def Let_def expanded_def filter_empty_conv split: list.splits if_splits)
  have d: "distinct expanded" "set expanded \<inter> set claimed = {}" "set expanded \<subseteq> set (manifest_ids st)"
    using expand_entry_subset by (auto simp: expanded_def)
  have sub: "set raw \<subseteq> set expanded"
    using r(3,4) expand_entry_self by (fastforce simp: expanded_def)
  have "evidence_ids f' = expanded \<and> (quantified_ok st f' \<or> unquantified f')"
  proof (cases "expanded = []")
    case True
    then have "raw = []" using sub by auto
    with True raw assms(3) show ?thesis
      by (simp add: r(2) quantify_def unquantified_def evidence_ids_def raw_entry_ids_def)
  next
    case False
    then show ?thesis unfolding r(2) using quantify_ok [OF assms(3) d(1)] by blast
  qed
  with r(1) d assms(4,5) show "claimed' = claimed @ evidence_ids f'" "distinct claimed'"
      "set claimed' \<subseteq> set (manifest_ids st)" "quantified_ok st f' \<or> unquantified f'"
    by auto
qed

lemma reconcile_findings_step:
  assumes "reconcile_findings env st claimed fs = Inr (claimed', fs')"
    and "\<forall>f\<in>set fs. jhas f ''evidence_entry_ids'' \<and> is_dict f"
    and "distinct claimed" "set claimed \<subseteq> set (manifest_ids st)"
  shows "claimed' = claimed @ concat (map evidence_ids fs') \<and> distinct claimed'
    \<and> set claimed' \<subseteq> set (manifest_ids st) \<and> length fs' = length fs
    \<and> (\<forall>f\<in>set fs'. quantified_ok st f \<or> unquantified f)"
  using assms
proof (induction fs arbitrary: claimed claimed' fs')
  case Nil
  then show ?case by simp
next
  case (Cons f fs)
  obtain c1 f1 fs1 where r: "reconcile_finding env st claimed f = Inr (c1, f1)"
      "reconcile_findings env st c1 fs = Inr (claimed', fs1)" "fs' = f1 # fs1"
    using Cons.prems(1) by (auto split: sum.splits)
  have h: "jhas f ''evidence_entry_ids''" "is_dict f" using Cons.prems(2) by auto
  note s = reconcile_finding_step [OF r(1) h Cons.prems(3,4)]
  have "claimed' = c1 @ concat (map evidence_ids fs1) \<and> distinct claimed'
    \<and> set claimed' \<subseteq> set (manifest_ids st) \<and> length fs1 = length fs
    \<and> (\<forall>f\<in>set fs1. quantified_ok st f \<or> unquantified f)"
    using Cons.prems(2) by (intro Cons.IH [OF r(2) _ s(2,3)]) simp
  then have ih: "claimed' = c1 @ concat (map evidence_ids fs1)" "distinct claimed'"
      "set claimed' \<subseteq> set (manifest_ids st)" "length fs1 = length fs"
      "\<forall>f\<in>set fs1. quantified_ok st f \<or> unquantified f" by blast+
  have "claimed' = claimed @ concat (map evidence_ids (f1 # fs1))" using ih(1) s(1) by simp
  moreover have "\<forall>f\<in>set (f1 # fs1). quantified_ok st f \<or> unquantified f" using ih(5) s(4) by simp
  ultimately show ?case unfolding r(3) using ih(2,3,4) by (simp only: list.size)
qed

text \<open>The buckets for the unclaimed entries are a partition of them.\<close>

lemma mset_concat_group_by: "mset (concat (map snd (group_by key xs))) = mset xs"
proof -
  have "mset (concat (map (\<lambda>k. filter (\<lambda>x. key x = k) xs) ks)) = mset (filter (\<lambda>x. key x \<in> set ks) xs)"
    if "distinct ks" for ks
    using that
  proof (induction ks)
    case (Cons k ks)
    have "mset (filter (\<lambda>x. key x = k \<or> key x \<in> set ks) xs)
        = mset (filter (\<lambda>x. key x = k) xs) + mset (filter (\<lambda>x. key x \<in> set ks) xs)"
      using Cons.prems by (induction xs) auto
    with Cons show ?case by simp
  qed simp
  from this [OF distinct_uniq, of "map key xs"] show ?thesis
    by (simp add: group_by_def comp_def)
qed

lemma mset_concat_partition:
  "mset (concat (map g (filter P xs))) + mset (concat (map g (filter (\<lambda>x. \<not> P x) xs))) = mset (concat (map g xs))"
  by (induction xs) auto

lemma mset_concat_sort_key: "mset (concat (map g (sort_key k xs))) = mset (concat (map g xs))"
  by (simp add: mset_concat flip: sum_mset_sum_list)

lemma fallback_findings_ok:
  assumes "distinct unclaimed"
  shows "mset (concat (map evidence_ids (fallback_findings env st unclaimed))) = mset unclaimed"
    "\<forall>f\<in>set (fallback_findings env st unclaimed). quantified_ok st f"
proof -
  define groups where "groups = sort_key fst (group_by (family_of st) unclaimed)"
  define rec where "rec = filter recoverable groups"
  define remaining where "remaining = concat (map snd (filter (\<lambda>g. \<not> recoverable g) groups))"
  let ?mk = "\<lambda>(family, ids). fallback_finding env st (u ''recovered-'' @ family)
              (the (map_of RECOVERABLE_FAMILY_PRESENTATIONS family)) ids"
  have ff: "fallback_findings env st unclaimed = map ?mk rec
        @ (if remaining \<noteq> [] then [fallback_finding env st (u ''other-observed-log-activity'') OTHER_ACTIVITY remaining] else [])"
    by (simp add: fallback_findings_def groups_def rec_def remaining_def Let_def)
  have grp: "ids \<noteq> [] \<and> distinct ids" if "(k, ids) \<in> set groups" for k ids
    using that assms group_by_members [of k ids "family_of st" unclaimed] by (auto simp: groups_def)
  have tot: "mset (concat (map snd rec)) + mset remaining = mset unclaimed"
    unfolding rec_def remaining_def mset_concat_partition groups_def mset_concat_sort_key mset_concat_group_by ..
  have "distinct (concat (map snd rec) @ remaining)"
    using assms tot mset_eq_imp_distinct_iff [of "concat (map snd rec) @ remaining" unclaimed] by simp
  then have dr: "distinct remaining" by simp
  have mk: "quantified_ok st (?mk g) \<and> evidence_ids (?mk g) = snd g" if "g \<in> set rec" for g
  proof -
    obtain k ids where g: "g = (k, ids)" by (cases g)
    with that have "(k, ids) \<in> set groups" by (simp add: rec_def)
    then show ?thesis using grp fallback_finding_ok [of ids] by (simp add: g)
  qed
  let ?other = "if remaining \<noteq> []
      then [fallback_finding env st (u ''other-observed-log-activity'') OTHER_ACTIVITY remaining] else []"
  have "map evidence_ids (map ?mk rec) = map snd rec" using mk by (simp add: comp_def)
  moreover have "concat (map evidence_ids ?other) = remaining"
    using fallback_finding_ok(2) [OF dr] by simp
  ultimately have "mset (concat (map evidence_ids (map ?mk rec @ ?other))) = mset (concat (map snd rec)) + mset remaining"
    by (simp only: map_append concat_append mset_append)
  with tot show "mset (concat (map evidence_ids (fallback_findings env st unclaimed))) = mset unclaimed"
    unfolding ff by simp
  show "\<forall>f\<in>set (fallback_findings env st unclaimed). quantified_ok st f"
    unfolding ff using mk fallback_finding_ok(1) [OF dr, where p = OTHER_ACTIVITY] by auto
qed

text \<open>The result as a whole: the findings own a partition of the manifest.\<close>

lemma reconcile_entry_grouped_result_ok:
  assumes "reconcile_entry_grouped_result env st res = Inr res'" "wf_statistics st"
    and "\<forall>f\<in>set (key_finds res @ secondary_finds res). jhas f ''evidence_entry_ids'' \<and> is_dict f"
  shows "mset (concat (map evidence_ids (key_finds res' @ secondary_finds res'))) = mset (manifest_ids st)"
    "\<forall>f\<in>set (key_finds res' @ secondary_finds res'). quantified_ok st f \<or> unquantified f"
    "length (key_finds res') = length (key_finds res)"
    "map_of (other_fields res') (u ''total_entries'') = Some (JInt (st_total st))"
proof -
  obtain claimed fs where r: "reconcile_findings env st [] (key_finds res @ secondary_finds res) = Inr (claimed, fs)"
    using assms(1) by (auto simp: reconcile_entry_grouped_result_def split: sum.splits)
  define unclaimed where "unclaimed = sort (filter (\<lambda>i. i \<notin> set claimed) (remdups (manifest_ids st)))"
  define extra where "extra = (if unclaimed \<noteq> [] then fallback_findings env st unclaimed else [])"
  have res': "res' = \<lparr>key_finds = take (length (key_finds res)) fs,
      secondary_finds = drop (length (key_finds res)) fs @ extra,
      other_fields = AList.update (u ''total_entries'') (JInt (st_total st)) (other_fields res)\<rparr>"
    using assms(1) r unfolding reconcile_entry_grouped_result_def unclaimed_def extra_def manifest_ids_def Let_def
    by (auto split del: if_split)
  have nil: "distinct ([] :: int list)" "set [] \<subseteq> set (manifest_ids st)" by simp_all
  have s: "claimed = concat (map evidence_ids fs)" "distinct claimed" "set claimed \<subseteq> set (manifest_ids st)"
      "length fs = length (key_finds res) + length (secondary_finds res)"
      "\<forall>f\<in>set fs. quantified_ok st f \<or> unquantified f"
    using reconcile_findings_step [OF r assms(3) nil] unfolding append_Nil length_append by blast+
  have d: "distinct (manifest_ids st)" using assms(2) by (rule wf_statistics_distinct)
  have u: "distinct unclaimed" by (simp add: unclaimed_def)
  have e: "mset (concat (map evidence_ids extra)) = mset unclaimed" "\<forall>f\<in>set extra. quantified_ok st f"
    using fallback_findings_ok [OF u, of env st] by (auto simp: extra_def)
  have "mset claimed = filter_mset (\<lambda>i. i \<in> set claimed) (mset (manifest_ids st))"
  proof -
    have "set claimed = set (filter (\<lambda>i. i \<in> set claimed) (manifest_ids st))" using s(3) by auto
    then have "mset claimed = mset (filter (\<lambda>i. i \<in> set claimed) (manifest_ids st))"
      using s(2) d by (subst set_eq_iff_mset_eq_distinct [symmetric]) auto
    then show ?thesis by simp
  qed
  moreover have "mset unclaimed = filter_mset (\<lambda>i. i \<notin> set claimed) (mset (manifest_ids st))"
    using d by (simp add: unclaimed_def distinct_remdups_id)
  ultimately have part: "mset claimed + mset unclaimed = mset (manifest_ids st)"
    by (metis multiset_partition)
  have "key_finds res' @ secondary_finds res' = fs @ extra" unfolding res' by simp
  then show "mset (concat (map evidence_ids (key_finds res' @ secondary_finds res'))) = mset (manifest_ids st)"
    "\<forall>f\<in>set (key_finds res' @ secondary_finds res'). quantified_ok st f \<or> unquantified f"
    using part s(1,5) e by auto
  show "length (key_finds res') = length (key_finds res)" unfolding res' using s(4) by simp
  show "map_of (other_fields res') (u ''total_entries'') = Some (JInt (st_total st))" unfolding res' by simp
qed

text \<open>The total of the counts.\<close>

fun count_of :: "json \<Rightarrow> int" where
  "count_of (JInt i) = i"
| "count_of _ = 0"

lemma counts_are_sizes:
  assumes "\<forall>f\<in>set fs. quantified_ok st f \<or> unquantified f"
  shows "sum_list (map (\<lambda>f. count_of (jget f ''count'')) fs) = int (length (concat (map evidence_ids fs)))"
  using assms
proof (induction fs)
  case (Cons f fs)
  have "count_of (jget f ''count'') = int (length (evidence_ids f))"
    using Cons.prems by (auto simp: quantified_ok_def unquantified_def Let_def)
  with Cons show ?case by simp
qed simp

section \<open>The manifest as an interface\<close>

text \<open>What reconciliation needs from its provider: a manifest that numbers the entries and states
  their number. The provider is \<open>preprocess_log\<close>.\<close>

locale evidence_manifest =
  fixes statistics :: "'a \<Rightarrow> log_statistics"
  assumes numbered: "wf_statistics (statistics x)"
begin

lemma total_entries: "st_total (statistics x) = int (length (st_entries (statistics x)))"
  using numbered [of x] by (simp add: wf_statistics_def)

lemma partition:
  assumes "reconcile_entry_grouped_result env (statistics x) res = Inr res'"
    and "\<forall>f\<in>set (key_finds res @ secondary_finds res). jhas f ''evidence_entry_ids'' \<and> is_dict f"
  shows "mset (concat (map evidence_ids (key_finds res' @ secondary_finds res'))) = mset (manifest_ids (statistics x))"
  using reconcile_entry_grouped_result_ok(1) [OF assms(1) numbered assms(2)] .

lemma counts_total:
  assumes "reconcile_entry_grouped_result env (statistics x) res = Inr res'"
    and "\<forall>f\<in>set (key_finds res @ secondary_finds res). jhas f ''evidence_entry_ids'' \<and> is_dict f"
  shows "sum_list (map (\<lambda>f. count_of (jget f ''count'')) (key_finds res' @ secondary_finds res')) = st_total (statistics x)"
proof -
  note r = reconcile_entry_grouped_result_ok [OF assms(1) numbered assms(2)]
  have "sum_list (map (\<lambda>f. count_of (jget f ''count'')) (key_finds res' @ secondary_finds res'))
      = int (size (mset (concat (map evidence_ids (key_finds res' @ secondary_finds res')))))"
    unfolding size_mset using r(2) by (rule counts_are_sizes)
  also have "\<dots> = st_total (statistics x)" unfolding r(1) by (simp add: total_entries manifest_ids_def)
  finally show ?thesis .
qed

end

end
