(* ===== verification/Log_Validation.thy ===== *)
theory Log_Validation
  imports Reconcile
begin

text \<open>
  Semantic validation of a log analysis, \<^verbatim>\<open>bridge/noc_bridge/validation.py\<close>, and the compaction of
  its narrative fields, \<^verbatim>\<open>sandbox/preprocessing.py\<close>. Each \<open>raise OutputValidationError\<close> is a
  constructor of \<open>validation_error\<close> (without the path text of the message). The regular expression of
  dangling words is written out; which characters are letters and digits beyond ASCII is an argument,
  as are the compacted text used to compare explanations (Unicode case folding) and the searches for
  causal phrases.
\<close>

section \<open>Sentences\<close>

definition is_ending :: "nat \<Rightarrow> bool" where
  "is_ending c \<longleftrightarrow> c \<in> {46, 33, 63, 12290, 65281, 65311}"

definition endings_in :: "pystr \<Rightarrow> nat" where
  "endings_in s = length (filter is_ending s)"

definition sentence_count :: "pystr \<Rightarrow> int" where
  "sentence_count s = int (max 1 (endings_in s))"

text \<open>The closing quotes and brackets that \<open>rstrip\<close> removes.\<close>

definition is_closing :: "nat \<Rightarrow> bool" where
  "is_closing c \<longleftrightarrow> c \<in> {41, 93, 125, 34, 39, 8221, 8217, 12299, 65289, 12305}"

definition rstrip_chars :: "(nat \<Rightarrow> bool) \<Rightarrow> pystr \<Rightarrow> pystr" where
  "rstrip_chars p s = rev (dropWhile p (rev s))"

definition py_suffix :: "pystr \<Rightarrow> pystr \<Rightarrow> bool" where
  "py_suffix p s \<longleftrightarrow> py_prefix (rev p) (rev s)"

text \<open>Case-insensitive comparison of the expression's ASCII letters.\<close>

definition re_lower :: "nat \<Rightarrow> nat" where
  "re_lower c = (if 65 \<le> c \<and> c \<le> 90 then c + 32 else if c = 8490 then 107 else if c = 304 \<or> c = 305 then 105
     else if c = 383 then 115 else c)"

definition dangling_words :: "pystr list" where
  "dangling_words = map u [''and'', ''or'', ''but'', ''because'', ''including'', ''such as'', ''that'', ''which'',
     ''with'', ''from'', ''to'', ''of'', ''the'', ''a'', ''an'', ''in'', ''on'', ''for'', ''as'', ''due'', ''via'']"

definition dangling_chinese :: "pystr list" where
  "dangling_chinese = [[24182, 19988], [21253, 25324], [20363, 22914], [30001, 20110], [23548, 33268], [20197, 21450],
     [21644], [25110], [20854, 20013], [19982], [22312], [23545], [20174], [36890, 36807]]"

text \<open>\<open>_TRAILING_INCOMPLETE.search(s)\<close>; \<open>$\<close> also matches before a final line feed.\<close>

definition ends_dangling :: "(nat \<Rightarrow> bool) \<Rightarrow> pystr \<Rightarrow> bool" where
  "ends_dangling word s =
     ((s \<noteq> [] \<and> last s \<in> {58, 59, 44, 47})
      \<or> list_ex (\<lambda>w. py_suffix w (map re_lower s)
           \<and> (length s = length w \<or> \<not> word (s ! (length s - length w - 1)))) dangling_words
      \<or> list_ex (\<lambda>w. py_suffix w s) dangling_chinese)"

definition trailing_incomplete :: "(nat \<Rightarrow> bool) \<Rightarrow> pystr \<Rightarrow> bool" where
  "trailing_incomplete word s \<longleftrightarrow> ends_dangling word s \<or> (s \<noteq> [] \<and> last s = 10 \<and> ends_dangling word (butlast s))"

datatype validation_error =
    Bad_Total | Bad_Summary string | Summary_Too_Long string | Summary_Sentences string
  | Empty_Narrative | Truncated_Narrative | Incomplete_Phrase | Missing_Punctuation
  | Not_An_Object | Bad_Finding_Id | Duplicate_Finding_Id pystr | Bad_Text string
  | Bad_Pattern_Ids | Invalid_Pattern_Id | Duplicate_Pattern_Ids | Duplicate_Identity pystr
  | Bad_Entry_Ids | Invalid_Entry_Id | Duplicate_Entry_Ids
  | Bad_Physical_Count | Physical_Exceeds_Total | Bad_Occurrence_Count | Occurrence_Exceeds_Physical
  | Unquantified_Claims_Number | Bad_Count | Count_Exceeds_Total | Physical_Below_Count
  | Bad_Percentage | Percentage_Out_Of_Range | Percentage_Inconsistent
  | Detail_Too_Long string | Detail_Sentences string | Repeats_Summary | Repeats_Detail | Unsupported_Causation

definition validate_narrative_completion :: "(nat \<Rightarrow> bool) \<Rightarrow> pystr \<Rightarrow> validation_error option" where
  "validate_narrative_completion word value =
    (let text = py_strip value; lexical = rstrip_chars is_closing text in
     if text = [] then Some Empty_Narrative
     else if py_suffix (u ''...'') text \<or> py_suffix [8230] text then Some Truncated_Narrative
     else if trailing_incomplete word (rstrip_chars is_ending lexical) then Some Incomplete_Phrase
     else if lexical = [] \<or> \<not> is_ending (last lexical) then Some Missing_Punctuation
     else None)"

section \<open>One finding\<close>

text \<open>\<open>(v is not None)\<close> counts: a non-negative integer or an error.\<close>

definition nonneg_int :: "json \<Rightarrow> bool" where
  "nonneg_int v \<longleftrightarrow> (case v of JInt i \<Rightarrow> i \<ge> 0 | _ \<Rightarrow> False)"

text \<open>\<open>float(v)\<close> of a number that is not a boolean.\<close>

definition py_float :: "json \<Rightarrow> rat option" where
  "py_float v = (case v of JInt i \<Rightarrow> Some (fl (of_int i)) | JFloat r \<Rightarrow> Some r | _ \<Rightarrow> None)"

definition check_entry_ids :: "json \<Rightarrow> validation_error option" where
  "check_entry_ids f = (case jget f ''evidence_entry_ids'' of
      JNull \<Rightarrow> None
    | JArr xs \<Rightarrow> if xs = [] then Some Bad_Entry_Ids
        else if \<not> list_all nonneg_int xs then Some Invalid_Entry_Id
        else if \<not> distinct xs then Some Duplicate_Entry_Ids else None
    | _ \<Rightarrow> Some Bad_Entry_Ids)"

definition check_audit_counts :: "int \<Rightarrow> json \<Rightarrow> validation_error option" where
  "check_audit_counts total_n f =
    (let p = jget f ''physical_entry_count''; c = jget f ''occurrence_count'' in
     if p \<noteq> JNull \<and> \<not> nonneg_int p then Some Bad_Physical_Count
     else if p \<noteq> JNull \<and> count_of p > total_n then Some Physical_Exceeds_Total
     else if c \<noteq> JNull \<and> \<not> nonneg_int c then Some Bad_Occurrence_Count
     else if c \<noteq> JNull \<and> p \<noteq> JNull \<and> count_of c > count_of p then Some Occurrence_Exceeds_Physical
     else None)"

definition check_count_and_percentage :: "int \<Rightarrow> json \<Rightarrow> validation_error option" where
  "check_count_and_percentage total_n f =
    (let c = jget f ''count''; p = jget f ''physical_entry_count'' in
     if \<not> nonneg_int c then Some Bad_Count
     else if count_of c > total_n then Some Count_Exceeds_Total
     else if p \<noteq> JNull \<and> count_of p < count_of c then Some Physical_Below_Count
     else (case py_float (jget f ''percentage'') of
         None \<Rightarrow> Some Bad_Percentage
       | Some x \<Rightarrow> if \<not> (0 \<le> x \<and> x \<le> 100) then Some Percentage_Out_Of_Range
           else if \<bar>fl (x - percentage_of (count_of c) total_n)\<bar> > fl (1 / 100) then Some Percentage_Inconsistent
           else None))"

text \<open>The numeric part of one turn of the loop, after the identities.\<close>

definition check_numbers :: "int \<Rightarrow> json \<Rightarrow> validation_error option" where
  "check_numbers total_n f = (case check_entry_ids f of
      Some e \<Rightarrow> Some e
    | None \<Rightarrow> (case check_audit_counts total_n f of
        Some e \<Rightarrow> Some e
      | None \<Rightarrow>
          if jget f ''pattern_ids'' = JArr [JStr (u ''unquantified'')]
          then (if jget f ''count'' \<noteq> JNull \<or> jget f ''percentage'' \<noteq> JNull then Some Unquantified_Claims_Number else None)
          else check_count_and_percentage total_n f))"

definition nonblank :: "json \<Rightarrow> bool" where
  "nonblank v \<longleftrightarrow> is_str v \<and> py_strip (jstr v) \<noteq> []"

definition check_identity :: "pystr list \<Rightarrow> pystr list \<Rightarrow> json \<Rightarrow> validation_error + pystr list \<times> pystr list" where
  "check_identity seen_ids seen_finding_ids f =
    (if \<not> is_dict f then Inl Not_An_Object
     else if \<not> nonblank (jget f ''id'') then Inl Bad_Finding_Id
     else if jstr (jget f ''id'') \<in> set seen_finding_ids then Inl (Duplicate_Finding_Id (jstr (jget f ''id'')))
     else (case find_first (\<lambda>k. \<not> nonblank (jget f k)) [''label_zh'', ''label_en'', ''detail_zh'', ''detail_en''] of
         Some k \<Rightarrow> Inl (Bad_Text k)
       | None \<Rightarrow> (case jget f ''pattern_ids'' of
           JArr xs \<Rightarrow>
             if xs = [] then Inl Bad_Pattern_Ids
             else if \<not> list_all (\<lambda>x. is_str x \<and> jstr x \<noteq> []) xs then Inl Invalid_Pattern_Id
             else if \<not> distinct (map jstr xs) then Inl Duplicate_Pattern_Ids
             else (case find_first (\<lambda>x. x \<in> set seen_ids) (map jstr xs) of
                 Some x \<Rightarrow> Inl (Duplicate_Identity x)
               | None \<Rightarrow> Inr (seen_ids @ map jstr xs, seen_finding_ids @ [jstr (jget f ''id'')]))
         | _ \<Rightarrow> Inl Bad_Pattern_Ids)))"

fun check_findings ::
  "int \<Rightarrow> pystr list \<Rightarrow> pystr list \<Rightarrow> json list \<Rightarrow> validation_error + pystr list \<times> pystr list" where
  "check_findings total_n ids fids [] = Inr (ids, fids)"
| "check_findings total_n ids fids (f # fs) = (case check_identity ids fids f of
      Inl e \<Rightarrow> Inl e
    | Inr (ids', fids') \<Rightarrow> (case check_numbers total_n f of
        Some e \<Rightarrow> Inl e
      | None \<Rightarrow> check_findings total_n ids' fids' fs))"

section \<open>The whole result\<close>

fun first_error :: "validation_error option list \<Rightarrow> validation_error option" where
  "first_error [] = None"
| "first_error (None # xs) = first_error xs"
| "first_error (Some e # xs) = Some e"

definition field :: "triage_result \<Rightarrow> string \<Rightarrow> json" where
  "field res k = (case map_of (other_fields res) (u k) of None \<Rightarrow> JNull | Some v \<Rightarrow> v)"

definition check_summary :: "(nat \<Rightarrow> bool) \<Rightarrow> triage_result \<Rightarrow> string \<Rightarrow> validation_error option" where
  "check_summary word res k =
    (let v = field res k in
     if \<not> nonblank v then Some (Bad_Summary k)
     else if length (jstr v) > 800 then Some (Summary_Too_Long k)
     else (case validate_narrative_completion word (jstr v) of
         Some e \<Rightarrow> Some e
       | None \<Rightarrow> if 2 \<le> sentence_count (jstr v) \<and> sentence_count (jstr v) \<le> 4 then None
           else Some (Summary_Sentences k)))"

definition check_detail :: "(nat \<Rightarrow> bool) \<Rightarrow> nat \<Rightarrow> int \<Rightarrow> json \<Rightarrow> string \<Rightarrow> validation_error option" where
  "check_detail word max_length max_sentences f k = (case jget f k of
      JStr s \<Rightarrow>
        if length s > max_length then Some (Detail_Too_Long k)
        else if sentence_count s > max_sentences then Some (Detail_Sentences k)
        else validate_narrative_completion word s
    | _ \<Rightarrow> None)"

definition check_density :: "(nat \<Rightarrow> bool) \<Rightarrow> nat \<Rightarrow> int \<Rightarrow> json list \<Rightarrow> validation_error option" where
  "check_density word max_length max_sentences fs =
     first_error (concat (map (\<lambda>f. [check_detail word max_length max_sentences f ''detail_zh'',
                                    check_detail word max_length max_sentences f ''detail_en'']) fs))"

text \<open>\<open>_validate_repetition\<close> for one language: the compacted summary and the details seen so far.\<close>

fun check_repetition :: "(pystr \<Rightarrow> pystr) \<Rightarrow> pystr \<Rightarrow> string \<Rightarrow> pystr list \<Rightarrow> json list \<Rightarrow> validation_error option" where
  "check_repetition fold_text summary k seen [] = None"
| "check_repetition fold_text summary k seen (f # fs) = (case jget f k of
      JStr s \<Rightarrow>
        (let d = fold_text s in
         if length d < 32 then check_repetition fold_text summary k seen fs
         else if py_in d summary then Some Repeats_Summary
         else if d \<in> set seen then Some Repeats_Detail
         else check_repetition fold_text summary k (d # seen) fs)
    | _ \<Rightarrow> check_repetition fold_text summary k seen fs)"

definition repetition_error :: "(pystr \<Rightarrow> pystr) \<Rightarrow> triage_result \<Rightarrow> string \<Rightarrow> string \<Rightarrow> validation_error option" where
  "repetition_error fold_text res summary_key detail_key = (case field res summary_key of
      JStr s \<Rightarrow> check_repetition fold_text (fold_text s) detail_key [] (key_finds res @ secondary_finds res)
    | _ \<Rightarrow> None)"

text \<open>\<open>_analysis_text\<close> and \<open>_validate_causation_language\<close>; the four causal expressions are predicates.\<close>

record causal_phrases =
  shared_causation :: "pystr \<Rightarrow> bool"
  speculative_causation :: "pystr \<Rightarrow> bool"
  causation_negation :: "pystr \<Rightarrow> bool"
  linking_evidence :: "pystr \<Rightarrow> bool"

definition analysis_text :: "triage_result \<Rightarrow> pystr" where
  "analysis_text res = py_join [10] (map jstr (filter is_str
     ([field res ''summary_en'', field res ''summary_zh'']
      @ concat (map (\<lambda>f. if is_dict f
          then [jget f ''label_en'', jget f ''label_zh'', jget f ''detail_en'', jget f ''detail_zh''] else [])
        (key_finds res @ secondary_finds res)))))"

definition causation_language_ok :: "causal_phrases \<Rightarrow> triage_result \<Rightarrow> bool" where
  "causation_language_ok ph res =
    (let t = analysis_text res in
     if \<not> shared_causation ph t \<and> \<not> speculative_causation ph t then True
     else if causation_negation ph t then True
     else linking_evidence ph t)"

definition validate_log_triage_result ::
  "(nat \<Rightarrow> bool) \<Rightarrow> (pystr \<Rightarrow> pystr) \<Rightarrow> causal_phrases \<Rightarrow> triage_result \<Rightarrow> validation_error option" where
  "validate_log_triage_result word fold_text phrases res =
    (if \<not> nonneg_int (field res ''total_entries'') then Some Bad_Total
     else first_error [
       check_summary word res ''summary_zh'',
       check_summary word res ''summary_en'',
       (case check_findings (count_of (field res ''total_entries'')) [] [] (key_finds res @ secondary_finds res) of
          Inl e \<Rightarrow> Some e | Inr _ \<Rightarrow> None),
       check_density word 600 3 (key_finds res),
       check_density word 320 1 (secondary_finds res),
       repetition_error fold_text res ''summary_zh'' ''detail_zh'',
       repetition_error fold_text res ''summary_en'' ''detail_en'',
       (if causation_language_ok phrases res then None else Some Unsupported_Causation)])"

section \<open>Compaction\<close>

definition ending_positions :: "pystr \<Rightarrow> nat list" where
  "ending_positions s = map Suc (filter (\<lambda>i. is_ending (s ! i)) [0..<length s])"

text \<open>\<open>_compact_narrative\<close>; \<open>None\<close> is the \<open>ValueError\<close>.\<close>

definition compact_narrative :: "pystr \<Rightarrow> nat \<Rightarrow> nat \<Rightarrow> pystr option" where
  "compact_narrative value max_chars max_sentences =
    (let text = py_strip value; endings = ending_positions text in
     if length text \<le> max_chars \<and> length endings \<le> max_sentences then Some text
     else
      (let usable = filter (\<lambda>i. i \<le> max_chars) endings in
       if usable \<noteq> []
       then Some (py_strip (take (usable ! (min max_sentences (length usable) - 1)) text))
       else None))"

text \<open>\<open>compact_log_triage_narrative\<close>: \<open>None\<close> if some field cannot be compacted.\<close>

definition compact_field :: "nat \<Rightarrow> nat \<Rightarrow> json \<Rightarrow> string \<Rightarrow> json option" where
  "compact_field max_chars max_sentences d k = (case jget d k of
      JStr s \<Rightarrow> (case compact_narrative s max_chars max_sentences of
          None \<Rightarrow> None | Some s' \<Rightarrow> Some (jset d k (JStr s')))
    | _ \<Rightarrow> Some d)"

definition compact_finding :: "nat \<Rightarrow> nat \<Rightarrow> json \<Rightarrow> json option" where
  "compact_finding max_chars max_sentences f = (case compact_field max_chars max_sentences f ''detail_zh'' of
      None \<Rightarrow> None | Some f1 \<Rightarrow> compact_field max_chars max_sentences f1 ''detail_en'')"

fun compact_findings :: "nat \<Rightarrow> nat \<Rightarrow> json list \<Rightarrow> json list option" where
  "compact_findings m n [] = Some []"
| "compact_findings m n (f # fs) = (case compact_finding m n f of
      None \<Rightarrow> None
    | Some f' \<Rightarrow> (case compact_findings m n fs of None \<Rightarrow> None | Some fs' \<Rightarrow> Some (f' # fs')))"

definition compact_log_triage_narrative :: "triage_result \<Rightarrow> triage_result option" where
  "compact_log_triage_narrative res =
    (case compact_field 800 4 (JObj (other_fields res)) ''summary_zh'' of
       None \<Rightarrow> None
     | Some o1 \<Rightarrow> (case compact_field 800 4 o1 ''summary_en'' of
         None \<Rightarrow> None
       | Some o2 \<Rightarrow> (case compact_findings 600 3 (key_finds res) of
           None \<Rightarrow> None
         | Some ks \<Rightarrow> (case compact_findings 320 1 (secondary_finds res) of
             None \<Rightarrow> None
           | Some ss \<Rightarrow> Some \<lparr>key_finds = ks, secondary_finds = ss,
               other_fields = (case o2 of JObj kvs \<Rightarrow> kvs | _ \<Rightarrow> [])\<rparr>))))"

section \<open>Bounded log excerpts\<close>

text \<open>\<open>compact_log\<close>; lengths are code points, although the marker speaks of bytes.\<close>

definition omission_marker :: "nat \<Rightarrow> pystr" where
  "omission_marker omitted = u ''[deterministic preprocessing omitted '' @ int_str (int omitted)
     @ u '' bytes; see representative_entries]''"

definition compact_log :: "pystr \<Rightarrow> nat \<Rightarrow> pystr" where
  "compact_log s max_chars =
    (if length s \<le> max_chars then s
     else
      (let marker = omission_marker (length s - max_chars) in
       if length marker \<ge> max_chars then take max_chars marker
       else
        (let available = int max_chars - int (length marker) - 2;
             head = available div 2; tail = available - head
         in py_join [10] [py_slice_to s head, marker, py_slice_from s (- tail)])))"

section \<open>Lemmas\<close>

lemma list_all_nonneg: "\<forall>i\<in>set is. 0 \<le> i \<Longrightarrow> list_all nonneg_int (map JInt is)"
  by (simp add: list_all_iff nonneg_int_def)

lemma int_list_Some: "int_list xs = Some is \<Longrightarrow> xs = map JInt is"
  by (induction xs arbitrary: "is" rule: int_list.induct) (auto split: option.splits)

lemma evidence_ids_JArr: "evidence_ids f \<noteq> [] \<Longrightarrow> jget f ''evidence_entry_ids'' = JArr (map JInt (evidence_ids f))"
  by (auto simp: evidence_ids_def raw_entry_ids_def dest: int_list_Some split: json.splits option.splits)

lemma quantified_numbers:
  assumes "quantified_ok st f" "st_total st = int (length (st_entries st))"
    and "length (evidence_ids f) \<le> length (st_entries st)" "\<forall>i\<in>set (evidence_ids f). 0 \<le> i"
  shows "check_numbers (st_total st) f = None"
proof -
  define n where "n = int (length (evidence_ids f))"
  have q: "evidence_ids f \<noteq> []" "distinct (evidence_ids f)" "jget f ''count'' = JInt n"
      "jget f ''physical_entry_count'' = JInt n" "jget f ''percentage'' = JFloat (percentage_of n (st_total st))"
    using assms(1) by (auto simp: quantified_ok_def Let_def n_def)
  obtain k where k: "jget f ''occurrence_count'' = JInt k" "1 \<le> k" "k \<le> n"
    using assms(1) by (auto simp: quantified_ok_def Let_def n_def)
  obtain x where x: "jget f ''pattern_ids'' = JArr [JStr (u ''semantic-'' @ x)]"
    using assms(1) by (auto simp: quantified_ok_def Let_def)
  have n: "0 \<le> n" "n \<le> st_total st" using assms(2,3) by (simp_all add: n_def)
  have "check_entry_ids f = None"
    using evidence_ids_JArr [OF q(1)] q(1,2) list_all_nonneg [OF assms(4)]
    by (simp add: check_entry_ids_def distinct_map inj_on_def)
  moreover have "check_audit_counts (st_total st) f = None"
    using k n by (simp add: check_audit_counts_def q nonneg_int_def)
  moreover have "u ''semantic-'' @ x \<noteq> u ''unquantified''" by (auto simp: u_def)
  moreover have "check_count_and_percentage (st_total st) f = None"
    using percentage_of_bounds [OF n] fl_nonneg [of "1 / 100"] n
    by (simp add: check_count_and_percentage_def q nonneg_int_def py_float_def)
  ultimately show ?thesis by (simp add: check_numbers_def x)
qed

lemma length_py_lstrip: "length (py_lstrip s) \<le> length s"
  by (simp add: py_lstrip_def length_dropWhile_le)

lemma length_py_strip: "length (py_strip s) \<le> length s"
  unfolding py_strip_def using length_py_lstrip [of s] length_py_lstrip [of "rev (py_lstrip s)"] by simp

lemma length_ending_positions: "length (ending_positions s) = endings_in s"
proof -
  have "map (nth s) (filter (\<lambda>i. is_ending (s ! i)) [0..<length s]) = filter is_ending s"
    by (metis (no_types) comp_apply filter_cong filter_map map_nth)
  then show ?thesis by (metis ending_positions_def endings_in_def length_map)
qed

text \<open>Stripping keeps a prefix of what starts with no blank.\<close>

lemma dropWhile_suffix: "\<exists>xs. s = xs @ dropWhile p s"
  by (metis takeWhile_dropWhile_id)

lemma py_strip_infix: "\<exists>a b. s = a @ py_strip s @ b"
proof -
  obtain a where a: "s = a @ py_lstrip s" using dropWhile_suffix by (metis py_lstrip_def)
  obtain b where "rev (py_lstrip s) = b @ py_lstrip (rev (py_lstrip s))" using dropWhile_suffix by (metis py_lstrip_def)
  then have "py_lstrip s = py_strip s @ rev b" unfolding py_strip_def by (metis rev_append rev_rev_ident)
  with a show ?thesis by metis
qed

lemma endings_in_append: "endings_in (a @ b) = endings_in a + endings_in b"
  by (simp add: endings_in_def)

lemma endings_in_strip: "endings_in (py_strip s) \<le> endings_in s"
proof -
  obtain a b where "s = a @ py_strip s @ b" using py_strip_infix by blast
  then have "endings_in s = endings_in a + (endings_in (py_strip s) + endings_in b)"
    by (metis endings_in_append)
  then show ?thesis by simp
qed

text \<open>Up to the \<open>k\<close>-th sentence ending there are \<open>k\<close> endings.\<close>

lemma ending_positions_append:
  "ending_positions (s @ [c]) = ending_positions s @ (if is_ending c then [Suc (length s)] else [])"
proof -
  have "filter (\<lambda>i. is_ending ((s @ [c]) ! i)) [0..<length s] = filter (\<lambda>i. is_ending (s ! i)) [0..<length s]"
    by (rule filter_cong) (auto simp: nth_append)
  then show ?thesis by (simp add: ending_positions_def)
qed

lemma ending_positions_Cons:
  "ending_positions (c # s) = (if is_ending c then [1] else []) @ map Suc (ending_positions s)"
proof -
  have "[0..<length (c # s)] = 0 # map Suc [0..<length s]" by (simp add: upt_conv_Cons map_Suc_upt del: upt_Suc)
  then show ?thesis by (simp add: ending_positions_def filter_map comp_def)
qed

lemma ending_positions_Nil [simp]: "ending_positions [] = []"
  by (simp add: ending_positions_def)

lemma ending_positions_le: "p \<in> set (ending_positions s) \<Longrightarrow> p \<le> length s"
  by (auto simp: ending_positions_def)

lemma endings_up_to: "k < length (ending_positions s) \<Longrightarrow> endings_in (take (ending_positions s ! k) s) = Suc k"
proof (induction s rule: rev_induct)
  case (snoc c s)
  show ?case
  proof (cases "k < length (ending_positions s)")
    case True
    then have "ending_positions s ! k \<le> length s" using ending_positions_le nth_mem by blast
    then show ?thesis using snoc.IH [OF True] True by (simp add: ending_positions_append nth_append)
  next
    case False
    with snoc.prems have "is_ending c" "k = length (ending_positions s)"
      by (auto simp: ending_positions_append split: if_splits)
    then show ?thesis
      using length_ending_positions [of s]
      by (simp add: ending_positions_append nth_append endings_in_append) (simp add: endings_in_def)
  qed
qed (simp add: ending_positions_def)

lemma sorted_ending_positions: "sorted (ending_positions s)"
  unfolding ending_positions_def sorted_map by (simp add: sorted_wrt_filter sorted_upt)

lemma filter_le_prefix: "sorted xs \<Longrightarrow> filter (\<lambda>i. i \<le> (m::nat)) xs = takeWhile (\<lambda>i. i \<le> m) xs"
  by (induction xs) (auto simp: takeWhile_eq_Nil_iff dest!: list.set_sel(1) [rotated])

lemma nth_filter_le:
  assumes "sorted xs" "k < length (filter (\<lambda>i. i \<le> (m::nat)) xs)"
  shows "filter (\<lambda>i. i \<le> m) xs ! k = xs ! k" "k < length xs" "xs ! k \<le> m"
proof -
  have k: "k < length (takeWhile (\<lambda>i. i \<le> m) xs)" using assms by (simp add: filter_le_prefix)
  show e: "filter (\<lambda>i. i \<le> m) xs ! k = xs ! k"
    using assms(1) takeWhile_nth [OF k] by (simp add: filter_le_prefix)
  show "k < length xs" using k length_takeWhile_le [of "\<lambda>i. i \<le> m" xs] by simp
  have "filter (\<lambda>i. i \<le> m) xs ! k \<in> set (filter (\<lambda>i. i \<le> m) xs)" using assms(2) by (rule nth_mem)
  then show "xs ! k \<le> m" unfolding e by simp
qed

lemma compact_narrative_limits:
  assumes "compact_narrative value m n = Some s" "n \<ge> 1"
  shows "length s \<le> m \<and> endings_in s \<le> n"
proof -
  define stripped where "stripped = py_strip value"
  define es where "es = ending_positions stripped"
  define usable where "usable = filter (\<lambda>i. i \<le> m) es"
  consider "length stripped \<le> m" "length es \<le> n" "s = stripped"
    | "usable \<noteq> []" "s = py_strip (take (usable ! (min n (length usable) - 1)) stripped)"
    using assms(1)
    by (auto simp: compact_narrative_def stripped_def [symmetric] es_def [symmetric] usable_def [symmetric] Let_def
        split: if_splits)
  then show ?thesis
  proof cases
    case 1
    then show ?thesis using length_ending_positions [of stripped] by (simp add: es_def)
  next
    case 2
    define k where "k = min n (length usable) - 1"
    have k: "k < length usable" "k < n" using 2(1) assms(2) by (auto simp: k_def min_def)
    then have u: "usable ! k = es ! k" "k < length es" "es ! k \<le> m"
      using nth_filter_le [of es k m] sorted_ending_positions by (simp_all add: usable_def es_def)
    have "endings_in (take (es ! k) stripped) = Suc k" using u(2) unfolding es_def by (rule endings_up_to)
    moreover have "length (py_strip (take (es ! k) stripped)) \<le> m"
      using u(3) length_py_strip [of "take (es ! k) stripped"] by simp
    moreover have "s = py_strip (take (es ! k) stripped)" using 2(2) u(1) unfolding k_def by simp
    ultimately show ?thesis
      using k(2) endings_in_strip [of "take (es ! k) stripped"] by simp
  qed
qed

text \<open>What the validator has checked once it accepts.\<close>

lemma check_findings_sound:
  assumes "check_findings t ids fids fs = Inr (ids', fids')" "distinct ids" "distinct fids"
  shows "distinct ids' \<and> distinct fids'
    \<and> ids' = ids @ concat (map (\<lambda>f. map jstr (jelems (jget f ''pattern_ids''))) fs)
    \<and> fids' = fids @ map (\<lambda>f. jstr (jget f ''id'')) fs
    \<and> (\<forall>f\<in>set fs. is_dict f \<and> check_numbers t f = None)"
  using assms
proof (induction fs arbitrary: ids fids)
  case Nil
  then show ?case by simp
next
  case (Cons f fs)
  obtain i1 d1 where c: "check_identity ids fids f = Inr (i1, d1)" "check_numbers t f = None"
      "check_findings t i1 d1 fs = Inr (ids', fids')"
    using Cons.prems(1) by (auto split: sum.splits option.splits)
  have i: "is_dict f \<and> i1 = ids @ map jstr (jelems (jget f ''pattern_ids'')) \<and> d1 = fids @ [jstr (jget f ''id'')]
      \<and> distinct i1 \<and> distinct d1"
    using c(1) Cons.prems(2,3)
    by (auto simp: check_identity_def find_first_None_iff split: if_splits option.splits json.splits)
  then have "distinct i1" "distinct d1" by blast+
  from Cons.IH [OF c(3) this]
  have ih: "distinct ids'" "distinct fids'" "ids' = i1 @ concat (map (\<lambda>f. map jstr (jelems (jget f ''pattern_ids''))) fs)"
      "fids' = d1 @ map (\<lambda>f. jstr (jget f ''id'')) fs" "\<forall>f\<in>set fs. is_dict f \<and> check_numbers t f = None"
    by blast+
  have "ids' = ids @ concat (map (\<lambda>f. map jstr (jelems (jget f ''pattern_ids''))) (f # fs))"
      "fids' = fids @ map (\<lambda>f. jstr (jget f ''id'')) (f # fs)"
    using ih(3,4) i by simp_all
  with ih(1,2,5) i c(2) show ?case by (simp only: list.set) blast
qed

lemma first_error_None_iff: "first_error xs = None \<longleftrightarrow> (\<forall>x\<in>set xs. x = None)"
  by (induction xs rule: first_error.induct) auto

section \<open>A sample log\<close>

definition sample_penv :: py_env where
  "sample_penv = \<lparr>sha256_hex = (\<lambda>s. s), py_repr = (\<lambda>v. [])\<rparr>"

definition sample_entry :: "int \<Rightarrow> string \<Rightarrow> log_entry" where
  "sample_entry i f = \<lparr>le_id = i, le_level = None, le_text = [], le_pattern_id = u f, le_family_id = Some (u f),
     le_trace_id = None\<rparr>"

definition sample_statistics :: log_statistics where
  "sample_statistics = \<lparr>st_entries = [sample_entry 0 ''a'', sample_entry 1 ''b'', sample_entry 2 ''a''], st_total = 3\<rparr>"

definition sample_finding :: "int list \<Rightarrow> json" where
  "sample_finding ids = JObj [(u ''id'', JStr (u ''f'')), (u ''evidence_entry_ids'', JArr (map JInt ids))]"

definition sample_result :: triage_result where
  "sample_result = \<lparr>key_finds = [sample_finding [2]], secondary_finds = [], other_fields = []\<rparr>"

lemma sample_statistics_wf: "wf_statistics sample_statistics"
  by (simp add: wf_statistics_def manifest_ids_def sample_statistics_def sample_entry_def upt_rec)

lemma sample_entry_by_id:
  "entry_by_id sample_statistics 2 = Some (sample_entry 2 ''a'')"
  by (simp add: entry_by_id_def sample_statistics_def sample_entry_def)

lemma sample_expand: "expand_entry sample_statistics 2 = [0, 2]"
  unfolding expand_entry_def sample_entry_by_id
  by (simp add: sample_entry_def truthy_opt_def sample_statistics_def)

lemma sample_reconcile_Inr: "\<exists>res'. reconcile_entry_grouped_result sample_penv sample_statistics sample_result = Inr res'"
proof -
  have "raw_entry_ids (sample_finding [2]) = Some [2]" "jhas (sample_finding [2]) ''evidence_entry_ids''"
    by (simp_all add: raw_entry_ids_def sample_finding_def jget_def jhas_def)
  then show ?thesis
    by (simp add: reconcile_entry_grouped_result_def sample_result_def reconcile_finding_def sample_entry_by_id Let_def)
qed

section \<open>Properties\<close>

text \<open>Complete evidence accounting: if the reconciliation of a result whose findings all select
  entries succeeds, the findings of the result own a partition of the log entries (every entry
  belongs to exactly one finding), their counts add up to the total of the log, and each finding
  either carries the exact count, audit counts and percentage of its entries or owns none and claims
  no number.\<close>

theorem reconciliation_accounts_for_every_entry:
  assumes "reconcile_entry_grouped_result env st res = Inr res'" "wf_statistics st"
    and "\<forall>f\<in>set (key_finds res @ secondary_finds res). jhas f ''evidence_entry_ids'' \<and> is_dict f"
  shows "mset (concat (map evidence_ids (key_finds res' @ secondary_finds res'))) = mset (manifest_ids st)
    \<and> sum_list (map (\<lambda>f. count_of (jget f ''count'')) (key_finds res' @ secondary_finds res')) = st_total st
    \<and> (\<forall>f\<in>set (key_finds res' @ secondary_finds res'). quantified_ok st f \<or> unquantified f)
    \<and> length (key_finds res') = length (key_finds res) \<and> field res' ''total_entries'' = JInt (st_total st)"
proof -
  note r = reconcile_entry_grouped_result_ok [OF assms]
  have "sum_list (map (\<lambda>f. count_of (jget f ''count'')) (key_finds res' @ secondary_finds res'))
      = int (size (mset (concat (map evidence_ids (key_finds res' @ secondary_finds res')))))"
    unfolding size_mset using r(2) by (rule counts_are_sizes)
  also have "\<dots> = st_total st" unfolding r(1) using assms(2) by (simp add: wf_statistics_def manifest_ids_def)
  finally show ?thesis using r by (simp only: field_def option.case simp_thms)
qed

theorem reconciliation_accounts_for_every_entry_witness:
  "\<exists>res'. reconcile_entry_grouped_result sample_penv sample_statistics sample_result = Inr res'
     \<and> sum_list (map (\<lambda>f. count_of (jget f ''count'')) (key_finds res' @ secondary_finds res')) = 3"
proof -
  obtain res' where r: "reconcile_entry_grouped_result sample_penv sample_statistics sample_result = Inr res'"
    using sample_reconcile_Inr by blast
  have "\<forall>f\<in>set (key_finds sample_result @ secondary_finds sample_result). jhas f ''evidence_entry_ids'' \<and> is_dict f"
    by (simp add: sample_result_def sample_finding_def jhas_def)
  from reconciliation_accounts_for_every_entry [OF r sample_statistics_wf this] r
  show ?thesis by (auto simp: sample_statistics_def)
qed



text \<open>What an accepted result guarantees: an integer total, findings that are objects with
  pairwise different identifiers and pairwise different pattern identities, and for every quantified
  finding a count between zero and the total and a percentage in the range 0 to 100 that differs
  from the recomputed one by at most one hundredth (in float arithmetic).\<close>

theorem validated_result_is_consistent:
  assumes "validate_log_triage_result word fold_text phrases res = None"
  shows "\<exists>t. field res ''total_entries'' = JInt t \<and> 0 \<le> t
    \<and> (let fs = key_finds res @ secondary_finds res in
       distinct (map (\<lambda>f. jstr (jget f ''id'')) fs)
     \<and> distinct (concat (map (\<lambda>f. map jstr (jelems (jget f ''pattern_ids''))) fs))
     \<and> (\<forall>f\<in>set fs. is_dict f \<and> (jget f ''pattern_ids'' \<noteq> JArr [JStr (u ''unquantified'')] \<longrightarrow>
          (\<exists>c p. jget f ''count'' = JInt c \<and> 0 \<le> c \<and> c \<le> t \<and> py_float (jget f ''percentage'') = Some p
             \<and> 0 \<le> p \<and> p \<le> 100 \<and> \<bar>fl (p - percentage_of c t)\<bar> \<le> fl (1 / 100)))))"
proof -
  obtain t where t: "field res ''total_entries'' = JInt t" "0 \<le> t"
    using assms by (auto simp: validate_log_triage_result_def nonneg_int_def split: if_splits json.splits)
  obtain r where "check_findings t [] [] (key_finds res @ secondary_finds res) = Inr r"
    using assms t by (auto simp: validate_log_triage_result_def first_error_None_iff split: if_splits sum.splits)
  then obtain ids' fids' where "check_findings t [] [] (key_finds res @ secondary_finds res) = Inr (ids', fids')"
    by (cases r) auto
  note s = check_findings_sound [OF this distinct.simps(1) [THEN iffD2] distinct.simps(1) [THEN iffD2], OF TrueI TrueI]
  have "\<exists>c p. jget f ''count'' = JInt c \<and> 0 \<le> c \<and> c \<le> t \<and> py_float (jget f ''percentage'') = Some p
      \<and> 0 \<le> p \<and> p \<le> 100 \<and> \<bar>fl (p - percentage_of c t)\<bar> \<le> fl (1 / 100)"
    if "check_numbers t f = None" "jget f ''pattern_ids'' \<noteq> JArr [JStr (u ''unquantified'')]" for f
  proof -
    have "check_count_and_percentage t f = None"
      using that by (auto simp: check_numbers_def split: option.splits)
    then show ?thesis
      by (auto simp: check_count_and_percentage_def Let_def nonneg_int_def split: if_splits option.splits json.splits)
  qed
  with s t show ?thesis unfolding Let_def by (intro exI [of _ t]) (simp only: append_Nil, blast)
qed

definition sample_accepted :: triage_result where
  "sample_accepted = \<lparr>key_finds = [JObj [(u ''id'', JStr (u ''f'')), (u ''label_zh'', JStr (u ''l'')),
       (u ''label_en'', JStr (u ''l'')), (u ''detail_zh'', JStr (u ''It broke.'')), (u ''detail_en'', JStr (u ''It broke.'')),
       (u ''count'', JInt 1), (u ''percentage'', JInt 25), (u ''pattern_ids'', JArr [JStr (u ''p'')])]],
     secondary_finds = [], other_fields = [(u ''total_entries'', JInt 4),
       (u ''summary_zh'', JStr (u ''It ran. It broke.'')), (u ''summary_en'', JStr (u ''It ran. It broke.''))]\<rparr>"

definition no_causal_phrases :: causal_phrases where
  "no_causal_phrases = \<lparr>shared_causation = (\<lambda>t. False), speculative_causation = (\<lambda>t. False),
     causation_negation = (\<lambda>t. False), linking_evidence = (\<lambda>t. False)\<rparr>"

lemma sample_accepted_valid:
  "validate_log_triage_result (\<lambda>c. True) (\<lambda>s. s) no_causal_phrases sample_accepted = None"
proof -
  note eval = py_strip_def py_lstrip_def is_ending_def py_space_def u_def endings_in_def sentence_count_def
    validate_narrative_completion_def rstrip_chars_def is_closing_def py_suffix_def trailing_incomplete_def
    ends_dangling_def dangling_words_def dangling_chinese_def re_lower_def
  have n: "validate_narrative_completion (\<lambda>c. True) (u ''It ran. It broke.'') = None"
      "validate_narrative_completion (\<lambda>c. True) (u ''It broke.'') = None"
    by (simp_all add: eval)
  have c: "sentence_count (u ''It ran. It broke.'') = 2" "sentence_count (u ''It broke.'') = 1"
      "length (u ''It ran. It broke.'') = 17" "length (u ''It broke.'') = 9"
    by (simp_all add: sentence_count_def endings_in_def is_ending_def u_def)
  have b: "nonblank (JStr (u ''It ran. It broke.''))" "nonblank (JStr (u ''It broke.''))" "nonblank (JStr (u ''l''))"
      "nonblank (JStr (u ''f''))"
    by (simp_all add: nonblank_def py_strip_def py_lstrip_def py_space_def u_def)
  have f: "fl 25 = 25" using fl_of_int [of 25] by simp
  have p: "percentage_of 1 4 = 25" by code_simp
  have d: "\<not> fl (1 / 100) < 0" using fl_nonneg [of "1 / 100"] by simp
  show ?thesis
    by (simp add: validate_log_triage_result_def sample_accepted_def field_def check_summary_def n c b check_density_def
        check_detail_def repetition_error_def check_identity_def check_numbers_def check_entry_ids_def
        check_audit_counts_def check_count_and_percentage_def nonneg_int_def py_float_def f p d jget_def Let_def
        causation_language_ok_def no_causal_phrases_def)
qed

theorem validated_result_is_consistent_witness:
  "\<exists>c p. jget (hd (key_finds sample_accepted)) ''count'' = JInt c \<and> 0 \<le> c \<and> p \<le> 100
     \<and> py_float (jget (hd (key_finds sample_accepted)) ''percentage'') = Some p"
proof -
  have "hd (key_finds sample_accepted) \<in> set (key_finds sample_accepted)" by (simp add: sample_accepted_def)
  moreover have "jget (hd (key_finds sample_accepted)) ''pattern_ids'' \<noteq> JArr [JStr (u ''unquantified'')]"
    by (simp add: sample_accepted_def jget_def)
  moreover obtain t where "\<forall>f\<in>set (key_finds sample_accepted @ secondary_finds sample_accepted).
      is_dict f \<and> (jget f ''pattern_ids'' \<noteq> JArr [JStr (u ''unquantified'')] \<longrightarrow>
          (\<exists>c p. jget f ''count'' = JInt c \<and> 0 \<le> c \<and> c \<le> t \<and> py_float (jget f ''percentage'') = Some p
             \<and> 0 \<le> p \<and> p \<le> 100 \<and> \<bar>fl (p - percentage_of c t)\<bar> \<le> fl (1 / 100)))"
    using validated_result_is_consistent [OF sample_accepted_valid] unfolding Let_def by blast
  ultimately show ?thesis by (metis Un_iff set_append)
qed



text \<open>The excerpt sent to the language model is bounded: it is the log itself if that fits, and
  otherwise it has exactly the permitted length and keeps the omission marker. The only exceptions
  are limits one or two characters longer than the marker, where an empty tail slice keeps the whole
  log.\<close>

theorem compact_log_is_bounded:
  assumes "int max_chars \<notin> {int (length (omission_marker (length s - max_chars))) + 1,
      int (length (omission_marker (length s - max_chars))) + 2}"
  shows "length (compact_log s max_chars) = min (length s) max_chars
    \<and> (length s \<le> max_chars \<longrightarrow> compact_log s max_chars = s)
    \<and> (max_chars < length s \<and> length (omission_marker (length s - max_chars)) < max_chars
        \<longrightarrow> py_in (omission_marker (length s - max_chars)) (compact_log s max_chars))"
proof -
  define mk where "mk = omission_marker (length s - max_chars)"
  consider "length s \<le> max_chars" | "max_chars < length s" "max_chars \<le> length mk"
    | "max_chars < length s" "length mk + 3 \<le> max_chars"
    using assms unfolding mk_def [symmetric] by fastforce
  then show ?thesis
  proof cases
    case 1
    then show ?thesis by (simp add: compact_log_def)
  next
    case 2
    then show ?thesis by (simp add: compact_log_def mk_def [symmetric])
  next
    case 3
    define av where "av = int max_chars - int (length mk) - 2"
    have av: "1 \<le> av" "av \<le> int (length s)" "1 \<le> av - av div 2" "0 \<le> av div 2" using 3 by (simp_all add: av_def)
    have c: "compact_log s max_chars = take (nat (av div 2)) s @ 10 # mk @ 10 # drop (length s - nat (av - av div 2)) s"
      using 3 av by (simp add: compact_log_def mk_def [symmetric] av_def [symmetric] Let_def py_slice_to_def py_slice_from_def)
    have "nat (av div 2) \<le> length s" "nat (av - av div 2) \<le> length s" using av by linarith+
    then have "length (compact_log s max_chars) = nat (av div 2) + nat (av - av div 2) + length mk + 2"
      unfolding c by simp
    also have "nat (av div 2) + nat (av - av div 2) = nat av" using av by linarith
    finally have "length (compact_log s max_chars) = max_chars" using 3 by (simp add: av_def)
    moreover have "py_in mk (compact_log s max_chars)" unfolding c py_in_iff by (metis append_Cons append_assoc append.left_neutral)
    ultimately show ?thesis using 3 by (simp add: mk_def)
  qed
qed

theorem compact_log_is_bounded_witness:
  "length (compact_log (replicate 300 65) 100) = 100"
proof -
  have "length (omission_marker (length (replicate 300 (65::nat)) - 100)) = 75"
    by (simp add: omission_marker_def u_def int_str_def nat_digits.simps)
  then show ?thesis using compact_log_is_bounded [of 100 "replicate 300 65"] by simp
qed

text \<open>A finding for which the model selects no entry is always rejected: reconciliation keeps the
  empty selection and marks the finding unquantified, and the validator, which has a rule for
  unquantified findings, refuses every empty selection before it gets there.\<close>

theorem empty_selection_is_rejected:
  assumes "jget f ''evidence_entry_ids'' = JArr []" "is_dict f" "reconcile_finding env st claimed f = Inr (claimed', f')"
  shows "claimed' = claimed \<and> unquantified f' \<and> check_numbers t f' = Some Bad_Entry_Ids"
proof -
  have "jhas f ''evidence_entry_ids''" using assms(1) by (intro jget_not_null_has) simp
  then have "claimed' = claimed" "f' = quantify env st [] f"
    using assms(1,3) by (auto simp: reconcile_finding_def raw_entry_ids_def Let_def)
  then show ?thesis
    using assms(1,2)
    by (simp add: quantify_def unquantified_def evidence_ids_def raw_entry_ids_def check_numbers_def check_entry_ids_def)
qed

theorem empty_selection_is_rejected_witness:
  "\<exists>f'. reconcile_finding sample_penv sample_statistics [] (sample_finding []) = Inr ([], f')
     \<and> check_numbers 3 f' = Some Bad_Entry_Ids"
proof -
  have f: "jget (sample_finding []) ''evidence_entry_ids'' = JArr []" "is_dict (sample_finding [])"
    by (simp_all add: sample_finding_def jget_def)
  obtain c f' where r: "reconcile_finding sample_penv sample_statistics [] (sample_finding []) = Inr (c, f')"
    using f by (auto simp: reconcile_finding_def raw_entry_ids_def Let_def jget_not_null_has)
  from empty_selection_is_rejected [OF f r] r show ?thesis by auto
qed

end
