(* ===== verification/Preprocess.thy ===== *)
theory Preprocess
  imports Reconcile "HOL-Library.Product_Lexorder"
begin

text \<open>
  Deterministic preparation of a log, \<^verbatim>\<open>sandbox/preprocessing.py\<close>: normalization into entries, the
  facts of one entry, the aggregation \<open>preprocess_log\<close> and the request for the language model. The
  regular expressions are applied by functions of a \<open>scanner\<close> (what \<open>search\<close> and \<open>findall\<close> return on
  a line), as are \<open>json.loads\<close>, \<open>json.dumps\<close>, \<open>datetime.fromisoformat\<close> and Unicode case mappings;
  everything computed from their results is the code's.
\<close>

section \<open>Scanner\<close>

record scanner =
  sc_loads :: "pystr \<Rightarrow> json option"
  sc_dumps :: "json \<Rightarrow> pystr"
  sc_fromiso :: "pystr \<Rightarrow> py_datetime option"
  sc_upper :: "pystr \<Rightarrow> pystr"
  sc_casefold :: "pystr \<Rightarrow> pystr"
  sc_level :: "pystr \<Rightarrow> pystr option"
  sc_timestamp :: "pystr \<Rightarrow> pystr option"
  sc_endpoint :: "pystr \<Rightarrow> pystr option"
  sc_statuses :: "pystr \<Rightarrow> pystr list"
  sc_traces :: "pystr \<Rightarrow> pystr list"
  sc_exceptions :: "pystr \<Rightarrow> pystr list"
  sc_normalize :: "pystr \<Rightarrow> pystr"

section \<open>Entries\<close>

text \<open>\<open>str.splitlines\<close>.\<close>

definition line_break :: "nat \<Rightarrow> bool" where
  "line_break c \<longleftrightarrow> c \<in> {10, 11, 12, 13, 28, 29, 30, 133, 8232, 8233}"

fun split_lines :: "pystr \<Rightarrow> pystr \<Rightarrow> pystr list" where
  "split_lines cur [] = (if cur = [] then [] else [rev cur])"
| "split_lines cur (c # cs) = (if line_break c
     then rev cur # (if c = 13 \<and> cs \<noteq> [] \<and> hd cs = 10 then split_lines [] (tl cs) else split_lines [] cs)
     else split_lines (c # cur) cs)"

definition json_object :: "scanner \<Rightarrow> pystr \<Rightarrow> json option" where
  "json_object sc line = (case sc_loads sc line of Some (JObj kvs) \<Rightarrow> Some (JObj kvs) | _ \<Rightarrow> None)"

definition entries_of :: "py_env \<Rightarrow> scanner \<Rightarrow> pystr \<Rightarrow> (pystr \<times> json option) list" where
  "entries_of env sc log_text = (case sc_loads sc log_text of
      Some (JArr items) \<Rightarrow> filter (\<lambda>(line, s). py_strip line \<noteq> [])
        (map (\<lambda>x. if is_dict x then (sc_dumps sc x, Some x) else (py_str env x, None)) items)
    | Some (JObj kvs) \<Rightarrow> [(sc_dumps sc (JObj kvs), Some (JObj kvs))]
    | _ \<Rightarrow> map (\<lambda>line. (line, json_object sc line)) (filter (\<lambda>l. py_strip l \<noteq> []) (split_lines [] log_text)))"

section \<open>Facts of one entry\<close>

text \<open>\<open>structured.get(k1) or structured.get(k2) or \<dots>\<close>; the last operand is the value if none is true.\<close>

fun first_truthy :: "json \<Rightarrow> string list \<Rightarrow> json" where
  "first_truthy d [] = JNull"
| "first_truthy d [k] = jget d k"
| "first_truthy d (k # ks) = por (jget d k) (first_truthy d ks)"

definition entry_level :: "scanner \<Rightarrow> pystr \<Rightarrow> json option \<Rightarrow> pystr option" where
  "entry_level sc line structured =
    (let d = (case structured of Some d \<Rightarrow> d | None \<Rightarrow> JObj []);
         value = (case first_truthy d [''level'', ''severity''] of JStr s \<Rightarrow> Some s | _ \<Rightarrow> sc_level sc line)
     in (case value of None \<Rightarrow> None
         | Some v \<Rightarrow> let up = sc_upper sc v in Some (if up = u ''WARNING'' then u ''WARN'' else up)))"

definition is_str_or_int :: "json \<Rightarrow> bool" where
  "is_str_or_int v = (case v of JStr s \<Rightarrow> True | JInt i \<Rightarrow> True | JBool b \<Rightarrow> True | _ \<Rightarrow> False)"

definition trace_keys :: "string list" where
  "trace_keys = [''trace_id'', ''traceId'', ''correlation_id'', ''correlationId'', ''request_id'', ''requestId'']"

definition first_identity :: "py_env \<Rightarrow> json \<Rightarrow> pystr option" where
  "first_identity env d = (case find_first (\<lambda>k. is_str_or_int (jget d k) \<and> py_strip (py_str env (jget d k)) \<noteq> []) trace_keys of
      Some k \<Rightarrow> Some (py_strip (py_str env (jget d k))) | None \<Rightarrow> None)"

text \<open>\<open>_trace_id\<close>; an empty object is false and skips the structured search.\<close>

definition entry_trace_id :: "py_env \<Rightarrow> scanner \<Rightarrow> pystr \<Rightarrow> json option \<Rightarrow> pystr option" where
  "entry_trace_id env sc line structured =
    (let from_line = (case sc_traces sc line of [] \<Rightarrow> None | t # _ \<Rightarrow> Some t) in
     case structured of
       None \<Rightarrow> from_line
     | Some d \<Rightarrow> if \<not> truthy d then from_line
         else (case first_identity env d of
             Some t \<Rightarrow> Some t
           | None \<Rightarrow> if is_dict (jget d ''fields'')
               then (case first_identity env (jget d ''fields'') of Some t \<Rightarrow> Some t | None \<Rightarrow> from_line)
               else from_line))"

text \<open>\<open>_WHITESPACE.sub(" ", s).strip()\<close>.\<close>

fun squeeze :: "bool \<Rightarrow> pystr \<Rightarrow> pystr" where
  "squeeze b [] = []"
| "squeeze b (c # cs) = (if py_space c then (if b then squeeze True cs else 32 # squeeze True cs)
     else c # squeeze False cs)"

definition collapse_space :: "pystr \<Rightarrow> pystr" where
  "collapse_space s = py_strip (squeeze False s)"

text \<open>\<open>value.replace("Z", "+00:00")\<close>.\<close>

definition iso_text :: "pystr \<Rightarrow> pystr" where
  "iso_text s = concat (map (\<lambda>c. if c = 90 then u ''+00:00'' else [c]) s)"

definition message_keys :: "string list" where
  "message_keys = [''line'', ''message'', ''msg'', ''error'', ''exception'', ''error_message'', ''detail'']"

text \<open>\<open>_template\<close>: the payload, normalized by the chain of substitutions (\<open>sc_normalize\<close>, which ends
  with the collapse of white space), stripped and cut.\<close>

definition entry_template :: "scanner \<Rightarrow> pystr \<Rightarrow> json option \<Rightarrow> pystr" where
  "entry_template sc line structured =
    (let message = (case structured of None \<Rightarrow> None
           | Some d \<Rightarrow> (case find_first (\<lambda>k. is_str (jget d k) \<and> py_strip (jstr (jget d k)) \<noteq> []) message_keys of
               Some k \<Rightarrow> Some (jstr (jget d k)) | None \<Rightarrow> None));
         cut = take 300 (py_strip (sc_normalize sc (case message of Some m \<Rightarrow> m | None \<Rightarrow> line)))
     in if cut = [] then u ''unclassified log entry'' else cut)"

definition pattern_id :: "py_env \<Rightarrow> pystr \<Rightarrow> pystr" where
  "pattern_id env template = u ''p-'' @ take 12 (sha256_hex env template)"

definition CAUSE_RULES :: "(pystr \<times> pystr list \<times> pystr) list" where
  "CAUSE_RULES = [(u ''elasticsearch-timeout'', [u ''elasticsearch'', u ''timeout''], u ''Elasticsearch timeout''),
     (u ''elasticsearch-failure'', [u ''elasticsearch''], u ''Elasticsearch failure''),
     (u ''ndrp-availability'', [u ''ndrp''], u ''NDRP availability or response failure''),
     (u ''clickhouse-sql'', [u ''clickhouse'', u ''sql''], u ''ClickHouse SQL failure''),
     (u ''face-compare-timeout'', [u ''facecompare'', u ''timeout''], u ''Face comparison timeout''),
     (u ''payment-order-missing'', [u ''payment'', u ''does not exist''], u ''Payment order lookup failure''),
     (u ''sms-opted-out'', [u ''optout''], u ''SMS recipient opted out''),
     (u ''sms-invalid-destination'', [u ''msisdn'', u ''invalid''], u ''SMS destination validation failure''),
     (u ''sms-invalid-destination'', [u ''destination value''], u ''SMS destination validation failure''),
     (u ''sms-command-failure'', [u ''sms'', u ''command_not_recognised''], u ''SMS provider command failure''),
     (u ''sms-command-failure'', [u ''command_not_recognised''], u ''SMS provider command failure''),
     (u ''sms-missing-phone'', [[30005, 35805, 21495, 30721, 20026, 31354]], u ''SMS user phone number missing''),
     (u ''login-account-empty'', [u ''loginservice'', [30331, 24405, 29992, 25143, 26816, 26597, 20026, 31354]], u ''Login account validation empty''),
     (u ''google-login-null'', [u ''googleutil'', u ''null''], u ''Google login returned null''),
     (u ''third-party-game-api'', [u ''/thirdapi/fc/login''], u ''Third-party FC game API failure''),
     (u ''third-party-game-api'', [u ''/thirdapi/evo/login''], u ''Third-party EVO game API failure''),
     (u ''withdrawal-order-status'', [u ''userwithdrawservice'', u ''checkstatus'', u ''uwithdraw''], u ''Withdrawal order status unavailable''),
     (u ''export-file-missing'', [u ''exporttaskservice'', [25991, 20214, 22833, 36133]], u ''Export file operation failure''),
     (u ''export-file-missing'', [u ''exportservice'', [25991, 20214, 19981, 23384, 22312]], u ''Export file operation failure'')]"

definition DEPENDENCIES :: "pystr list" where
  "DEPENDENCIES = map u [''elasticsearch'', ''clickhouse'', ''kafka'', ''redis'', ''mysql'', ''postgres'', ''payment'', ''sms'']"

definition cause_family :: "py_env \<Rightarrow> scanner \<Rightarrow> pystr \<Rightarrow> pystr \<times> pystr" where
  "cause_family env sc template =
    (let value = sc_casefold sc template in
     case find_first (\<lambda>(key, required, label). list_all (\<lambda>tok. py_in tok value) required) CAUSE_RULES of
       Some (key, required, label) \<Rightarrow> (key, label)
     | None \<Rightarrow>
        (let exceptions = uniq (sc_exceptions sc template);
             dependency = find_first (\<lambda>tok. py_in tok value) DEPENDENCIES
         in if exceptions \<noteq> []
            then (py_join (u '':'') ((case dependency of Some d \<Rightarrow> d | None \<Rightarrow> u ''generic'')
                    # sort (map (sc_casefold sc) exceptions)),
                  u ''Related '' @ (case dependency of Some d \<Rightarrow> d | None \<Rightarrow> u ''exception'') @ u '' failure: ''
                    @ py_join (u '', '') exceptions)
            else (u ''template:'' @ pattern_id env template, take 120 template)))"

section \<open>Aggregation\<close>

text \<open>A \<open>Counter\<close> filled with a list of keys, in order of first occurrence, and \<open>most_common(n)\<close>.\<close>

definition counter :: "'a list \<Rightarrow> ('a, int) pydict" where
  "counter xs = map (\<lambda>(k, ys). (k, int (length ys))) (group_by (\<lambda>x. x) xs)"

definition most_common :: "nat \<Rightarrow> ('a, int) pydict \<Rightarrow> ('a, int) pydict" where
  "most_common n c = take n (sort_key (\<lambda>(k, m). - m) c)"

record entry_facts =
  ef_line :: pystr
  ef_level :: "pystr option"
  ef_pattern_id :: pystr
  ef_template :: pystr
  ef_family :: "pystr \<times> pystr"
  ef_trace_id :: "pystr option"
  ef_endpoints :: "pystr list"
  ef_statuses :: "pystr list"
  ef_traces :: "pystr list"
  ef_exceptions :: "pystr list"
  ef_users :: "pystr list"
  ef_records :: "pystr list"
  ef_times :: "py_datetime list"

text \<open>The value of a three-digit match of the status expression.\<close>

definition digits_value :: "pystr \<Rightarrow> int" where
  "digits_value s = foldl (\<lambda>a c. a * 10 + (int c - 48)) 0 s"

definition structured_facts :: "py_env \<Rightarrow> scanner \<Rightarrow> json \<Rightarrow> entry_facts \<Rightarrow> entry_facts" where
  "structured_facts env sc d f =
    (let parse = (\<lambda>k. case jget d k of
           JStr s \<Rightarrow> if s = [] then None else sc_fromiso sc (iso_text s) | _ \<Rightarrow> None);
         stamp = (case find_first (\<lambda>k. parse k \<noteq> None) [''timestamp'', ''time'', ''ts''] of
           Some k \<Rightarrow> (case parse k of Some x \<Rightarrow> [x] | None \<Rightarrow> []) | None \<Rightarrow> []);
         endpoint = (case first_truthy d [''path'', ''endpoint''] of JStr s \<Rightarrow> [s] | _ \<Rightarrow> []);
         trace = (case first_truthy d [''trace_id'', ''traceId''] of JStr s \<Rightarrow> [s] | _ \<Rightarrow> []);
         status = (case first_truthy d [''status_code'', ''statusCode'', ''http_status'', ''status''] of
           JInt i \<Rightarrow> if 100 \<le> i \<and> i \<le> 599 then [int_str i] else [] | _ \<Rightarrow> []);
         user = first_truthy d [''user_id'', ''userId'', ''username''];
         rec = first_truthy d [''record_id'', ''recordId'']
     in f\<lparr>ef_times := stamp, ef_endpoints := endpoint, ef_traces := trace, ef_statuses := status,
          ef_users := (if is_str_or_int user then [py_str env user] else []),
          ef_records := (if is_str_or_int rec then [py_str env rec] else [])\<rparr>)"

definition entry_facts_of :: "py_env \<Rightarrow> scanner \<Rightarrow> pystr \<times> json option \<Rightarrow> entry_facts" where
  "entry_facts_of env sc = (\<lambda>(line, structured).
    (let template = entry_template sc line structured;
         base = \<lparr>ef_line = line, ef_level = entry_level sc line structured,
           ef_pattern_id = pattern_id env template, ef_template = template,
           ef_family = cause_family env sc (take 2000 (collapse_space line)),
           ef_trace_id = entry_trace_id env sc line structured,
           ef_endpoints = [], ef_statuses = [], ef_traces = [], ef_exceptions = [], ef_users = [], ef_records = [],
           ef_times = []\<rparr>;
         f = (case structured of Some d \<Rightarrow> if truthy d then structured_facts env sc d base else base | None \<Rightarrow> base);
         stamp = (case sc_timestamp sc line of Some s \<Rightarrow>
             (if s = [] then [] else case sc_fromiso sc (iso_text s) of Some x \<Rightarrow> [x] | None \<Rightarrow> []) | None \<Rightarrow> [])
     in f\<lparr>ef_endpoints := ef_endpoints f @ (case sc_endpoint sc line of Some e \<Rightarrow> [e] | None \<Rightarrow> []),
          ef_statuses := ef_statuses f @ filter (\<lambda>s. 100 \<le> digits_value s \<and> digits_value s \<le> 599) (sc_statuses sc line),
          ef_traces := ef_traces f @ sc_traces sc line,
          ef_exceptions := sc_exceptions sc line,
          ef_times := ef_times f @ stamp\<rparr>))"

record pattern_row =
  pr_id :: pystr
  pr_template :: pystr
  pr_count :: int
  pr_samples :: "pystr list"
  pr_family_id :: pystr
  pr_family_label :: pystr

record family_row =
  fr_id :: pystr
  fr_label :: pystr
  fr_pattern_ids :: "pystr list"
  fr_count :: int

record log_summary =
  ls_total :: int
  ls_level_counts :: "(pystr, int) pydict"
  ls_error_count :: int
  ls_exception_count :: int
  ls_exception_counts :: "(pystr, int) pydict"
  ls_endpoint_counts :: "(pystr, int) pydict"
  ls_http_status_counts :: "(pystr, int) pydict"
  ls_trace_counts :: "(pystr, int) pydict"
  ls_user_id_counts :: "(pystr, int) pydict"
  ls_record_id_counts :: "(pystr, int) pydict"
  ls_representative :: "(int \<times> pystr option \<times> pystr) list"
  ls_entry_manifest :: "log_entry list"
  ls_time_range :: "(py_datetime \<times> py_datetime) option"
  ls_duration_seconds :: "rat option"
  ls_patterns :: "pattern_row list"
  ls_families :: "family_row list"

text \<open>The counts per pattern, in order of first occurrence; template and family are those of the last
  entry of the pattern, samples those of its first two.\<close>

definition pattern_rows :: "entry_facts list \<Rightarrow> pattern_row list" where
  "pattern_rows fs = map (\<lambda>(p, ys). \<lparr>pr_id = p, pr_template = ef_template (last ys), pr_count = int (length ys),
      pr_samples = map (\<lambda>f. take 500 (ef_line f)) (take 2 ys),
      pr_family_id = fst (ef_family (last ys)), pr_family_label = snd (ef_family (last ys))\<rparr>)
    (group_by ef_pattern_id fs)"

definition pattern_manifest :: "nat \<Rightarrow> pattern_row list \<Rightarrow> pattern_row list" where
  "pattern_manifest max_patterns rows =
    (let ranked = sort_key (\<lambda>r. (- pr_count r, pr_id r)) rows;
         omitted = sum_list (map pr_count (drop max_patterns ranked))
     in take max_patterns ranked
        @ (if omitted \<noteq> 0 then [\<lparr>pr_id = u ''other'', pr_template = u ''Other deterministic log patterns'',
              pr_count = omitted, pr_samples = [], pr_family_id = u ''other'',
              pr_family_label = u ''Other deterministic log patterns''\<rparr>] else []))"

definition family_rows :: "pattern_row list \<Rightarrow> family_row list" where
  "family_rows rows = sort_key (\<lambda>r. (- fr_count r, fr_id r))
    (map (\<lambda>(k, ys). \<lparr>fr_id = k, fr_label = pr_family_label (last ys), fr_pattern_ids = map pr_id ys,
        fr_count = sum_list (map pr_count ys)\<rparr>) (group_by pr_family_id rows))"

definition entry_manifest :: "entry_facts list \<Rightarrow> log_entry list" where
  "entry_manifest fs = map (\<lambda>(i, f). \<lparr>le_id = int i, le_level = ef_level f, le_text = take 1200 (ef_line f),
      le_pattern_id = ef_pattern_id f, le_family_id = Some (fst (ef_family f)), le_trace_id = ef_trace_id f\<rparr>)
    (enumerate 0 fs)"

definition severe :: "pystr option \<Rightarrow> bool" where
  "severe l \<longleftrightarrow> l \<in> {Some (u ''ERROR''), Some (u ''CRITICAL''), Some (u ''FATAL'')}"

fun representatives :: "nat \<Rightarrow> (int \<times> pystr option \<times> pystr) list \<Rightarrow> (nat \<times> entry_facts) list
    \<Rightarrow> (int \<times> pystr option \<times> pystr) list" where
  "representatives m acc [] = acc"
| "representatives m acc ((i, f) # fs) =
     (if length acc < m \<and> (severe (ef_level f) \<or> length acc < 8)
      then representatives m (acc @ [(int i, ef_level f, take 700 (ef_line f))]) fs
      else representatives m acc fs)"

text \<open>\<open>min\<close> and \<open>max\<close> of the timestamps; \<open>None\<close> is the \<open>TypeError\<close> of a mixed comparison.\<close>

fun aware_times :: "py_datetime list \<Rightarrow> int list option" where
  "aware_times [] = Some []"
| "aware_times (Aware x # xs) = (case aware_times xs of None \<Rightarrow> None | Some ys \<Rightarrow> Some (x # ys))"
| "aware_times (Naive x # xs) = None"

fun naive_times :: "py_datetime list \<Rightarrow> int list option" where
  "naive_times [] = Some []"
| "naive_times (Naive x # xs) = (case naive_times xs of None \<Rightarrow> None | Some ys \<Rightarrow> Some (x # ys))"
| "naive_times (Aware x # xs) = None"

definition time_range :: "py_datetime list \<Rightarrow> ((py_datetime \<times> py_datetime) option \<times> rat option) option" where
  "time_range ts = (if ts = [] then Some (None, None)
     else (case aware_times ts of
         Some xs \<Rightarrow> Some (Some (Aware (Min (set xs)), Aware (Max (set xs))),
             Some (py_round3 (fl (of_int (Max (set xs) - Min (set xs)) / 1000000))))
       | None \<Rightarrow> (case naive_times ts of
           Some xs \<Rightarrow> Some (Some (Naive (Min (set xs)), Naive (Max (set xs))),
             Some (py_round3 (fl (of_int (Max (set xs) - Min (set xs)) / 1000000))))
         | None \<Rightarrow> None)))"

definition summarize :: "nat \<Rightarrow> nat \<Rightarrow> entry_facts list \<Rightarrow> log_summary option" where
  "summarize max_patterns max_samples fs =
    (let levels = counter (concat (map (\<lambda>f. case truthy_opt (ef_level f) of Some l \<Rightarrow> [l] | None \<Rightarrow> []) fs));
         get = (\<lambda>k. case map_of levels k of Some n \<Rightarrow> n | None \<Rightarrow> 0);
         exceptions = concat (map ef_exceptions fs);
         common = (\<lambda>g. most_common 20 (counter (concat (map g fs))))
     in case time_range (concat (map ef_times fs)) of
         None \<Rightarrow> None
       | Some (period, dur) \<Rightarrow> Some \<lparr>ls_total = int (length fs), ls_level_counts = sort_key fst levels,
           ls_error_count = get (u ''ERROR'') + get (u ''CRITICAL'') + get (u ''FATAL''),
           ls_exception_count = int (length exceptions), ls_exception_counts = most_common 20 (counter exceptions),
           ls_endpoint_counts = common ef_endpoints, ls_http_status_counts = common ef_statuses,
           ls_trace_counts = common ef_traces, ls_user_id_counts = common ef_users,
           ls_record_id_counts = common ef_records,
           ls_representative = representatives max_samples [] (enumerate 0 fs),
           ls_entry_manifest = entry_manifest fs, ls_time_range = period, ls_duration_seconds = dur,
           ls_patterns = pattern_manifest max_patterns (pattern_rows fs),
           ls_families = family_rows (pattern_rows fs)\<rparr>)"

definition preprocess_log :: "py_env \<Rightarrow> scanner \<Rightarrow> nat \<Rightarrow> nat \<Rightarrow> pystr \<Rightarrow> log_summary option" where
  "preprocess_log env sc max_patterns max_samples log_text =
     summarize max_patterns max_samples (map (entry_facts_of env sc) (entries_of env sc log_text))"

text \<open>The part of the summary that reconciliation reads.\<close>

definition statistics_of :: "log_summary \<Rightarrow> log_statistics" where
  "statistics_of s = \<lparr>st_entries = ls_entry_manifest s, st_total = ls_total s\<rparr>"

text \<open>\<open>_annotated_log\<close>: the entries with the identifiers the model may cite.\<close>

definition annotated_log :: "log_entry list \<Rightarrow> pystr \<Rightarrow> pystr" where
  "annotated_log es log_text = (if es = [] then log_text
     else py_join [10] (map (\<lambda>e. u ''[entry_id='' @ int_str (le_id e) @ u ''] '' @ le_text e) es))"

section \<open>Lemmas\<close>

lemma sum_sizes: "sum_list (map (\<lambda>g. int (length (snd g))) gs) = int (length (concat (map snd gs)))"
  by (induction gs) auto

lemma group_by_sizes: "sum_list (map (\<lambda>g. int (length (snd g))) (group_by key xs)) = int (length xs)"
proof -
  have "length (concat (map snd (group_by key xs))) = length xs"
    by (metis mset_concat_group_by size_mset)
  then show ?thesis by (simp add: sum_sizes)
qed

lemma sum_list_map_sort_key: "sum_list (map (g :: 'a \<Rightarrow> int) (sort_key k xs)) = sum_list (map g xs)"
  by (metis mset_map mset_sort sum_mset_sum_list)

lemma sum_list_take_drop: "sum_list (map (g :: 'a \<Rightarrow> int) (take n xs)) + sum_list (map g (drop n xs)) = sum_list (map g xs)"
  by (metis append_take_drop_id map_append sum_list_append)

lemma sum_pattern_rows: "sum_list (map pr_count (pattern_rows fs)) = int (length fs)"
  using group_by_sizes [of ef_pattern_id fs] by (simp add: pattern_rows_def comp_def case_prod_beta)

lemma sum_pattern_manifest: "sum_list (map pr_count (pattern_manifest m rows)) = sum_list (map pr_count rows)"
proof -
  let ?r = "sort_key (\<lambda>r. (- pr_count r, pr_id r)) rows"
  have "sum_list (map pr_count (pattern_manifest m rows))
      = sum_list (map pr_count (take m ?r)) + sum_list (map pr_count (drop m ?r))"
    by (simp add: pattern_manifest_def Let_def)
  then show ?thesis by (simp add: sum_list_take_drop sum_list_map_sort_key)
qed

lemma sum_family_rows: "sum_list (map fr_count (family_rows rows)) = sum_list (map pr_count rows)"
proof -
  have "sum_list (map (\<lambda>g. sum_list (map pr_count (snd g))) gs) = sum_list (map pr_count (concat (map snd gs)))"
    for gs :: "(pystr \<times> pattern_row list) list"
    by (induction gs) auto
  then have "sum_list (map fr_count (family_rows rows))
      = sum_list (map pr_count (concat (map snd (group_by pr_family_id rows))))"
    by (simp add: family_rows_def sum_list_map_sort_key comp_def case_prod_beta)
  also have "\<dots> = sum_list (map pr_count rows)"
    by (metis mset_concat_group_by mset_map sum_mset_sum_list)
  finally show ?thesis .
qed

lemma distinct_pattern_rows: "distinct (map pr_id (pattern_rows fs))"
  using distinct_group_by_keys [of ef_pattern_id fs] by (simp add: pattern_rows_def comp_def case_prod_beta)

lemma entry_manifest_ids: "map le_id (entry_manifest fs) = map int [0..<length fs]"
  by (simp add: entry_manifest_def enumerate_eq_zip comp_def case_prod_beta map_fst_zip_take flip: map_map [of int fst, unfolded comp_def])

lemma sum_counter: "sum_list (map snd (counter xs)) = int (length xs)"
  using group_by_sizes [of "\<lambda>x. x" xs] by (simp add: counter_def comp_def case_prod_beta)

lemma wf_entry_manifest: "wf_statistics \<lparr>st_entries = entry_manifest fs, st_total = int (length fs)\<rparr>"
  using entry_manifest_ids [of fs]
  by (simp add: wf_statistics_def manifest_ids_def) (simp add: entry_manifest_def)

interpretation prepared: evidence_manifest "\<lambda>fs. \<lparr>st_entries = entry_manifest fs, st_total = int (length fs)\<rparr>"
  by unfold_locales (rule wf_entry_manifest)

lemma preprocess_log_statistics:
  "preprocess_log env sc m n log_text = Some s \<Longrightarrow> statistics_of s =
     \<lparr>st_entries = entry_manifest (map (entry_facts_of env sc) (entries_of env sc log_text)),
      st_total = int (length (map (entry_facts_of env sc) (entries_of env sc log_text)))\<rparr>"
  by (auto simp: preprocess_log_def summarize_def statistics_of_def Let_def split: option.splits prod.splits)

section \<open>Properties\<close>

text \<open>The deterministic counts are exact: whatever the scanner recognizes, the counts of the
  bounded pattern manifest (with its bucket for omitted patterns) and those of the cause families
  both add up to the number of log entries, each physical pattern has one row, severities are counted
  exactly, and the manifest handed to reconciliation numbers the entries \<open>0, 1, \<dots>\<close> with the correct
  total.\<close>

theorem preprocessing_counts_are_exact:
  assumes "preprocess_log env sc m n log_text = Some s"
  shows "ls_total s = int (length (entries_of env sc log_text))
    \<and> sum_list (map pr_count (ls_patterns s)) = ls_total s
    \<and> sum_list (map fr_count (ls_families s)) = ls_total s
    \<and> length (ls_patterns s) \<le> m + 1
    \<and> sum_list (map snd (ls_level_counts s)) \<le> ls_total s
    \<and> wf_statistics (statistics_of s)"
proof -
  define fs where "fs = map (entry_facts_of env sc) (entries_of env sc log_text)"
  have s: "summarize m n fs = Some s" using assms by (simp add: preprocess_log_def fs_def)
  define lv where "lv = concat (map (\<lambda>f. case truthy_opt (ef_level f) of Some l \<Rightarrow> [l] | None \<Rightarrow> []) fs)"
  have f: "ls_total s = int (length fs)" "ls_patterns s = pattern_manifest m (pattern_rows fs)"
      "ls_families s = family_rows (pattern_rows fs)" "ls_entry_manifest s = entry_manifest fs"
      "ls_level_counts s = sort_key fst (counter lv)"
    using s by (auto simp: summarize_def lv_def Let_def split: option.splits prod.splits)
  have "length (pattern_manifest m (pattern_rows fs)) \<le> m + 1"
    by (auto simp: pattern_manifest_def Let_def)
  moreover have "length lv \<le> length fs"
    unfolding lv_def by (induction fs) (auto split: option.split)
  moreover have "wf_statistics (statistics_of s)"
    using wf_entry_manifest [of fs] by (simp add: statistics_of_def f)
  ultimately show ?thesis
    using f by (simp add: sum_pattern_manifest sum_family_rows sum_pattern_rows sum_list_map_sort_key sum_counter fs_def)
qed

text \<open>A scanner that recognizes nothing, for the concrete inputs below.\<close>

definition plain_scanner :: scanner where
  "plain_scanner = \<lparr>sc_loads = (\<lambda>s. None), sc_dumps = (\<lambda>j. []), sc_fromiso = (\<lambda>s. None), sc_upper = (\<lambda>s. s),
     sc_casefold = (\<lambda>s. s), sc_level = (\<lambda>s. None), sc_timestamp = (\<lambda>s. None), sc_endpoint = (\<lambda>s. None),
     sc_statuses = (\<lambda>s. []), sc_traces = (\<lambda>s. []), sc_exceptions = (\<lambda>s. []), sc_normalize = (\<lambda>s. s)\<rparr>"

definition plain_env :: py_env where
  "plain_env = \<lparr>sha256_hex = (\<lambda>s. s), py_repr = (\<lambda>j. [])\<rparr>"

lemma plain_preprocess: "\<exists>s. preprocess_log plain_env plain_scanner m n t = Some s"
proof -
  have "ef_times (entry_facts_of plain_env plain_scanner (l, d)) = []" if "d = None" for l d
    using that by (simp add: entry_facts_of_def plain_scanner_def Let_def)
  moreover have "\<forall>e\<in>set (entries_of plain_env plain_scanner t). snd e = None"
    by (auto simp: entries_of_def plain_scanner_def json_object_def)
  ultimately have "concat (map ef_times (map (entry_facts_of plain_env plain_scanner) (entries_of plain_env plain_scanner t))) = []"
    by (fastforce simp: concat_eq_Nil_conv)
  then show ?thesis by (simp add: preprocess_log_def summarize_def Let_def time_range_def)
qed

theorem preprocessing_counts_are_exact_witness:
  "\<exists>s. preprocess_log plain_env plain_scanner 1 2 [65, 10, 66, 10, 65] = Some s
     \<and> sum_list (map pr_count (ls_patterns s)) = 3 \<and> sum_list (map fr_count (ls_families s)) = 3"
proof -
  obtain s where s: "preprocess_log plain_env plain_scanner 1 2 [65, 10, 66, 10, 65] = Some s"
    using plain_preprocess by blast
  have "length (entries_of plain_env plain_scanner [65, 10, 66, 10, 65]) = 3"
    by (simp add: entries_of_def plain_scanner_def line_break_def py_strip_def py_lstrip_def py_space_def)
  then show ?thesis using preprocessing_counts_are_exact [OF s] s by auto
qed

end
