(* ===== verification/Report_Document.thy ===== *)
theory Report_Document
  imports Json
begin

text \<open>
  The report intermediate representation, \<^verbatim>\<open>bridge/noc_bridge/report_document.py\<close>: the block types,
  the parser of declarative blocks, the historical daily report assembler, and the presentation of an
  analysis (\<^verbatim>\<open>bridge/noc_bridge/analysis_presentation.py\<close>). Python does not check the annotated field
  types, so a field holds the value the code puts there (\<open>json\<close>, \<open>JNull\<close> for \<open>None\<close>); every exception
  a malformed document can raise is a value of \<open>doc_error\<close>.
\<close>

section \<open>Blocks\<close>

record metadata_line =
  md_label :: json
  md_value :: json

record link_t =
  lk_label :: json
  lk_url :: json
  lk_text :: json
  lk_prefix :: json

record log_file_ref =
  lf_filename :: json
  lf_url :: json

record screenshot_t =
  sh_bucket :: json
  sh_object_key :: json
  sh_filename :: json
  sh_version_id :: json
  sh_sha256 :: json
  sh_content_type :: json
  sh_byte_size :: json

record nav_entry =
  nv_text :: json
  nv_target :: json

record bilingual_text =
  bt_zh :: json
  bt_en :: json
  bt_heading_zh :: json
  bt_heading_en :: json

record find_t =
  fd_label :: json
  fd_detail :: json
  fd_stat :: json

record bilingual_find_list =
  bf_heading_zh :: json
  bf_heading_en :: json
  bf_finds_zh :: "find_t list"
  bf_finds_en :: "find_t list"

record find_list_t =
  fs_heading :: json
  fs_finds :: "find_t list"
  fs_language :: json

record incident_evidence_t =
  ie_heading :: json
  ie_incident_id :: json
  ie_metadata :: "metadata_line list"
  ie_link :: "link_t option"
  ie_links :: "link_t list"
  ie_log_file :: "log_file_ref option"
  ie_screenshots :: "screenshot_t list"
  ie_navigation_target :: json

text \<open>The fields of an \<open>AnalysisReference\<close> other than its children.\<close>

record analysis_fields =
  ar_heading :: json
  ar_available :: bool
  ar_incident_id :: json
  ar_analysis_run_id :: json
  ar_unavailable_text :: json
  ar_metadata :: "metadata_line list"
  ar_provenance :: "metadata_line list"
  ar_screenshots :: "screenshot_t list"
  ar_log_file :: "log_file_ref option"
  ar_summary :: "bilingual_text option"
  ar_key_finds :: "bilingual_find_list option"
  ar_secondary_finds :: "bilingual_find_list option"
  ar_likely_cause :: "bilingual_text option"
  ar_recommended_action :: "bilingual_text option"
  ar_bookmark :: json

datatype block =
    Heading json int
  | Paragraph json json
  | Divider
  | PageBreak
  | MetadataBlock metadata_line
  | LinkBlock link_t
  | LogFileReference log_file_ref
  | Screenshot screenshot_t
  | AlertNavigation "nav_entry list"
  | BilingualText bilingual_text
  | BilingualFindList bilingual_find_list
  | FindList find_list_t
  | IncidentEvidence incident_evidence_t
  | AnalysisReference analysis_fields "block list"

record report_document =
  rd_title :: json
  rd_blocks :: "block list"
  rd_metadata :: "metadata_line list"
  rd_provenance :: "metadata_line list"

definition empty_analysis :: analysis_fields where
  "empty_analysis = \<lparr>ar_heading = JNull, ar_available = False, ar_incident_id = JNull, ar_analysis_run_id = JNull,
     ar_unavailable_text = JNull, ar_metadata = [], ar_provenance = [], ar_screenshots = [], ar_log_file = None,
     ar_summary = None, ar_key_finds = None, ar_secondary_finds = None, ar_likely_cause = None,
     ar_recommended_action = None, ar_bookmark = JNull\<rparr>"

section \<open>Declarative blocks\<close>

definition screenshot_from_dict :: "json \<Rightarrow> doc_error + screenshot_t" where
  "screenshot_from_dict raw =
     sbind (jitem raw ''bucket'') (\<lambda>b. sbind (jitem raw ''object_key'') (\<lambda>k.
       Inr \<lparr>sh_bucket = b, sh_object_key = k, sh_filename = jget raw ''filename'', sh_version_id = jget raw ''version_id'',
         sh_sha256 = jget raw ''sha256'', sh_content_type = jget raw ''content_type'', sh_byte_size = jget raw ''byte_size''\<rparr>))"

definition parse_metadata :: "doc_env \<Rightarrow> json \<Rightarrow> doc_error + metadata_line" where
  "parse_metadata env item = sbind (jitem item ''label'') (\<lambda>l. sbind (jitem item ''value'') (\<lambda>v.
     Inr \<lparr>md_label = str_of env l, md_value = str_of env v\<rparr>))"

definition parse_link :: "json \<Rightarrow> doc_error + link_t" where
  "parse_link item = sbind (jitem item ''label'') (\<lambda>l. sbind (jitem item ''url'') (\<lambda>v.
     Inr \<lparr>lk_label = l, lk_url = v, lk_text = jget item ''text'', lk_prefix = jget item ''prefix''\<rparr>))"

definition parse_log_file :: "json \<Rightarrow> doc_error + log_file_ref option" where
  "parse_log_file v = (if is_dict v then sbind (jitem v ''filename'') (\<lambda>f.
     Inr (Some \<lparr>lf_filename = f, lf_url = jget v ''url''\<rparr>)) else Inr None)"

definition parse_find :: "doc_env \<Rightarrow> json \<Rightarrow> doc_error + find_t" where
  "parse_find env raw = (if \<not> is_dict raw then Inl Attribute_Error
     else Inr \<lparr>fd_label = str_of env (por (jget raw ''label'') (JStr [])),
       fd_detail = opt_str env (jget raw ''detail''), fd_stat = opt_str env (jget raw ''stat'')\<rparr>)"

definition parse_nav :: "doc_env \<Rightarrow> json \<Rightarrow> doc_error + nav_entry" where
  "parse_nav env item = sbind (jitem item ''text'') (\<lambda>x. sbind (jitem item ''target'') (\<lambda>y.
     Inr \<lparr>nv_text = str_of env x, nv_target = str_of env y\<rparr>))"

definition parse_evidence :: "doc_env \<Rightarrow> json \<Rightarrow> doc_error + block" where
  "parse_evidence env raw =
     sbind (jitem raw ''heading'') (\<lambda>h.
     sbind (each (jget_or raw ''metadata'' (JArr [])) (parse_metadata env)) (\<lambda>md.
     sbind (if truthy (jget raw ''link'') then sbind (parse_link (jget raw ''link'')) (\<lambda>l. Inr (Some l)) else Inr None) (\<lambda>lk.
     sbind (each (jget_or raw ''links'' (JArr [])) parse_link) (\<lambda>lks.
     sbind (parse_log_file (jget raw ''log_file'')) (\<lambda>lf.
     sbind (each (jget_or raw ''screenshots'' (JArr [])) screenshot_from_dict) (\<lambda>shs.
       Inr (IncidentEvidence \<lparr>ie_heading = h, ie_incident_id = jget raw ''incident_id'', ie_metadata = md, ie_link = lk,
         ie_links = lks, ie_log_file = lf, ie_screenshots = shs,
         ie_navigation_target = jget raw ''navigation_target''\<rparr>)))))))"

text \<open>The iteration of \<open>_parse_blocks\<close>: an element that is not a dictionary has no \<open>get\<close>.\<close>

definition iter_blocks :: "(json \<Rightarrow> doc_error + 'a) \<Rightarrow> json \<Rightarrow> doc_error + 'a list" where
  "iter_blocks f v = (case v of JArr xs \<Rightarrow> smap f xs
     | JStr s \<Rightarrow> if s = [] then Inr [] else Inl Attribute_Error
     | JObj kvs \<Rightarrow> if kvs = [] then Inr [] else Inl Attribute_Error
     | _ \<Rightarrow> Inl Type_Error)"

lemma iter_blocks_cong [fundef_cong]:
  "v = w \<Longrightarrow> (\<And>x. x \<in> set (jelems w) \<Longrightarrow> f x = g x) \<Longrightarrow> iter_blocks f v = iter_blocks g w"
  by (auto simp: iter_blocks_def intro!: smap_cong split: json.split)

fun as_bilingual :: "block \<Rightarrow> bilingual_text option" where
  "as_bilingual (BilingualText b) = Some b"
| "as_bilingual _ = None"

fun as_find_list :: "block \<Rightarrow> bilingual_find_list option" where
  "as_find_list (BilingualFindList b) = Some b"
| "as_find_list _ = None"

text \<open>\<open>_parse_blocks\<close> on one element. The nested blocks of an analysis reference, also those of its
  optional parts that are discarded when they have another type, are parsed by the same function.\<close>

lemma jlookup_smaller: "jlookup d k = Some v \<Longrightarrow> size v < size d"
proof (cases d)
  case (JObj kvs)
  assume "jlookup d k = Some v"
  then have "(k, v) \<in> set kvs" by (simp add: JObj map_of_SomeD)
  then have "size_prod (\<lambda>x. 0) size (k, v) \<le> size_list (size_prod (\<lambda>x. 0) size) kvs"
    by (rule size_list_estimation') simp
  then show ?thesis by (simp add: JObj)
qed auto

lemma jget_smaller: "is_dict (jget d k) \<Longrightarrow> size (jget d k) < size d"
  by (auto simp: jget_def is_dict_iff jlookup_smaller split: option.splits)

lemma jelems_smaller: "x \<in> set (jelems v) \<Longrightarrow> size x < size v"
  by (cases v) (auto simp: size_list_estimation' le_imp_less_Suc)

lemma jget_or_elem_smaller:
  assumes "x \<in> set (jelems (jget_or d k (jget_or d k' (JArr []))))"
  shows "size x < size d"
  using assms
  by (auto simp: jget_or_def split: option.splits dest!: jelems_smaller jlookup_smaller)

function (sequential) parse_block :: "doc_env \<Rightarrow> json \<Rightarrow> doc_error + block" where
  "parse_block env raw =
    (let kind = jget raw ''type'' in
     if \<not> is_dict raw then Inl Attribute_Error
     else if kind = JStr (u ''heading'') then
       sbind (jitem raw ''text'') (\<lambda>t. sbind (py_int env (jget_or raw ''level'' (JInt 1))) (\<lambda>l. Inr (Heading t l)))
     else if kind = JStr (u ''paragraph'') then
       sbind (jitem raw ''text'') (\<lambda>t. Inr (Paragraph t (jget raw ''style'')))
     else if kind = JStr (u ''bilingual_text'') then
       Inr (BilingualText \<lparr>bt_zh = jget_or raw ''zh'' (JStr []), bt_en = jget_or raw ''en'' (JStr []),
         bt_heading_zh = jget raw ''heading_zh'', bt_heading_en = jget raw ''heading_en''\<rparr>)
     else if kind = JStr (u ''metadata'') then
       sbind (jitem raw ''label'') (\<lambda>l. sbind (jitem raw ''value'') (\<lambda>v.
         Inr (MetadataBlock \<lparr>md_label = l, md_value = str_of env v\<rparr>)))
     else if kind = JStr (u ''link'') then sbind (parse_link raw) (\<lambda>l. Inr (LinkBlock l))
     else if kind = JStr (u ''log_file_reference'') then
       sbind (jitem raw ''filename'') (\<lambda>f. Inr (LogFileReference \<lparr>lf_filename = f, lf_url = jget raw ''url''\<rparr>))
     else if kind = JStr (u ''screenshot'') then sbind (screenshot_from_dict raw) (\<lambda>s. Inr (Screenshot s))
     else if kind = JStr (u ''alert_navigation'') then
       sbind (each (jget_or raw ''entries'' (JArr [])) (parse_nav env)) (\<lambda>es. Inr (AlertNavigation es))
     else if kind = JStr (u ''bilingual_find_list'') then
       sbind (jitem raw ''heading_zh'') (\<lambda>a. sbind (jitem raw ''heading_en'') (\<lambda>b.
       sbind (each (jget_or raw ''finds_zh'' (JArr [])) (parse_find env)) (\<lambda>fz.
       sbind (each (jget_or raw ''finds_en'' (JArr [])) (parse_find env)) (\<lambda>fe.
         Inr (BilingualFindList \<lparr>bf_heading_zh = str_of env a, bf_heading_en = str_of env b,
           bf_finds_zh = fz, bf_finds_en = fe\<rparr>)))))
     else if kind = JStr (u ''find_list'') then
       sbind (jitem raw ''heading'') (\<lambda>h. sbind (each (jget_or raw ''finds'' (JArr [])) (parse_find env)) (\<lambda>fz.
         Inr (FindList \<lparr>fs_heading = str_of env h, fs_finds = fz, fs_language = jget raw ''language''\<rparr>)))
     else if kind = JStr (u ''incident_evidence'') then parse_evidence env raw
     else if kind = JStr (u ''divider'') then Inr Divider
     else if kind = JStr (u ''page_break'') then Inr PageBreak
     else if kind = JStr (u ''analysis_reference'') then
       sbind (each (jget_or raw ''metadata'' (JArr [])) (parse_metadata env)) (\<lambda>md.
       sbind (each (jget_or raw ''provenance'' (JArr [])) (parse_metadata env)) (\<lambda>pv.
       sbind (iter_blocks (parse_block env) (jget_or raw ''children'' (jget_or raw ''blocks'' (JArr [])))) (\<lambda>ch.
       sbind (each (jget_or raw ''screenshots'' (JArr [])) screenshot_from_dict) (\<lambda>shs.
       sbind (parse_log_file (jget raw ''log_file'')) (\<lambda>lf.
       sbind (smap (\<lambda>k. if is_dict (jget raw k) then sbind (parse_block env (jget raw k)) (\<lambda>b. Inr (Some b)) else Inr None)
           [''summary'', ''key_finds'', ''secondary_finds'', ''likely_cause'', ''recommended_action'']) (\<lambda>os.
         Inr (AnalysisReference \<lparr>
           ar_heading = str_of env (por (jget raw ''heading'') (por (jget raw ''label'')
             (por (jget raw ''analysis_run_id'') (JStr (u ''Analysis''))))),
           ar_available = truthy (jget_or raw ''available'' (JBool True)),
           ar_incident_id = opt_str env (jget raw ''incident_id''),
           ar_analysis_run_id = opt_str env (jget raw ''analysis_run_id''),
           ar_unavailable_text = jget raw ''unavailable_text'', ar_metadata = md, ar_provenance = pv,
           ar_screenshots = shs, ar_log_file = lf,
           ar_summary = Option.bind (os ! 0) as_bilingual, ar_key_finds = Option.bind (os ! 1) as_find_list,
           ar_secondary_finds = Option.bind (os ! 2) as_find_list, ar_likely_cause = Option.bind (os ! 3) as_bilingual,
           ar_recommended_action = Option.bind (os ! 4) as_bilingual, ar_bookmark = jget raw ''bookmark''\<rparr> ch)))))))
     else Inl Value_Error)"
  by pat_completeness auto

termination
  by (relation "measure (\<lambda>(env, raw). size raw)") (auto dest: jget_or_elem_smaller jget_smaller)

declare parse_block.simps [simp del]

definition parse_blocks :: "doc_env \<Rightarrow> json \<Rightarrow> doc_error + block list" where
  "parse_blocks env v = iter_blocks (parse_block env) v"

text \<open>The items of a dictionary with a value, as facts; \<open>v or {}\<close> must be a dictionary.\<close>

definition fact_lines :: "doc_env \<Rightarrow> (pystr \<Rightarrow> bool) \<Rightarrow> json \<Rightarrow> doc_error + metadata_line list" where
  "fact_lines env keep v = (if \<not> truthy v then Inr []
     else (case v of
         JObj kvs \<Rightarrow> Inr (map (\<lambda>(k, x). \<lparr>md_label = JStr k, md_value = str_of env x\<rparr>)
           (filter (\<lambda>(k, x). keep k \<and> x \<noteq> JNull) kvs))
       | _ \<Rightarrow> Inl Attribute_Error))"

definition build_report_document :: "doc_env \<Rightarrow> json \<Rightarrow> doc_error + report_document" where
  "build_report_document env result =
     sbind (fact_lines env (\<lambda>k. k \<noteq> u ''title'') (jget result ''metadata'')) (\<lambda>md.
     sbind (fact_lines env (\<lambda>k. True) (jget result ''provenance'')) (\<lambda>pv.
     sbind (parse_blocks env (jget_or result ''blocks'' (JArr []))) (\<lambda>bs.
       Inr \<lparr>rd_title = jget_or (jget result ''metadata'') ''title'' (JStr (u ''Report'')),
         rd_blocks = bs, rd_metadata = md, rd_provenance = pv\<rparr>)))"

section \<open>Statistics of a finding\<close>

text \<open>\<open>format(n, ",")\<close>.\<close>

fun group_digits :: "pystr \<Rightarrow> pystr" where
  "group_digits (a # b # c # d # ds) = a # b # c # 44 # group_digits (d # ds)"
| "group_digits ds = ds"

definition thousands :: "int \<Rightarrow> pystr" where
  "thousands i = (if i < 0 then [45] else []) @ rev (group_digits (rev (nat_digits (nat \<bar>i\<bar>))))"

definition format_count :: "doc_env \<Rightarrow> json \<Rightarrow> doc_error + pystr" where
  "format_count env v = (case v of JInt i \<Rightarrow> Inr (thousands i) | JBool b \<Rightarrow> Inr (thousands (if b then 1 else 0))
     | JFloat r \<Rightarrow> Inr (de_comma env r) | JStr s \<Rightarrow> Inl Value_Error | _ \<Rightarrow> Inl Type_Error)"

definition stat_text :: "doc_env \<Rightarrow> json \<Rightarrow> doc_error + json" where
  "stat_text env f =
    (let c = jget f ''count''; p = jget f ''percentage'' in
     if c = JNull then Inr JNull
     else sbind (format_count env c) (\<lambda>s.
       Inr (JStr (if p \<noteq> JNull then s @ u '' / '' @ py_str (de_py env) p @ u ''%'' else s))))"

section \<open>Presentation of an analysis\<close>

definition lang_key :: "string \<Rightarrow> bool \<Rightarrow> string" where
  "lang_key k zh = k @ (if zh then ''_zh'' else ''_en'')"

definition presentation_find :: "doc_env \<Rightarrow> bool \<Rightarrow> json \<Rightarrow> doc_error + find_t" where
  "presentation_find env zh v = sbind (stat_text env v) (\<lambda>st.
     (let d = py_str (de_py env) (por (jget v (lang_key ''detail'' zh)) (JStr []))
      in Inr \<lparr>fd_label = str_of env (por (jget v (lang_key ''label'' zh)) (por (jget v (lang_key ''label'' (\<not> zh))) (JStr []))),
           fd_detail = (if d = [] then JNull else JStr d), fd_stat = st\<rparr>))"

definition presentation_find_list :: "doc_env \<Rightarrow> json \<Rightarrow> string \<Rightarrow> bool \<Rightarrow> doc_error + block" where
  "presentation_find_list env result key zh =
     sbind (smap (presentation_find env zh) (filter is_dict (jelems (por (jget result key) (JArr []))))) (\<lambda>fs.
       Inr (FindList \<lparr>fs_heading = JStr (if key = ''key_finds'' then u ''Key Finds'' else u ''Secondary Finds''),
         fs_finds = fs, fs_language = JStr (if zh then u ''Chinese'' else u ''English'')\<rparr>))"

definition language_section :: "doc_env \<Rightarrow> json \<Rightarrow> bool \<Rightarrow> doc_error + block list" where
  "language_section env result zh =
     sbind (presentation_find_list env result ''key_finds'' zh) (\<lambda>kf.
     sbind (presentation_find_list env result ''secondary_finds'' zh) (\<lambda>sf.
       Inr [Heading (JStr (if zh then u ''Chinese'' else u ''English'')) 3, Heading (JStr (u ''Short Summary'')) 4,
         Paragraph (str_of env (por (jget result (lang_key ''summary'' zh)) (JStr []))) JNull, kf, sf]))"

definition build_analysis_presentation :: "doc_env \<Rightarrow> json \<Rightarrow> json \<Rightarrow> doc_error + block list" where
  "build_analysis_presentation env result contract =
    (if \<not> is_dict result then Inr []
     else if contract \<noteq> JNull \<and> contract \<noteq> JStr (u ''analysis-presentation-v1'') then Inl Value_Error
     else
      (let explicit = jget result ''report_presentation'' in
       if is_dict explicit \<and> is_list (jget explicit ''blocks'')
       then sbind (build_report_document env (JObj [(u ''metadata'', JObj []), (u ''blocks'', jget explicit ''blocks'')]))
         (\<lambda>d. Inr (rd_blocks d))
       else sbind (language_section env result True) (\<lambda>a. sbind (language_section env result False) (\<lambda>b. Inr (a @ b)))))"

section \<open>The historical assembler\<close>

definition legacy_find :: "doc_env \<Rightarrow> bool \<Rightarrow> json \<Rightarrow> doc_error + find_t" where
  "legacy_find env zh e = (if \<not> is_dict e then Inl Attribute_Error
     else sbind (stat_text env e) (\<lambda>st.
       Inr \<lparr>fd_label = por (jget e (lang_key ''label'' zh)) (por (jget e (lang_key ''label'' (\<not> zh))) (JStr [])),
         fd_detail = jget e (lang_key ''detail'' zh), fd_stat = st\<rparr>))"

definition legacy_find_list :: "doc_env \<Rightarrow> pystr \<Rightarrow> pystr \<Rightarrow> json \<Rightarrow> doc_error + bilingual_find_list option" where
  "legacy_find_list env hz he v = (if \<not> truthy v then Inr None
     else sbind (each v (legacy_find env True)) (\<lambda>fz. sbind (each v (legacy_find env False)) (\<lambda>fe.
       Inr (Some \<lparr>bf_heading_zh = JStr hz, bf_heading_en = JStr he, bf_finds_zh = fz, bf_finds_en = fe\<rparr>))))"

definition prefixed :: "doc_env \<Rightarrow> pystr \<Rightarrow> json \<Rightarrow> json" where
  "prefixed env p v = JStr (if truthy v then p @ py_str (de_py env) v else [])"

definition legacy_pair :: "doc_env \<Rightarrow> pystr \<Rightarrow> pystr \<Rightarrow> json \<Rightarrow> string \<Rightarrow> bilingual_text option" where
  "legacy_pair env pz pe a key =
    (let z = jget a (lang_key key True); e = jget a (lang_key key False) in
     if truthy z \<or> truthy e
     then Some \<lparr>bt_zh = prefixed env pz z, bt_en = prefixed env pe e, bt_heading_zh = JNull, bt_heading_en = JNull\<rparr>
     else None)"

definition section_log_file :: "json \<Rightarrow> json \<Rightarrow> log_file_ref option" where
  "section_log_file s link = (if truthy (jget s ''log_filename'')
     then Some \<lparr>lf_filename = jget s ''log_filename'', lf_url = link\<rparr> else None)"

definition legacy_analysis_reference :: "doc_env \<Rightarrow> json \<Rightarrow> json \<Rightarrow> doc_error + block" where
  "legacy_analysis_reference env h s =
    (let a = jget s ''analysis'' in
     if a = JNull then Inr (AnalysisReference (empty_analysis\<lparr>ar_heading := h, ar_available := False,
       ar_unavailable_text := JStr (u ''No log analysis available yet for this incident.'')\<rparr>) [])
     else sbind (each (por (jget s ''screenshots'') (JArr [])) screenshot_from_dict) (\<lambda>shs.
       if \<not> is_dict a then Inl Attribute_Error
       else sbind (legacy_find_list env ([37325, 28857, 21457, 29616] @ u '' (Key Finds)'') (u ''Key Finds'')
           (jget a ''key_finds'')) (\<lambda>kf.
         sbind (legacy_find_list env ([27425, 35201, 21457, 29616] @ u '' (Secondary Finds)'') (u ''Secondary Finds'')
           (jget a ''secondary_finds'')) (\<lambda>sf.
         Inr (AnalysisReference (empty_analysis\<lparr>ar_heading := h, ar_available := True,
           ar_incident_id := jget s ''incident_id'', ar_screenshots := shs,
           ar_log_file := section_log_file s (jget s ''log_file_url''),
           ar_summary := Some \<lparr>bt_zh = por (jget a ''summary_zh'') (JStr []), bt_en = por (jget a ''summary_en'') (JStr []),
             bt_heading_zh = JStr (u ''Chinese''), bt_heading_en = JStr (u ''English'')\<rparr>,
           ar_key_finds := kf, ar_secondary_finds := sf,
           ar_likely_cause := legacy_pair env ([26368, 21487, 33021, 21407, 22240] @ u '': '') (u ''Likely cause: '') a ''likely_cause'',
           ar_recommended_action := legacy_pair env ([24314, 35758, 25514, 26045] @ u '': '') (u ''Recommended action: '') a
             ''recommended_action''\<rparr>) [])))))"

definition alert_heading :: "nat \<Rightarrow> pystr \<Rightarrow> json" where
  "alert_heading i t = JStr (u ''Alert #'' @ int_str (int i) @ u '' - '' @ t)"

definition legacy_evidence :: "doc_env \<Rightarrow> nat \<times> json \<Rightarrow> doc_error + block" where
  "legacy_evidence env = (\<lambda>(i, s).
     sbind (jitem s ''incident_display_id'') (\<lambda>d. sbind (jitem s ''status'') (\<lambda>st.
     sbind (each (por (jget s ''screenshots'') (JArr [])) screenshot_from_dict) (\<lambda>shs.
     sbind (jitem s ''title'') (\<lambda>t.
       Inr (IncidentEvidence \<lparr>ie_heading = alert_heading i (py_str (de_py env) t), ie_incident_id = JNull,
         ie_metadata = [\<lparr>md_label = JStr (u ''Incident''), md_value = d\<rparr>, \<lparr>md_label = JStr (u ''Status''), md_value = st\<rparr>],
         ie_link = (if truthy (jget s ''grafana_url'') then Some \<lparr>lk_label = JStr (u ''Grafana''),
           lk_url = jget s ''grafana_url'', lk_text = JStr (u ''Grafana''), lk_prefix = JStr (u ''Grafana Link'')\<rparr> else None),
         ie_links = [], ie_log_file = section_log_file s JNull, ie_screenshots = shs,
         ie_navigation_target = JNull\<rparr>))))))"

definition legacy_analysis :: "doc_env \<Rightarrow> nat \<times> json \<Rightarrow> doc_error + block" where
  "legacy_analysis env = (\<lambda>(i, s).
     sbind (jitem s ''incident_display_id'') (\<lambda>d. sbind (jitem s ''title'') (\<lambda>t.
       legacy_analysis_reference env (alert_heading i (py_str (de_py env) t)) s)))"

definition build_daily_report_document :: "doc_env \<Rightarrow> json \<Rightarrow> doc_error + report_document" where
  "build_daily_report_document env result =
     sbind (py_iter (jget_or result ''sections'' (JArr []))) (\<lambda>sections.
     sbind (smap (legacy_evidence env) (enumerate 1 sections)) (\<lambda>ev.
     sbind (smap (legacy_analysis env) (enumerate 1 sections)) (\<lambda>an.
     sbind (jitem result ''title'') (\<lambda>title.
       (let cf = (\<lambda>zh. jget result (lang_key ''cross_incident_findings'' zh)) in
        Inr \<lparr>rd_title = title, rd_blocks =
          Heading (JStr (u ''Alerts'')) 1
          # (if sections = [] then [Paragraph (JStr (u ''No incidents in this shift.'')) JNull] else []) @ ev
          @ [PageBreak, Heading (JStr (u ''General Summary'')) 1,
             BilingualText \<lparr>bt_zh = por (jget result ''overview_zh'') (JStr []), bt_en = por (jget result ''overview_en'') (JStr []),
               bt_heading_zh = JStr (u ''Chinese Summary''), bt_heading_en = JStr (u ''English Summary'')\<rparr>]
          @ (if truthy (cf False) \<or> truthy (cf True) then [Heading (JStr (u ''Cross-Incident Findings'')) 3,
               BilingualText \<lparr>bt_zh = por (cf True) (JStr []), bt_en = por (cf False) (JStr []),
                 bt_heading_zh = JStr (u ''Chinese''), bt_heading_en = JStr (u ''English'')\<rparr>] else [])
          @ [PageBreak, Heading (JStr (u ''Log Analysis'')) 1] @ an,
          rd_metadata = [], rd_provenance = []\<rparr>)))))"

end
