(* ===== verification/Report_Preview.thy ===== *)
theory Report_Preview
  imports Report_Document
begin

text \<open>
  The web preview of a report, \<^verbatim>\<open>bridge/noc_bridge/report_document_json.py\<close>: the document as JSON, with
  every screenshot replaced by its index into a private list of storage coordinates. The list that
  the code appends to while it walks the document is passed through.
\<close>

section \<open>Serialization\<close>

definition jobj :: "(string \<times> json) list \<Rightarrow> json" where
  "jobj kvs = JObj (map (\<lambda>kv. (u (fst kv), snd kv)) kvs)"

definition find_to_json :: "find_t \<Rightarrow> json" where
  "find_to_json f = jobj [(''label'', fd_label f), (''detail'', fd_detail f), (''stat'', fd_stat f)]"

definition metadata_to_json :: "metadata_line \<Rightarrow> json" where
  "metadata_to_json m = jobj [(''type'', JStr (u ''metadata'')), (''label'', md_label m), (''value'', md_value m)]"

definition link_to_json :: "link_t \<Rightarrow> json" where
  "link_to_json l = jobj [(''type'', JStr (u ''link'')), (''label'', lk_label l), (''prefix'', lk_prefix l),
     (''url'', lk_url l), (''text'', lk_text l)]"

definition log_file_to_json :: "log_file_ref \<Rightarrow> json" where
  "log_file_to_json f = jobj [(''type'', JStr (u ''log_file_reference'')), (''filename'', lf_filename f), (''url'', lf_url f)]"

definition bilingual_to_json :: "bilingual_text \<Rightarrow> json" where
  "bilingual_to_json b = jobj [(''type'', JStr (u ''bilingual_text'')), (''text_zh'', bt_zh b), (''text_en'', bt_en b),
     (''heading_zh'', bt_heading_zh b), (''heading_en'', bt_heading_en b)]"

definition find_list_to_json :: "bilingual_find_list \<Rightarrow> json" where
  "find_list_to_json b = jobj [(''type'', JStr (u ''bilingual_find_list'')), (''heading_zh'', bf_heading_zh b),
     (''heading_en'', bf_heading_en b), (''finds_zh'', JArr (map find_to_json (bf_finds_zh b))),
     (''finds_en'', JArr (map find_to_json (bf_finds_en b)))]"

definition nav_to_json :: "nav_entry \<Rightarrow> json" where
  "nav_to_json e = jobj [(''text'', nv_text e), (''target'', nv_target e)]"

definition opt_json :: "('a \<Rightarrow> json) \<Rightarrow> 'a option \<Rightarrow> json" where
  "opt_json f v = (case v of None \<Rightarrow> JNull | Some x \<Rightarrow> f x)"

text \<open>The private entry of a screenshot: its fields that are not \<open>None\<close>.\<close>

definition screenshot_entry :: "screenshot_t \<Rightarrow> json" where
  "screenshot_entry s = JObj (filter (\<lambda>(k, v). v \<noteq> JNull)
     [(u ''bucket'', sh_bucket s), (u ''object_key'', sh_object_key s), (u ''filename'', sh_filename s),
      (u ''version_id'', sh_version_id s), (u ''sha256'', sh_sha256 s), (u ''content_type'', sh_content_type s),
      (u ''byte_size'', sh_byte_size s)])"

definition screenshot_ref :: "nat \<Rightarrow> screenshot_t \<Rightarrow> json" where
  "screenshot_ref i s = jobj [(''type'', JStr (u ''screenshot'')), (''index'', JInt (int i)), (''filename'', sh_filename s)]"

fun screenshots_to_json :: "screenshot_t list \<Rightarrow> json list \<Rightarrow> json list \<times> json list" where
  "screenshots_to_json [] shots = ([], shots)"
| "screenshots_to_json (s # ss) shots =
    (let (js, shots') = screenshots_to_json ss (shots @ [screenshot_entry s])
     in (screenshot_ref (length shots) s # js, shots'))"

fun block_to_json :: "bool \<Rightarrow> block \<Rightarrow> json list \<Rightarrow> json \<times> json list"
  and blocks_to_json :: "bool \<Rightarrow> block list \<Rightarrow> json list \<Rightarrow> json list \<times> json list" where
  "block_to_json p (Heading t l) shots =
     (jobj [(''type'', JStr (u ''heading'')), (''text'', t), (''level'', JInt l)], shots)"
| "block_to_json p (Paragraph t s) shots =
     (jobj [(''type'', JStr (u ''paragraph'')), (''text'', t), (''style'', s)], shots)"
| "block_to_json p Divider shots = (jobj [(''type'', JStr (u ''divider''))], shots)"
| "block_to_json p PageBreak shots = (jobj [(''type'', JStr (u ''page_break''))], shots)"
| "block_to_json p (MetadataBlock m) shots = (metadata_to_json m, shots)"
| "block_to_json p (LinkBlock l) shots = (link_to_json l, shots)"
| "block_to_json p (LogFileReference f) shots = (log_file_to_json f, shots)"
| "block_to_json p (Screenshot s) shots = (screenshot_ref (length shots) s, shots @ [screenshot_entry s])"
| "block_to_json p (AlertNavigation es) shots =
     (jobj [(''type'', JStr (u ''alert_navigation'')), (''entries'', JArr (map nav_to_json es))], shots)"
| "block_to_json p (BilingualText b) shots = (bilingual_to_json b, shots)"
| "block_to_json p (BilingualFindList b) shots = (find_list_to_json b, shots)"
| "block_to_json p (FindList f) shots =
     (jobj [(''type'', JStr (u ''find_list'')), (''heading'', fs_heading f), (''language'', fs_language f),
        (''finds'', JArr (map find_to_json (fs_finds f)))], shots)"
| "block_to_json p (IncidentEvidence e) shots =
    (let links = (case ie_link e of Some l \<Rightarrow> [l] | None \<Rightarrow> []) @ ie_links e;
         (ss, shots') = screenshots_to_json (ie_screenshots e) shots
     in (jobj [(''type'', JStr (u ''incident_evidence'')), (''heading'', ie_heading e),
          (''incident_id'', if p then ie_incident_id e else JNull),
          (''metadata'', JArr (map metadata_to_json (ie_metadata e))),
          (''links'', JArr (map link_to_json links)),
          (''log_file'', opt_json log_file_to_json (ie_log_file e)),
          (''screenshots'', JArr ss), (''navigation_target'', ie_navigation_target e)], shots'))"
| "block_to_json p (AnalysisReference a ch) shots =
    (let (cs, shots1) = blocks_to_json p ch shots;
         (ss, shots2) = screenshots_to_json (ar_screenshots a) shots1
     in (jobj ([(''type'', JStr (u ''analysis_reference'')), (''heading'', ar_heading a),
          (''available'', JBool (ar_available a)),
          (''incident_id'', if p then ar_incident_id a else JNull),
          (''unavailable_text'', ar_unavailable_text a),
          (''children'', JArr cs), (''screenshots'', JArr ss),
          (''log_file'', opt_json log_file_to_json (ar_log_file a)),
          (''summary'', opt_json bilingual_to_json (ar_summary a)),
          (''key_finds'', opt_json find_list_to_json (ar_key_finds a)),
          (''secondary_finds'', opt_json find_list_to_json (ar_secondary_finds a)),
          (''likely_cause'', opt_json bilingual_to_json (ar_likely_cause a)),
          (''recommended_action'', opt_json bilingual_to_json (ar_recommended_action a)),
          (''bookmark'', ar_bookmark a)]
         @ (if p then [(''analysis_run_id'', ar_analysis_run_id a),
              (''metadata'', JArr (map metadata_to_json (ar_metadata a))),
              (''provenance'', JArr (map metadata_to_json (ar_provenance a)))] else [])), shots2))"
| "blocks_to_json p [] shots = ([], shots)"
| "blocks_to_json p (b # bs) shots =
    (let (j, shots1) = block_to_json p b shots; (js, shots2) = blocks_to_json p bs shots1 in (j # js, shots2))"

definition document_to_preview_json :: "report_document \<Rightarrow> json \<times> json list" where
  "document_to_preview_json d =
    (let (bs, shots) = blocks_to_json False (rd_blocks d) []
     in (jobj [(''title'', rd_title d), (''metadata'', JArr (map metadata_to_json (rd_metadata d))), (''blocks'', JArr bs)],
         shots))"

definition document_to_audit_json :: "report_document \<Rightarrow> json" where
  "document_to_audit_json d =
    (let (bs, shots) = blocks_to_json True (rd_blocks d) []
     in jobj [(''title'', rd_title d), (''metadata'', JArr (map metadata_to_json (rd_metadata d))),
          (''provenance'', JArr (map metadata_to_json (rd_provenance d))), (''blocks'', JArr bs),
          (''screenshots'', JArr shots)])"

section \<open>Public part of a document\<close>

text \<open>What an operator's browser may depend on: the document without storage coordinates, application
  identifiers and provenance.\<close>

definition public_screenshot :: "screenshot_t \<Rightarrow> screenshot_t" where
  "public_screenshot s = \<lparr>sh_bucket = JNull, sh_object_key = JNull, sh_filename = sh_filename s, sh_version_id = JNull,
     sh_sha256 = JNull, sh_content_type = JNull, sh_byte_size = JNull\<rparr>"

fun public_block :: "block \<Rightarrow> block" where
  "public_block (Screenshot s) = Screenshot (public_screenshot s)"
| "public_block (IncidentEvidence e) = IncidentEvidence (e\<lparr>ie_incident_id := JNull,
     ie_screenshots := map public_screenshot (ie_screenshots e)\<rparr>)"
| "public_block (AnalysisReference a ch) = AnalysisReference (a\<lparr>ar_incident_id := JNull, ar_analysis_run_id := JNull,
     ar_metadata := [], ar_provenance := [], ar_screenshots := map public_screenshot (ar_screenshots a)\<rparr>)
     (map public_block ch)"
| "public_block b = b"

definition public_document :: "report_document \<Rightarrow> report_document" where
  "public_document d = d\<lparr>rd_blocks := map public_block (rd_blocks d), rd_provenance := []\<rparr>"

text \<open>The screenshots of a document in the order in which the code meets them.\<close>

fun block_shots :: "block \<Rightarrow> screenshot_t list" where
  "block_shots (Screenshot s) = [s]"
| "block_shots (IncidentEvidence e) = ie_screenshots e"
| "block_shots (AnalysisReference a ch) = concat (map block_shots ch) @ ar_screenshots a"
| "block_shots b = []"

section \<open>Lemmas\<close>

lemma jget_jobj: "jget (jobj kvs) k = (case map_of kvs k of None \<Rightarrow> JNull | Some v \<Rightarrow> v)"
proof -
  have "map_of (map (\<lambda>kv. (u (fst kv), snd kv)) kvs) (u k) = map_of kvs k"
    by (induction kvs) auto
  then show ?thesis by (simp add: jget_def jobj_def)
qed

lemma screenshots_to_json_snd: "snd (screenshots_to_json ss shots) = shots @ map screenshot_entry ss"
  by (induction ss arbitrary: shots) (simp_all add: case_prod_beta Let_def)

lemma screenshots_to_json_public:
  "length shots = length shots' \<Longrightarrow>
    fst (screenshots_to_json (map public_screenshot ss) shots') = fst (screenshots_to_json ss shots)"
  by (induction ss arbitrary: shots shots') (simp_all add: case_prod_beta Let_def screenshot_ref_def public_screenshot_def)

lemma blocks_to_json_snd:
  "snd (block_to_json p b shots) = shots @ map screenshot_entry (block_shots b)"
  "snd (blocks_to_json p bs shots) = shots @ map screenshot_entry (concat (map block_shots bs))"
  by (induction p b shots and p bs shots rule: block_to_json_blocks_to_json.induct)
    (simp_all add: case_prod_beta Let_def screenshots_to_json_snd prod_eq_iff)

lemma length_public_shots: "length (block_shots (public_block b)) = length (block_shots b)"
  by (induction b rule: block_shots.induct) (simp_all add: length_concat comp_def cong: map_cong)

lemma blocks_to_json_public:
  "length shots = length shots' \<Longrightarrow> fst (block_to_json False (public_block b) shots') = fst (block_to_json False b shots)"
  "length shots = length shots' \<Longrightarrow>
     fst (blocks_to_json False (map public_block bs) shots') = fst (blocks_to_json False bs shots)"
proof (induction "False" b shots and "False" bs shots arbitrary: shots' and shots' rule: block_to_json_blocks_to_json.induct)
  case (13 e shots)
  then show ?case
    using screenshots_to_json_public [OF 13, of "ie_screenshots e"] by (simp add: case_prod_beta Let_def)
next
  case (14 a ch shots)
  have c: "fst (blocks_to_json False (map public_block ch) shots') = fst (blocks_to_json False ch shots)"
    using 14 by simp
  have "length (snd (blocks_to_json False ch shots)) = length (snd (blocks_to_json False (map public_block ch) shots'))"
    using 14(2) by (simp add: blocks_to_json_snd length_concat comp_def length_public_shots)
  from screenshots_to_json_public [OF this, of "ar_screenshots a"] c show ?case
    by (simp add: case_prod_beta Let_def)
next
  case (16 b bs shots)
  have "length (snd (block_to_json False b shots)) = length (snd (block_to_json False (public_block b) shots'))"
    using 16(3) by (simp add: blocks_to_json_snd length_public_shots)
  then show ?case using 16 by (simp add: case_prod_beta Let_def prod_eq_iff)
qed (simp_all add: screenshot_ref_def public_screenshot_def)

text \<open>The image references of a payload, in reading order: the screenshot blocks below the \<open>children\<close>
  and \<open>screenshots\<close> lists.\<close>

lemma jelems_snd_smaller [termination_simp]:
  assumes "(k, v) \<in> set kvs" "x \<in> set (jelems v)"
  shows "size x < Suc (size_list (\<lambda>kv. Suc (size (snd kv))) kvs)"
proof -
  have "size v \<le> size_list (\<lambda>kv. Suc (size (snd kv))) kvs"
    by (rule size_list_estimation' [OF assms(1)]) simp
  then show ?thesis using jelems_smaller [OF assms(2)] by simp
qed

fun image_refs :: "json \<Rightarrow> json list" where
  "image_refs (JObj kvs) = (if map_of kvs (u ''type'') = Some (JStr (u ''screenshot'')) then [JObj kvs]
     else concat (map (\<lambda>kv. if fst kv = u ''children'' \<or> fst kv = u ''screenshots''
       then concat (map (\<lambda>x. image_refs x) (jelems (snd kv))) else []) kvs))"
| "image_refs _ = []"

text \<open>The lookup of a reference in the private list.\<close>

definition resolve_image :: "json list \<Rightarrow> json \<Rightarrow> json option" where
  "resolve_image index r = (case jget r ''index'' of
      JInt i \<Rightarrow> if 0 \<le> i \<and> i < int (length index) then Some (index ! nat i) else None
    | _ \<Rightarrow> None)"

definition numbered_refs :: "nat \<Rightarrow> screenshot_t list \<Rightarrow> json list" where
  "numbered_refs n ss = map (\<lambda>(i, s). screenshot_ref i s) (enumerate n ss)"

lemma numbered_refs_append: "numbered_refs n (xs @ ys) = numbered_refs n xs @ numbered_refs (n + length xs) ys"
  by (simp add: numbered_refs_def enumerate_append_eq)

lemma image_refs_jobj:
  "image_refs (jobj kvs) = (if map_of kvs ''type'' = Some (JStr (u ''screenshot'')) then [jobj kvs]
     else concat (map (\<lambda>kv. if fst kv = ''children'' \<or> fst kv = ''screenshots''
       then concat (map image_refs (jelems (snd kv))) else []) kvs))"
proof -
  have "map_of (map (\<lambda>kv. (u (fst kv), snd kv)) kvs) (u k) = map_of kvs k" for k
    by (induction kvs) auto
  then show ?thesis by (simp add: jobj_def comp_def cong: if_cong)
qed

lemma image_refs_ref [simp]: "image_refs (screenshot_ref i s) = [screenshot_ref i s]"
  by (simp add: screenshot_ref_def image_refs_jobj)

lemma screenshots_to_json_fst: "fst (screenshots_to_json ss shots) = numbered_refs (length shots) ss"
  by (induction ss arbitrary: shots) (simp_all add: numbered_refs_def case_prod_beta Let_def)

lemma concat_image_refs_numbered [simp]: "concat (map image_refs (numbered_refs n ss)) = numbered_refs n ss"
  by (induction ss arbitrary: n) (simp_all add: numbered_refs_def)

lemma image_refs_blocks:
  "image_refs (fst (block_to_json False b shots)) = numbered_refs (length shots) (block_shots b)"
  "concat (map image_refs (fst (blocks_to_json False bs shots))) = numbered_refs (length shots) (concat (map block_shots bs))"
proof (induction "False" b shots and "False" bs shots rule: block_to_json_blocks_to_json.induct)
  case (13 e shots)
  then show ?case by (simp add: case_prod_beta Let_def image_refs_jobj screenshots_to_json_fst)
next
  case (14 a ch shots)
  then show ?case
    by (simp add: case_prod_beta Let_def image_refs_jobj screenshots_to_json_fst numbered_refs_append blocks_to_json_snd)
next
  case (16 b bs shots)
  have "concat (map image_refs (fst (blocks_to_json False bs (snd (block_to_json False b shots)))))
      = numbered_refs (length (snd (block_to_json False b shots))) (concat (map block_shots bs))"
    using 16(2) by (metis surjective_pairing)
  then show ?case
    using 16(1) by (simp add: case_prod_beta Let_def numbered_refs_append blocks_to_json_snd)
qed (simp_all add: image_refs_jobj metadata_to_json_def link_to_json_def log_file_to_json_def bilingual_to_json_def
    find_list_to_json_def numbered_refs_def)

lemma resolve_numbered:
  assumes "shots = map screenshot_entry (xs @ ss)"
  shows "map (resolve_image shots) (numbered_refs (length xs) ss) = map (\<lambda>s. Some (screenshot_entry s)) ss"
  using assms
proof (induction ss arbitrary: xs)
  case (Cons s ss)
  have "resolve_image shots (screenshot_ref (length xs) s) = Some (screenshot_entry s)"
    using Cons.prems by (simp add: resolve_image_def screenshot_ref_def jget_jobj nth_append)
  moreover have "map (resolve_image shots) (numbered_refs (Suc (length xs)) ss) = map (\<lambda>s. Some (screenshot_entry s)) ss"
    using Cons.IH [of "xs @ [s]"] Cons.prems by simp
  ultimately show ?case by (simp add: numbered_refs_def)
qed (simp add: numbered_refs_def)

section \<open>Properties\<close>

text \<open>C12. The preview sent to a browser reveals nothing but the public part of the document: two
  documents that differ only in storage coordinates, hashes, versions, application identifiers,
  analysis metadata or provenance have the same preview payload.\<close>

theorem preview_reveals_only_public_part:
  assumes "public_document d1 = public_document d2"
  shows "fst (document_to_preview_json d1) = fst (document_to_preview_json d2)"
proof -
  have b: "map public_block (rd_blocks d1) = map public_block (rd_blocks d2)" and t: "rd_title d1 = rd_title d2"
    and m: "rd_metadata d1 = rd_metadata d2"
    using assms by (cases d1; cases d2; simp add: public_document_def)+
  have "fst (blocks_to_json False (rd_blocks d1) []) = fst (blocks_to_json False (rd_blocks d2) [])"
    by (metis b blocks_to_json_public(2))
  then show ?thesis by (simp add: document_to_preview_json_def case_prod_beta Let_def t m)
qed

text \<open>The images of a preview round-trip: reading the payload in order and looking every image
  reference up in the private list gives exactly the entries of the document's screenshots in the
  order of the document; the list has no further entry.\<close>

theorem preview_images_resolve:
  shows "let (payload, index) = document_to_preview_json d;
             refs = concat (map image_refs (jelems (jget payload ''blocks'')));
             shots = concat (map block_shots (rd_blocks d))
         in map (resolve_image index) refs = map (\<lambda>s. Some (screenshot_entry s)) shots
          \<and> map (\<lambda>r. jget r ''filename'') refs = map sh_filename shots
          \<and> length index = length refs"
proof -
  let ?shots = "concat (map block_shots (rd_blocks d))"
  have p: "document_to_preview_json d = (jobj [(''title'', rd_title d), (''metadata'', JArr (map metadata_to_json (rd_metadata d))),
      (''blocks'', JArr (fst (blocks_to_json False (rd_blocks d) [])))], map screenshot_entry ?shots)"
    by (simp add: document_to_preview_json_def case_prod_beta Let_def blocks_to_json_snd)
  have r: "concat (map image_refs (fst (blocks_to_json False (rd_blocks d) []))) = numbered_refs 0 ?shots"
    using image_refs_blocks(2) [of "rd_blocks d" "[]"] by simp
  have "map (\<lambda>r. jget r ''filename'') (numbered_refs n ss) = map sh_filename ss" for n ss
    by (induction ss arbitrary: n) (simp_all add: numbered_refs_def screenshot_ref_def jget_jobj)
  moreover have "length (numbered_refs 0 ?shots) = length ?shots" by (simp add: numbered_refs_def)
  moreover have "map (resolve_image (map screenshot_entry ?shots)) (numbered_refs 0 ?shots)
      = map (\<lambda>s. Some (screenshot_entry s)) ?shots"
    using resolve_numbered [of "map screenshot_entry ?shots" "[]" ?shots] by simp
  ultimately show ?thesis unfolding p by (simp add: jget_jobj r)
qed

text \<open>Two documents that store their only screenshot at different places.\<close>

definition sample_shot :: "nat \<Rightarrow> screenshot_t" where
  "sample_shot n = \<lparr>sh_bucket = JInt (int n), sh_object_key = JInt (int n), sh_filename = JStr [65], sh_version_id = JNull,
     sh_sha256 = JNull, sh_content_type = JNull, sh_byte_size = JNull\<rparr>"

definition sample_document :: "nat \<Rightarrow> report_document" where
  "sample_document n = \<lparr>rd_title = JStr [82], rd_blocks = [AnalysisReference empty_analysis [Screenshot (sample_shot n)]],
     rd_metadata = [], rd_provenance = []\<rparr>"

theorem preview_reveals_only_public_part_witness:
  "sample_document 1 \<noteq> sample_document 2
    \<and> fst (document_to_preview_json (sample_document 1)) = fst (document_to_preview_json (sample_document 2))"
proof -
  have "public_document (sample_document 1) = public_document (sample_document 2)"
    by (simp add: public_document_def sample_document_def public_screenshot_def sample_shot_def)
  from preview_reveals_only_public_part [OF this] show ?thesis by (simp add: sample_document_def sample_shot_def)
qed

end
