(* ===== verification/Report_Composition.thy ===== *)
theory Report_Composition
  imports Report_Preview "HOL-Library.List_Lexorder"
begin

text \<open>
  Composition of a daily report, \<^verbatim>\<open>bridge/noc_bridge/report_composition.py\<close>: the plan of the language
  model and one frozen snapshot give the report document. The plan and the snapshot are JSON values;
  each \<open>raise OutputValidationError\<close> is a constructor of \<open>reject\<close>, and other exceptions escape. Time
  zones, ISO timestamps and \<open>strftime\<close> are functions of a \<open>calendar\<close>
  (\<^verbatim>\<open>bridge/noc_bridge/time_projection.py\<close>).
\<close>

section \<open>Errors and the calendar\<close>

datatype reject =
    Bad_Plan | Bad_Coverage | Unsupported_Profile json | Missing_Incident_Id | Duplicate_Incident pystr
  | Duplicate_Display_Id pystr | Bad_Narrative string | Unknown_Incident pystr | Outside_Report pystr
  | Unsupported_Node json | Missing_General_Summary | Missing_Blocks | Duplicate_Incident_Ref | Duplicate_Analysis_Ref
  | Bad_Incident_Policy json | Bad_Analysis_Policy json | Omitted_Incidents "pystr list" | Omitted_Analyses "pystr list"
  | Reference_Without_Target | Reference_Mismatch | Not_Frozen_Run | Bad_Presentation | Bad_Shift_Time

datatype compose_error = Rejected reject | Escaped doc_error

fun escape :: "doc_error + 'a \<Rightarrow> compose_error + 'a" where
  "escape (Inl e) = Inl (Escaped e)"
| "escape (Inr x) = Inr x"

definition check :: "bool \<Rightarrow> reject \<Rightarrow> compose_error + unit" where
  "check ok e = (if ok then Inr () else Inl (Rejected e))"

text \<open>\<open>cal_date zone t\<close> is the formatted local date of the instant \<open>t\<close> (in microseconds).\<close>

record calendar =
  cal_zone_ok :: "pystr \<Rightarrow> bool"
  cal_fromiso :: "pystr \<Rightarrow> py_datetime option"
  cal_date :: "pystr \<Rightarrow> int \<Rightarrow> pystr"

definition parse_shift_timestamp :: "doc_env \<Rightarrow> calendar \<Rightarrow> json \<Rightarrow> int option" where
  "parse_shift_timestamp env cal v =
    (let s = py_strip (py_str (de_py env) (por v (JStr [])));
         iso = (if s \<noteq> [] \<and> last s = 90 then butlast s @ u ''+00:00'' else s)
     in case cal_fromiso cal iso of None \<Rightarrow> None | Some (Naive t) \<Rightarrow> Some t | Some (Aware t) \<Rightarrow> Some t)"

text \<open>\<open>project_shift_time(snapshot).report_date\<close>; \<open>None\<close> is a \<open>ValueError\<close>.\<close>

definition report_date :: "doc_env \<Rightarrow> calendar \<Rightarrow> json \<Rightarrow> pystr option" where
  "report_date env cal snapshot =
    (let zone = py_strip (py_str (de_py env) (por (jget snapshot ''shift_timezone'') (JStr (u ''UTC''))));
         starts = jget snapshot ''shift_starts_at''; ends = jget snapshot ''shift_ends_at''
     in if \<not> cal_zone_ok cal zone then None
        else if \<not> truthy starts then None
        else (case parse_shift_timestamp env cal starts of
            None \<Rightarrow> None
          | Some t \<Rightarrow> if truthy ends \<and> parse_shift_timestamp env cal ends = None then None
              else Some (cal_date cal zone t)))"

section \<open>Facts of an incident\<close>

definition present :: "json \<Rightarrow> bool" where
  "present v \<longleftrightarrow> v \<noteq> JNull \<and> v \<noteq> JStr []"

definition facts :: "doc_env \<Rightarrow> (string \<times> json) list \<Rightarrow> metadata_line list" where
  "facts env kvs = map (\<lambda>(l, v). \<lparr>md_label = JStr (u l), md_value = str_of env v\<rparr>) (filter (\<lambda>(l, v). present v) kvs)"

definition evidence_facts :: "doc_env \<Rightarrow> json \<Rightarrow> metadata_line list" where
  "evidence_facts env i = facts env [(''Triggered'', jget i ''triggered_at''), (''Recovered'', jget i ''recovered_at''),
     (''Trigger Value'', jget i ''trigger_value'')]"

definition incident_facts :: "doc_env \<Rightarrow> json \<Rightarrow> metadata_line list" where
  "incident_facts env i = facts env [(''Incident'', por (jget i ''display_id'') (jget i ''id'')), (''Status'', jget i ''status''),
     (''Service'', jget i ''service''), (''Environment'', jget i ''environment''), (''Triggered'', jget i ''triggered_at''),
     (''Recovered'', jget i ''recovered_at''), (''Trigger Value'', jget i ''trigger_value'')]"

definition incident_id :: "doc_env \<Rightarrow> json \<Rightarrow> pystr" where
  "incident_id env i = py_str (de_py env) (jget i ''id'')"

definition incident_heading :: "doc_env \<Rightarrow> string \<Rightarrow> nat \<Rightarrow> json \<Rightarrow> json" where
  "incident_heading env dflt n i =
     alert_heading n (py_str (de_py env) (por (jget i ''title'') (por (jget i ''display_id'') (JStr (u dflt)))))"

definition bookmark_name :: "doc_env \<Rightarrow> pystr \<Rightarrow> pystr" where
  "bookmark_name env i = u ''log_analysis_'' @ take 24 (sha256_hex (de_py env) i)"

definition incident_shots :: "json \<Rightarrow> doc_error + screenshot_t list" where
  "incident_shots i = sbind (py_iter (por (jget i ''screenshots'') (JArr []))) (\<lambda>items.
     smap screenshot_from_dict
       (filter (\<lambda>x. is_dict x \<and> truthy (jget x ''bucket'') \<and> truthy (jget x ''object_key'')) items))"

definition incident_links :: "bool \<Rightarrow> json \<Rightarrow> link_t list" where
  "incident_links canonical i =
     (if \<not> canonical \<and> truthy (jget i ''teams_url'') then [\<lparr>lk_label = JStr (u ''Teams''), lk_url = jget i ''teams_url'',
        lk_text = JStr (u ''Teams''), lk_prefix = JStr (u ''Teams Link'')\<rparr>] else [])
     @ (if truthy (jget i ''grafana_url'') then [\<lparr>lk_label = JStr (u ''Grafana''), lk_url = jget i ''grafana_url'',
          lk_text = JStr (u ''Grafana''), lk_prefix = JStr (u ''Grafana Link'')\<rparr>] else [])"

definition incident_block :: "doc_env \<Rightarrow> bool \<Rightarrow> nat \<Rightarrow> json \<Rightarrow> json \<Rightarrow> doc_error + incident_evidence_t" where
  "incident_block env canonical n target i = sbind (incident_shots i) (\<lambda>shs.
     Inr \<lparr>ie_heading = incident_heading env ''Incident'' n i, ie_incident_id = JStr (incident_id env i),
       ie_metadata = (if canonical then evidence_facts env i else incident_facts env i), ie_link = None,
       ie_links = incident_links canonical i, ie_log_file = section_log_file i (jget i ''log_file_url''),
       ie_screenshots = shs, ie_navigation_target = target\<rparr>)"

section \<open>The analysis of an incident\<close>

text \<open>\<open>_legacy_fragment\<close> and \<open>_pair\<close>.\<close>

definition text_or :: "doc_env \<Rightarrow> json \<Rightarrow> string list \<Rightarrow> json" where
  "text_or env d ks = str_of env (foldr (\<lambda>k r. por (jget d k) r) ks (JStr []))"

definition legacy_fragment :: "doc_env \<Rightarrow> json \<Rightarrow> doc_error + json" where
  "legacy_fragment env r =
    (if \<not> is_dict r then Inr JNull
     else sbind (case por (jget r ''key_finds'') (JArr []) of JArr xs \<Rightarrow> Inr (take 5 xs) | JStr s \<Rightarrow> Inr [] | _ \<Rightarrow> Inl Type_Error)
       (\<lambda>finds. Inr (jobj [(''contract'', JStr (u ''report-fragment-v1'')),
          (''headline'', text_or env r [''summary_en'', ''summary_zh'']), (''severity'', jget r ''severity_signal''),
          (''summary'', jobj [(''zh'', text_or env r [''summary_zh'']), (''en'', text_or env r [''summary_en''])]),
          (''likely_cause'', jobj [(''zh'', text_or env r [''likely_cause_zh'', ''likely_cause'']),
             (''en'', text_or env r [''likely_cause_en'', ''likely_cause''])]),
          (''recommended_action'', jobj [(''zh'', text_or env r [''recommended_action_zh'', ''recommended_action'']),
             (''en'', text_or env r [''recommended_action_en'', ''recommended_action''])]),
          (''findings'', JArr (map (\<lambda>f. jobj [(''zh'', text_or env f [''label_zh'', ''label_en'']),
             (''en'', text_or env f [''label_en'', ''label_zh'']), (''detail_zh'', text_or env f [''detail_zh'']),
             (''detail_en'', text_or env f [''detail_en''])]) (filter is_dict finds)))])))"

definition fragment_pair :: "doc_env \<Rightarrow> json \<Rightarrow> string \<Rightarrow> doc_error + bilingual_text option" where
  "fragment_pair env fragment key =
    (if \<not> is_dict fragment then Inl Attribute_Error
     else
      (let v = por (jget fragment key) (JObj []); zh = text_or env v [''zh'']; en = text_or env v [''en''] in
       Inr (if \<not> is_dict v \<or> (zh = JStr [] \<and> en = JStr []) then None
         else Some \<lparr>bt_zh = zh, bt_en = en, bt_heading_zh = JStr (u ''Chinese''), bt_heading_en = JStr (u ''English'')\<rparr>)))"

definition compact_children :: "doc_env \<Rightarrow> json \<Rightarrow> doc_error + block list" where
  "compact_children env fragment =
     sbind (fragment_pair env fragment ''summary'') (\<lambda>s.
     sbind (fragment_pair env fragment ''likely_cause'') (\<lambda>c.
     sbind (fragment_pair env fragment ''recommended_action'') (\<lambda>a.
       Inr ((case s of Some b \<Rightarrow> [BilingualText b] | None \<Rightarrow> [])
         @ (case c of Some b \<Rightarrow> [Heading (JStr (u ''Likely Cause'')) 3, BilingualText b] | None \<Rightarrow> [])
         @ (case a of Some b \<Rightarrow> [Heading (JStr (u ''Recommended Action'')) 3, BilingualText b] | None \<Rightarrow> [])))))"

definition analysis_children :: "doc_env \<Rightarrow> json \<Rightarrow> json \<Rightarrow> compose_error + block list" where
  "analysis_children env i fragment =
    (case build_analysis_presentation env (jget i ''analysis'') (jget i ''analysis_presentation_contract'') of
       Inl Value_Error \<Rightarrow> Inl (Rejected Bad_Presentation)
     | Inl e \<Rightarrow> Inl (Escaped e)
     | Inr bs \<Rightarrow> sbind (if bs = [] then escape (compact_children env fragment) else Inr bs) (\<lambda>ch.
         Inr (Heading (JStr (u ''Log Analysis'')) 3 # ch)))"

text \<open>The guards on the plan's reference to an analysis.\<close>

definition check_reference :: "doc_env \<Rightarrow> json \<Rightarrow> json option \<Rightarrow> compose_error + unit" where
  "check_reference env i node = (case node of
      None \<Rightarrow> Inr ()
    | Some nd \<Rightarrow>
      (let run = jget nd ''analysis_run_id''; inc = jget nd ''incident_id''; txt = py_str (de_py env) in
       sbind (check (run \<noteq> JNull \<or> inc \<noteq> JNull) Reference_Without_Target) (\<lambda>_.
       sbind (check (inc = JNull \<or> txt inc = txt (jget i ''id'') \<or> txt inc = txt (jget i ''display_id'')) Reference_Mismatch) (\<lambda>_.
       check (run = JNull \<or> txt run = txt (jget i ''analysis_run_id'')) Not_Frozen_Run))))"

definition analysis_block :: "doc_env \<Rightarrow> json \<Rightarrow> json option \<Rightarrow> nat \<Rightarrow> compose_error + analysis_fields \<times> block list" where
  "analysis_block env i node n = sbind (check_reference env i node) (\<lambda>_.
    (let h = incident_heading env ''Analysis'' n i; iid = JStr (incident_id env i); run = jget i ''analysis_run_id'';
         placeholder = (\<lambda>r t. (empty_analysis\<lparr>ar_heading := h, ar_incident_id := iid, ar_analysis_run_id := r,
            ar_unavailable_text := JStr (u t)\<rparr>, []))
     in if \<not> truthy run then Inr (placeholder JNull ''No log analysis available for this incident.'')
        else sbind (if truthy (jget i ''report_fragment'') then Inr (jget i ''report_fragment'')
            else escape (legacy_fragment env (jget i ''analysis''))) (\<lambda>fragment.
          if \<not> is_dict fragment \<and> \<not> is_dict (jget i ''analysis'')
          then Inr (placeholder (str_of env run) ''The frozen analysis has no report export.'')
          else sbind (analysis_children env i fragment) (\<lambda>ch.
            sbind (escape (incident_shots i)) (\<lambda>shs.
              Inr (empty_analysis\<lparr>ar_heading := h, ar_available := True, ar_incident_id := iid,
                ar_analysis_run_id := str_of env run,
                ar_provenance := facts env [(''Skill Snapshot'', jget i ''analysis_skill_snapshot_id''),
                  (''Execution Hash'', jget i ''analysis_skill_execution_hash''),
                  (''Skill Version'', jget i ''analysis_skill_version''), (''Result Hash'', jget i ''analysis_output_sha256''),
                  (''Model'', jget i ''analysis_model''), (''Effort'', jget i ''analysis_effort'')],
                ar_screenshots := shs, ar_log_file := section_log_file i (jget i ''log_file_url''),
                ar_bookmark := JStr (bookmark_name env (incident_id env i))\<rparr>, ch))))))"

section \<open>The frozen incidents\<close>

text \<open>The table from ids and display ids to incidents, and the incidents in order.\<close>

fun index_incidents :: "doc_env \<Rightarrow> (pystr, json) pydict \<Rightarrow> json list \<Rightarrow> json list
    \<Rightarrow> compose_error + (pystr, json) pydict \<times> json list" where
  "index_incidents env tbl seen [] = Inr (tbl, seen)"
| "index_incidents env tbl seen (i # rest) =
    (if \<not> is_dict i \<or> \<not> truthy (jget i ''id'') then Inl (Rejected Missing_Incident_Id)
     else if map_of tbl (incident_id env i) \<noteq> None then Inl (Rejected (Duplicate_Incident (incident_id env i)))
     else
      (let tbl1 = AList.update (incident_id env i) i tbl; d = py_str (de_py env) (jget i ''display_id'') in
       if \<not> truthy (jget i ''display_id'') then index_incidents env tbl1 (seen @ [i]) rest
       else if map_of tbl1 d \<noteq> None then Inl (Rejected (Duplicate_Display_Id d))
       else index_incidents env (AList.update d i tbl1) (seen @ [i]) rest))"

section \<open>The plan\<close>

record plan_refs =
  pl_incidents :: "pystr list"
  pl_analyses :: "pystr list"
  pl_nodes :: "(pystr, json) pydict"

definition required_text :: "json \<Rightarrow> string \<Rightarrow> compose_error + json" where
  "required_text v l = (if is_str v \<and> py_strip (jstr v) \<noteq> [] then Inr v else Inl (Rejected (Bad_Narrative l)))"

definition narrative_summary :: "json \<Rightarrow> compose_error + block" where
  "narrative_summary v = (if \<not> is_dict v then Inl (Rejected (Bad_Narrative ''general_summary''))
     else sbind (required_text (jget v ''zh'') ''general_summary.zh'') (\<lambda>zh.
       sbind (required_text (jget v ''en'') ''general_summary.en'') (\<lambda>en.
         Inr (BilingualText \<lparr>bt_zh = zh, bt_en = en, bt_heading_zh = JStr (u ''Chinese Summary''),
           bt_heading_en = JStr (u ''English Summary'')\<rparr>))))"

definition canonical_headings :: "json list" where
  "canonical_headings = map (\<lambda>s. JStr (u s)) [''Alerts'', ''General Summary'', ''Log Analysis'']"

definition heading_node :: "doc_env \<Rightarrow> json \<Rightarrow> doc_error + block list" where
  "heading_node env node = sbind (jitem node ''text'') (\<lambda>t.
     sbind (py_int env (jget_or node ''level'' (JInt 1))) (\<lambda>l.
       Inr (if str_of env t \<in> set canonical_headings \<and> l = 1 then [] else [Heading (str_of env t) l])))"

text \<open>The incident an analysis node points at.\<close>

definition referenced_incident :: "doc_env \<Rightarrow> (pystr, json) pydict \<Rightarrow> json list \<Rightarrow> json \<Rightarrow> compose_error + json" where
  "referenced_incident env tbl items node =
    (let txt = py_str (de_py env); ref = txt (por (jget node ''incident_id'') (JStr []));
         run = txt (por (jget node ''analysis_run_id'') (JStr []))
     in if ref \<noteq> [] then (case map_of tbl ref of Some i \<Rightarrow> Inr i | None \<Rightarrow> Inl (Rejected (Unknown_Incident ref)))
        else (case find_first (\<lambda>i. txt (jget i ''analysis_run_id'') = run) items of
            Some i \<Rightarrow> Inr i | None \<Rightarrow> Inl (Rejected (Outside_Report run))))"

definition plan_node :: "doc_env \<Rightarrow> (pystr, json) pydict \<Rightarrow> json list \<Rightarrow> json \<Rightarrow> plan_refs
    \<Rightarrow> compose_error + block list \<times> plan_refs" where
  "plan_node env tbl items node st =
    (let kind = jget node ''type''; txt = py_str (de_py env) in
     if kind = JStr (u ''heading'') then sbind (escape (heading_node env node)) (\<lambda>bs. Inr (bs, st))
     else if kind = JStr (u ''paragraph'') then Inr ([Paragraph (text_or env node [''text'']) (jget node ''style'')], st)
     else if kind = JStr (u ''bilingual_generated_text'') then
       Inr ([BilingualText \<lparr>bt_zh = text_or env node [''zh''], bt_en = text_or env node [''en''],
         bt_heading_zh = por (jget node ''heading_zh'') (JStr (u ''Chinese Summary'')),
         bt_heading_en = por (jget node ''heading_en'') (JStr (u ''English Summary''))\<rparr>], st)
     else if kind = JStr (u ''incident_reference'') then
      (let ref = txt (por (jget node ''incident_id'') (JStr [])) in
       (case map_of tbl ref of
          None \<Rightarrow> Inl (Rejected (Unknown_Incident ref))
        | Some i \<Rightarrow> Inr ([], st\<lparr>pl_incidents := pl_incidents st @ [incident_id env i]\<rparr>)))
     else if kind = JStr (u ''analysis_reference'') then
       sbind (referenced_incident env tbl items node) (\<lambda>i.
         Inr ([], st\<lparr>pl_analyses := pl_analyses st @ (if truthy (jget i ''analysis_run_id'') then [txt (jget i ''analysis_run_id'')] else []),
           pl_nodes := AList.update (incident_id env i) node (pl_nodes st)\<rparr>))
     else if kind = JStr (u ''divider'') then Inr ([Divider], st)
     else if kind = JStr (u ''page_break'') then Inr ([], st)
     else Inl (Rejected (Unsupported_Node kind)))"

fun plan_nodes :: "doc_env \<Rightarrow> (pystr, json) pydict \<Rightarrow> json list \<Rightarrow> json list \<Rightarrow> plan_refs
    \<Rightarrow> compose_error + block list \<times> plan_refs" where
  "plan_nodes env tbl items [] st = Inr ([], st)"
| "plan_nodes env tbl items (nd # nds) st = sbind (plan_node env tbl items nd st) (\<lambda>(bs, st1).
     sbind (plan_nodes env tbl items nds st1) (\<lambda>(bs', st2). Inr (bs @ bs', st2)))"

definition no_refs :: plan_refs where
  "no_refs = \<lparr>pl_incidents = [], pl_analyses = [], pl_nodes = []\<rparr>"

text \<open>The narrative of the plan: the general summary, or the prose of its nodes with their references.\<close>

definition read_plan :: "doc_env \<Rightarrow> bool \<Rightarrow> (pystr, json) pydict \<Rightarrow> json list \<Rightarrow> json
    \<Rightarrow> compose_error + block list \<times> plan_refs" where
  "read_plan env canonical tbl items plan =
    (if jhas plan ''general_summary'' then sbind (narrative_summary (jget plan ''general_summary'')) (\<lambda>b. Inr ([b], no_refs))
     else sbind (check (\<not> canonical) Missing_General_Summary) (\<lambda>_.
       (case jget plan ''blocks'' of JArr nds \<Rightarrow> plan_nodes env tbl items nds no_refs | _ \<Rightarrow> Inl (Rejected Missing_Blocks))))"

section \<open>Coverage\<close>

definition omitted :: "pystr list \<Rightarrow> pystr list \<Rightarrow> pystr list" where
  "omitted required refs = sort (remdups (filter (\<lambda>x. x \<notin> set refs) required))"

definition check_coverage :: "doc_env \<Rightarrow> json \<Rightarrow> bool \<Rightarrow> json list \<Rightarrow> plan_refs \<Rightarrow> compose_error + unit" where
  "check_coverage env coverage narrative uniqs st =
    (let ip = jget_or coverage ''incidents'' (JStr (u ''optional'')); ap = jget_or coverage ''analyses'' (JStr (u ''optional''));
         flag = (\<lambda>k. truthy (jget_or coverage k (JBool False)));
         missing_incidents = omitted (map (incident_id env) uniqs) (pl_incidents st);
         missing_analyses = omitted (map (\<lambda>i. py_str (de_py env) (jget i ''analysis_run_id''))
           (filter (\<lambda>i. truthy (jget i ''analysis_run_id'')) uniqs)) (pl_analyses st)
     in sbind (check (narrative \<or> flag ''allow_duplicate_incidents'' \<or> distinct (pl_incidents st)) Duplicate_Incident_Ref) (\<lambda>_.
        sbind (check (narrative \<or> flag ''allow_duplicate_analyses'' \<or> distinct (pl_analyses st)) Duplicate_Analysis_Ref) (\<lambda>_.
        sbind (check (ip \<in> {JStr (u ''all''), JStr (u ''none''), JStr (u ''optional'')}) (Bad_Incident_Policy ip)) (\<lambda>_.
        sbind (check (ap \<in> {JStr (u ''all_available''), JStr (u ''none''), JStr (u ''optional'')}) (Bad_Analysis_Policy ap)) (\<lambda>_.
        sbind (check (narrative \<or> ip \<noteq> JStr (u ''all'') \<or> missing_incidents = []) (Omitted_Incidents missing_incidents)) (\<lambda>_.
        check (narrative \<or> ap \<noteq> JStr (u ''all_available'') \<or> missing_analyses = []) (Omitted_Analyses missing_analyses)))))))"

text \<open>The incidents shown as alerts and those with an analysis section.\<close>

definition lookup_incident :: "(pystr, json) pydict \<Rightarrow> pystr \<Rightarrow> json" where
  "lookup_incident tbl k = (case map_of tbl k of Some i \<Rightarrow> i | None \<Rightarrow> JNull)"

definition alert_incidents :: "json \<Rightarrow> (pystr, json) pydict \<Rightarrow> json list \<Rightarrow> plan_refs \<Rightarrow> json list" where
  "alert_incidents coverage tbl uniqs st =
    (if jget coverage ''incidents'' = JStr (u ''all'') then uniqs
     else map (lookup_incident tbl) (uniq (pl_incidents st)))"

definition analysis_incidents :: "json \<Rightarrow> (pystr, json) pydict \<Rightarrow> json list \<Rightarrow> plan_refs \<Rightarrow> json list" where
  "analysis_incidents coverage tbl uniqs st =
    (if jget coverage ''analyses'' = JStr (u ''all_available'') then filter (\<lambda>i. truthy (jget i ''analysis_run_id'')) uniqs
     else map (lookup_incident tbl) (map fst (pl_nodes st)))"

section \<open>The document\<close>

definition reference_node :: "doc_env \<Rightarrow> bool \<Rightarrow> plan_refs \<Rightarrow> json \<Rightarrow> json option" where
  "reference_node env narrative st i = (case map_of (pl_nodes st) (incident_id env i) of
      Some nd \<Rightarrow> Some nd
    | None \<Rightarrow> if narrative then None else Some (jobj [(''incident_id'', JStr (incident_id env i))]))"

definition alert_number :: "doc_env \<Rightarrow> json list \<Rightarrow> json \<Rightarrow> nat \<Rightarrow> nat" where
  "alert_number env alerts i dflt =
     (case map_of (rev (map (\<lambda>(n, a). (incident_id env a, n)) (enumerate 1 alerts))) (incident_id env i) of
        Some n \<Rightarrow> n | None \<Rightarrow> dflt)"

definition analysis_targets :: "(analysis_fields \<times> block list) list \<Rightarrow> (json \<times> json) list" where
  "analysis_targets as = map (\<lambda>(a, ch). (ar_incident_id a, ar_bookmark a))
     (filter (\<lambda>(a, ch). ar_available a \<and> truthy (ar_incident_id a) \<and> truthy (ar_bookmark a)) as)"

definition target_of :: "doc_env \<Rightarrow> (json \<times> json) list \<Rightarrow> json \<Rightarrow> json" where
  "target_of env targets i = (case map_of (rev targets) (JStr (incident_id env i)) of Some t \<Rightarrow> t | None \<Rightarrow> JNull)"

definition navigation :: "doc_env \<Rightarrow> (json \<times> json) list \<Rightarrow> json list \<Rightarrow> block list" where
  "navigation env targets alerts =
    (let es = map (\<lambda>(n, i). \<lparr>nv_text = incident_heading env ''Incident'' n i, nv_target = target_of env targets i\<rparr>)
           (filter (\<lambda>(n, i). map_of (rev targets) (JStr (incident_id env i)) \<noteq> None) (enumerate 1 alerts))
     in if es = [] then [] else [AlertNavigation es])"

definition document_blocks :: "block list \<Rightarrow> incident_evidence_t list \<Rightarrow> block list \<Rightarrow> (analysis_fields \<times> block list) list
    \<Rightarrow> block list" where
  "document_blocks nav evs summary as =
     [Heading (JStr (u ''Alerts'')) 1] @ nav @ map IncidentEvidence evs
     @ [PageBreak, Heading (JStr (u ''General Summary'')) 1] @ summary
     @ [PageBreak, Heading (JStr (u ''Log Analysis'')) 1] @ map (\<lambda>(a, ch). AnalysisReference a ch) as"

definition is_canonical :: "json \<Rightarrow> bool" where
  "is_canonical snapshot \<longleftrightarrow> por (jget snapshot ''composition_profile'')
     (jget (por (jget snapshot ''coverage'') (JObj [])) ''composition_profile'') = JStr (u ''noc-daily-report-v1'')"

definition compose_report :: "doc_env \<Rightarrow> calendar \<Rightarrow> json \<Rightarrow> json \<Rightarrow> compose_error + report_document" where
  "compose_report env cal plan snapshot =
    (let coverage = por (jget snapshot ''coverage'') (JObj []);
         profile = por (jget snapshot ''composition_profile'') (jget coverage ''composition_profile'');
         canonical = is_canonical snapshot; narrative = jhas plan ''general_summary''
     in sbind (check (is_dict plan) Bad_Plan) (\<lambda>_.
        sbind (check (is_dict coverage) Bad_Coverage) (\<lambda>_.
        sbind (check (profile = JNull \<or> canonical) (Unsupported_Profile profile)) (\<lambda>_.
        sbind (escape (py_iter (por (jget snapshot ''incidents'') (JArr [])))) (\<lambda>items.
        sbind (index_incidents env [] [] items) (\<lambda>(tbl, uniqs).
        sbind (read_plan env canonical tbl items plan) (\<lambda>(summary, st).
        sbind (check_coverage env coverage narrative uniqs st) (\<lambda>_.
        (let alerts = alert_incidents coverage tbl uniqs st in
         sbind (smap (\<lambda>(n, i). analysis_block env i (reference_node env narrative st i) (alert_number env alerts i n))
             (enumerate 1 (analysis_incidents coverage tbl uniqs st))) (\<lambda>as.
         (let targets = analysis_targets as in
          sbind (escape (smap (\<lambda>(n, i). incident_block env canonical n (target_of env targets i) i) (enumerate 1 alerts))) (\<lambda>evs.
          (case report_date env cal snapshot of
             None \<Rightarrow> Inl (Rejected Bad_Shift_Time)
           | Some date \<Rightarrow>
              Inr \<lparr>rd_title = JStr (u ''Daily Alert & Log Analysis Report''),
                rd_blocks = document_blocks (navigation env targets alerts) evs summary as,
                rd_metadata = [\<lparr>md_label = JStr (u ''Date''), md_value = JStr date\<rparr>,
                  \<lparr>md_label = JStr (u ''Shift''), md_value = str_of env (por (jget snapshot ''shift_display_name'')
                     (por (jget snapshot ''shift_code'') (por (jget snapshot ''shift_name'') (JStr (u ''Shift'')))))\<rparr>],
                rd_provenance = facts env [(''Report Skill Snapshot'', jget snapshot ''report_skill_snapshot_id''),
                  (''Report Execution Hash'', jget snapshot ''report_skill_execution_hash'')]\<rparr>)))))))))))))"

section \<open>Lemmas\<close>

lemma check_Inr [simp]: "check b e = Inr x \<longleftrightarrow> b"
  by (simp add: check_def)

lemma escape_Inr [simp]: "escape x = Inr y \<longleftrightarrow> x = Inr y"
  by (cases x) auto

lemma index_incidents_items:
  "index_incidents env tbl seen items = Inr (tbl', uniqs) \<Longrightarrow> uniqs = seen @ items"
  by (induction items arbitrary: tbl seen) (fastforce simp: Let_def split: if_splits)+

lemma analysis_block_fields:
  assumes "analysis_block env i nd n = Inr (a, ch)"
  shows "ar_incident_id a = JStr (incident_id env i)" "ar_heading a = incident_heading env ''Analysis'' n i"
    "ar_available a \<Longrightarrow> ar_bookmark a = JStr (bookmark_name env (incident_id env i))
       \<and> ar_analysis_run_id a = str_of env (jget i ''analysis_run_id'') \<and> truthy (jget i ''analysis_run_id'')"
  using assms by (auto simp: analysis_block_def empty_analysis_def Let_def split: if_splits)

lemma incident_block_fields:
  assumes "incident_block env c n t i = Inr e"
  shows "ie_incident_id e = JStr (incident_id env i)" "ie_heading e = incident_heading env ''Incident'' n i"
    "ie_navigation_target e = t" "incident_shots i = Inr (ie_screenshots e)"
  using assms by (auto simp: incident_block_def)

text \<open>What a successful composition consists of.\<close>

definition composition ::
  "doc_env \<Rightarrow> calendar \<Rightarrow> json \<Rightarrow> json \<Rightarrow> json list \<Rightarrow> (pystr, json) pydict \<Rightarrow> json list \<Rightarrow> block list \<Rightarrow> plan_refs
    \<Rightarrow> (analysis_fields \<times> block list) list \<Rightarrow> incident_evidence_t list \<Rightarrow> pystr \<Rightarrow> report_document \<Rightarrow> bool" where
  "composition env cal plan snapshot items tbl uniqs summary st as evs date d \<longleftrightarrow>
    (let coverage = por (jget snapshot ''coverage'') (JObj []); alerts = alert_incidents coverage tbl uniqs st in
     py_iter (por (jget snapshot ''incidents'') (JArr [])) = Inr items
   \<and> index_incidents env [] [] items = Inr (tbl, uniqs)
   \<and> read_plan env (is_canonical snapshot) tbl items plan = Inr (summary, st)
   \<and> smap (\<lambda>(n, i). analysis_block env i (reference_node env (jhas plan ''general_summary'') st i)
          (alert_number env alerts i n)) (enumerate 1 (analysis_incidents coverage tbl uniqs st)) = Inr as
   \<and> smap (\<lambda>(n, i). incident_block env (is_canonical snapshot) n (target_of env (analysis_targets as) i) i)
          (enumerate 1 alerts) = Inr evs
   \<and> report_date env cal snapshot = Some date
   \<and> d = \<lparr>rd_title = JStr (u ''Daily Alert & Log Analysis Report''),
        rd_blocks = document_blocks (navigation env (analysis_targets as) alerts) evs summary as,
        rd_metadata = [\<lparr>md_label = JStr (u ''Date''), md_value = JStr date\<rparr>,
          \<lparr>md_label = JStr (u ''Shift''), md_value = str_of env (por (jget snapshot ''shift_display_name'')
             (por (jget snapshot ''shift_code'') (por (jget snapshot ''shift_name'') (JStr (u ''Shift'')))))\<rparr>],
        rd_provenance = facts env [(''Report Skill Snapshot'', jget snapshot ''report_skill_snapshot_id''),
          (''Report Execution Hash'', jget snapshot ''report_skill_execution_hash'')]\<rparr>)"

lemma compose_report_composition:
  assumes "compose_report env cal plan snapshot = Inr d"
  obtains items tbl summary st as evs date
  where "composition env cal plan snapshot items tbl items summary st as evs date d"
proof -
  have "\<exists>items tbl uniqs summary st as evs date. composition env cal plan snapshot items tbl uniqs summary st as evs date d"
    using assms unfolding compose_report_def composition_def Let_def
    by (simp split: prod.split_asm option.split_asm) blast
  then obtain items tbl uniqs summary st as evs date
    where c: "composition env cal plan snapshot items tbl uniqs summary st as evs date d" by blast
  then have "index_incidents env [] [] items = Inr (tbl, uniqs)" by (simp add: composition_def Let_def)
  then have "uniqs = items" using index_incidents_items by force
  with c that show thesis by blast
qed

text \<open>The plan's blocks are prose.\<close>

fun is_prose :: "block \<Rightarrow> bool" where
  "is_prose (Heading t l) = True"
| "is_prose (Paragraph t s) = True"
| "is_prose (BilingualText b) = True"
| "is_prose Divider = True"
| "is_prose _ = False"

lemma plan_node_prose: "plan_node env tbl items nd st = Inr (bs, st') \<Longrightarrow> list_all is_prose bs"
  by (auto simp: plan_node_def heading_node_def Let_def split: if_splits option.splits)

lemma plan_nodes_prose: "plan_nodes env tbl items nds st = Inr (bs, st') \<Longrightarrow> list_all is_prose bs"
  by (induction nds arbitrary: st bs) (auto simp: plan_node_prose)

lemma read_plan_prose:
  assumes "read_plan env c tbl items plan = Inr (bs, st)"
  shows "list_all is_prose bs"
  using assms plan_nodes_prose
  by (fastforce simp: read_plan_def narrative_summary_def split: if_splits json.splits)

lemma read_plan_canonical:
  assumes "read_plan env True tbl items plan = Inr (bs, st)"
  shows "st = no_refs \<and> jhas plan ''general_summary'' \<and> (\<exists>b. bs = [BilingualText b]
    \<and> bt_zh b = jget (jget plan ''general_summary'') ''zh'' \<and> bt_en b = jget (jget plan ''general_summary'') ''en'')"
  using assms by (auto simp: read_plan_def narrative_summary_def required_text_def split: if_splits)

lemma smap_enumerate:
  "smap (\<lambda>(n, x). f n x) (enumerate k xs) = Inr ys \<longleftrightarrow>
     length ys = length xs \<and> (\<forall>i<length xs. f (k + i) (xs ! i) = Inr (ys ! i))"
  by (auto simp: smap_eq_Inr list_all2_conv_all_nth nth_enumerate_eq)

text \<open>The targets of the analyses that are available.\<close>

lemma analysis_targets_mem:
  "(k, t) \<in> set (analysis_targets as) \<longleftrightarrow>
     (\<exists>a ch. (a, ch) \<in> set as \<and> ar_available a \<and> truthy k \<and> truthy t \<and> k = ar_incident_id a \<and> t = ar_bookmark a)"
  by (auto simp: analysis_targets_def)

lemma target_of_mem:
  assumes "map_of (rev targets) k = Some t"
  shows "(k, t) \<in> set targets"
  using map_of_SomeD [OF assms] by simp

definition well_targeted :: "doc_env \<Rightarrow> (analysis_fields \<times> block list) list \<Rightarrow> bool" where
  "well_targeted env as \<longleftrightarrow> (\<forall>(a, ch)\<in>set as. \<exists>i. ar_incident_id a = JStr i
     \<and> (ar_available a \<longrightarrow> ar_bookmark a = JStr (bookmark_name env i)))"

lemma composition_well_targeted:
  assumes "composition env cal plan snapshot items tbl uniqs summary st as evs date d"
  shows "well_targeted env as"
proof -
  have "\<exists>i n nd. analysis_block env i nd n = Inr (a, ch)" if "(a, ch) \<in> set as" for a ch
    using assms that
    by (fastforce simp: composition_def Let_def smap_enumerate in_set_conv_nth)
  then show ?thesis
    unfolding well_targeted_def using analysis_block_fields by fastforce
qed

lemma document_blocks_mem:
  assumes "list_all is_prose summary" and nav: "nav = navigation env ts al"
  shows "AnalysisReference a ch \<in> set (document_blocks nav evs summary as) \<longleftrightarrow> (a, ch) \<in> set as"
    "IncidentEvidence ev \<in> set (document_blocks nav evs summary as) \<longleftrightarrow> ev \<in> set evs"
    "AlertNavigation es \<in> set (document_blocks nav evs summary as) \<longleftrightarrow> AlertNavigation es \<in> set nav"
proof -
  have p: "AnalysisReference a ch \<notin> set summary" "IncidentEvidence ev \<notin> set summary" "AlertNavigation es \<notin> set summary"
    using assms(1) by (auto simp: list_all_iff)
  have n: "AnalysisReference a ch \<notin> set nav" "IncidentEvidence ev \<notin> set nav"
    by (simp_all add: nav navigation_def Let_def)
  show "AnalysisReference a ch \<in> set (document_blocks nav evs summary as) \<longleftrightarrow> (a, ch) \<in> set as"
    "IncidentEvidence ev \<in> set (document_blocks nav evs summary as) \<longleftrightarrow> ev \<in> set evs"
    "AlertNavigation es \<in> set (document_blocks nav evs summary as) \<longleftrightarrow> AlertNavigation es \<in> set nav"
    using p n by (force simp: document_blocks_def)+
qed

lemma target_of_value:
  assumes "well_targeted env as"
  shows "target_of env (analysis_targets as) i \<noteq> JNull \<Longrightarrow>
      \<exists>a ch. (a, ch) \<in> set as \<and> ar_available a \<and> ar_incident_id a = JStr (incident_id env i)
        \<and> ar_bookmark a = target_of env (analysis_targets as) i"
    and "(a, ch) \<in> set as \<Longrightarrow> ar_available a \<Longrightarrow> ar_incident_id a = JStr (incident_id env i) \<Longrightarrow> incident_id env i \<noteq> []
      \<Longrightarrow> target_of env (analysis_targets as) i = ar_bookmark a"
proof -
  assume "target_of env (analysis_targets as) i \<noteq> JNull"
  then obtain t where "map_of (rev (analysis_targets as)) (JStr (incident_id env i)) = Some t"
      "target_of env (analysis_targets as) i = t"
    by (auto simp: target_of_def split: option.splits)
  then show "\<exists>a ch. (a, ch) \<in> set as \<and> ar_available a \<and> ar_incident_id a = JStr (incident_id env i)
        \<and> ar_bookmark a = target_of env (analysis_targets as) i"
    using target_of_mem [of "analysis_targets as"] by (metis analysis_targets_mem)
next
  assume a: "(a, ch) \<in> set as" "ar_available a" "ar_incident_id a = JStr (incident_id env i)" "incident_id env i \<noteq> []"
  have b: "ar_bookmark a = JStr (bookmark_name env (incident_id env i))"
    using assms a by (fastforce simp: well_targeted_def)
  with a have m: "(JStr (incident_id env i), ar_bookmark a) \<in> set (analysis_targets as)"
    by (auto simp: analysis_targets_mem bookmark_name_def)
  then obtain t where t: "map_of (rev (analysis_targets as)) (JStr (incident_id env i)) = Some t"
    by (metis set_rev weak_map_of_SomeI)
  obtain a' ch' where "(a', ch') \<in> set as" "ar_available a'" "ar_incident_id a' = JStr (incident_id env i)" "t = ar_bookmark a'"
    using target_of_mem [OF t] by (auto simp: analysis_targets_mem)
  then have "t = JStr (bookmark_name env (incident_id env i))"
    using assms by (fastforce simp: well_targeted_def)
  with t b show "target_of env (analysis_targets as) i = ar_bookmark a" by (simp add: target_of_def)
qed

section \<open>Properties\<close>

text \<open>A report has no dead links: every entry of the alert navigation points at the bookmark of an
  analysis section that is in the document and available; an alert links to the section of its own
  incident, and does so whenever that section is available. This holds for every plan and profile.\<close>

theorem report_links_resolve:
  assumes "compose_report env cal plan snapshot = Inr d"
  shows "(AlertNavigation es \<in> set (rd_blocks d) \<and> e \<in> set es \<longrightarrow>
        (\<exists>a ch. AnalysisReference a ch \<in> set (rd_blocks d) \<and> ar_available a \<and> ar_bookmark a = nv_target e))
    \<and> (IncidentEvidence ev \<in> set (rd_blocks d) \<and> ie_navigation_target ev \<noteq> JNull \<longrightarrow>
        (\<exists>a ch. AnalysisReference a ch \<in> set (rd_blocks d) \<and> ar_available a
          \<and> ar_incident_id a = ie_incident_id ev \<and> ar_bookmark a = ie_navigation_target ev))
    \<and> (IncidentEvidence ev \<in> set (rd_blocks d) \<and> AnalysisReference a ch \<in> set (rd_blocks d) \<and> ar_available a
        \<and> ar_incident_id a = ie_incident_id ev \<and> ie_incident_id ev \<noteq> JStr []
        \<longrightarrow> ie_navigation_target ev = ar_bookmark a)"
proof -
  obtain items tbl summary st as evs date
    where c: "composition env cal plan snapshot items tbl items summary st as evs date d"
    using compose_report_composition [OF assms] .
  define alerts where "alerts = alert_incidents (por (jget snapshot ''coverage'') (JObj [])) tbl items st"
  note w = composition_well_targeted [OF c]
  have b: "rd_blocks d = document_blocks (navigation env (analysis_targets as) alerts) evs summary as"
    using c by (simp add: composition_def alerts_def Let_def)
  have p: "list_all is_prose summary"
    using c by (intro read_plan_prose) (auto simp: composition_def Let_def)
  note mem = document_blocks_mem [OF p refl]
  have ev: "\<exists>i. ie_incident_id ev = JStr (incident_id env i) \<and> ie_navigation_target ev = target_of env (analysis_targets as) i"
    if ev: "ev \<in> set evs" for ev
  proof -
    obtain n i where "incident_block env (is_canonical snapshot) n (target_of env (analysis_targets as) i) i = Inr ev"
      using c ev by (fastforce simp: composition_def Let_def smap_enumerate in_set_conv_nth)
    then show ?thesis using incident_block_fields by blast
  qed
  have nav: "\<exists>i. nv_target e = target_of env (analysis_targets as) i \<and> nv_target e \<noteq> JNull"
    if e: "AlertNavigation es \<in> set (navigation env (analysis_targets as) alerts)" "e \<in> set es"
  proof -
    obtain i where i: "map_of (rev (analysis_targets as)) (JStr (incident_id env i)) \<noteq> None"
        "nv_target e = target_of env (analysis_targets as) i"
      using e by (force simp: navigation_def Let_def split: if_splits)
    then obtain t where t: "map_of (rev (analysis_targets as)) (JStr (incident_id env i)) = Some t" by blast
    have "target_of env (analysis_targets as) i = t" by (simp add: target_of_def t)
    moreover have "t \<noteq> JNull" using target_of_mem [OF t] by (auto simp: analysis_targets_mem)
    ultimately show ?thesis using i(2) by metis
  qed
  have 1: "AlertNavigation es \<in> set (rd_blocks d) \<and> e \<in> set es \<longrightarrow>
        (\<exists>a ch. AnalysisReference a ch \<in> set (rd_blocks d) \<and> ar_available a \<and> ar_bookmark a = nv_target e)"
    unfolding b mem using nav target_of_value(1) [OF w] by metis
  have 2: "IncidentEvidence ev \<in> set (rd_blocks d) \<and> ie_navigation_target ev \<noteq> JNull \<longrightarrow>
        (\<exists>a ch. AnalysisReference a ch \<in> set (rd_blocks d) \<and> ar_available a
          \<and> ar_incident_id a = ie_incident_id ev \<and> ar_bookmark a = ie_navigation_target ev)"
    unfolding b mem using ev target_of_value(1) [OF w] by metis
  have 3: "IncidentEvidence ev \<in> set (rd_blocks d) \<and> AnalysisReference a ch \<in> set (rd_blocks d) \<and> ar_available a
        \<and> ar_incident_id a = ie_incident_id ev \<and> ie_incident_id ev \<noteq> JStr []
        \<longrightarrow> ie_navigation_target ev = ar_bookmark a"
    unfolding b mem using ev target_of_value(2) [OF w] by (metis json.inject(4))
  show ?thesis using 1 2 3 by blast
qed

text \<open>A snapshot with two incidents, one of them analysed, and a plan.\<close>

definition sample_env :: doc_env where
  "sample_env = \<lparr>de_py = \<lparr>sha256_hex = (\<lambda>s. s), py_repr = (\<lambda>v. [])\<rparr>, de_comma = (\<lambda>r. []), de_int = (\<lambda>s. None)\<rparr>"

definition sample_calendar :: calendar where
  "sample_calendar = \<lparr>cal_zone_ok = (\<lambda>z. True), cal_fromiso = (\<lambda>s. Some (Aware 0)), cal_date = (\<lambda>z t. [68])\<rparr>"

definition sample_snapshot :: json where
  "sample_snapshot = jobj [(''composition_profile'', JStr (u ''noc-daily-report-v1'')),
     (''coverage'', jobj [(''incidents'', JStr (u ''all'')), (''analyses'', JStr (u ''all_available''))]),
     (''shift_starts_at'', JStr [84]),
     (''incidents'', JArr [
        jobj [(''id'', JStr [97]), (''title'', JStr [65]), (''analysis_run_id'', JStr [114]),
          (''report_fragment'', jobj [(''summary'', jobj [(''zh'', JStr [90])])])],
        jobj [(''id'', JStr [98]), (''title'', JStr [66])]])]"

definition sample_plan :: "nat \<Rightarrow> json" where
  "sample_plan c = jobj [(''general_summary'', jobj [(''zh'', JStr [c]), (''en'', JStr [c])])]"

lemma jlookup_jobj [simp]: "jlookup (jobj kvs) (u k) = map_of kvs k"
proof -
  have "map_of (map (\<lambda>kv. (u (fst kv), snd kv)) kvs) (u k) = map_of kvs k" by (induction kvs) auto
  then show ?thesis by (simp add: jobj_def)
qed

lemma jobj_simps [simp]: "is_dict (jobj kvs)" "truthy (jobj kvs) \<longleftrightarrow> kvs \<noteq> []"
  by (simp_all add: jobj_def)

lemma sample_composes: "65 \<le> c \<Longrightarrow> c \<le> 90 \<Longrightarrow> \<exists>d. compose_report sample_env sample_calendar (sample_plan c) sample_snapshot = Inr d"
proof -
  assume c: "65 \<le> c" "c \<le> 90"
  have s: "py_strip [c] = [c]" using c by (simp add: py_strip_def py_lstrip_def py_space_def)
  have st: "py_strip [84] = [84]" "py_strip (u ''UTC'') = u ''UTC''"
    by (simp_all add: py_strip_def py_lstrip_def py_space_def u_def)
  note defs = compose_report_def sample_plan_def sample_snapshot_def sample_env_def sample_calendar_def jget_jobj jhas_def
    por_def is_canonical_def read_plan_def narrative_summary_def required_text_def check_def incident_id_def
    py_str_def no_refs_def check_coverage_def jget_or_def alert_incidents_def analysis_incidents_def enumerate_eq_zip
  show ?thesis
    by (simp add: defs s st Let_def reference_node_def analysis_block_def check_reference_def analysis_children_def
        build_analysis_presentation_def compact_children_def fragment_pair_def text_or_def incident_shots_def
        incident_block_def report_date_def parse_shift_timestamp_def str_of_def)
qed

theorem report_links_resolve_witness:
  "\<exists>d. compose_report sample_env sample_calendar (sample_plan 65) sample_snapshot = Inr d
     \<and> (\<forall>es e. AlertNavigation es \<in> set (rd_blocks d) \<and> e \<in> set es \<longrightarrow>
          (\<exists>a ch. AnalysisReference a ch \<in> set (rd_blocks d) \<and> ar_available a \<and> ar_bookmark a = nv_target e))"
proof -
  obtain d where d: "compose_report sample_env sample_calendar (sample_plan 65) sample_snapshot = Inr d"
    using sample_composes [of 65] by auto
  then show ?thesis using report_links_resolve [OF d] by blast
qed

lemma jlookup_truthy: "jlookup d k = Some v \<Longrightarrow> truthy d"
  by (cases d) auto

lemma map_snd_of_enumerate: "map (\<lambda>p. f (snd p)) (enumerate k xs) = map f xs"
  by (induction xs arbitrary: k) auto

lemma map_nth_enumerate:
  assumes "length ys = length xs" "\<And>i. i < length xs \<Longrightarrow> g (ys ! i) = f (k + i) (xs ! i)"
  shows "map g ys = map (\<lambda>(n, x). f n x) (enumerate k xs)"
  using assms by (intro nth_equalityI) (simp_all add: nth_enumerate_eq)



text \<open>In the canonical profile the plan authorizes nothing: two plans over the same snapshot give
  documents that differ at most in the one block with the two summary texts.\<close>

theorem canonical_plan_only_supplies_narrative:
  assumes "compose_report env cal plan1 snapshot = Inr d1" "compose_report env cal plan2 snapshot = Inr d2"
    and "is_canonical snapshot"
  shows "\<exists>before after b1 b2. rd_blocks d1 = before @ [BilingualText b1] @ after
    \<and> rd_blocks d2 = before @ [BilingualText b2] @ after \<and> d1\<lparr>rd_blocks := []\<rparr> = d2\<lparr>rd_blocks := []\<rparr>"
proof -
  obtain items1 tbl1 s1 st1 as1 evs1 date1
    where c1: "composition env cal plan1 snapshot items1 tbl1 items1 s1 st1 as1 evs1 date1 d1"
    using compose_report_composition [OF assms(1)] .
  obtain items2 tbl2 s2 st2 as2 evs2 date2
    where c2: "composition env cal plan2 snapshot items2 tbl2 items2 s2 st2 as2 evs2 date2 d2"
    using compose_report_composition [OF assms(2)] .
  have i: "items2 = items1" "tbl2 = tbl1" "date2 = date1" using c1 c2 by (auto simp: composition_def Let_def)
  have "read_plan env True tbl1 items1 plan1 = Inr (s1, st1)" "read_plan env True tbl1 items1 plan2 = Inr (s2, st2)"
    using c1 c2 assms(3) by (simp_all add: composition_def Let_def i)
  then obtain b1 b2 where s: "s1 = [BilingualText b1]" "s2 = [BilingualText b2]" "st1 = no_refs" "st2 = no_refs"
      "jhas plan1 ''general_summary''" "jhas plan2 ''general_summary''"
    using read_plan_canonical by meson
  have a: "as2 = as1" using c1 c2 by (simp add: composition_def Let_def i s)
  have e: "evs2 = evs1" using c1 c2 by (simp add: composition_def Let_def i s a)
  define cov where "cov = por (jget snapshot ''coverage'') (JObj [])"
  let ?nav = "navigation env (analysis_targets as1) (alert_incidents cov tbl1 items1 no_refs)"
  let ?pre = "[Heading (JStr (u ''Alerts'')) 1] @ ?nav @ map IncidentEvidence evs1
     @ [PageBreak, Heading (JStr (u ''General Summary'')) 1]"
  let ?post = "[PageBreak, Heading (JStr (u ''Log Analysis'')) 1] @ map (\<lambda>(a, ch). AnalysisReference a ch) as1"
  have "rd_blocks d1 = ?pre @ [BilingualText b1] @ ?post" "rd_blocks d2 = ?pre @ [BilingualText b2] @ ?post"
    "d1\<lparr>rd_blocks := []\<rparr> = d2\<lparr>rd_blocks := []\<rparr>"
    using c1 c2 by (simp_all add: composition_def Let_def i s a e document_blocks_def cov_def)
  then show ?thesis by blast
qed

theorem canonical_plan_only_supplies_narrative_witness:
  "\<exists>d1 d2 before after b1 b2. compose_report sample_env sample_calendar (sample_plan 65) sample_snapshot = Inr d1
     \<and> compose_report sample_env sample_calendar (sample_plan 66) sample_snapshot = Inr d2
     \<and> rd_blocks d1 = before @ [BilingualText b1] @ after \<and> rd_blocks d2 = before @ [BilingualText b2] @ after"
proof -
  obtain d1 d2 where d: "compose_report sample_env sample_calendar (sample_plan 65) sample_snapshot = Inr d1"
      "compose_report sample_env sample_calendar (sample_plan 66) sample_snapshot = Inr d2"
    using sample_composes [of 65] sample_composes [of 66] by auto
  have "is_canonical sample_snapshot" by (simp add: is_canonical_def sample_snapshot_def jget_jobj por_def)
  from canonical_plan_only_supplies_narrative [OF d this] d show ?thesis by blast
qed

end
