(* ===== verification/Partial_Index.thy ===== *)
theory Partial_Index
  imports Prelude
begin

text \<open>
  The contract of a PostgreSQL partial unique index, \<open>UNIQUE (key) WHERE flag\<close>, which the schema uses
  three times: one active shift, one current analysis of an incident, one active snapshot of a skill.
  The provider gives the check that a commit runs; the clients get uniqueness and lookup from it.
\<close>

locale partial_index =
  fixes valid :: "'r list \<Rightarrow> bool"
    and flag :: "'r \<Rightarrow> bool"
    and key :: "'r \<Rightarrow> 'k"
  assumes valid_iff: "valid rows \<longleftrightarrow> distinct (map key (filter flag rows))"
begin

lemma valid_Nil: "valid []"
  by (simp add: valid_iff)

lemma holder_unique:
  assumes "valid rows" "r \<in> set rows" "s \<in> set rows" "flag r" "flag s" "key r = key s"
  shows "r = s"
  using assms by (auto simp: valid_iff distinct_map inj_on_def)

lemma holders:
  assumes "valid rows" "r \<in> set rows" "flag r"
  shows "filter (\<lambda>s. flag s \<and> key s = key r) rows = [r]"
  using assms unfolding valid_iff
proof (induction rows)
  case (Cons s rows)
  show ?case
  proof (cases "flag s \<and> key s = key r")
    case True
    then have none: "filter (\<lambda>t. flag t \<and> key t = key r) rows = []" using Cons.prems(1)
      by (auto simp: filter_empty_conv image_iff)
    then have "r = s" using Cons.prems by (auto simp: filter_empty_conv)
    then show ?thesis using True none by simp
  next
    case False
    then show ?thesis using Cons by (auto split: if_splits)
  qed
qed simp

lemma lookup_holder:
  assumes "valid rows" "r \<in> set rows" "flag r"
  shows "find_first (\<lambda>s. flag s \<and> key s = key r) rows = Some r"
proof (cases "find_first (\<lambda>s. flag s \<and> key s = key r) rows")
  case None
  then show ?thesis using assms by (auto simp: find_first_None_iff)
next
  case (Some s)
  then show ?thesis using find_first_Some [OF Some] holder_unique [OF assms(1), of s r] assms by simp
qed

text \<open>Clearing flags keeps the index valid, and so does a new row whose key no flagged row has.\<close>

lemma valid_update:
  assumes "valid rows" "\<And>r. r \<in> set rows \<Longrightarrow> flag (f r) \<Longrightarrow> flag r \<and> key (f r) = key r"
  shows "valid (map f rows)"
  using assms unfolding valid_iff
proof (induction rows)
  case (Cons r rows)
  have ih: "distinct (map key (filter flag (map f rows)))" using Cons by (auto split: if_splits)
  show ?case
  proof (cases "flag (f r)")
    case True
    then have r: "flag r" "key (f r) = key r" using Cons.prems(2) by auto
    have "key r \<notin> key ` set (filter flag (map f rows))"
    proof
      assume "key r \<in> key ` set (filter flag (map f rows))"
      then obtain s where "s \<in> set rows" "flag (f s)" "key (f s) = key r" by auto
      then show False using Cons.prems r by (auto simp: image_iff) metis
    qed
    with True r ih show ?thesis by simp
  qed (use ih in simp)
qed simp

lemma valid_insert:
  assumes "valid rows" "flag new \<Longrightarrow> \<forall>r\<in>set rows. flag r \<longrightarrow> key r \<noteq> key new"
  shows "valid (rows @ [new])"
  using assms unfolding valid_iff by auto

end

end
