(* ===== verification/Shifts.thy ===== *)
theory Shifts
  imports Partial_Index "HOL-Library.List_Lexorder"
begin

text \<open>
  Shifts, \<^verbatim>\<open>apps/api/app/api/v1/routers/shifts.py\<close>, with the partial unique index of
  \<^verbatim>\<open>models.py\<close>. A request reads the table and commits later; what it read is an argument of its own,
  so other transactions may have committed in between. The index makes the commit fail if it would leave
  two active rows. Fresh ids and the clock are arguments; audit entries are not kept.
\<close>

section \<open>Tables\<close>

record shift_definition =
  sd_id :: uuid
  sd_name :: pystr
  sd_timezone :: "pystr option"
  sd_enabled :: bool

record shift_row =
  sf_id :: uuid
  sf_definition_id :: uuid
  sf_starts_at :: time
  sf_ends_at :: "time option"
  sf_state :: pystr
  sf_opened_by :: "uuid option"
  sf_closed_by :: "uuid option"

definition active_shift :: "shift_row \<Rightarrow> bool" where
  "active_shift r \<longleftrightarrow> sf_state r = u ''active''"

definition end_shift :: "uuid \<Rightarrow> uuid \<Rightarrow> time \<Rightarrow> shift_row list \<Rightarrow> shift_row list" where
  "end_shift i user now rows = map (\<lambda>r. if sf_id r = i
     then r\<lparr>sf_state := u ''ended'', sf_ends_at := Some now, sf_closed_by := Some user\<rparr> else r) rows"

text \<open>The index \<open>uq_shifts_one_active\<close>.\<close>

definition one_active :: "shift_row list \<Rightarrow> bool" where
  "one_active rows \<longleftrightarrow> length (filter active_shift rows) \<le> 1"

lemma one_active_iff: "one_active rows \<longleftrightarrow> distinct (map sf_state (filter active_shift rows))"
proof -
  have "map sf_state (filter active_shift rows) = replicate (length (filter active_shift rows)) (u ''active'')"
    by (induction rows) (auto simp: active_shift_def)
  moreover have "n \<le> 1 \<longleftrightarrow> distinct (replicate n (u ''active''))" for n
    by (cases n; cases "n - 1") auto
  ultimately show ?thesis by (simp add: one_active_def)
qed

interpretation active: partial_index one_active active_shift sf_state
  by unfold_locales (rule one_active_iff)

lemma active_same_key: "active_shift r \<Longrightarrow> active_shift s \<and> sf_state s = sf_state r \<longleftrightarrow> active_shift s"
  by (auto simp: active_shift_def)

section \<open>Handlers\<close>

definition choose_definition :: "shift_definition list \<Rightarrow> uuid option \<Rightarrow> http_error + shift_definition" where
  "choose_definition defs body = (case body of
      Some i \<Rightarrow> (case find_first (\<lambda>d. sd_id d = i) defs of
          None \<Rightarrow> Inl (HTTP 404 (u ''Shift definition not found'')) | Some d \<Rightarrow> Inr d)
    | None \<Rightarrow> (case sort_key sd_name (filter sd_enabled defs) of
          [] \<Rightarrow> Inl (HTTP 400 (u ''No enabled shift definition to open'')) | d # _ \<Rightarrow> Inr d))"

definition open_shift ::
  "shift_definition list \<Rightarrow> shift_row list \<Rightarrow> uuid option \<Rightarrow> uuid \<Rightarrow> uuid \<Rightarrow> time \<Rightarrow> shift_row list
    \<Rightarrow> (http_error + shift_row) \<times> shift_row list" where
  "open_shift defs seen body new_id user now rows = (case choose_definition defs body of
      Inl e \<Rightarrow> (Inl e, rows)
    | Inr d \<Rightarrow>
      (let s = \<lparr>sf_id = new_id, sf_definition_id = sd_id d, sf_starts_at = now, sf_ends_at = None,
             sf_state = u ''active'', sf_opened_by = Some user, sf_closed_by = None\<rparr>;
           ended = (case find_first active_shift seen of Some c \<Rightarrow> end_shift (sf_id c) user now rows | None \<Rightarrow> rows);
           rows' = ended @ [s]
       in if one_active rows' then (Inr s, rows')
          else (Inl (HTTP 409 (u ''Another shift was opened concurrently; reload the current shift.'')), rows)))"

definition get_current_shift :: "shift_row list \<Rightarrow> http_error + shift_row" where
  "get_current_shift rows = (case sort_key (\<lambda>r. - sf_starts_at r) (filter active_shift rows) of
      [] \<Rightarrow> Inl (HTTP 404 (u ''No active shift'')) | r # _ \<Rightarrow> Inr r)"

definition list_shifts :: "shift_row list \<Rightarrow> shift_row list" where
  "list_shifts rows = sort_key (\<lambda>r. - sf_starts_at r) rows"

definition get_shift :: "uuid \<Rightarrow> shift_row list \<Rightarrow> http_error + shift_row" where
  "get_shift i rows = (case find_first (\<lambda>r. sf_id r = i) rows of
      None \<Rightarrow> Inl (HTTP 404 (u ''Shift not found'')) | Some r \<Rightarrow> Inr r)"

definition close_shift :: "shift_row list \<Rightarrow> uuid \<Rightarrow> uuid \<Rightarrow> time \<Rightarrow> shift_row list
    \<Rightarrow> (http_error + uuid) \<times> shift_row list" where
  "close_shift seen i user now rows = (case find_first (\<lambda>r. sf_id r = i) seen of
      None \<Rightarrow> (Inl (HTTP 404 (u ''Shift not found'')), rows)
    | Some r \<Rightarrow> if \<not> active_shift r then (Inl (HTTP 400 (u ''Shift is not active'')), rows)
        else (Inr i, end_shift i user now rows))"

section \<open>Histories\<close>

text \<open>The tables that requests can produce; \<open>seen\<close> is arbitrary, so every interleaving of reads and
  commits is included.\<close>

inductive shift_history :: "shift_row list \<Rightarrow> bool" where
  Empty: "shift_history []"
| Open: "shift_history rows \<Longrightarrow> new_id \<notin> sf_id ` set rows
    \<Longrightarrow> shift_history (snd (open_shift defs seen body new_id user now rows))"
| Close: "shift_history rows \<Longrightarrow> shift_history (snd (close_shift seen i user now rows))"

definition shift_row_ok :: "shift_row \<Rightarrow> bool" where
  "shift_row_ok r \<longleftrightarrow> sf_opened_by r \<noteq> None \<and>
     (if active_shift r then sf_ends_at r = None \<and> sf_closed_by r = None
      else sf_state r = u ''ended'' \<and> sf_ends_at r \<noteq> None \<and> sf_closed_by r \<noteq> None)"

lemma active_end_shift:
  "filter active_shift (end_shift i user now rows) = filter (\<lambda>r. active_shift r \<and> sf_id r \<noteq> i) rows"
  by (induction rows) (auto simp: end_shift_def active_shift_def)

lemma ids_end_shift [simp]: "map sf_id (end_shift i user now rows) = map sf_id rows"
  by (auto simp: end_shift_def)

lemma ok_end_shift: "\<forall>r\<in>set rows. shift_row_ok r \<Longrightarrow> \<forall>r\<in>set (end_shift i user now rows). shift_row_ok r"
  by (auto simp: end_shift_def shift_row_ok_def active_shift_def)

lemma one_active_end_shift: "one_active rows \<Longrightarrow> one_active (end_shift i user now rows)"
  unfolding end_shift_def by (rule active.valid_update) (auto simp: active_shift_def split: if_splits)

definition shifts_ok :: "shift_row list \<Rightarrow> bool" where
  "shifts_ok rows \<longleftrightarrow> one_active rows \<and> (\<forall>r\<in>set rows. shift_row_ok r) \<and> distinct (map sf_id rows)"

lemma open_shift_ok:
  assumes "shifts_ok rows" "new_id \<notin> sf_id ` set rows"
  shows "shifts_ok (snd (open_shift defs seen body new_id user now rows))"
proof -
  have ids: "sf_id ` set (end_shift i user now rows) = sf_id ` set rows" for i
    by (metis ids_end_shift list.set_map)
  have new: "shift_row_ok \<lparr>sf_id = new_id, sf_definition_id = d, sf_starts_at = now, sf_ends_at = None,
      sf_state = u ''active'', sf_opened_by = Some user, sf_closed_by = None\<rparr>" for d
    by (simp add: shift_row_ok_def active_shift_def)
  show ?thesis
    using assms new ok_end_shift [of rows] ids
    by (auto simp: open_shift_def shifts_ok_def Let_def split: sum.split option.split)
qed

lemma close_shift_ok: "shifts_ok rows \<Longrightarrow> shifts_ok (snd (close_shift seen i user now rows))"
  using ok_end_shift one_active_end_shift
  by (auto simp: close_shift_def shifts_ok_def split: option.split)

lemma shift_history_ok: "shift_history rows \<Longrightarrow> shifts_ok rows"
proof (induction rule: shift_history.induct)
  case Empty
  then show ?case by (simp add: shifts_ok_def one_active_def)
qed (simp_all add: open_shift_ok close_shift_ok)

lemma active_unique:
  assumes "one_active rows" "r \<in> set rows" "active_shift r"
  shows "filter active_shift rows = [r]"
  using active.holders [OF assms] by (simp only: active_same_key [OF assms(3)])

lemma find_first_active: "one_active rows \<Longrightarrow> filter active_shift rows =
    (case find_first active_shift rows of None \<Rightarrow> [] | Some r \<Rightarrow> [r])"
proof (cases "find_first active_shift rows")
  case None
  then have "filter active_shift rows = []" by (simp add: find_first_None_iff filter_empty_conv)
  with None show ?thesis by simp
next
  case (Some r)
  moreover assume "one_active rows"
  ultimately show ?thesis using active_unique find_first_Some [OF Some] by simp
qed

section \<open>Properties\<close>

text \<open>C14. There is never more than one active shift, however requests interleave: in every reachable
  table the index holds, rows are active or properly ended and ids are unique; and an open whose view
  of the table is current always succeeds, ends the shift that was active and makes its own the one
  that \<open>GET /shifts/current\<close> returns.\<close>

theorem one_active_shift:
  assumes "shift_history rows" "new_id \<notin> sf_id ` set rows" "choose_definition defs body = Inr d"
  shows "shifts_ok rows
    \<and> (\<exists>s rows'. open_shift defs rows body new_id user now rows = (Inr s, rows') \<and> sf_id s = new_id
        \<and> filter active_shift rows' = [s] \<and> get_current_shift rows' = Inr s
        \<and> (\<forall>r\<in>set rows. active_shift r \<longrightarrow>
             r\<lparr>sf_state := u ''ended'', sf_ends_at := Some now, sf_closed_by := Some user\<rparr> \<in> set rows'))"
proof -
  have ok: "shifts_ok rows" using assms(1) by (rule shift_history_ok)
  define ended where "ended = (case find_first active_shift rows of Some c \<Rightarrow> end_shift (sf_id c) user now rows | None \<Rightarrow> rows)"
  define s where "s = \<lparr>sf_id = new_id, sf_definition_id = sd_id d, sf_starts_at = now, sf_ends_at = None,
             sf_state = u ''active'', sf_opened_by = Some user, sf_closed_by = None\<rparr>"
  have one: "one_active rows" using ok by (simp add: shifts_ok_def)
  have none: "filter active_shift ended = []"
  proof (cases "find_first active_shift rows")
    case None
    then show ?thesis using find_first_active [OF one] by (simp add: ended_def)
  next
    case (Some c)
    then have "filter active_shift rows = [c]" using find_first_active [OF one] by simp
    then have "set (filter active_shift rows) = {c}" by simp
    then have "\<forall>r\<in>set rows. active_shift r \<longrightarrow> r = c" by auto
    then show ?thesis by (auto simp: ended_def Some active_end_shift filter_empty_conv)
  qed
  have act: "active_shift s" by (simp add: s_def active_shift_def)
  have f: "filter active_shift (ended @ [s]) = [s]" using none act by simp
  have o: "open_shift defs rows body new_id user now rows = (Inr s, ended @ [s])"
    using f assms(3) unfolding open_shift_def Let_def one_active_def
    by (simp del: filter_append flip: ended_def s_def)
  have e: "r\<lparr>sf_state := u ''ended'', sf_ends_at := Some now, sf_closed_by := Some user\<rparr> \<in> set (ended @ [s])"
    if "r \<in> set rows" "active_shift r" for r
  proof -
    have "find_first active_shift rows = Some r"
      using active_unique [OF one that] find_first_active [OF one] by (auto split: option.splits)
    then show ?thesis using that(1) by (auto simp: ended_def end_shift_def)
  qed
  have "sf_id s = new_id" by (simp add: s_def)
  moreover have "get_current_shift (ended @ [s]) = Inr s" unfolding get_current_shift_def f by simp
  ultimately show ?thesis using ok o f e by blast
qed

definition sample_definition :: shift_definition where
  "sample_definition = \<lparr>sd_id = [1], sd_name = [65], sd_timezone = None, sd_enabled = True\<rparr>"

theorem one_active_shift_witness:
  "\<exists>rows s rows'. length rows = 1 \<and> open_shift [sample_definition] rows None [8] [7] 5 rows = (Inr s, rows')
     \<and> length rows' = 2 \<and> filter active_shift rows' = [s]"
proof -
  define rows where "rows = snd (open_shift [sample_definition] [] None [9] [7] 4 [])"
  have h: "shift_history rows" unfolding rows_def by (rule shift_history.Open [OF shift_history.Empty]) simp
  have c: "choose_definition [sample_definition] None = Inr sample_definition"
    by (simp add: choose_definition_def sample_definition_def)
  have r: "map sf_id rows = [[9]]"
    by (simp add: rows_def open_shift_def c Let_def one_active_def)
  have "sf_id ` set rows = {[9]}" using arg_cong [OF r, of set] by simp
  then have n: "[8] \<notin> sf_id ` set rows" by simp
  obtain s rows' where o: "open_shift [sample_definition] rows None [8] [7] 5 rows = (Inr s, rows')"
      "filter active_shift rows' = [s]"
    using one_active_shift [OF h n c] by blast
  moreover have "length rows = 1" using arg_cong [OF r, of length] by simp
  moreover have "length rows' = Suc (length rows)"
    using o by (auto simp: open_shift_def c Let_def end_shift_def split: if_splits option.splits)
  ultimately show ?thesis by auto
qed

end
