(* ===== verification/Sessions.thy ===== *)
theory Sessions
  imports Json
begin

text \<open>
  Authentication, \<^verbatim>\<open>apps/api/app/api/v1/routers/auth.py\<close> and \<^verbatim>\<open>app/deps.py\<close>: login, rotation of the
  refresh credential, logout and the permission check. The digest of a credential, the password check,
  the fresh credential and the clock are arguments; a signed access token is the claims it carries. The
  row lock of \<open>refresh\<close> makes each handler one step on the tables. Audit entries are not kept.
\<close>

section \<open>Tables\<close>

record user_row =
  us_id :: uuid
  us_username :: pystr
  us_password_hash :: pystr
  us_enabled :: bool
  us_last_login :: "time option"
  us_roles :: "(pystr \<times> pystr list) list"

record session_row =
  ss_user :: uuid
  ss_hash :: pystr
  ss_expires :: time
  ss_revoked :: "time option"

record auth_db =
  users :: "user_row list"
  sessions :: "session_row list"

definition get_user :: "auth_db \<Rightarrow> uuid \<Rightarrow> user_row option" where
  "get_user db i = find_first (\<lambda>r. us_id r = i) (users db)"

definition unauthorized :: "string \<Rightarrow> http_error" where
  "unauthorized s = HTTP 401 (u s)"

section \<open>Handlers\<close>

definition new_refresh_session :: "(pystr \<Rightarrow> pystr) \<Rightarrow> time \<Rightarrow> uuid \<Rightarrow> pystr \<Rightarrow> time \<Rightarrow> auth_db \<Rightarrow> auth_db" where
  "new_refresh_session digest ttl user secret now db = db\<lparr>sessions := sessions db
     @ [\<lparr>ss_user = user, ss_hash = digest secret, ss_expires = now + ttl, ss_revoked = None\<rparr>]\<rparr>"

text \<open>The result is the subject of the access token and the new cookie.\<close>

definition login ::
  "(pystr \<Rightarrow> pystr) \<Rightarrow> (pystr \<Rightarrow> pystr \<Rightarrow> bool) \<Rightarrow> time \<Rightarrow> pystr \<Rightarrow> pystr \<Rightarrow> pystr \<Rightarrow> time \<Rightarrow> auth_db
    \<Rightarrow> (http_error + uuid \<times> pystr) \<times> auth_db" where
  "login digest verify ttl username password secret now db =
    (case find_first (\<lambda>r. us_username r = username) (users db) of
       None \<Rightarrow> (Inl (unauthorized ''Incorrect username or password''), db)
     | Some r \<Rightarrow>
        if \<not> us_enabled r \<or> \<not> verify password (us_password_hash r)
        then (Inl (unauthorized ''Incorrect username or password''), db)
        else (Inr (us_id r, secret), new_refresh_session digest ttl (us_id r) secret now
          (db\<lparr>users := map (\<lambda>x. if us_id x = us_id r then x\<lparr>us_last_login := Some now\<rparr> else x) (users db)\<rparr>)))"

definition revoke :: "pystr \<Rightarrow> time \<Rightarrow> auth_db \<Rightarrow> auth_db" where
  "revoke h now db = db\<lparr>sessions := map (\<lambda>r. if ss_hash r = h then r\<lparr>ss_revoked := Some now\<rparr> else r) (sessions db)\<rparr>"

definition refresh ::
  "(pystr \<Rightarrow> pystr) \<Rightarrow> time \<Rightarrow> pystr option \<Rightarrow> pystr \<Rightarrow> time \<Rightarrow> auth_db \<Rightarrow> (http_error + uuid \<times> pystr) \<times> auth_db" where
  "refresh digest ttl cookie secret now db = (case truthy_opt cookie of
      None \<Rightarrow> (Inl (unauthorized ''Refresh session is required''), db)
    | Some c \<Rightarrow> (case find_first (\<lambda>r. ss_hash r = digest c) (sessions db) of
        None \<Rightarrow> (Inl (unauthorized ''Invalid or expired refresh session''), db)
      | Some s \<Rightarrow>
          if ss_revoked s \<noteq> None \<or> ss_expires s \<le> now
          then (Inl (unauthorized ''Invalid or expired refresh session''), db)
          else (case get_user db (ss_user s) of
              None \<Rightarrow> (Inl (unauthorized ''User not found or disabled''), db)
            | Some r \<Rightarrow> if \<not> us_enabled r then (Inl (unauthorized ''User not found or disabled''), db)
                else (Inr (us_id r, secret), new_refresh_session digest ttl (us_id r) secret now (revoke (digest c) now db)))))"

definition logout :: "(pystr \<Rightarrow> pystr) \<Rightarrow> pystr option \<Rightarrow> time \<Rightarrow> auth_db \<Rightarrow> auth_db" where
  "logout digest cookie now db = (case truthy_opt cookie of
      None \<Rightarrow> db
    | Some c \<Rightarrow> (case find_first (\<lambda>r. ss_hash r = digest c) (sessions db) of
        Some s \<Rightarrow> if ss_revoked s = None then revoke (digest c) now db else db
      | None \<Rightarrow> db))"

section \<open>Access checks\<close>

text \<open>\<open>claims\<close> is what \<open>decode_token\<close> returns, \<open>None\<close> for its \<open>ValueError\<close>.\<close>

definition get_current_user :: "json option \<Rightarrow> auth_db \<Rightarrow> http_error + user_row" where
  "get_current_user claims db = (case claims of
      None \<Rightarrow> Inl (unauthorized ''Invalid or expired token'')
    | Some p \<Rightarrow>
        if jget p ''type'' \<noteq> JStr (u ''access'') then Inl (unauthorized ''Not an access token'')
        else (case get_user db (jstr (jget p ''sub'')) of
            None \<Rightarrow> Inl (unauthorized ''User not found or disabled'')
          | Some r \<Rightarrow> if us_enabled r then Inr r else Inl (unauthorized ''User not found or disabled'')))"

definition permission_names :: "user_row \<Rightarrow> pystr list" where
  "permission_names r = concat (map snd (us_roles r))"

definition require_permission :: "pystr \<Rightarrow> json option \<Rightarrow> auth_db \<Rightarrow> http_error + user_row" where
  "require_permission perm claims db = sbind (get_current_user claims db) (\<lambda>r.
     if perm \<in> set (permission_names r) then Inr r else Inl (HTTP 403 (u ''Missing permission: '' @ perm)))"

section \<open>Histories\<close>

text \<open>The steps of a history: requests, and administrators who enable or disable an account. Every
  credential the server creates has a digest no row has (\<open>token_hash\<close> is unique).\<close>

datatype auth_event =
    Login pystr pystr pystr time
  | Refresh "pystr option" pystr time
  | Logout "pystr option" time
  | Set_Enabled uuid bool

fun auth_step :: "(pystr \<Rightarrow> pystr) \<Rightarrow> (pystr \<Rightarrow> pystr \<Rightarrow> bool) \<Rightarrow> time \<Rightarrow> auth_event \<Rightarrow> auth_db \<Rightarrow> auth_db" where
  "auth_step digest verify ttl (Login n p s now) db = snd (login digest verify ttl n p s now db)"
| "auth_step digest verify ttl (Refresh c s now) db = snd (refresh digest ttl c s now db)"
| "auth_step digest verify ttl (Logout c now) db = logout digest c now db"
| "auth_step digest verify ttl (Set_Enabled i b) db =
     db\<lparr>users := map (\<lambda>x. if us_id x = i then x\<lparr>us_enabled := b\<rparr> else x) (users db)\<rparr>"

fun fresh_secret :: "(pystr \<Rightarrow> pystr) \<Rightarrow> auth_db \<Rightarrow> auth_event \<Rightarrow> bool" where
  "fresh_secret digest db (Login n p s now) = (digest s \<notin> ss_hash ` set (sessions db))"
| "fresh_secret digest db (Refresh c s now) = (digest s \<notin> ss_hash ` set (sessions db))"
| "fresh_secret digest db _ = True"

inductive auth_run :: "(pystr \<Rightarrow> pystr) \<Rightarrow> (pystr \<Rightarrow> pystr \<Rightarrow> bool) \<Rightarrow> time \<Rightarrow> auth_db \<Rightarrow> auth_db \<Rightarrow> bool"
  for digest verify ttl db where
  Refl: "auth_run digest verify ttl db db"
| Step: "auth_run digest verify ttl db db' \<Longrightarrow> fresh_secret digest db' e
    \<Longrightarrow> auth_run digest verify ttl db (auth_step digest verify ttl e db')"

section \<open>Lemmas\<close>

text \<open>A credential is spent when a row has its digest and every such row is revoked.\<close>

definition spent :: "pystr \<Rightarrow> auth_db \<Rightarrow> bool" where
  "spent h db \<longleftrightarrow> h \<in> ss_hash ` set (sessions db) \<and> (\<forall>r\<in>set (sessions db). ss_hash r = h \<longrightarrow> ss_revoked r \<noteq> None)"

lemma hashes_revoke [simp]: "ss_hash ` set (sessions (revoke h now db)) = ss_hash ` set (sessions db)"
proof -
  have "map ss_hash (sessions (revoke h now db)) = map ss_hash (sessions db)" by (simp add: revoke_def)
  then show ?thesis by (metis list.set_map)
qed

lemma spent_revoke:
  assumes "h \<in> ss_hash ` set (sessions db)"
  shows "spent h (revoke h now db)"
  unfolding spent_def hashes_revoke using assms by (auto simp: revoke_def)

lemma spent_revoke_other:
  assumes "spent h db"
  shows "spent h (revoke h' now db)"
  using assms unfolding spent_def hashes_revoke by (auto simp: revoke_def)

lemma spent_new: "spent h db \<Longrightarrow> digest s \<noteq> h \<Longrightarrow> spent h (new_refresh_session digest ttl x s now db)"
  by (auto simp: spent_def new_refresh_session_def)

lemma spent_users [simp]: "spent h (db\<lparr>users := us\<rparr>) = spent h db"
  by (simp add: spent_def)

lemma spent_step:
  assumes "spent h db" "fresh_secret digest db e"
  shows "spent h (auth_step digest verify ttl e db)"
proof (cases e)
  case (Login n p s now)
  then have "digest s \<noteq> h" using assms by (auto simp: spent_def)
  then show ?thesis using assms(1) by (simp add: Login login_def spent_new split: option.split)
next
  case (Refresh c s now)
  then have "digest s \<noteq> h" using assms by (auto simp: spent_def)
  then show ?thesis using assms(1)
    by (simp add: Refresh refresh_def spent_new spent_revoke_other split: option.split)
next
  case (Logout c now)
  then show ?thesis using assms(1) by (simp add: logout_def spent_revoke_other split: option.split)
qed (simp add: assms(1))

lemma spent_run: "auth_run digest verify ttl db db' \<Longrightarrow> spent h db \<Longrightarrow> spent h db'"
  by (induction rule: auth_run.induct) (simp_all add: spent_step)

lemma spent_refused:
  assumes "spent (digest c) db" "c \<noteq> []"
  shows "refresh digest ttl (Some c) s now db = (Inl (unauthorized ''Invalid or expired refresh session''), db)"
proof -
  obtain r where r: "find_first (\<lambda>r. ss_hash r = digest c) (sessions db) = Some r"
    using assms(1) by (cases "find_first (\<lambda>r. ss_hash r = digest c) (sessions db)") (auto simp: spent_def find_first_None_iff)
  then have "ss_revoked r \<noteq> None" using find_first_Some [OF r] assms(1) by (auto simp: spent_def)
  with r assms(2) show ?thesis by (simp add: refresh_def truthy_opt_def)
qed

lemma refresh_spends:
  assumes "refresh digest ttl (Some c) s now db = (Inr res, db')" "digest s \<notin> ss_hash ` set (sessions db)"
  shows "c \<noteq> [] \<and> spent (digest c) db' \<and> snd res = s"
proof -
  obtain r where r: "c \<noteq> []" "find_first (\<lambda>r. ss_hash r = digest c) (sessions db) = Some r"
    using assms(1) by (auto simp: refresh_def truthy_opt_def split: option.splits if_splits)
  then have db': "\<exists>x. db' = new_refresh_session digest ttl x s now (revoke (digest c) now db)" "snd res = s"
    using assms(1) by (auto simp: refresh_def truthy_opt_def split: option.splits if_splits)
  have "digest c \<in> ss_hash ` set (sessions db)" using find_first_Some [OF r(2)] by (metis image_eqI)
  then have "spent (digest c) (revoke (digest c) now db)" "digest s \<noteq> digest c"
    using assms(2) by (auto simp: spent_revoke)
  then show ?thesis using r(1) db' spent_new by blast
qed

lemma logout_spends:
  assumes "c \<noteq> []" "digest c \<in> ss_hash ` set (sessions db)" "distinct (map ss_hash (sessions db))"
  shows "spent (digest c) (logout digest (Some c) now db)"
proof -
  obtain r where r: "find_first (\<lambda>r. ss_hash r = digest c) (sessions db) = Some r"
    using assms(2) by (cases "find_first (\<lambda>r. ss_hash r = digest c) (sessions db)") (auto simp: find_first_None_iff)
  note m = find_first_Some [OF r]
  have "x = r" if "x \<in> set (sessions db)" "ss_hash x = digest c" for x
    using that m assms(3) by (metis distinct_map inj_onD)
  then have "ss_revoked r \<noteq> None \<Longrightarrow> spent (digest c) db" using assms(2) by (auto simp: spent_def)
  then show ?thesis using r assms spent_revoke by (simp add: logout_def truthy_opt_def)
qed

section \<open>Properties\<close>

text \<open>C15. A refresh credential works at most once, and never after a logout: once a refresh with it
  succeeded, or the session it belongs to was logged out, every later refresh with the same cookie is
  refused and changes nothing, whatever logins, refreshes, logouts and account changes happen in between.\<close>

theorem refresh_credential_is_single_use:
  assumes "(\<exists>s now res. refresh digest ttl (Some c) s now db = (Inr res, db1) \<and> digest s \<notin> ss_hash ` set (sessions db))
      \<or> (\<exists>now. db1 = logout digest (Some c) now db \<and> c \<noteq> [] \<and> digest c \<in> ss_hash ` set (sessions db)
            \<and> distinct (map ss_hash (sessions db)))"
    and "auth_run digest verify ttl db1 db2"
  shows "refresh digest ttl (Some c) s' now' db2 = (Inl (unauthorized ''Invalid or expired refresh session''), db2)"
proof -
  have "c \<noteq> [] \<and> spent (digest c) db1"
    using assms(1) refresh_spends logout_spends by blast
  then show ?thesis using spent_run [OF assms(2)] spent_refused by blast
qed

definition sample_auth :: auth_db where
  "sample_auth = \<lparr>users = [\<lparr>us_id = [1], us_username = [65], us_password_hash = [80], us_enabled = True,
       us_last_login = None, us_roles = []\<rparr>],
     sessions = [\<lparr>ss_user = [1], ss_hash = [7], ss_expires = 100, ss_revoked = None\<rparr>]\<rparr>"

theorem refresh_credential_is_single_use_witness:
  "\<exists>db1 res. refresh (\<lambda>s. s) 100 (Some [7]) [8] 5 sample_auth = (Inr res, db1)
     \<and> (\<exists>r. fst (refresh (\<lambda>s. s) 100 (Some [8]) [9] 6 db1) = Inr r)
     \<and> fst (refresh (\<lambda>s. s) 100 (Some [7]) [9] 6 db1) = Inl (unauthorized ''Invalid or expired refresh session'')"
proof -
  obtain db1 res where r: "refresh (\<lambda>s. s) 100 (Some [7]) [8] 5 sample_auth = (Inr res, db1)"
    by (simp add: refresh_def truthy_opt_def sample_auth_def get_user_def)
  moreover have "[8] \<notin> ss_hash ` set (sessions sample_auth)" by (simp add: sample_auth_def)
  ultimately have "refresh (\<lambda>s. s) 100 (Some [7]) [9] 6 db1 = (Inl (unauthorized ''Invalid or expired refresh session''), db1)"
    by (intro refresh_credential_is_single_use [OF _ auth_run.Refl [of _ "\<lambda>p h. True"]]) blast
  moreover have "\<exists>r. fst (refresh (\<lambda>s. s) 100 (Some [8]) [9] 6 db1) = Inr r"
    using r by (auto simp: refresh_def truthy_opt_def sample_auth_def get_user_def new_refresh_session_def revoke_def)
  ultimately show ?thesis using r by auto
qed

end
