(* ===== verification/Reports_Api.thy ===== *)
theory Reports_Api
  imports Report_Composition Evidence Outbox Shifts
begin

text \<open>
  The report API, \<^verbatim>\<open>apps/api/app/api/v1/routers/reports.py\<close>, with the fragments of
  \<^verbatim>\<open>report_fragments.py\<close>: freezing a snapshot, allocating a version, generating the job, pinning the
  finished artifact and serving it. MinIO (what the head and the bytes of an object version are), hashes,
  JSON text, ISO timestamps, the active skill and fresh ids are arguments; columns that are only copied
  into the snapshot are a function of their name. Exceptions without a handler are status 500.
\<close>

section \<open>Tables and environment\<close>

record incident_row =
  in_id :: uuid
  in_shift_id :: "uuid option"
  in_created_at :: time
  in_triggered_at :: time
  in_recovered_at :: "time option"
  in_column :: "string \<Rightarrow> json"

record run_row =
  rn_id :: uuid
  rn_incident_id :: uuid
  rn_current :: bool
  rn_log_evidence_id :: "uuid option"
  rn_snapshot_id :: "uuid option"
  rn_result :: json
  rn_column :: "string \<Rightarrow> json"

record report_row =
  rp_id :: uuid
  rp_shift_id :: uuid
  rp_version :: int
  rp_model :: "pystr option"
  rp_effort :: "pystr option"
  rp_generated_by :: uuid
  rp_cols :: report_cols

record reports_db =
  rdb_shifts :: "shift_row list"
  rdb_definitions :: "shift_definition list"
  rdb_incidents :: "incident_row list"
  rdb_runs :: "run_row list"
  rdb_evidence :: evidence_db
  rdb_reports :: "report_row list"
  rdb_jobs :: job_db
  rdb_events :: "outbox_event list"

record object_store =
  so_head :: "pystr \<Rightarrow> pystr \<Rightarrow> (pystr option \<times> pystr option) option"
  so_get :: "pystr option \<Rightarrow> pystr \<Rightarrow> pystr option \<Rightarrow> pystr option"
  so_sha :: "pystr \<Rightarrow> pystr"
  so_guess :: "pystr \<Rightarrow> pystr option"
  so_loads :: "pystr \<Rightarrow> json option"
  so_dumps :: "json \<Rightarrow> pystr"

record report_settings =
  rs_bucket :: pystr
  rs_ai_runtime :: pystr
  rs_daily_enabled :: bool

record skill_info =
  sk_id :: uuid
  sk_content_hash :: pystr
  sk_execution_hash :: pystr
  sk_version :: pystr
  sk_manifest :: json
  sk_policy :: json

record freeze_env =
  fz_doc :: doc_env
  fz_iso :: "time \<Rightarrow> pystr"
  fz_manifest :: "uuid \<Rightarrow> json option"

section \<open>Report fragments\<close>

definition pair_json :: "doc_env \<Rightarrow> json \<Rightarrow> json \<Rightarrow> json" where
  "pair_json env zh en = jobj [(''zh'', str_of env (por zh (JStr []))), (''en'', str_of env (por en (JStr [])))]"

definition context_side :: "json \<Rightarrow> string \<Rightarrow> string \<Rightarrow> json" where
  "context_side ctx key lang = (if is_dict (jget ctx key) then jget (jget ctx key) lang else jget ctx (key @ ''_'' @ lang))"

definition context_pair :: "doc_env \<Rightarrow> json \<Rightarrow> string \<Rightarrow> string \<times> json" where
  "context_pair env ctx key = (key, pair_json env (context_side ctx key ''zh'') (context_side ctx key ''en''))"

definition has_any :: "json \<Rightarrow> string list \<Rightarrow> bool" where
  "has_any d ks = list_ex (jhas d) ks"

definition context_fragment :: "doc_env \<Rightarrow> json \<Rightarrow> doc_error + json" where
  "context_fragment env ctx = sbind (py_iter (por (jget ctx ''findings'') (JArr []))) (\<lambda>fs.
     Inr (jobj ([(''contract'', JStr (u ''report-fragment-v1'')), (''headline'', text_or env ctx [''headline'']),
       (''severity'', jget ctx ''severity''), context_pair env ctx ''summary'', (''findings'', JArr (take 5 fs))]
      @ (if has_any ctx [''likely_cause'', ''likely_cause_zh'', ''likely_cause_en''] then [context_pair env ctx ''likely_cause''] else [])
      @ (if has_any ctx [''recommended_action'', ''recommended_action_zh'', ''recommended_action_en'']
         then [context_pair env ctx ''recommended_action''] else []))))"

definition result_pair :: "doc_env \<Rightarrow> json \<Rightarrow> string \<Rightarrow> string \<times> json" where
  "result_pair env r key = (key, pair_json env (jget r (key @ ''_zh'')) (jget r (key @ ''_en'')))"

definition build_report_fragment :: "doc_env \<Rightarrow> json \<Rightarrow> doc_error + json" where
  "build_report_fragment env r =
    (if \<not> is_dict r then Inr JNull
     else if is_dict (jget r ''report_context'') then context_fragment env (jget r ''report_context'')
     else sbind (case por (jget r ''key_finds'') (JArr []) of JArr xs \<Rightarrow> Inr (take 5 xs) | JStr s \<Rightarrow> Inr [] | _ \<Rightarrow> Inl Type_Error)
       (\<lambda>finds. Inr (jobj ([(''contract'', JStr (u ''report-fragment-v1'')),
          (''headline'', text_or env r [''summary_en'', ''summary_zh'']), (''severity'', jget r ''severity_signal''),
          result_pair env r ''summary'',
          (''findings'', JArr (map (\<lambda>f. jobj [(''zh'', text_or env f [''label_zh'', ''label_en'']),
             (''en'', text_or env f [''label_en'', ''label_zh'']), (''detail_zh'', text_or env f [''detail_zh'']),
             (''detail_en'', text_or env f [''detail_en''])]) (filter is_dict finds)))]
         @ (if has_any r [''likely_cause_zh'', ''likely_cause_en''] then [result_pair env r ''likely_cause''] else [])
         @ (if has_any r [''recommended_action_zh'', ''recommended_action_en''] then [result_pair env r ''recommended_action''] else [])))))"

section \<open>Freezing the snapshot\<close>

datatype freeze_error = Multiple_Current_Runs uuid | Fragment_Error doc_error

definition frozen_evidence_identity :: "evidence_row \<Rightarrow> json" where
  "frozen_evidence_identity e = jobj [(''evidence_id'', JStr (e_id e)), (''evidence_type'', JStr (e_type e)),
     (''bucket'', JStr (e_bucket e)), (''object_key'', JStr (e_object_key e)), (''version_id'', jopt (e_version_id e)),
     (''sha256'', JStr (e_sha256 e)), (''filename'', JStr (e_filename e)), (''content_type'', jopt (e_mime_type e)),
     (''byte_size'', JInt (e_byte_size e))]"

definition is_screenshot :: "evidence_row \<Rightarrow> bool" where
  "is_screenshot e \<longleftrightarrow> e_type e \<in> {u ''ALERT_SCREENSHOT'', u ''GRAFANA_SCREENSHOT''}"

definition active_evidence :: "reports_db \<Rightarrow> uuid \<Rightarrow> evidence_row list" where
  "active_evidence db i = filter (\<lambda>e. e_incident_id e = i \<and> e_lifecycle e = ACTIVE) (evidence (rdb_evidence db))"

definition log_evidence :: "reports_db \<Rightarrow> uuid \<Rightarrow> evidence_row option" where
  "log_evidence db i = find_first (\<lambda>e. e_type e = u ''LOG'') (active_evidence db i)"

definition presentation_contract :: "freeze_env \<Rightarrow> run_row option \<Rightarrow> json" where
  "presentation_contract fz run = (case run of None \<Rightarrow> JNull
    | Some r \<Rightarrow> (case rn_snapshot_id r of None \<Rightarrow> JNull
      | Some sid \<Rightarrow> (case fz_manifest fz sid of None \<Rightarrow> JNull
        | Some manifest \<Rightarrow>
          (let exports = por (jget manifest ''exports'') (JObj []);
               p = (if is_dict exports then jget exports ''presentation'' else JNull)
           in if is_dict p then jget p ''contract'' else JNull))))"

text \<open>The columns of a run that are copied under the prefix \<open>analysis_\<close>.\<close>

definition run_columns :: "string list" where
  "run_columns = [''skill_execution_hash'', ''skill_hash'', ''skill_version'', ''schema_hash'', ''input_contract_version'',
     ''preprocessor_version'', ''ai_policy_version'', ''ai_policy'', ''input_manifest_sha256'', ''model'', ''effort'',
     ''attempt_count'', ''used_cache'', ''cache_type'', ''input_tokens'', ''output_tokens'', ''cache_read_tokens'',
     ''cache_creation_tokens'', ''estimated_cost_usd'', ''output_sha256'', ''total_model_input_tokens'']"

definition run_facts :: "run_row option \<Rightarrow> (string \<times> json) list" where
  "run_facts run = (case run of
      None \<Rightarrow> [(''analysis_run_id'', JNull), (''analysis_log_evidence_id'', JNull), (''analysis_skill_snapshot_id'', JNull)]
        @ map (\<lambda>k. (''analysis_'' @ k, if k = ''used_cache'' then JBool False else JNull)) run_columns
    | Some r \<Rightarrow> [(''analysis_run_id'', JStr (rn_id r)), (''analysis_log_evidence_id'', jopt (rn_log_evidence_id r)),
          (''analysis_skill_snapshot_id'', jopt (rn_snapshot_id r))]
        @ map (\<lambda>k. (''analysis_'' @ k, rn_column r k)) run_columns)"

definition freeze_incident :: "freeze_env \<Rightarrow> reports_db \<Rightarrow> incident_row \<Rightarrow> freeze_error + json" where
  "freeze_incident fz db i =
    (let runs = filter (\<lambda>r. rn_incident_id r = in_id i \<and> rn_current r) (rdb_runs db) in
     if length runs > 1 then Inl (Multiple_Current_Runs (in_id i))
     else
      (let run = (case runs of [] \<Rightarrow> None | r # _ \<Rightarrow> Some r);
           result = (case run of None \<Rightarrow> JNull | Some r \<Rightarrow> rn_result r);
           log_ev = log_evidence db (in_id i)
       in case build_report_fragment (fz_doc fz) result of
            Inl e \<Rightarrow> Inl (Fragment_Error e)
          | Inr fragment \<Rightarrow> Inr (jobj ([(''id'', JStr (in_id i)), (''display_id'', in_column i ''display_id''),
              (''title'', in_column i ''title''), (''service'', in_column i ''service''),
              (''environment'', in_column i ''environment''), (''status'', in_column i ''status''),
              (''triggered_at'', JStr (fz_iso fz (in_triggered_at i))),
              (''recovered_at'', case in_recovered_at i of None \<Rightarrow> JNull | Some t \<Rightarrow> JStr (fz_iso fz t)),
              (''trigger_value'', in_column i ''trigger_value''), (''teams_url'', in_column i ''teams_url''),
              (''grafana_url'', in_column i ''grafana_url''),
              (''log_filename'', case log_ev of None \<Rightarrow> JNull | Some e \<Rightarrow> JStr (e_filename e)),
              (''log_evidence'', case log_ev of None \<Rightarrow> JNull | Some e \<Rightarrow> frozen_evidence_identity e),
              (''screenshots'', JArr (map frozen_evidence_identity (filter is_screenshot (active_evidence db (in_id i))))),
              (''analysis'', if truthy result then result else JNull),
              (''analysis_presentation_contract'', presentation_contract fz run),
              (''report_fragment'', fragment)] @ run_facts run))))"

definition shift_incidents :: "reports_db \<Rightarrow> uuid \<Rightarrow> incident_row list" where
  "shift_incidents db s = sort_key in_created_at (filter (\<lambda>i. in_shift_id i = Some s) (rdb_incidents db))"

definition build_snapshot :: "freeze_env \<Rightarrow> reports_db \<Rightarrow> shift_row \<Rightarrow> skill_info \<Rightarrow> freeze_error + json" where
  "build_snapshot fz db s sk =
    (let d = find_first (\<lambda>d. sd_id d = sf_definition_id s) (rdb_definitions db);
         name = (case d of None \<Rightarrow> JNull | Some x \<Rightarrow> JStr (sd_name x));
         zone = (case d of None \<Rightarrow> u ''UTC'' | Some x \<Rightarrow> (case truthy_opt (sd_timezone x) of None \<Rightarrow> u ''UTC'' | Some z \<Rightarrow> z))
     in sbind (smap (freeze_incident fz db) (shift_incidents db (sf_id s))) (\<lambda>rows.
          Inr (jobj [(''shift_id'', JStr (sf_id s)), (''shift_starts_at'', JStr (fz_iso fz (sf_starts_at s))),
            (''shift_ends_at'', case sf_ends_at s of None \<Rightarrow> JNull | Some t \<Rightarrow> JStr (fz_iso fz t)),
            (''shift_name'', name), (''shift_code'', name), (''shift_display_name'', name),
            (''shift_timezone'', JStr zone), (''report_skill_snapshot_id'', JStr (sk_id sk)),
            (''report_skill_execution_hash'', JStr (sk_execution_hash sk)),
            (''composition_profile'', jget (sk_manifest sk) ''composition_profile''),
            (''coverage'', por (jget (sk_manifest sk) ''coverage'') (JObj [])),
            (''incidents'', JArr rows)])))"

section \<open>Pinning the finished artifact\<close>

definition report_object_key :: "uuid \<Rightarrow> pystr" where
  "report_object_key j = u ''reports/'' @ j @ u ''/report.docx''"

definition document_object_key :: "uuid \<Rightarrow> pystr" where
  "document_object_key j = u ''reports/'' @ j @ u ''/document.json''"

definition document_screenshots_object_key :: "uuid \<Rightarrow> pystr" where
  "document_screenshots_object_key j = u ''reports/'' @ j @ u ''/document.screenshots.json''"

definition key_or :: "pystr option \<Rightarrow> pystr \<Rightarrow> pystr" where
  "key_or k dflt = (case truthy_opt k of None \<Rightarrow> dflt | Some x \<Rightarrow> x)"

text \<open>\<open>_sync_completed_report\<close>; the model and effort of a report job are always null.\<close>

definition sync_completed_report :: "object_store \<Rightarrow> report_settings \<Rightarrow> job_row option \<Rightarrow> report_row \<Rightarrow> report_row" where
  "sync_completed_report st cfg job r =
    (let c = rp_cols r; a = r_report c in
     case job of None \<Rightarrow> r
     | Some j \<Rightarrow>
        if j_status j \<noteq> COMPLETED then r
        else if truthy_opt (a_version_id a) \<noteq> None then r
        else
         (let key = key_or (a_object_key a) (report_object_key (r_job_id c)); bucket = key_or (a_bucket a) (rs_bucket cfg) in
          case so_head st bucket key of
            None \<Rightarrow> r
          | Some (version, ctype) \<Rightarrow>
            (case so_get st (Some bucket) key version of
               None \<Rightarrow> r
             | Some body \<Rightarrow> r\<lparr>rp_cols := c\<lparr>r_report := \<lparr>a_bucket = Some bucket, a_object_key = Some key,
                   a_version_id = version, a_sha256 = Some (so_sha st body), a_byte_size = Some (int (length body)),
                   a_content_type = (case truthy_opt ctype of Some x \<Rightarrow> Some x | None \<Rightarrow> so_guess st key)\<rparr>,
                 r_generated_at := j_completed_at j\<rparr>\<rparr>)))"

definition sync_row :: "object_store \<Rightarrow> report_settings \<Rightarrow> reports_db \<Rightarrow> report_row \<Rightarrow> report_row" where
  "sync_row st cfg db r = sync_completed_report st cfg (jobs (rdb_jobs db) (r_job_id (rp_cols r))) r"

definition sync_where :: "object_store \<Rightarrow> report_settings \<Rightarrow> (report_row \<Rightarrow> bool) \<Rightarrow> reports_db \<Rightarrow> reports_db" where
  "sync_where st cfg p db = db\<lparr>rdb_reports := map (\<lambda>r. if p r then sync_row st cfg db r else r) (rdb_reports db)\<rparr>"

section \<open>Generating a report\<close>

definition allocate_report_version :: "reports_db \<Rightarrow> uuid \<Rightarrow> int" where
  "allocate_report_version db s = (case sort_key uminus (map rp_version (filter (\<lambda>r. rp_shift_id r = s) (rdb_reports db))) of
      [] \<Rightarrow> 1 | v # _ \<Rightarrow> v + 1)"

definition empty_artifact :: artifact where
  "empty_artifact = \<lparr>a_bucket = None, a_object_key = None, a_version_id = None, a_sha256 = None, a_byte_size = None,
     a_content_type = None\<rparr>"

definition empty_provenance :: provenance where
  "empty_provenance = \<lparr>p_runtime_name = None, p_runtime_version = None, p_runtime_profile = None, p_provider = None,
     p_runtime_model = None, p_input_manifest_sha256 = None, p_output_sha256 = None, p_input_tokens = None,
     p_output_tokens = None, p_duration_ms = None\<rparr>"

text \<open>The fresh identifiers of one request, the version id MinIO gives the uploaded snapshot, and the time.\<close>

record generate_ids =
  gi_report :: uuid
  gi_snapshot :: uuid
  gi_job :: uuid
  gi_event :: uuid
  gi_correlation :: pystr
  gi_upload_version :: "pystr option"
  gi_now :: time

definition report_job_request :: "object_store \<Rightarrow> report_settings \<Rightarrow> generate_ids \<Rightarrow> uuid \<Rightarrow> json \<Rightarrow> skill_info \<Rightarrow> job_request" where
  "report_job_request st cfg ids s snapshot sk = \<lparr>jr_job_id = gi_job ids, jr_job_type = u ''daily_report'',
     jr_incident_id = None,
     jr_object_refs = [jobj ([(''bucket'', JStr (rs_bucket cfg)),
        (''key'', JStr (u ''snapshots/'' @ s @ u ''/'' @ gi_snapshot ids @ u ''.json'')),
        (''sha256'', JStr (so_sha st (so_dumps st snapshot)))]
       @ (case truthy_opt (gi_upload_version ids) of None \<Rightarrow> [] | Some v \<Rightarrow> [(''version_id'', JStr v)]))],
     jr_model = None, jr_effort = None, jr_skill_name = u ''daily-alert-report'', jr_skill_version = sk_version sk,
     jr_correlation_id = gi_correlation ids, jr_attempt = 1, jr_skill_hash = Some (sk_content_hash sk),
     jr_skill_execution_hash = Some (sk_execution_hash sk), jr_skill_snapshot_id = Some (sk_id sk),
     jr_protocol_version = PROTOCOL_VERSION, jr_expected_output_type = None, jr_ai_policy = Some (sk_policy sk)\<rparr>"

definition internal_error :: http_error where
  "internal_error = HTTP 500 (u ''Internal Server Error'')"

definition generate_report ::
  "(json \<Rightarrow> bool) \<Rightarrow> object_store \<Rightarrow> report_settings \<Rightarrow> freeze_env \<Rightarrow> skill_info \<Rightarrow> generate_ids \<Rightarrow> uuid \<Rightarrow> uuid
    \<Rightarrow> reports_db \<Rightarrow> (http_error + report_row) \<times> reports_db" where
  "generate_report valid st cfg fz sk ids user shift_id db =
    (case find_first (\<lambda>s. sf_id s = shift_id) (rdb_shifts db) of
       None \<Rightarrow> (Inl (HTTP 404 (u ''Shift not found'')), db)
     | Some s \<Rightarrow>
        if rs_ai_runtime cfg \<noteq> u ''hermes'' then (Inl (HTTP 503 (u ''AI_RUNTIME_UNAVAILABLE'')), db)
        else if \<not> rs_daily_enabled cfg then (Inl (HTTP 503 (u ''DAILY_REPORT_RUNTIME_UNAVAILABLE'')), db)
        else
         (let v = allocate_report_version db shift_id in
          case build_snapshot fz db s sk of
            Inl e \<Rightarrow> (Inl internal_error, db)
          | Inr snapshot \<Rightarrow>
            (case enqueue_job valid (report_job_request st cfg ids shift_id snapshot sk) (gi_event ids) (gi_now ids)
                (rdb_jobs db, rdb_events db) of
               Inl e \<Rightarrow> (Inl internal_error, db)
             | Inr (jdb, evs) \<Rightarrow>
               (let r = \<lparr>rp_id = gi_report ids, rp_shift_id = shift_id, rp_version = v, rp_model = None, rp_effort = None,
                      rp_generated_by = user, rp_cols = \<lparr>r_job_id = gi_job ids, r_report = empty_artifact,
                        r_document = empty_artifact, r_screenshots = empty_artifact, r_provenance = empty_provenance,
                        r_generated_at = None\<rparr>\<rparr>
                in (Inr r, db\<lparr>rdb_evidence := (rdb_evidence db)\<lparr>snapshots := snapshots (rdb_evidence db) @ [snapshot]\<rparr>,
                     rdb_reports := rdb_reports db @ [r], rdb_jobs := jdb, rdb_events := evs\<rparr>)))))"

section \<open>Reading reports\<close>

definition list_reports :: "object_store \<Rightarrow> report_settings \<Rightarrow> uuid \<Rightarrow> reports_db
    \<Rightarrow> (http_error + report_row list) \<times> reports_db" where
  "list_reports st cfg shift_id db = (case find_first (\<lambda>s. sf_id s = shift_id) (rdb_shifts db) of
      None \<Rightarrow> (Inl (HTTP 404 (u ''Shift not found'')), db)
    | Some s \<Rightarrow>
       (let db' = sync_where st cfg (\<lambda>r. rp_shift_id r = shift_id) db
        in (Inr (sort_key (\<lambda>r. - rp_version r) (filter (\<lambda>r. rp_shift_id r = shift_id) (rdb_reports db'))), db')))"

text \<open>The lookup that every read of one report starts with; \<open>ready\<close> is the text of its conflict.\<close>

definition report_or_404 :: "object_store \<Rightarrow> report_settings \<Rightarrow> string \<Rightarrow> uuid \<Rightarrow> reports_db
    \<Rightarrow> (http_error + report_row) \<times> reports_db" where
  "report_or_404 st cfg ready i db = (case find_first (\<lambda>r. rp_id r = i) (rdb_reports db) of
      None \<Rightarrow> (Inl (HTTP 404 (u ''Report not found'')), db)
    | Some r \<Rightarrow>
       (let r' = sync_row st cfg db r; db' = sync_where st cfg (\<lambda>x. rp_id x = i) db
        in (if truthy_opt (a_object_key (r_report (rp_cols r'))) = None then Inl (HTTP 409 (u ready)) else Inr r', db')))"

definition pinned_report :: "object_store \<Rightarrow> report_settings \<Rightarrow> uuid \<Rightarrow> reports_db \<Rightarrow> (http_error + report_row) \<times> reports_db" where
  "pinned_report st cfg i db = (case report_or_404 st cfg ''Report is not ready to download yet'' i db of
      (Inl e, db') \<Rightarrow> (Inl e, db')
    | (Inr r, db') \<Rightarrow> (if truthy_opt (a_version_id (r_report (rp_cols r))) = None
        then Inl (HTTP 409 (u ''Report artifact is not version-pinned yet'')) else Inr r, db'))"

text \<open>The arguments of the presigned URL.\<close>

definition get_report_download_url :: "object_store \<Rightarrow> report_settings \<Rightarrow> uuid \<Rightarrow> reports_db
    \<Rightarrow> (http_error + pystr option \<times> pystr option \<times> pystr option) \<times> reports_db" where
  "get_report_download_url st cfg i db = (case pinned_report st cfg i db of
      (Inl e, db') \<Rightarrow> (Inl e, db')
    | (Inr r, db') \<Rightarrow> (let a = r_report (rp_cols r) in (Inr (a_bucket a, a_object_key a, a_version_id a), db')))"

definition verified :: "object_store \<Rightarrow> pystr option \<Rightarrow> string \<Rightarrow> pystr \<Rightarrow> http_error + pystr" where
  "verified st sha msg body = (case truthy_opt sha of
      Some h \<Rightarrow> if so_sha st body \<noteq> h then Inl (HTTP 502 (u msg)) else Inr body
    | None \<Rightarrow> Inr body)"

definition download_report :: "object_store \<Rightarrow> report_settings \<Rightarrow> uuid \<Rightarrow> reports_db \<Rightarrow> (http_error + pystr) \<times> reports_db" where
  "download_report st cfg i db = (case pinned_report st cfg i db of
      (Inl e, db') \<Rightarrow> (Inl e, db')
    | (Inr r, db') \<Rightarrow>
       (let a = r_report (rp_cols r)
        in (case so_get st (a_bucket a) (key_or (a_object_key a) []) (a_version_id a) of
              None \<Rightarrow> Inl (HTTP 502 (u ''Could not fetch report from storage''))
            | Some body \<Rightarrow> verified st (a_sha256 a) ''Report artifact checksum mismatch'' body, db')))"

definition get_report_document :: "object_store \<Rightarrow> report_settings \<Rightarrow> uuid \<Rightarrow> reports_db \<Rightarrow> (http_error + pystr) \<times> reports_db" where
  "get_report_document st cfg i db = (case report_or_404 st cfg ''Report is not ready yet'' i db of
      (Inl e, db') \<Rightarrow> (Inl e, db')
    | (Inr r, db') \<Rightarrow>
       (let c = rp_cols r; d = r_document c in
        (if truthy_opt (a_version_id d) = None then Inl (HTTP 404 (u ''No structured preview is available for this report''))
         else (case so_get st (a_bucket (r_report c)) (key_or (a_object_key d) (document_object_key (r_job_id c))) (a_version_id d) of
             None \<Rightarrow> Inl (HTTP 404 (u ''No structured preview is available for this report''))
           | Some body \<Rightarrow> verified st (a_sha256 d) ''Report preview checksum mismatch'' body), db')))"

definition json_text :: "json \<Rightarrow> pystr option" where
  "json_text v = (case v of JStr s \<Rightarrow> Some s | _ \<Rightarrow> None)"

text \<open>One entry of the private list, fetched and checked; an entry without a bucket or key raises.\<close>

definition fetch_screenshot :: "object_store \<Rightarrow> json \<Rightarrow> http_error + pystr" where
  "fetch_screenshot st entry = (case (json_text (jget entry ''bucket''), json_text (jget entry ''object_key'')) of
      (Some b, Some k) \<Rightarrow> (case so_get st (Some b) k (json_text (jget entry ''version_id'')) of
          None \<Rightarrow> Inl (HTTP 502 (u ''Could not fetch screenshot from storage''))
        | Some body \<Rightarrow> verified st (json_text (jget entry ''sha256'')) ''Screenshot integrity check failed'' body)
    | _ \<Rightarrow> Inl internal_error)"

definition get_report_document_screenshot ::
  "object_store \<Rightarrow> report_settings \<Rightarrow> uuid \<Rightarrow> int \<Rightarrow> reports_db \<Rightarrow> (http_error + pystr) \<times> reports_db" where
  "get_report_document_screenshot st cfg i index db = (case report_or_404 st cfg ''Report is not ready yet'' i db of
      (Inl e, db') \<Rightarrow> (Inl e, db')
    | (Inr r, db') \<Rightarrow>
       (let c = rp_cols r; d = r_screenshots c in
        (if truthy_opt (a_version_id d) = None then Inl (HTTP 404 (u ''No structured preview is available for this report''))
         else (case so_get st (a_bucket (r_report c)) (key_or (a_object_key d) (document_screenshots_object_key (r_job_id c)))
               (a_version_id d) of
             None \<Rightarrow> Inl (HTTP 404 (u ''No structured preview is available for this report''))
           | Some raw \<Rightarrow> (case so_loads st raw of
               Some (JArr entries) \<Rightarrow> sbind (verified st (a_sha256 d) ''Report screenshot index checksum mismatch'' raw) (\<lambda>_.
                 if index < 0 \<or> index \<ge> int (length entries) then Inl (HTTP 404 (u ''No such screenshot''))
                 else fetch_screenshot st (entries ! nat index))
             | _ \<Rightarrow> Inl internal_error)), db')))"

end
