(* ===== verification/Report_Versions.thy ===== *)
theory Report_Versions
  imports Reports_Api Lease_Protocol
begin

text \<open>
  Reports over time: the API requests of \<^verbatim>\<open>routers/reports.py\<close> interleaved with the worker's
  transactions of \<^verbatim>\<open>db.py\<close> on the same \<open>jobs\<close> and \<open>reports\<close> tables. Versions count up, a pinned
  artifact stays what it is, and what a snapshot froze cannot be deleted.
\<close>

section \<open>Steps\<close>

text \<open>A worker transaction sees the jobs and the worker's columns of the reports.\<close>

definition on_worker_tables :: "(job_db \<Rightarrow> job_db) \<Rightarrow> reports_db \<Rightarrow> reports_db" where
  "on_worker_tables f db = (let s = f ((rdb_jobs db)\<lparr>reports := map rp_cols (rdb_reports db)\<rparr>)
     in db\<lparr>rdb_jobs := s, rdb_reports := map2 (\<lambda>r c. r\<lparr>rp_cols := c\<rparr>) (rdb_reports db) (reports s)\<rparr>)"

definition pinned :: "report_row \<Rightarrow> bool" where
  "pinned r \<longleftrightarrow> truthy_opt (a_version_id (r_report (rp_cols r))) \<noteq> None"

definition job_completed :: "uuid \<Rightarrow> reports_db \<Rightarrow> bool" where
  "job_completed j db \<longleftrightarrow> (\<exists>r. jobs (rdb_jobs db) j = Some r \<and> j_status r = COMPLETED)"

text \<open>Object store, settings and clock are free in every step, so storage may change arbitrarily in
  between. \<open>Retry\<close> is \<open>mark_retrying\<close>, which has no guard of its own: it is taken for a job that is not
  completed, which is what its callers intend.\<close>

inductive report_step :: "reports_db \<Rightarrow> reports_db \<Rightarrow> bool" where
  Generate: "jobs (rdb_jobs db) (gi_job ids) = None
    \<Longrightarrow> report_step db (snd (generate_report valid st cfg fz sk ids user shift_id db))"
| List_Reports: "report_step db (snd (list_reports st cfg shift_id db))"
| Download_Url: "report_step db (snd (get_report_download_url st cfg i db))"
| Download: "report_step db (snd (download_report st cfg i db))"
| Document: "report_step db (snd (get_report_document st cfg i db))"
| Image: "report_step db (snd (get_report_document_screenshot st cfg i index db))"
| Claim: "report_step db (on_worker_tables (\<lambda>s. snd (claim_job j w L tok now s)) db)"
| Start: "report_step db (on_worker_tables (\<lambda>s. snd (mark_started j (Some tok) now s)) db)"
| Renew: "report_step db (on_worker_tables (\<lambda>s. snd (renew_job_lease j tok L now s)) db)"
| Complete: "report_step db (on_worker_tables (\<lambda>s. snd (mark_completed j am (Some tok) now s)) db)"
| Fail: "report_step db (on_worker_tables (\<lambda>s. snd (mark_failed j code msg (Some tok) now s)) db)"
| Retry: "\<not> job_completed j db \<Longrightarrow> report_step db (on_worker_tables (\<lambda>s. snd (mark_retrying j code msg s)) db)"
| Bump: "report_step db (on_worker_tables (bump_attempt j n) db)"

section \<open>What a step keeps\<close>

definition kept :: "report_row \<Rightarrow> report_row \<Rightarrow> bool" where
  "kept r r' \<longleftrightarrow> rp_id r' = rp_id r \<and> rp_shift_id r' = rp_shift_id r \<and> rp_version r' = rp_version r
     \<and> (pinned r \<longrightarrow> r_report (rp_cols r') = r_report (rp_cols r))"

text \<open>Claims are released when a job is completed, and only a completed job's report is pinned.\<close>

definition reports_ok :: "reports_db \<Rightarrow> bool" where
  "reports_ok db \<longleftrightarrow> (\<forall>j r. jobs (rdb_jobs db) j = Some r \<longrightarrow> j_claim_token r \<noteq> None \<longrightarrow> j_status r = PROCESSING)
     \<and> (\<forall>r\<in>set (rdb_reports db). pinned r \<longrightarrow> job_completed (r_job_id (rp_cols r)) db)"

definition retains :: "report_row list \<Rightarrow> report_row list \<Rightarrow> bool" where
  "retains rs rs' \<longleftrightarrow> list_all2 kept rs (take (length rs) rs')"

lemma kept_refl [simp]: "kept r r"
  by (simp add: kept_def)

lemma kept_trans: "kept r s \<Longrightarrow> kept s t \<Longrightarrow> kept r t"
  by (auto simp: kept_def pinned_def)

lemma retains_refl [simp]: "retains rs rs"
  by (simp add: retains_def list_all2_refl)

lemma retains_append [simp]: "retains rs (rs @ xs)"
  by (simp add: retains_def list_all2_refl)

lemma retains_trans:
  assumes "retains rs ss" "retains ss ts"
  shows "retains rs ts"
proof -
  have l: "length rs \<le> length ss" using list_all2_lengthD [OF assms(1) [unfolded retains_def]] by simp
  have "list_all2 kept (take (length rs) ss) (take (length rs) (take (length ss) ts))"
    by (rule list_all2_takeI [OF assms(2) [unfolded retains_def]])
  then have "list_all2 kept (take (length rs) ss) (take (length rs) ts)" using l by (simp add: min_absorb1)
  with assms(1) show ?thesis unfolding retains_def
    using list_all2_trans [of kept kept kept] kept_trans by metis
qed

lemma retains_map: "(\<And>r. r \<in> set rs \<Longrightarrow> kept r (f r)) \<Longrightarrow> retains rs (map f rs)"
  unfolding retains_def by (simp add: list_all2_conv_all_nth)

lemma find_first_list_all2:
  "list_all2 R xs ys \<Longrightarrow> (\<And>x y. R x y \<Longrightarrow> P x = P y) \<Longrightarrow> find_first P xs = Some x
    \<Longrightarrow> \<exists>y. find_first P (ys @ zs) = Some y \<and> R x y"
  by (induction rule: list_all2_induct) (auto split: if_splits)

lemma retains_find:
  assumes "retains rs rs'" "find_first (\<lambda>r. rp_id r = i) rs = Some r"
  shows "\<exists>r'. find_first (\<lambda>r. rp_id r = i) rs' = Some r' \<and> kept r r'"
proof -
  have "\<exists>r'. find_first (\<lambda>r. rp_id r = i) (take (length rs) rs' @ drop (length rs) rs') = Some r' \<and> kept r r'"
    by (rule find_first_list_all2 [OF assms(1) [unfolded retains_def] _ assms(2)]) (simp add: kept_def)
  then show ?thesis by simp
qed

section \<open>Worker transactions\<close>

text \<open>A transaction respects completed jobs when it rewrites the report columns row by row, leaves the
  report artifact of a completed job alone and keeps completed jobs completed.\<close>

definition job_safe :: "(job_db \<Rightarrow> job_db) \<Rightarrow> job_db \<Rightarrow> bool" where
  "job_safe f s \<longleftrightarrow> (\<exists>g. reports (f s) = map g (reports s) \<and> (\<forall>c. r_job_id (g c) = r_job_id c
       \<and> (r_report (g c) \<noteq> r_report c \<longrightarrow> (\<exists>r. jobs (f s) (r_job_id c) = Some r \<and> j_status r = COMPLETED)
            \<and> (\<forall>r. jobs s (r_job_id c) = Some r \<longrightarrow> j_status r \<noteq> COMPLETED))))
     \<and> (\<forall>j r. jobs s j = Some r \<longrightarrow> j_status r = COMPLETED \<longrightarrow> (\<exists>r'. jobs (f s) j = Some r' \<and> j_status r' = COMPLETED))
     \<and> (\<forall>j r. jobs (f s) j = Some r \<longrightarrow> j_claim_token r \<noteq> None \<longrightarrow> j_status r = PROCESSING)"

definition released :: "job_db \<Rightarrow> bool" where
  "released s \<longleftrightarrow> (\<forall>j r. jobs s j = Some r \<longrightarrow> j_claim_token r \<noteq> None \<longrightarrow> j_status r = PROCESSING)"

lemma job_safe_update_job:
  assumes "released s"
    and "\<And>r. jobs s j = Some r \<Longrightarrow> cond r \<Longrightarrow>
      (j_status r = COMPLETED \<longrightarrow> j_status (h r) = COMPLETED) \<and> (j_claim_token (h r) \<noteq> None \<longrightarrow> j_status (h r) = PROCESSING)"
  shows "job_safe (\<lambda>s. snd (update_job j cond h s)) s"
proof -
  have "reports (snd (update_job j cond h s)) = map (\<lambda>c. c) (reports s)"
    by (simp add: update_job_def split: option.split)
  then show ?thesis unfolding job_safe_def using assms
    by (intro conjI exI [of _ "\<lambda>c. c"]) (auto simp: update_job_def released_def split: option.splits if_splits)
qed

lemma snd_claim_job: "snd (claim_job j w L tok now s) = snd (update_job j (claimable now)
    (\<lambda>r. r\<lparr>j_status := PROCESSING, j_started_at := Some now, j_claimed_at := Some now, j_claim_token := Some tok,
       j_lease_expires_at := Some (now + interval_seconds L), j_worker_id := Some w\<rparr>) s)"
  by (auto simp: claim_job_def Let_def split: prod.split option.split)

lemma reports_store_artifacts:
  "\<exists>g. reports (store_artifacts j now am s) = map g (reports s) \<and> (\<forall>c. r_job_id (g c) = r_job_id c \<and> (r_job_id c \<noteq> j \<longrightarrow> g c = c))"
proof -
  have m: "\<exists>g. reports (update_reports j f x) = map g (reports s) \<and> (\<forall>c. r_job_id (g c) = r_job_id c \<and> (r_job_id c \<noteq> j \<longrightarrow> g c = c))"
    if "\<exists>g. reports x = map g (reports s) \<and> (\<forall>c. r_job_id (g c) = r_job_id c \<and> (r_job_id c \<noteq> j \<longrightarrow> g c = c))"
      "\<And>c. r_job_id (f c) = r_job_id c" for f x
  proof -
    from that(1) obtain g where g: "reports x = map g (reports s)"
      "\<And>c. r_job_id (g c) = r_job_id c" "\<And>c. r_job_id c \<noteq> j \<Longrightarrow> g c = c" by blast
    show ?thesis
      by (rule exI [of _ "\<lambda>c. if r_job_id (g c) = j then f (g c) else g c"]) (simp add: update_reports_def g that(2))
  qed
  have i: "\<exists>g. reports s = map g (reports s) \<and> (\<forall>c. r_job_id (g c) = r_job_id c \<and> (r_job_id c \<noteq> j \<longrightarrow> g c = c))"
    by (rule exI [of _ "\<lambda>c. c"]) simp
  show ?thesis
    unfolding store_artifacts_def Let_def by (auto intro!: m i split: option.split)
qed

lemma job_safe_mark_completed:
  assumes "released s"
  shows "job_safe (\<lambda>s. snd (mark_completed j am (Some tok) now s)) s"
proof (cases "jobs s j")
  case None
  then have "snd (mark_completed j am (Some tok) now s) = s" by (simp add: mark_completed_def update_job_def)
  then show ?thesis using assms unfolding job_safe_def released_def by (auto intro!: exI [of _ "\<lambda>c. c"])
next
  case (Some r)
  show ?thesis
  proof (cases "j_claim_token r = Some tok")
    case False
    then have "snd (mark_completed j am (Some tok) now s) = s"
      using Some by (simp add: mark_completed_def update_job_def row_matches_def)
    then show ?thesis using assms unfolding job_safe_def released_def by (auto intro!: exI [of _ "\<lambda>c. c"])
  next
    case True
    define r' where "r' = release_lease (r\<lparr>j_status := COMPLETED, j_completed_at := Some now,
        j_error_code := None, j_error_message := None\<rparr>)"
    define s1 where "s1 = s\<lparr>jobs := (jobs s)(j \<mapsto> r')\<rparr>"
    have d: "snd (mark_completed j am (Some tok) now s) = (case am of None \<Rightarrow> s1 | Some a \<Rightarrow> store_artifacts j now a s1)"
      using Some True by (simp add: mark_completed_def update_job_def row_matches_def s1_def r'_def split: option.split)
    have r': "j_status r' = COMPLETED" "j_claim_token r' = None" by (simp_all add: r'_def release_lease_def)
    have p: "j_status r = PROCESSING" using assms Some True by (auto simp: released_def)
    have j: "jobs (snd (mark_completed j am (Some tok) now s)) = (jobs s)(j \<mapsto> r')"
      by (simp add: d s1_def split: option.split)
    obtain g where g: "reports (snd (mark_completed j am (Some tok) now s)) = map g (reports s)"
      "\<And>c. r_job_id (g c) = r_job_id c" "\<And>c. r_job_id c \<noteq> j \<Longrightarrow> g c = c"
    proof (cases am)
      case None
      then have "reports (snd (mark_completed j am (Some tok) now s)) = map (\<lambda>c. c) (reports s)"
        using d by (simp add: s1_def)
      then show ?thesis by (rule that) simp_all
    next
      case (Some a)
      obtain g where "reports (store_artifacts j now a s1) = map g (reports s1)"
          "\<forall>c. r_job_id (g c) = r_job_id c \<and> (r_job_id c \<noteq> j \<longrightarrow> g c = c)"
        using reports_store_artifacts by blast
      then have "reports (snd (mark_completed j am (Some tok) now s)) = map g (reports s)"
          "\<forall>c. r_job_id (g c) = r_job_id c \<and> (r_job_id c \<noteq> j \<longrightarrow> g c = c)"
        using d Some by (simp_all add: s1_def)
      then show ?thesis using that by blast
    qed
    show ?thesis unfolding job_safe_def j using assms r' p Some g
      by (intro conjI exI [of _ g]) (auto simp: released_def)
  qed
qed

lemma job_safe_worker:
  assumes "released s"
  shows "job_safe (\<lambda>s. snd (claim_job j w L tok now s)) s"
    "job_safe (\<lambda>s. snd (mark_started j (Some tok) now s)) s"
    "job_safe (\<lambda>s. snd (renew_job_lease j tok L now s)) s"
    "job_safe (\<lambda>s. snd (mark_failed j code msg (Some tok) now s)) s"
    "(\<And>r. jobs s j = Some r \<Longrightarrow> j_status r \<noteq> COMPLETED) \<Longrightarrow> job_safe (\<lambda>s. snd (mark_retrying j code msg s)) s"
    "job_safe (bump_attempt j n) s"
proof -
  note r = job_safe_update_job [OF assms]
  have t: "\<And>r. jobs s j = Some r \<Longrightarrow> j_claim_token r \<noteq> None \<Longrightarrow> j_status r = PROCESSING"
    using assms by (auto simp: released_def)
  show "job_safe (\<lambda>s. snd (claim_job j w L tok now s)) s"
    unfolding snd_claim_job by (rule r) (auto simp: claimable_def)
  show "job_safe (\<lambda>s. snd (mark_started j (Some tok) now s)) s"
    unfolding mark_started_def by (rule r) (auto simp: row_matches_def dest: t)
  show "job_safe (\<lambda>s. snd (renew_job_lease j tok L now s)) s"
    unfolding renew_job_lease_def by (rule r) auto
  show "job_safe (\<lambda>s. snd (mark_failed j code msg (Some tok) now s)) s"
    unfolding mark_failed_def by (rule r) (auto simp: row_matches_def release_lease_def dest: t)
  show "job_safe (\<lambda>s. snd (mark_retrying j code msg s)) s" if "\<And>r. jobs s j = Some r \<Longrightarrow> j_status r \<noteq> COMPLETED"
    unfolding mark_retrying_def by (rule r) (auto simp: release_lease_def dest: that)
  have "bump_attempt j n = (\<lambda>s. snd (update_job j (\<lambda>r. True) (\<lambda>r. r\<lparr>j_attempt := n\<rparr>) s))"
    by (rule ext) (simp add: bump_attempt_def)
  moreover have "job_safe (\<lambda>s. snd (update_job j (\<lambda>r. True) (\<lambda>r. r\<lparr>j_attempt := n\<rparr>) s)) s"
    by (rule r) (auto dest: t)
  ultimately show "job_safe (bump_attempt j n) s" by metis
qed

section \<open>Every step is safe\<close>

lemma released_reports_ok: "reports_ok db \<Longrightarrow> released ((rdb_jobs db)\<lparr>reports := x\<rparr>)"
  by (auto simp: reports_ok_def released_def)

lemma worker_step_ok:
  assumes "reports_ok db" "job_safe f ((rdb_jobs db)\<lparr>reports := map rp_cols (rdb_reports db)\<rparr>)"
  shows "reports_ok (on_worker_tables f db)
    \<and> list_all2 kept (rdb_reports db) (rdb_reports (on_worker_tables f db))"
proof -
  let ?s = "(rdb_jobs db)\<lparr>reports := map rp_cols (rdb_reports db)\<rparr>"
  obtain g where g0: "reports (f ?s) = map g (reports ?s)" "\<forall>c. r_job_id (g c) = r_job_id c
       \<and> (r_report (g c) \<noteq> r_report c \<longrightarrow> (\<exists>r. jobs (f ?s) (r_job_id c) = Some r \<and> j_status r = COMPLETED)
            \<and> (\<forall>r. jobs ?s (r_job_id c) = Some r \<longrightarrow> j_status r \<noteq> COMPLETED))"
    using assms(2) unfolding job_safe_def by blast
  then have g: "reports (f ?s) = map g (map rp_cols (rdb_reports db))"
      "\<And>c. r_job_id (g c) = r_job_id c"
      "\<And>c. r_report (g c) \<noteq> r_report c \<Longrightarrow> (\<exists>r. jobs (f ?s) (r_job_id c) = Some r \<and> j_status r = COMPLETED)
            \<and> (\<forall>r. jobs (rdb_jobs db) (r_job_id c) = Some r \<longrightarrow> j_status r \<noteq> COMPLETED)"
    by simp_all
  have keep: "jobs (rdb_jobs db) j = Some r \<Longrightarrow> j_status r = COMPLETED
      \<Longrightarrow> \<exists>r'. jobs (f ?s) j = Some r' \<and> j_status r' = COMPLETED" for j r
    using assms(2) unfolding job_safe_def by simp
  have rel: "jobs (f ?s) j = Some r \<Longrightarrow> j_claim_token r \<noteq> None \<Longrightarrow> j_status r = PROCESSING" for j r
    using assms(2) unfolding job_safe_def by blast
  have m: "map2 (\<lambda>r c. r\<lparr>rp_cols := c\<rparr>) rs (map g (map rp_cols rs)) = map (\<lambda>r. r\<lparr>rp_cols := g (rp_cols r)\<rparr>) rs" for rs
    by (induction rs) auto
  have reps: "rdb_reports (on_worker_tables f db) = map (\<lambda>r. r\<lparr>rp_cols := g (rp_cols r)\<rparr>) (rdb_reports db)"
    and js: "rdb_jobs (on_worker_tables f db) = f ?s"
    by (simp_all only: on_worker_tables_def Let_def g m) simp_all
  have pin: "job_completed (r_job_id (rp_cols r)) db"
    if "r \<in> set (rdb_reports db)" "pinned r" for r
    using assms(1) that by (auto simp: reports_ok_def)
  have kp: "kept r (r\<lparr>rp_cols := g (rp_cols r)\<rparr>)" if "r \<in> set (rdb_reports db)" for r
    using pin [OF that] g(3) [of "rp_cols r"] by (auto simp: kept_def job_completed_def)
  have "job_completed (r_job_id (rp_cols r)) (on_worker_tables f db)"
    if r: "r \<in> set (rdb_reports db)" "pinned (r\<lparr>rp_cols := g (rp_cols r)\<rparr>)" for r
  proof (cases "r_report (g (rp_cols r)) = r_report (rp_cols r)")
    case True
    then have "pinned r" using r(2) by (simp add: pinned_def)
    then show ?thesis using pin [OF r(1)] keep unfolding job_completed_def js by blast
  next
    case False
    then show ?thesis using g(3) unfolding job_completed_def js by blast
  qed
  then have "reports_ok (on_worker_tables f db)"
    unfolding reports_ok_def js reps using rel g(2) by auto
  then show ?thesis unfolding reps using kp by (simp add: list_all2_conv_all_nth)
qed

lemma sync_row_eq: "sync_row st cfg db r = r \<or> job_completed (r_job_id (rp_cols r)) db \<and> \<not> pinned r
    \<and> (\<exists>a t. sync_row st cfg db r = r\<lparr>rp_cols := (rp_cols r)\<lparr>r_report := a, r_generated_at := t\<rparr>\<rparr>)"
  unfolding sync_row_def sync_completed_report_def Let_def job_completed_def pinned_def
  by (auto split: option.split)

lemma sync_row_cases:
  obtains "sync_row st cfg db r = r"
  | a t where "job_completed (r_job_id (rp_cols r)) db" "\<not> pinned r"
      "sync_row st cfg db r = r\<lparr>rp_cols := (rp_cols r)\<lparr>r_report := a, r_generated_at := t\<rparr>\<rparr>"
  using sync_row_eq [of st cfg db r] by blast

lemma sync_row_kept: "kept r (sync_row st cfg db r)"
  by (rule sync_row_cases [of st cfg db r]) (auto simp: kept_def)

lemma sync_row_job [simp]: "r_job_id (rp_cols (sync_row st cfg db r)) = r_job_id (rp_cols r)"
  by (rule sync_row_cases [of st cfg db r]) auto

lemma sync_step_ok:
  assumes "reports_ok db"
  shows "reports_ok (sync_where st cfg p db) \<and> list_all2 kept (rdb_reports db) (rdb_reports (sync_where st cfg p db))"
proof -
  have s: "job_completed (r_job_id (rp_cols r)) db" if "r \<in> set (rdb_reports db)" "pinned (sync_row st cfg db r)" for r
    using that assms by (cases rule: sync_row_cases [of st cfg db r]) (auto simp: reports_ok_def)
  have "reports_ok (sync_where st cfg p db)"
    using assms s unfolding reports_ok_def sync_where_def by (auto simp: job_completed_def)
  then show ?thesis using sync_row_kept by (simp add: sync_where_def list_all2_conv_all_nth)
qed

lemma snd_reads:
  "snd (report_or_404 st cfg m i db) = db \<or> snd (report_or_404 st cfg m i db) = sync_where st cfg (\<lambda>x. rp_id x = i) db"
  by (auto simp: report_or_404_def Let_def split: option.split)

lemma snd_pinned [simp]: "snd (pinned_report st cfg i db) = snd (report_or_404 st cfg ''Report is not ready to download yet'' i db)"
  by (auto simp: pinned_report_def split: prod.split sum.split)

lemma snd_handlers [simp]:
  "snd (get_report_download_url st cfg i db) = snd (pinned_report st cfg i db)"
  "snd (download_report st cfg i db) = snd (pinned_report st cfg i db)"
  "snd (get_report_document st cfg i db) = snd (report_or_404 st cfg ''Report is not ready yet'' i db)"
  "snd (get_report_document_screenshot st cfg i index db) = snd (report_or_404 st cfg ''Report is not ready yet'' i db)"
  by (auto simp: get_report_download_url_def download_report_def get_report_document_def Let_def
        get_report_document_screenshot_def simp del: snd_pinned split: prod.split sum.split)

lemma enqueue_job_jobs:
  "enqueue_job valid req i now (s, evs) = Inr (s', evs') \<Longrightarrow> s' = s\<lparr>jobs := (jobs s)(jr_job_id req \<mapsto> fresh_job_row)\<rparr>"
  by (auto simp: enqueue_job_def Let_def split: option.splits sum.splits if_splits)

lemma job_id_request [simp]: "jr_job_id (report_job_request st cfg ids s snapshot sk) = gi_job ids"
  by (simp add: report_job_request_def)

definition new_report :: "generate_ids \<Rightarrow> uuid \<Rightarrow> uuid \<Rightarrow> int \<Rightarrow> report_row" where
  "new_report ids user s v = \<lparr>rp_id = gi_report ids, rp_shift_id = s, rp_version = v, rp_model = None, rp_effort = None,
     rp_generated_by = user, rp_cols = \<lparr>r_job_id = gi_job ids, r_report = empty_artifact, r_document = empty_artifact,
       r_screenshots = empty_artifact, r_provenance = empty_provenance, r_generated_at = None\<rparr>\<rparr>"

lemma new_report_simps [simp]:
  "rp_id (new_report ids user s v) = gi_report ids" "rp_shift_id (new_report ids user s v) = s"
  "rp_version (new_report ids user s v) = v" "r_job_id (rp_cols (new_report ids user s v)) = gi_job ids"
  "\<not> pinned (new_report ids user s v)"
  by (simp_all add: new_report_def pinned_def empty_artifact_def truthy_opt_def)

lemma generate_report_Inl: "generate_report valid st cfg fz sk ids user i db = (Inl e, db') \<Longrightarrow> db' = db"
  unfolding generate_report_def Let_def
  by (simp split: option.split_asm if_split_asm sum.split_asm prod.split_asm)

lemma generate_report_Inr:
  assumes "generate_report valid st cfg fz sk ids user i db = (Inr r, db')"
  obtains s snapshot evs where "find_first (\<lambda>s. sf_id s = i) (rdb_shifts db) = Some s"
    "build_snapshot fz db s sk = Inr snapshot" "r = new_report ids user i (allocate_report_version db i)"
    "db' = db\<lparr>rdb_evidence := (rdb_evidence db)\<lparr>snapshots := snapshots (rdb_evidence db) @ [snapshot]\<rparr>,
       rdb_reports := rdb_reports db @ [r],
       rdb_jobs := (rdb_jobs db)\<lparr>jobs := (jobs (rdb_jobs db))(gi_job ids \<mapsto> fresh_job_row)\<rparr>, rdb_events := evs\<rparr>"
proof (cases "find_first (\<lambda>s. sf_id s = i) (rdb_shifts db)")
  case None
  then show ?thesis using assms by (simp add: generate_report_def)
next
  case (Some s)
  note s = this
  show ?thesis
  proof (cases "build_snapshot fz db s sk")
    case (Inl e)
    then show ?thesis using assms s by (simp add: generate_report_def split: if_splits)
  next
    case (Inr snapshot)
    let ?q = "report_job_request st cfg ids i snapshot sk"
    show ?thesis
    proof (cases "enqueue_job valid ?q (gi_event ids) (gi_now ids) (rdb_jobs db, rdb_events db)")
      case (Inl e)
      then show ?thesis using assms s Inr by (simp add: generate_report_def split: if_splits)
    next
      case (Inr p)
      obtain jdb evs where p: "p = (jdb, evs)" by (cases p)
      note q = enqueue_job_jobs [OF Inr [unfolded p]]
      have "r = new_report ids user i (allocate_report_version db i)"
        "db' = db\<lparr>rdb_evidence := (rdb_evidence db)\<lparr>snapshots := snapshots (rdb_evidence db) @ [snapshot]\<rparr>,
          rdb_reports := rdb_reports db @ [r], rdb_jobs := jdb, rdb_events := evs\<rparr>"
        using assms s \<open>build_snapshot fz db s sk = Inr snapshot\<close> Inr
        by (auto simp: generate_report_def p new_report_def Let_def split: if_splits)
      with that s \<open>build_snapshot fz db s sk = Inr snapshot\<close> q show ?thesis by simp
    qed
  qed
qed

definition generated :: "reports_db \<Rightarrow> generate_ids \<Rightarrow> uuid \<Rightarrow> uuid \<Rightarrow> json \<Rightarrow> outbox_event list \<Rightarrow> reports_db" where
  "generated db ids user s snapshot evs =
     db\<lparr>rdb_evidence := (rdb_evidence db)\<lparr>snapshots := snapshots (rdb_evidence db) @ [snapshot]\<rparr>,
       rdb_reports := rdb_reports db @ [new_report ids user s (allocate_report_version db s)],
       rdb_jobs := (rdb_jobs db)\<lparr>jobs := (jobs (rdb_jobs db))(gi_job ids \<mapsto> fresh_job_row)\<rparr>, rdb_events := evs\<rparr>"

lemma snd_generate_report:
  "snd (generate_report valid st cfg fz sk ids user s db) = db
   \<or> (\<exists>snapshot evs. snd (generate_report valid st cfg fz sk ids user s db) = generated db ids user s snapshot evs)"
proof (cases "generate_report valid st cfg fz sk ids user s db")
  case (Pair res x)
  show ?thesis
  proof (cases res)
    case (Inl e)
    then show ?thesis using generate_report_Inl [OF Pair [unfolded Inl]] Pair by simp
  next
    case (Inr r)
    show ?thesis
      by (rule generate_report_Inr [OF Pair [unfolded Inr]]) (auto simp: Pair generated_def)
  qed
qed

lemma report_step_shape:
  assumes "report_step db db'" "reports_ok db"
  shows "db' = db \<or> (\<exists>st cfg p. db' = sync_where st cfg p db)
    \<or> (\<exists>f. db' = on_worker_tables f db \<and> job_safe f ((rdb_jobs db)\<lparr>reports := map rp_cols (rdb_reports db)\<rparr>))
    \<or> (\<exists>ids user s snapshot evs. jobs (rdb_jobs db) (gi_job ids) = None \<and> db' = generated db ids user s snapshot evs)"
proof -
  note rel = released_reports_ok [OF assms(2), of "map rp_cols (rdb_reports db)"]
  note safe = job_safe_worker [OF rel] job_safe_mark_completed [OF rel]
  have lst: "snd (list_reports st cfg s db) = db \<or> (\<exists>st' cfg' p. snd (list_reports st cfg s db) = sync_where st' cfg' p db)"
    for st cfg s by (simp add: list_reports_def Let_def split: option.split) blast
  have rd: "snd (report_or_404 st cfg m i db) = db \<or> (\<exists>st' cfg' p. snd (report_or_404 st cfg m i db) = sync_where st' cfg' p db)"
    for st cfg m i using snd_reads by blast
  from assms(1) show ?thesis
  proof (cases rule: report_step.cases)
    case (Generate ids valid st cfg fz sk user s)
    then show ?thesis using snd_generate_report [of valid st cfg fz sk ids user s db] by metis
  next
    case (Retry j code msg)
    then have "\<And>r. jobs ((rdb_jobs db)\<lparr>reports := map rp_cols (rdb_reports db)\<rparr>) j = Some r \<Longrightarrow> j_status r \<noteq> COMPLETED"
      by (auto simp: job_completed_def)
    from safe(5) [OF this] Retry(1) show ?thesis by blast
  next
    case (List_Reports st cfg s)
    then show ?thesis using lst [of st cfg s] by auto
  next
    case (Download_Url st cfg i)
    then show ?thesis using rd [of st cfg "''Report is not ready to download yet''" i] by auto
  next
    case (Download st cfg i)
    then show ?thesis using rd [of st cfg "''Report is not ready to download yet''" i] by auto
  next
    case (Document st cfg i)
    then show ?thesis using rd [of st cfg "''Report is not ready yet''" i] by auto
  next
    case (Image st cfg i index)
    then show ?thesis using rd [of st cfg "''Report is not ready yet''" i] by auto
  next
    case (Claim j w L tok now)
    then show ?thesis using safe(1) by blast
  next
    case (Start j tok now)
    then show ?thesis using safe(2) by blast
  next
    case (Renew j tok L now)
    then show ?thesis using safe(3) by blast
  next
    case (Complete j am tok now)
    then show ?thesis using safe(7) by blast
  next
    case (Fail j code msg tok now)
    then show ?thesis using safe(4) by blast
  next
    case (Bump j n)
    then show ?thesis using safe(6) by blast
  qed
qed

lemma report_step_ok:
  assumes "report_step db db'" "reports_ok db"
  shows "reports_ok db'"
    and "list_all2 kept (rdb_reports db) (rdb_reports db')
      \<or> (\<exists>r. rdb_reports db' = rdb_reports db @ [r] \<and> rp_version r = allocate_report_version db (rp_shift_id r))"
proof -
  consider "db' = db" | st cfg p where "db' = sync_where st cfg p db"
    | f where "db' = on_worker_tables f db" "job_safe f ((rdb_jobs db)\<lparr>reports := map rp_cols (rdb_reports db)\<rparr>)"
    | ids user s snapshot evs where "jobs (rdb_jobs db) (gi_job ids) = None" "db' = generated db ids user s snapshot evs"
    using report_step_shape [OF assms] by blast
  then have "reports_ok db' \<and> (list_all2 kept (rdb_reports db) (rdb_reports db')
      \<or> (\<exists>r. rdb_reports db' = rdb_reports db @ [r] \<and> rp_version r = allocate_report_version db (rp_shift_id r)))"
  proof cases
    case 1
    then show ?thesis using assms(2) by (simp add: list_all2_refl)
  next
    case 2
    then show ?thesis using sync_step_ok [OF assms(2)] by simp
  next
    case 3
    then show ?thesis using worker_step_ok [OF assms(2)] by simp
  next
    case (4 ids user s snapshot evs)
    then have "reports_ok db'" using assms(2)
      by (auto simp: generated_def reports_ok_def job_completed_def fresh_job_row_def)
    then show ?thesis using 4(2) by (simp add: generated_def)
  qed
  then show "reports_ok db'"
    and "list_all2 kept (rdb_reports db) (rdb_reports db')
      \<or> (\<exists>r. rdb_reports db' = rdb_reports db @ [r] \<and> rp_version r = allocate_report_version db (rp_shift_id r))"
    by blast+
qed

lemma report_steps_ok: "report_step\<^sup>*\<^sup>* db db' \<Longrightarrow> reports_ok db \<Longrightarrow> reports_ok db' \<and> retains (rdb_reports db) (rdb_reports db')"
proof (induction rule: rtranclp_induct)
  case (step x y)
  then have "retains (rdb_reports x) (rdb_reports y)"
    using report_step_ok(2) [of x y] list_all2_lengthD unfolding retains_def
    by (metis order.refl retains_append retains_def take_all)
  then show ?case using step report_step_ok(1) retains_trans by blast
qed simp

section \<open>Versions\<close>

definition versions_of :: "reports_db \<Rightarrow> uuid \<Rightarrow> int list" where
  "versions_of db s = map rp_version (filter (\<lambda>r. rp_shift_id r = s) (rdb_reports db))"

definition versions_ok :: "reports_db \<Rightarrow> bool" where
  "versions_ok db \<longleftrightarrow> (\<forall>s. versions_of db s = map int [1..<Suc (length (versions_of db s))])"

lemma insort_key_last: "\<forall>y\<in>set ys. f y < f x \<Longrightarrow> insort_key f x ys = ys @ [x]"
  for f :: "'a \<Rightarrow> int"
  by (induction ys) (auto simp: not_le)

lemma sort_key_descending: "sorted_wrt (\<lambda>a b. f b < f a) xs \<Longrightarrow> sort_key f xs = rev xs"
  for f :: "'a \<Rightarrow> int"
  by (induction xs) (auto intro: insort_key_last)

lemma sorted_versions: "versions_of db s = map int [1..<Suc n] \<Longrightarrow>
    sorted_wrt (\<lambda>a b. - rp_version b < - rp_version a) (filter (\<lambda>r. rp_shift_id r = s) (rdb_reports db))"
  using sorted_wrt_upt [of 1 "Suc n"] unfolding versions_of_def
  by (metis (mono_tags, lifting) minus_less_iff minus_minus of_nat_less_iff sorted_wrt_map sorted_wrt_mono_rel)

lemma allocate_next:
  assumes "versions_ok db"
  shows "allocate_report_version db s = int (length (versions_of db s)) + 1"
proof -
  let ?n = "length (versions_of db s)"
  have v: "versions_of db s = map int [1..<Suc ?n]" using assms unfolding versions_ok_def by blast
  have "sorted_wrt (\<lambda>a b. - b < - a) (map int [1..<Suc ?n])" by (simp add: sorted_wrt_map del: upt_Suc)
  then have "sort_key uminus (versions_of db s) = rev (versions_of db s)"
    unfolding v [symmetric] by (rule sort_key_descending)
  then show ?thesis
    using v unfolding allocate_report_version_def versions_of_def
    by (cases "length (filter (\<lambda>r. rp_shift_id r = s) (rdb_reports db))") auto
qed

lemma kept_versions: "list_all2 kept rs rs' \<Longrightarrow>
    map rp_version (filter (\<lambda>r. rp_shift_id r = s) rs') = map rp_version (filter (\<lambda>r. rp_shift_id r = s) rs)"
  by (induction rule: list_all2_induct) (auto simp: kept_def)

lemma versions_step:
  assumes "report_step db db'" "reports_ok db" "versions_ok db"
  shows "versions_ok db'"
  using report_step_ok(2) [OF assms(1,2)]
proof
  assume "list_all2 kept (rdb_reports db) (rdb_reports db')"
  then have "versions_of db' s = versions_of db s" for s unfolding versions_of_def by (rule kept_versions)
  then show ?thesis using assms(3) unfolding versions_ok_def by simp
next
  assume "\<exists>r. rdb_reports db' = rdb_reports db @ [r] \<and> rp_version r = allocate_report_version db (rp_shift_id r)"
  then obtain r where r: "rdb_reports db' = rdb_reports db @ [r]"
      "rp_version r = int (length (versions_of db (rp_shift_id r))) + 1"
    using allocate_next [OF assms(3)] by metis
  have v: "versions_of db s = map int [1..<Suc (length (versions_of db s))]" for s
    using assms(3) unfolding versions_ok_def by blast
  have "versions_of db' s = versions_of db s @ (if rp_shift_id r = s then [int (length (versions_of db s)) + 1] else [])" for s
    using r unfolding versions_of_def by simp
  then have "versions_of db' s = map int [1..<Suc (length (versions_of db' s))]" for s
    using v [of s] by (cases "rp_shift_id r = s") (simp_all del: upt_Suc add: upt_Suc_append)
  then show ?thesis unfolding versions_ok_def by blast
qed

lemma versions_steps: "report_step\<^sup>*\<^sup>* db db' \<Longrightarrow> reports_ok db \<Longrightarrow> versions_ok db \<Longrightarrow> versions_ok db'"
  by (induction rule: rtranclp_induct) (auto intro: versions_step dest: report_steps_ok)

section \<open>Frozen evidence\<close>

text \<open>The evidence rows a snapshot names: the log and the screenshots of the incidents of the shift.\<close>

definition frozen_rows :: "reports_db \<Rightarrow> uuid \<Rightarrow> evidence_row list" where
  "frozen_rows db s = concat (map (\<lambda>i. (case log_evidence db (in_id i) of None \<Rightarrow> [] | Some e \<Rightarrow> [e])
     @ filter is_screenshot (active_evidence db (in_id i))) (shift_incidents db s))"

lemma contains_jobj: "(k, v) \<in> set kvs \<Longrightarrow> contains_evidence_id v i \<Longrightarrow> contains_evidence_id (jobj kvs) i"
  unfolding jobj_def by (force simp: list_ex_iff)

lemma contains_identity [simp]: "contains_evidence_id (frozen_evidence_identity e) (e_id e)"
  by (simp add: frozen_evidence_identity_def jobj_def)

lemma freeze_incident_entries:
  assumes "freeze_incident fz db i = Inr v"
  shows "\<exists>kvs. v = jobj kvs
    \<and> (''log_evidence'', case log_evidence db (in_id i) of None \<Rightarrow> JNull | Some e \<Rightarrow> frozen_evidence_identity e) \<in> set kvs
    \<and> (''screenshots'', JArr (map frozen_evidence_identity (filter is_screenshot (active_evidence db (in_id i))))) \<in> set kvs"
  using assms unfolding freeze_incident_def Let_def
  apply (split if_split_asm, simp only: sum.distinct)
  apply (split sum.split_asm, simp only: sum.distinct)
  apply (drule Inr_inject, rule exI, rule conjI, erule sym)
  apply (simp only: set_append list.set Un_iff insert_iff simp_thms)
  done

lemma freeze_incident_mentions:
  assumes "freeze_incident fz db i = Inr v"
    and "log_evidence db (in_id i) = Some e \<or> e \<in> set (filter is_screenshot (active_evidence db (in_id i)))"
  shows "contains_evidence_id v (e_id e)"
proof -
  obtain kvs where v: "v = jobj kvs"
    "(''log_evidence'', case log_evidence db (in_id i) of None \<Rightarrow> JNull | Some e \<Rightarrow> frozen_evidence_identity e) \<in> set kvs"
    "(''screenshots'', JArr (map frozen_evidence_identity (filter is_screenshot (active_evidence db (in_id i))))) \<in> set kvs"
    using freeze_incident_entries [OF assms(1)] by blast
  from assms(2) show ?thesis
  proof
    assume "log_evidence db (in_id i) = Some e"
    then show ?thesis using contains_jobj [OF v(2)] by (simp add: v(1))
  next
    assume "e \<in> set (filter is_screenshot (active_evidence db (in_id i)))"
    then have "contains_evidence_id (JArr (map frozen_evidence_identity (filter is_screenshot (active_evidence db (in_id i))))) (e_id e)"
      by (auto simp: list_ex_iff)
    then show ?thesis using contains_jobj [OF v(3)] by (simp add: v(1))
  qed
qed

lemma build_snapshot_entries:
  assumes "build_snapshot fz db s sk = Inr snapshot"
  shows "\<exists>rows kvs. smap (freeze_incident fz db) (shift_incidents db (sf_id s)) = Inr rows
    \<and> snapshot = jobj kvs \<and> (''incidents'', JArr rows) \<in> set kvs"
  using assms unfolding build_snapshot_def Let_def sbind_eq_Inr
  apply (elim exE conjE)
  apply (drule Inr_inject, rule exI, rule exI, rule conjI, assumption, rule conjI, erule sym)
  apply (simp only: list.set insert_iff simp_thms)
  done

lemma build_snapshot_mentions:
  assumes "build_snapshot fz db s sk = Inr snapshot" "e \<in> set (frozen_rows db (sf_id s))"
  shows "contains_evidence_id snapshot (e_id e)"
proof -
  obtain rows kvs where r: "smap (freeze_incident fz db) (shift_incidents db (sf_id s)) = Inr rows"
      "snapshot = jobj kvs" "(''incidents'', JArr rows) \<in> set kvs"
    using build_snapshot_entries [OF assms(1)] by blast
  obtain i where i: "i \<in> set (shift_incidents db (sf_id s))"
      "log_evidence db (in_id i) = Some e \<or> e \<in> set (filter is_screenshot (active_evidence db (in_id i)))"
    using assms(2) unfolding frozen_rows_def by (auto split: option.splits)
  obtain v where "v \<in> set rows" "freeze_incident fz db i = Inr v"
  proof -
    note l = r(1) [unfolded smap_eq_Inr]
    obtain n where n: "n < length (shift_incidents db (sf_id s))" "shift_incidents db (sf_id s) ! n = i"
      using i(1) unfolding in_set_conv_nth by blast
    then have "rows ! n \<in> set rows" using list_all2_lengthD [OF l] by simp
    then show ?thesis using that list_all2_nthD [OF l n(1)] n(2) by simp
  qed
  then have "contains_evidence_id (JArr rows) (e_id e)"
    using freeze_incident_mentions [OF _ i(2)] unfolding contains_evidence_id.simps list_ex_iff by blast
  then show ?thesis using contains_jobj [OF r(3)] r(2) by simp
qed

lemma report_step_evidence:
  assumes "report_step db db'" "reports_ok db"
  shows "\<exists>new. rdb_evidence db' = (rdb_evidence db)\<lparr>snapshots := snapshots (rdb_evidence db) @ new\<rparr>"
proof -
  have same: "rdb_evidence db' = rdb_evidence db \<Longrightarrow> ?thesis" by (rule exI [of _ "[]"]) simp
  show ?thesis using report_step_shape [OF assms] same
    by (auto simp: sync_where_def on_worker_tables_def Let_def generated_def)
qed

lemma report_steps_evidence:
  "report_step\<^sup>*\<^sup>* db db' \<Longrightarrow> reports_ok db
    \<Longrightarrow> \<exists>new. rdb_evidence db' = (rdb_evidence db)\<lparr>snapshots := snapshots (rdb_evidence db) @ new\<rparr>"
proof (induction rule: rtranclp_induct)
  case base
  show ?case by (rule exI [of _ "[]"]) simp
next
  case (step x y)
  then obtain a b where "rdb_evidence x = (rdb_evidence db)\<lparr>snapshots := snapshots (rdb_evidence db) @ a\<rparr>"
      "rdb_evidence y = (rdb_evidence x)\<lparr>snapshots := snapshots (rdb_evidence x) @ b\<rparr>"
    using report_step_evidence report_steps_ok by metis
  then show ?case by (intro exI [of _ "a @ b"]) simp
qed

section \<open>Properties\<close>

text \<open>Report versions of a shift count 1, 2, 3, \<dots> without gaps or repetitions, in the order the
  reports were generated, whatever requests and worker transactions interleave; a new report gets the
  next number and \<open>GET /shifts/{id}/reports\<close> lists them from the newest to the first.\<close>

theorem report_versions_are_sequential:
  assumes "report_step\<^sup>*\<^sup>* db0 db" "reports_ok db0" "rdb_reports db0 = []"
  shows "versions_of db s = map int [1..<Suc (length (versions_of db s))]
    \<and> (fst (generate_report valid st cfg fz sk ids user s db) = Inr r
        \<longrightarrow> rp_version r = int (length (versions_of db s)) + 1)
    \<and> (fst (list_reports st cfg s db) = Inr rows \<longrightarrow> map rp_version rows = rev (versions_of db s))"
proof (intro conjI impI)
  have "versions_ok db0" using assms(3) by (simp add: versions_ok_def versions_of_def)
  then have ok: "versions_ok db" using versions_steps assms by blast
  then show v: "versions_of db s = map int [1..<Suc (length (versions_of db s))]" unfolding versions_ok_def by blast
  show "rp_version r = int (length (versions_of db s)) + 1"
    if g: "fst (generate_report valid st cfg fz sk ids user s db) = Inr r"
  proof -
    have "generate_report valid st cfg fz sk ids user s db = (Inr r, snd (generate_report valid st cfg fz sk ids user s db))"
      using g by (metis prod.collapse)
    then have "r = new_report ids user s (allocate_report_version db s)" by (rule generate_report_Inr)
    then show ?thesis using allocate_next [OF ok] by simp
  qed
  show "map rp_version rows = rev (versions_of db s)" if l: "fst (list_reports st cfg s db) = Inr rows"
  proof -
    let ?db = "sync_where st cfg (\<lambda>r. rp_shift_id r = s) db"
    have k: "versions_of ?db s = versions_of db s"
      unfolding versions_of_def using sync_step_ok report_steps_ok [OF assms(1,2)] by (intro kept_versions) blast
    have rows: "rows = sort_key (\<lambda>r. - rp_version r) (filter (\<lambda>r. rp_shift_id r = s) (rdb_reports ?db))"
    proof (cases "find_first (\<lambda>x. sf_id x = s) (rdb_shifts db)")
      case None
      then show ?thesis using l by (simp add: list_reports_def)
    next
      case (Some x)
      then have "list_reports st cfg s db
          = (Inr (sort_key (\<lambda>r. - rp_version r) (filter (\<lambda>r. rp_shift_id r = s) (rdb_reports ?db))), ?db)"
        unfolding list_reports_def Let_def by simp
      then show ?thesis using l by simp
    qed
    have "versions_of ?db s = map int [1..<Suc (length (versions_of db s))]" unfolding k by (rule v)
    note d = sort_key_descending [OF sorted_versions [OF this]]
    show ?thesis unfolding rows d k [symmetric] by (simp add: versions_of_def rev_map)
  qed
qed


text \<open>What a report was made from is retained: once a report has been generated, every log and
  screenshot its snapshot froze is protected. Through all later report requests and worker transactions a
  deletion of that evidence is refused, nothing is deleted, and the purge sweep leaves the record alone.\<close>

theorem frozen_evidence_is_protected:
  assumes "generate_report valid st cfg fz sk ids user shift_id db = (Inr r, db1)" "e \<in> set (frozen_rows db shift_id)"
    and "reports_ok db1" "report_step\<^sup>*\<^sup>* db1 db'" "ids_distinct (rdb_evidence db)"
  shows "u ''historical report snapshot'' \<in> set (references_for (rdb_evidence db') (e_id e))
    \<and> delete_evidence outcome now (e_id e) (rdb_evidence db') = (Inl (HTTP 409 (u ''evidence is retained by: ''
          @ py_join (u '', '') (references_for (rdb_evidence db') (e_id e)))), [], rdb_evidence db')
    \<and> (case sweep_pending_purges envs skipped (rdb_evidence db') of (n, ops, edb) \<Rightarrow> e \<in> set (evidence edb))"
proof -
  obtain s snapshot evs where g: "find_first (\<lambda>s. sf_id s = shift_id) (rdb_shifts db) = Some s"
      "build_snapshot fz db s sk = Inr snapshot" "rdb_evidence db1 = (rdb_evidence db)\<lparr>snapshots := snapshots (rdb_evidence db) @ [snapshot]\<rparr>"
    by (rule generate_report_Inr [OF assms(1)]) simp
  have "sf_id s = shift_id" using find_first_Some [OF g(1)] by simp
  then have c: "contains_evidence_id snapshot (e_id e)" using build_snapshot_mentions [OF g(2)] assms(2) by simp
  obtain new where e: "rdb_evidence db' = (rdb_evidence db1)\<lparr>snapshots := snapshots (rdb_evidence db1) @ new\<rparr>"
    using report_steps_evidence [OF assms(4,3)] by blast
  have ref: "u ''historical report snapshot'' \<in> set (references_for (rdb_evidence db') (e_id e))"
    using c by (simp add: references_for_def e g(3))
  have "e \<in> set (active_evidence db (in_id i))" if "Some e = log_evidence db (in_id i)" for i
    using find_first_Some [OF that [symmetric, unfolded log_evidence_def]] by simp
  then have mem: "e \<in> set (evidence (rdb_evidence db'))" "e_lifecycle e = ACTIVE"
    using assms(2) unfolding frozen_rows_def e g(3)
    by (force simp: active_evidence_def split: option.splits)+
  have d: "ids_distinct (rdb_evidence db')" using assms(5) by (simp add: e g(3))
  have "references_for (rdb_evidence db') (e_id e) \<noteq> []" using ref by auto
  then have del: "delete_evidence outcome now (e_id e) (rdb_evidence db') = (Inl (HTTP 409 (u ''evidence is retained by: ''
          @ py_join (u '', '') (references_for (rdb_evidence db') (e_id e)))), [], rdb_evidence db')"
    using mem get_evidence_unique [OF d mem(1)] by (simp add: delete_evidence_def request_purge_def)
  obtain n ops edb where s: "sweep_pending_purges envs skipped (rdb_evidence db') = (n, ops, edb)"
    by (cases "sweep_pending_purges envs skipped (rdb_evidence db')")
  have "e \<in> set (evidence edb)" using sweep_purge_ops [OF s d] mem(1) \<open>references_for (rdb_evidence db') (e_id e) \<noteq> []\<close> by blast
  then show ?thesis using ref del s by simp
qed

section \<open>Concrete instances\<close>

definition sample_store :: object_store where
  "sample_store = \<lparr>so_head = (\<lambda>b k. Some (Some [1], None)), so_get = (\<lambda>b k v. if v = Some [1] then Some [80, 75] else None),
     so_sha = (\<lambda>s. 7 # s), so_guess = (\<lambda>k. None), so_loads = (\<lambda>s. None), so_dumps = (\<lambda>j. [])\<rparr>"

definition sample_settings :: report_settings where
  "sample_settings = \<lparr>rs_bucket = [98], rs_ai_runtime = u ''hermes'', rs_daily_enabled = True\<rparr>"

definition sample_skill :: skill_info where
  "sample_skill = \<lparr>sk_id = [1], sk_content_hash = [2], sk_execution_hash = [3], sk_version = [49], sk_manifest = JObj [],
     sk_policy = JObj []\<rparr>"

definition sample_freeze :: freeze_env where
  "sample_freeze = \<lparr>fz_doc = Report_Composition.sample_env, fz_iso = (\<lambda>t. int_str t), fz_manifest = (\<lambda>i. None)\<rparr>"

definition sample_ids :: generate_ids where
  "sample_ids = \<lparr>gi_report = [1], gi_snapshot = [2], gi_job = [3], gi_event = [4], gi_correlation = [5],
     gi_upload_version = None, gi_now = 9\<rparr>"

definition sample_shot_row :: evidence_row where
  "sample_shot_row = (sample_evidence ACTIVE)\<lparr>e_incident_id := [6], e_type := u ''ALERT_SCREENSHOT''\<rparr>"

definition sample_reports :: "report_row list \<Rightarrow> (uuid \<rightharpoonup> job_row) \<Rightarrow> reports_db" where
  "sample_reports rs js = \<lparr>rdb_shifts = [\<lparr>sf_id = [8], sf_definition_id = [1], sf_starts_at = 0, sf_ends_at = None,
       sf_state = u ''active'', sf_opened_by = None, sf_closed_by = None\<rparr>], rdb_definitions = [],
     rdb_incidents = [\<lparr>in_id = [6], in_shift_id = Some [8], in_created_at = 0, in_triggered_at = 0,
       in_recovered_at = None, in_column = (\<lambda>c. JNull)\<rparr>], rdb_runs = [],
     rdb_evidence = \<lparr>incident_ids = [[6]], evidence = [sample_shot_row], intents = [], ocr_evidence_ids = [],
       analysis_evidence_ids = [], snapshots = []\<rparr>,
     rdb_reports = rs, rdb_jobs = \<lparr>jobs = js, reports = []\<rparr>, rdb_events = []\<rparr>"

abbreviation sample_start :: reports_db where
  "sample_start \<equiv> sample_reports [] (\<lambda>j. None)"

lemma sample_enqueue:
  "\<exists>s evs. enqueue_job (\<lambda>m. True) (report_job_request st cfg ids s' snapshot sk) e n x = Inr (s, evs)"
  by (cases x) (simp add: enqueue_job_def report_job_request_def truthy_opt_def build_job_message_def JOB_TYPES_def)

lemma sample_freezes: "\<exists>snapshot. build_snapshot sample_freeze sample_start s sample_skill = Inr snapshot"
proof -
  have f: "\<exists>v. freeze_incident sample_freeze sample_start i = Inr v" for i
    by (simp add: freeze_incident_def build_report_fragment_def sample_reports_def Let_def)
  have "\<exists>ys. smap (freeze_incident sample_freeze sample_start) xs = Inr ys" for xs
  proof (induction xs)
    case (Cons x xs)
    then show ?case using f [of x] by auto
  qed simp
  then show ?thesis unfolding build_snapshot_def Let_def sbind_eq_Inr by blast
qed

lemma sample_generates:
  "\<exists>db1. generate_report (\<lambda>m. True) sample_store sample_settings sample_freeze sample_skill sample_ids [7] [8] sample_start
     = (Inr (new_report sample_ids [7] [8] 1), db1)"
proof -
  obtain s where s: "find_first (\<lambda>s. sf_id s = [8]) (rdb_shifts sample_start) = Some s" by (simp add: sample_reports_def)
  obtain snapshot where b: "build_snapshot sample_freeze sample_start s sample_skill = Inr snapshot"
    using sample_freezes by blast
  obtain jdb evs where e: "enqueue_job (\<lambda>m. True) (report_job_request sample_store sample_settings sample_ids [8] snapshot sample_skill)
      (gi_event sample_ids) (gi_now sample_ids) (rdb_jobs sample_start, rdb_events sample_start) = Inr (jdb, evs)"
    using sample_enqueue by blast
  have v: "allocate_report_version sample_start [8] = 1" by (simp add: allocate_report_version_def sample_reports_def)
  have c: "rs_ai_runtime sample_settings = u ''hermes''" "rs_daily_enabled sample_settings"
    by (simp_all add: sample_settings_def)
  show ?thesis
    unfolding generate_report_def by (simp add: s b e v c Let_def new_report_def)
qed

lemma sample_start_ok: "reports_ok sample_start" "ids_distinct (rdb_evidence sample_start)" "rdb_reports sample_start = []"
  by (simp_all add: reports_ok_def sample_reports_def)

lemma sample_generate_step:
  assumes "generate_report (\<lambda>m. True) sample_store sample_settings sample_freeze sample_skill sample_ids [7] [8] sample_start = (Inr r, db1)"
  shows "report_step sample_start db1"
proof -
  have "jobs (rdb_jobs sample_start) (gi_job sample_ids) = None" by (simp add: sample_reports_def)
  then have "report_step sample_start (snd (generate_report (\<lambda>m. True) sample_store sample_settings sample_freeze sample_skill sample_ids [7] [8] sample_start))"
    by (rule report_step.Generate)
  then show ?thesis by (simp add: assms)
qed

theorem report_versions_are_sequential_witness:
  "\<exists>db1. report_step sample_start db1 \<and> versions_of db1 [8] = [1]"
proof -
  obtain db1 where g: "generate_report (\<lambda>m. True) sample_store sample_settings sample_freeze sample_skill sample_ids [7] [8] sample_start
     = (Inr (new_report sample_ids [7] [8] 1), db1)" using sample_generates by blast
  have "length (versions_of db1 [8]) = 1"
    by (rule generate_report_Inr [OF g]) (simp add: versions_of_def sample_start_ok(3))
  then have "versions_of db1 [8] = [1]"
    using report_versions_are_sequential [OF r_into_rtranclp sample_start_ok(1,3), OF sample_generate_step [OF g], of "[8]"]
    by simp
  then show ?thesis using sample_generate_step [OF g] by blast
qed

definition sample_pinned :: report_row where
  "sample_pinned = (new_report sample_ids [7] [8] 1)\<lparr>rp_cols := \<lparr>r_job_id = [3], r_report = \<lparr>a_bucket = Some [98],
     a_object_key = Some [107], a_version_id = Some [1], a_sha256 = Some [7, 80, 75], a_byte_size = Some 2,
     a_content_type = None\<rparr>, r_document = empty_artifact, r_screenshots = empty_artifact,
     r_provenance = empty_provenance, r_generated_at = None\<rparr>\<rparr>"


theorem frozen_evidence_is_protected_witness:
  "\<exists>db1 refs. report_step sample_start db1
     \<and> delete_evidence Storage_Ok 5 (e_id sample_shot_row) (rdb_evidence db1)
         = (Inl (HTTP 409 (u ''evidence is retained by: '' @ refs)), [], rdb_evidence db1)"
proof -
  obtain db1 where g: "generate_report (\<lambda>m. True) sample_store sample_settings sample_freeze sample_skill sample_ids [7] [8] sample_start
     = (Inr (new_report sample_ids [7] [8] 1), db1)" using sample_generates by blast
  have "active_evidence sample_start [6] = [sample_shot_row]"
    by (simp add: active_evidence_def sample_reports_def sample_shot_row_def sample_evidence_def)
  then have e: "sample_shot_row \<in> set (frozen_rows sample_start [8])"
    by (simp add: frozen_rows_def shift_incidents_def is_screenshot_def)
      (simp add: sample_reports_def sample_shot_row_def is_screenshot_def)
  have "reports_ok db1" using report_step_ok(1) [OF sample_generate_step [OF g] sample_start_ok(1)] .
  from frozen_evidence_is_protected [OF g e this rtranclp.rtrancl_refl sample_start_ok(2), of Storage_Ok 5]
  show ?thesis using sample_generate_step [OF g] by blast
qed

end
