(* ===== verification/Skill_Contract.thy ===== *)
theory Skill_Contract
  imports Json
begin

text \<open>
  The execution contract of a skill snapshot, \<^verbatim>\<open>apps/api/app/skills/runtime.py\<close>: reading the manifest and
  the output schema, resolving dependencies and validating a snapshot. The YAML and JSON parsers, the
  JSON Schema meta check, \<open>int()\<close>, hashes and canonical JSON are functions of the environment; a
  parsed manifest has string keys. Of a message that embeds a value only the constant part is kept.
\<close>

section \<open>Snapshots\<close>

record skill_row =
  sn_id :: uuid
  sn_name :: pystr
  sn_version :: int
  sn_content_hash :: pystr
  sn_execution_hash :: "pystr option"
  sn_md :: pystr
  sn_schema :: pystr
  sn_manifest :: pystr
  sn_pins :: "(pystr, uuid) pydict"
  sn_created :: time
  sn_active :: bool

datatype skill_error =
    Contract string
  | Python doc_error
  | Malformed_Yaml
  | Files_Missing
  | Cyclic_Dependency
  | Unresolvable_Dependency
  | Recursion_Limit
  | No_Active_Snapshot
  | Version_Not_Found
  | Snapshot_Missing string
  | Hash_Mismatch
  | Malformed_Sql

record skill_env =
  se_py :: py_env
  se_yaml :: "pystr \<Rightarrow> json option"
  se_loads :: "pystr \<Rightarrow> json option"
  se_schema_ok :: "json \<Rightarrow> bool"
  se_int :: "json \<Rightarrow> int option"
  se_utf8 :: "pystr \<Rightarrow> nat list"
  se_sha :: "nat list \<Rightarrow> pystr"
  se_canonical :: "json \<Rightarrow> pystr"

fun lift_py :: "doc_error + 'a \<Rightarrow> skill_error + 'a" where
  "lift_py (Inl e) = Inl (Python e)"
| "lift_py (Inr x) = Inr x"

lemma lift_py_Inr [simp]: "lift_py x = Inr y \<longleftrightarrow> x = Inr y"
  by (cases x) auto

definition names_of :: "skill_row list \<Rightarrow> pystr set" where
  "names_of rows = sn_name ` set rows"

section \<open>Reading a snapshot\<close>

definition load_snapshot :: "skill_row list \<Rightarrow> uuid \<Rightarrow> skill_error + skill_row" where
  "load_snapshot rows i = (case find_first (\<lambda>r. sn_id r = i) rows of
      None \<Rightarrow> Inl (Contract ''SkillSnapshot does not exist'') | Some r \<Rightarrow> Inr r)"

definition load_manifest :: "skill_env \<Rightarrow> skill_row \<Rightarrow> skill_error + json" where
  "load_manifest env s = (case se_yaml env (sn_manifest s) of
      None \<Rightarrow> Inl (Contract ''manifest is invalid'')
    | Some m \<Rightarrow> if is_dict m then Inr m else Inl (Contract ''skill manifest must be an object''))"

definition load_schema :: "skill_env \<Rightarrow> skill_row \<Rightarrow> skill_error + json" where
  "load_schema env s = (case se_loads env (sn_schema s) of
      None \<Rightarrow> Inl (Contract ''output schema is invalid'')
    | Some v \<Rightarrow> if se_schema_ok env v then Inr v else Inl (Contract ''output schema is invalid''))"

definition declared_skill_version :: "skill_env \<Rightarrow> skill_row \<Rightarrow> skill_error + pystr" where
  "declared_skill_version env s = sbind (load_manifest env s) (\<lambda>m.
     let v = jget m ''version''
     in Inr (py_str (se_py env) (if v \<noteq> JNull then v else JInt (sn_version s))))"

definition execution_policy :: "skill_env \<Rightarrow> skill_row \<Rightarrow> skill_error + json" where
  "execution_policy env s = sbind (load_manifest env s) (\<lambda>m.
     let p = jget m ''execution_policy'' in Inr (if is_dict p then p else JObj []))"

definition input_contract_version :: "skill_env \<Rightarrow> skill_row \<Rightarrow> skill_error + pystr option" where
  "input_contract_version env s = sbind (load_manifest env s) (\<lambda>m. Inr (case jget m ''input_contract'' of
      JStr c \<Rightarrow> Some c
    | JObj kvs \<Rightarrow> (let v = jget (JObj kvs) ''version''
        in if v \<noteq> JNull then Some (py_str (se_py env) v) else None)
    | _ \<Rightarrow> None))"

section \<open>The dependency graph\<close>

text \<open>A declared dependency: its name and its version.\<close>

definition dependency_parts :: "json \<Rightarrow> skill_error + json \<times> json" where
  "dependency_parts d = (case d of
      JStr s \<Rightarrow> Inr (d, JNull)
    | JObj kvs \<Rightarrow> Inr (jget d ''id'', jget d ''version'')
    | _ \<Rightarrow> Inl (Contract ''skill dependency must be a name or {id, version}''))"

definition pin_of :: "(pystr, uuid) pydict \<Rightarrow> json \<Rightarrow> uuid option" where
  "pin_of pins name = (case name of JStr n \<Rightarrow> map_of pins n | _ \<Rightarrow> None)"

text \<open>The newest row of a name, and of a version when one is given: \<open>ORDER BY \<dots> DESC\<close>, first row.\<close>

definition newest_by :: "(skill_row \<Rightarrow> int) \<Rightarrow> skill_row list \<Rightarrow> json \<Rightarrow> int option \<Rightarrow> skill_row option" where
  "newest_by key rows name version = find_first (\<lambda>r. True) (sort_key (\<lambda>r. - key r)
     (filter (\<lambda>r. JStr (sn_name r) = name \<and> (case version of None \<Rightarrow> True | Some v \<Rightarrow> sn_version r = v)) rows))"

definition requested_version :: "skill_env \<Rightarrow> json \<Rightarrow> skill_error + int option" where
  "requested_version env version = (if version = JNull then Inr None
     else (case se_int env version of None \<Rightarrow> Inl (Contract ''invalid dependency version'') | Some v \<Rightarrow> Inr (Some v)))"

definition resolve_dependency_snapshot ::
  "skill_env \<Rightarrow> skill_row list \<Rightarrow> json \<Rightarrow> (pystr, uuid) pydict \<Rightarrow> skill_error + skill_row" where
  "resolve_dependency_snapshot env rows d pins = sbind (dependency_parts d) (\<lambda>(name, version).
     if \<not> truthy name then Inl (Contract ''skill dependency is missing an id'')
     else if is_dict name \<or> is_list name then Inl (Python Type_Error)
     else (case pin_of pins name of
         Some i \<Rightarrow> (case find_first (\<lambda>r. sn_id r = i) rows of
             None \<Rightarrow> Inl (Contract ''unresolvable pinned skill dependency'')
           | Some r \<Rightarrow>
               if JStr (sn_name r) \<noteq> name then Inl (Contract ''unresolvable pinned skill dependency'')
               else sbind (requested_version env version) (\<lambda>v.
                 if v \<noteq> None \<and> v \<noteq> Some (sn_version r) then Inl (Contract ''pinned dependency version does not match'')
                 else Inr r))
       | None \<Rightarrow> sbind (requested_version env version) (\<lambda>v.
           (case newest_by sn_created rows name v of
              None \<Rightarrow> Inl (Contract ''unresolvable skill dependency'') | Some r \<Rightarrow> Inr r))))"

text \<open>Every walk of the graph stops: a child is a row of the table, and its name must be new.\<close>

definition graph_measure :: "skill_row list \<Rightarrow> pystr list \<Rightarrow> skill_row \<Rightarrow> nat" where
  "graph_measure rows active s = card (names_of rows - set active) + (if sn_name s \<in> names_of rows then 0 else 1)"

lemma graph_measure_decreases:
  assumes "sn_name s \<notin> set active" "c \<in> set rows"
  shows "graph_measure rows (sn_name s # active) c < graph_measure rows active s"
proof -
  have c: "sn_name c \<in> names_of rows" using assms(2) by (simp add: names_of_def)
  have f: "finite (names_of rows)" by (simp add: names_of_def)
  show ?thesis
  proof (cases "sn_name s \<in> names_of rows")
    case True
    then have "names_of rows - set (sn_name s # active) \<subset> names_of rows - set active" using assms(1) by auto
    then show ?thesis using c True f by (simp add: graph_measure_def psubset_card_mono)
  next
    case False
    then have "names_of rows - set (sn_name s # active) = names_of rows - set active" by auto
    then show ?thesis using c False by (simp add: graph_measure_def)
  qed
qed

lemma newest_by_mem: "newest_by key rows name version = Some r \<Longrightarrow> r \<in> set rows \<and> JStr (sn_name r) = name"
  unfolding newest_by_def by (drule find_first_Some) auto

lemma resolve_mem: "resolve_dependency_snapshot env rows d pins = Inr r \<Longrightarrow> r \<in> set rows"
  by (auto simp: resolve_dependency_snapshot_def split: prod.splits if_splits option.splits
      dest: newest_by_mem find_first_Some)

function validate_dependency_graph :: "skill_env \<Rightarrow> skill_row list \<Rightarrow> skill_row \<Rightarrow> pystr list \<Rightarrow> skill_error + unit" where
  "validate_dependency_graph env rows s active =
    (if sn_name s \<in> set active then Inl (Contract ''cyclic skill dependency'')
     else sbind (load_manifest env s) (\<lambda>m.
       case jget_or m ''dependencies'' (JArr []) of
         JArr ds \<Rightarrow> sbind (smap (\<lambda>d. sbind (resolve_dependency_snapshot env rows d (sn_pins s)) (\<lambda>c.
             validate_dependency_graph env rows c (sn_name s # active))) ds) (\<lambda>_. Inr ())
       | _ \<Rightarrow> Inl (Contract ''manifest dependencies must be a list'')))"
  by pat_completeness auto
termination
  by (relation "measure (\<lambda>(env, rows, s, active). graph_measure rows active s)")
    (auto intro: graph_measure_decreases resolve_mem)

declare validate_dependency_graph.simps [simp del]

section \<open>Validating a snapshot\<close>

definition contract_check :: "bool \<Rightarrow> string \<Rightarrow> skill_error + unit" where
  "contract_check ok msg = guard ok (Contract msg)"

definition contract_check_in :: "json \<Rightarrow> json list \<Rightarrow> string \<Rightarrow> skill_error + unit" where
  "contract_check_in v xs msg = sbind (lift_py (in_set v xs)) (\<lambda>ok. contract_check ok msg)"

definition SUPPORTED_RENDERER_PROFILES :: "json list" where
  "SUPPORTED_RENDERER_PROFILES = [JNull, JStr (u ''daily_report_docx''), JStr (u ''report-document-v1'')]"

definition SUPPORTED_INPUT_CONTRACTS :: "json list" where
  "SUPPORTED_INPUT_CONTRACTS = [JStr (u ''log-evidence-v1''), JStr (u ''daily-report-context-v1'')]"

definition SUPPORTED_REPORT_EXPORT_CONTRACTS :: "json list" where
  "SUPPORTED_REPORT_EXPORT_CONTRACTS = [JStr (u ''report-fragment-v1'')]"

definition SUPPORTED_PRESENTATION_EXPORT_CONTRACTS :: "json list" where
  "SUPPORTED_PRESENTATION_EXPORT_CONTRACTS = [JStr (u ''analysis-presentation-v1'')]"

definition SUPPORTED_EXPORT_ADAPTERS :: "json list" where
  "SUPPORTED_EXPORT_ADAPTERS = [JStr (u ''log-triage-v1'')]"

text \<open>One of the two exports: its kind, the contracts it may name and the output it needs without adapter.\<close>

definition check_export :: "skill_env \<Rightarrow> skill_row \<Rightarrow> json \<Rightarrow> string \<Rightarrow> json list \<Rightarrow> string \<Rightarrow> skill_error + unit" where
  "check_export env s exports kind supported output =
    (let export = jget exports kind in
     if export = JNull then Inr ()
     else if \<not> is_dict export \<or> \<not> is_str (jget export ''contract'') then Inl (Contract ''manifest export contract is required'')
     else sbind (contract_check_in (jget export ''contract'') supported ''unsupported export contract'') (\<lambda>_.
       sbind (load_schema env s) (\<lambda>schema.
       if \<not> is_dict schema then Inl (Python Attribute_Error)
       else sbind (lift_py (in_set (jget export ''adapter'') SUPPORTED_EXPORT_ADAPTERS)) (\<lambda>ok.
         if ok then Inr ()
         else sbind (lift_py (py_contains (por (jget schema ''properties'') (JObj [])) output)) (\<lambda>has.
           contract_check has ''export needs a supported adapter or its output'')))))"

definition check_exports :: "skill_env \<Rightarrow> skill_row \<Rightarrow> json \<Rightarrow> skill_error + unit" where
  "check_exports env s exports =
    (if exports = JNull then Inr ()
     else if \<not> is_dict exports then Inl (Contract ''manifest exports must be an object'')
     else sbind (check_export env s exports ''reasoning'' SUPPORTED_REPORT_EXPORT_CONTRACTS ''report_context'') (\<lambda>_.
       check_export env s exports ''presentation'' SUPPORTED_PRESENTATION_EXPORT_CONTRACTS ''report_presentation''))"

fun is_bool :: "json \<Rightarrow> bool" where
  "is_bool (JBool b) = True"
| "is_bool _ = False"

definition jwords :: "string list \<Rightarrow> json list" where
  "jwords ws = map (\<lambda>w. JStr (u w)) ws"

definition check_coverage_policy :: "json \<Rightarrow> skill_error + unit" where
  "check_coverage_policy coverage =
    (if coverage = JNull then Inr ()
     else if \<not> is_dict coverage then Inl (Contract ''manifest coverage must be an object'')
     else sbind (contract_check_in (jget_or coverage ''incidents'' (JStr (u ''optional''))) (jwords [''all'', ''optional'', ''none''])
         ''manifest coverage.incidents is invalid'') (\<lambda>_.
       sbind (contract_check_in (jget_or coverage ''analyses'' (JStr (u ''optional''))) (jwords [''all_available'', ''optional'', ''none''])
         ''manifest coverage.analyses is invalid'') (\<lambda>_.
       sfold (\<lambda>k _. contract_check (jhas coverage k \<longrightarrow> is_bool (jget coverage k)) ''manifest coverage flag must be boolean'')
         [''allow_duplicate_incidents'', ''allow_duplicate_analyses''] ())))"

fun values_of :: "json \<Rightarrow> json list" where
  "values_of (JObj kvs) = map snd kvs"
| "values_of _ = []"

definition check_path_fields :: "json \<Rightarrow> string \<Rightarrow> string \<Rightarrow> skill_error + unit" where
  "check_path_fields d not_object not_paths =
    (let fields = por (jget d ''fields'') (JObj []) in
     sbind (contract_check (is_dict fields) not_object) (\<lambda>_.
       contract_check (list_all is_str (values_of fields)) not_paths))"

definition check_collection :: "json \<Rightarrow> skill_error + unit" where
  "check_collection c = sbind (contract_check (is_dict c) ''input_projection collection is invalid'') (\<lambda>_.
     sbind (contract_check (is_str (jget c ''source'')) ''input_projection collection source is required'') (\<lambda>_.
       check_path_fields c ''input_projection collection fields are invalid'' ''input_projection collection fields are invalid''))"

definition check_input_projection :: "json \<Rightarrow> skill_error + unit" where
  "check_input_projection p =
    (if p = JNull then Inr ()
     else if \<not> is_dict p then Inl (Contract ''manifest input_projection must be an object'')
     else sbind (check_path_fields p ''input_projection fields must be an object''
         ''input_projection fields must map names to JSON paths'') (\<lambda>_.
       let cs = por (jget p ''collections'') (JObj []) in
       sbind (contract_check (is_dict cs) ''input_projection collections must be an object'') (\<lambda>_.
         sfold (\<lambda>c _. check_collection c) (values_of cs) ())))"

definition nonblank :: "json \<Rightarrow> bool" where
  "nonblank v \<longleftrightarrow> is_str v \<and> py_strip (jstr v) \<noteq> []"

definition validate_input :: "skill_env \<Rightarrow> skill_row \<Rightarrow> json \<Rightarrow> skill_error + unit" where
  "validate_input env s payload =
    (if payload = JNull then Inl (Contract ''skill input must not be null'')
     else sbind (load_manifest env s) (\<lambda>m.
       let c = jget m ''input_contract'' in
       if is_str c then contract_check (c \<in> set SUPPORTED_INPUT_CONTRACTS) ''unsupported input contract''
       else if c = JNull then Inr ()
       else if \<not> is_dict c then Inl (Contract ''manifest input_contract must be a supported name or object'')
       else sbind (if jget c ''version'' = JNull then Inr ()
             else contract_check_in (jget c ''version'') SUPPORTED_INPUT_CONTRACTS ''unsupported input contract'') (\<lambda>_.
         sbind (contract_check (nonblank (jget c ''filename'')) ''input contract filename is required'') (\<lambda>_.
           contract_check (nonblank (jget c ''intro_text'')) ''input contract intro_text is required''))))"

definition validate_snapshot :: "skill_env \<Rightarrow> skill_row list \<Rightarrow> skill_row \<Rightarrow> skill_error + unit" where
  "validate_snapshot env rows s =
    sbind (contract_check (py_strip (sn_md s) \<noteq> []) ''skill instructions must not be empty'') (\<lambda>_.
    sbind (load_manifest env s) (\<lambda>m.
    sbind (contract_check (jget_or m ''id'' (jget m ''name'') = JStr (sn_name s)) ''manifest id does not match snapshot skill name'') (\<lambda>_.
    sbind (let out = jget m ''output_schema''
           in contract_check (out = JNull \<or> is_dict out \<and> jget out ''file'' = JStr (u ''output.schema.json''))
                ''manifest must declare output.schema.json'') (\<lambda>_.
    sbind (contract_check (is_list (jget_or m ''dependencies'' (JArr []))) ''manifest dependencies must be a list'') (\<lambda>_.
    sbind (validate_dependency_graph env rows s []) (\<lambda>_.
    sbind (contract_check_in (jget m ''renderer_profile'') SUPPORTED_RENDERER_PROFILES ''unsupported renderer profile'') (\<lambda>_.
    sbind (if jget m ''report_export_contract'' = JNull then Inr ()
           else contract_check_in (jget m ''report_export_contract'') SUPPORTED_REPORT_EXPORT_CONTRACTS
                  ''unsupported report export contract'') (\<lambda>_.
    sbind (check_exports env s (jget m ''exports'')) (\<lambda>_.
    sbind (let p = jget m ''execution_policy''
           in contract_check (p = JNull \<or> is_dict p) ''manifest execution_policy must be an object'') (\<lambda>_.
    sbind (check_coverage_policy (jget m ''coverage'')) (\<lambda>_.
    sbind (check_input_projection (jget m ''input_projection'')) (\<lambda>_.
    sbind (load_schema env s) (\<lambda>_.
      validate_input env s (JObj []))))))))))))))"

text \<open>JSON Schema validation is a function \<open>conforms\<close> of the schema and the result.\<close>

definition validate_output :: "skill_env \<Rightarrow> (json \<Rightarrow> json \<Rightarrow> bool) \<Rightarrow> skill_row \<Rightarrow> json \<Rightarrow> skill_error + unit" where
  "validate_output env conforms s res = sbind (load_schema env s) (\<lambda>schema.
     contract_check (conforms schema res) ''skill output failed schema validation'')"

lemma contract_check_Inr [simp]: "contract_check ok msg = Inr x \<longleftrightarrow> ok"
  by (simp add: contract_check_def)

end
