(* ===== verification/Skill_Registry.thy ===== *)
theory Skill_Registry
  imports Skill_Contract Partial_Index "HOL-Library.List_Lexorder" "HOL-Library.Product_Lexorder"
begin

text \<open>
  The skill registry, \<^verbatim>\<open>apps/api/app/skills/registry.py\<close>, and the skill endpoints of
  \<^verbatim>\<open>routers/admin.py\<close>. The checkout maps a skill name to its three files (prompt, schema, manifest) as
  they are on disk; fresh ids are a function of the table. An error leaves the table unchanged because
  the caller's transaction is rolled back, so only successful results carry a table.
\<close>

section \<open>Content hashes\<close>

type_synonym checkout = "pystr \<Rightarrow> (pystr \<times> pystr \<times> pystr) option"

text \<open>\<open>len(contents).to_bytes(8, "big")\<close>; no file reaches the bound.\<close>

definition to_bytes8 :: "nat \<Rightarrow> nat list" where
  "to_bytes8 n = map (\<lambda>i. n div 256 ^ i mod 256) [7, 6, 5, 4, 3, 2, 1, 0]"

definition frame :: "nat list \<Rightarrow> nat list" where
  "frame bytes = to_bytes8 (length bytes) @ bytes"

definition content_digest :: "skill_env \<Rightarrow> nat list list \<Rightarrow> pystr" where
  "content_digest env parts = se_sha env (concat (map frame parts))"

definition compute_skill_hash :: "skill_env \<Rightarrow> checkout \<Rightarrow> pystr \<Rightarrow> skill_error + pystr" where
  "compute_skill_hash env disk name = (case disk name of
      None \<Rightarrow> Inl Files_Missing
    | Some (md, schema, manifest) \<Rightarrow> Inr (content_digest env (map (se_utf8 env) [md, schema, manifest])))"

text \<open>Text mode reads universal newlines.\<close>

fun universal_newlines :: "pystr \<Rightarrow> pystr" where
  "universal_newlines (c # d # s) = (if c = 13 then 10 # (if d = 10 then universal_newlines s else universal_newlines (d # s))
     else c # universal_newlines (d # s))"
| "universal_newlines [c] = [if c = 13 then 10 else c]"
| "universal_newlines [] = []"

definition read_skill_files :: "checkout \<Rightarrow> pystr \<Rightarrow> skill_error + (pystr \<times> pystr \<times> pystr)" where
  "read_skill_files disk name = (case disk name of
      None \<Rightarrow> Inl Files_Missing
    | Some (md, schema, manifest) \<Rightarrow> Inr (universal_newlines md, universal_newlines schema, universal_newlines manifest))"

section \<open>Execution hashes\<close>

text \<open>\<open>dependency if isinstance(dependency, str) else dependency.get("id")\<close>.\<close>

definition dependency_name :: "json \<Rightarrow> skill_error + json" where
  "dependency_name d = (if is_str d then Inr d else if is_dict d then Inr (jget d ''id'') else Inl (Python Attribute_Error))"

definition dependency_version :: "skill_env \<Rightarrow> json \<Rightarrow> skill_error + int option" where
  "dependency_version env d = (if is_dict d \<and> jget d ''version'' \<noteq> JNull
     then (case se_int env (jget d ''version'') of None \<Rightarrow> Inl (Python Value_Error) | Some v \<Rightarrow> Inr (Some v))
     else Inr None)"

definition dependency_snapshot ::
  "skill_env \<Rightarrow> skill_row list \<Rightarrow> (pystr, uuid) pydict \<Rightarrow> json \<Rightarrow> json \<Rightarrow> skill_error + skill_row option" where
  "dependency_snapshot env rows pins d name = (case truthy_opt (pin_of pins name) of
      Some i \<Rightarrow> Inr (find_first (\<lambda>r. sn_id r = i) rows)
    | None \<Rightarrow> sbind (dependency_version env d) (\<lambda>v. Inr (newest_by sn_version rows name v)))"

lemma dependency_snapshot_mem:
  "dependency_snapshot env rows pins d name = Inr (Some r) \<Longrightarrow> r \<in> set rows"
  by (auto simp: dependency_snapshot_def split: option.splits dest: newest_by_mem find_first_Some)

text \<open>\<open>yaml.safe_load(text) or {}\<close> followed by an attribute access.\<close>

definition manifest_or_empty :: "skill_env \<Rightarrow> pystr \<Rightarrow> skill_error + json" where
  "manifest_or_empty env text = (case se_yaml env text of None \<Rightarrow> Inl Malformed_Yaml
     | Some m \<Rightarrow> (let v = por m (JObj []) in if is_dict v then Inr v else Inl (Python Attribute_Error)))"

type_synonym component = "pystr \<times> pystr \<times> pystr"

definition component_json :: "component \<Rightarrow> json" where
  "component_json c = (case c of (name, content, exec) \<Rightarrow> JObj [(u ''id'', JStr name), (u ''content_hash'', JStr content),
     (u ''execution_hash'', JStr exec)])"

definition execution_payload :: "pystr \<Rightarrow> component list \<Rightarrow> json" where
  "execution_payload content cs = JObj [(u ''content_hash'', JStr content),
     (u ''dependencies'', JArr (map component_json (sort_key (\<lambda>c. (fst c, fst (snd c))) cs)))]"

definition execution_digest :: "skill_env \<Rightarrow> pystr \<Rightarrow> component list \<Rightarrow> pystr" where
  "execution_digest env content cs = se_sha env (se_utf8 env (se_canonical env (execution_payload content cs)))"

text \<open>The child a dependency resolves to.\<close>

definition dependency_child :: "skill_env \<Rightarrow> skill_row list \<Rightarrow> skill_row \<Rightarrow> json \<Rightarrow> skill_error + skill_row" where
  "dependency_child env rows s d = sbind (dependency_name d) (\<lambda>name.
     if is_dict name \<or> is_list name then Inl (Python Type_Error)
     else sbind (dependency_snapshot env rows (sn_pins s) d name) (\<lambda>c. case c of
       None \<Rightarrow> Inl Unresolvable_Dependency
     | Some r \<Rightarrow> if JStr (sn_name r) \<noteq> name then Inl Unresolvable_Dependency else Inr r))"

lemma dependency_child_mem: "dependency_child env rows s d = Inr c \<Longrightarrow> c \<in> set rows"
  by (auto simp: dependency_child_def split: option.splits if_splits dest: dependency_snapshot_mem)

function compute_execution_hash :: "skill_env \<Rightarrow> skill_row list \<Rightarrow> skill_row \<Rightarrow> pystr list \<Rightarrow> skill_error + pystr" where
  "compute_execution_hash env rows s active =
    (if sn_name s \<in> set active then Inl Cyclic_Dependency
     else sbind (manifest_or_empty env (sn_manifest s)) (\<lambda>m.
       sbind (lift_py (py_iter (jget_or m ''dependencies'' (JArr [])))) (\<lambda>ds.
       sbind (smap (\<lambda>d. sbind (dependency_child env rows s d) (\<lambda>c.
           sbind (compute_execution_hash env rows c (sn_name s # active)) (\<lambda>h.
             Inr (sn_name c, sn_content_hash c, h)))) ds) (\<lambda>cs.
       Inr (execution_digest env (sn_content_hash s) cs)))))"
  by pat_completeness auto
termination
  by (relation "measure (\<lambda>(env, rows, s, active). graph_measure rows active s)")
    (auto intro: graph_measure_decreases dependency_child_mem)

declare compute_execution_hash.simps [simp del]

section \<open>Recording snapshots\<close>

definition snapshots_named :: "pystr \<Rightarrow> skill_row list \<Rightarrow> skill_row list" where
  "snapshots_named name rows = filter (\<lambda>r. sn_name r = name) rows"

definition active_snapshot :: "skill_row list \<Rightarrow> pystr \<Rightarrow> skill_row option" where
  "active_snapshot rows name = find_first (\<lambda>r. sn_active r \<and> sn_name r = name) rows"

definition deactivate :: "pystr \<Rightarrow> skill_row list \<Rightarrow> skill_row list" where
  "deactivate name rows = map (\<lambda>r. if sn_name r = name then r\<lparr>sn_active := False\<rparr> else r) rows"

definition next_version :: "skill_row list \<Rightarrow> pystr \<Rightarrow> int" where
  "next_version rows name = fold max (map sn_version (snapshots_named name rows)) 0 + 1"

text \<open>The row a declared dependency is pinned to now, if there is one already.\<close>

definition pin_target :: "skill_env \<Rightarrow> skill_row list \<Rightarrow> json \<Rightarrow> pystr \<Rightarrow> skill_error + skill_row option" where
  "pin_target env rows d name = sbind (dependency_version env d) (\<lambda>v. Inr (case v of
      Some n \<Rightarrow> find_first (\<lambda>r. sn_name r = name \<and> sn_version r = n) rows
    | None \<Rightarrow> active_snapshot rows name))"

text \<open>The row of the content hash and the pins that exists already: the newest one.\<close>

definition existing_snapshot :: "skill_row list \<Rightarrow> pystr \<Rightarrow> pystr \<Rightarrow> (pystr, uuid) pydict \<Rightarrow> skill_row option" where
  "existing_snapshot rows name content pins = find_first (\<lambda>r. set (sn_pins r) = set pins)
     (sort_key (\<lambda>r. - sn_version r) (filter (\<lambda>r. sn_content_hash r = content) (snapshots_named name rows)))"

definition insert_snapshot ::
  "skill_env \<Rightarrow> (skill_row list \<Rightarrow> uuid) \<Rightarrow> time \<Rightarrow> bool option \<Rightarrow> pystr \<Rightarrow> pystr \<Rightarrow> pystr \<times> pystr \<times> pystr
    \<Rightarrow> (pystr, uuid) pydict \<Rightarrow> skill_row list \<Rightarrow> skill_error + (skill_row \<times> skill_row list)" where
  "insert_snapshot env fresh now activate name content files pins rows =
    (let first = (snapshots_named name rows = []);
         on = (case activate of Some b \<Rightarrow> b | None \<Rightarrow> first);
         rows' = (if on then deactivate name rows else rows);
         s = \<lparr>sn_id = fresh rows, sn_name = name, sn_version = next_version rows name, sn_content_hash = content,
               sn_execution_hash = None, sn_md = fst files, sn_schema = fst (snd files), sn_manifest = snd (snd files),
               sn_pins = pins, sn_created = now, sn_active = on\<rparr>
     in sbind (validate_snapshot env rows' s) (\<lambda>_.
        sbind (compute_execution_hash env rows' s []) (\<lambda>h.
          let s' = s\<lparr>sn_execution_hash := Some h\<rparr> in Inr (s', rows' @ [s']))))"

text \<open>\<open>get_or_create_snapshot\<close>. It recurses into dependencies that have no row yet, so a cyclic checkout
  exhausts the Python stack; the first argument is the stack depth that is left.\<close>

fun get_or_create_snapshot ::
  "nat \<Rightarrow> skill_env \<Rightarrow> (skill_row list \<Rightarrow> uuid) \<Rightarrow> time \<Rightarrow> checkout \<Rightarrow> bool option \<Rightarrow> pystr \<Rightarrow> skill_row list
    \<Rightarrow> skill_error + (skill_row \<times> skill_row list)" where
  "get_or_create_snapshot 0 env fresh now disk activate name rows = Inl Recursion_Limit"
| "get_or_create_snapshot (Suc depth) env fresh now disk activate name rows =
    sbind (compute_skill_hash env disk name) (\<lambda>content.
    sbind (read_skill_files disk name) (\<lambda>files.
    sbind (manifest_or_empty env (snd (snd files))) (\<lambda>m.
    sbind (lift_py (py_iter (jget_or m ''dependencies'' (JArr [])))) (\<lambda>ds.
    sbind (sfold (\<lambda>d (pins, rows). sbind (dependency_name d) (\<lambda>n.
        if \<not> truthy n then Inr (pins, rows)
        else (case n of
            JStr dn \<Rightarrow> sbind (pin_target env rows d dn) (\<lambda>t. (case t of
                Some r \<Rightarrow> Inr (AList.update dn (sn_id r) pins, rows)
              | None \<Rightarrow> sbind (get_or_create_snapshot depth env fresh now disk None dn rows) (\<lambda>(r, rows').
                  Inr (AList.update dn (sn_id r) pins, rows'))))
          | _ \<Rightarrow> Inl (Python Type_Error)))) ds ([], rows)) (\<lambda>(pins, rows).
    (case existing_snapshot rows name content pins of
       Some r \<Rightarrow> Inr (r, rows)
     | None \<Rightarrow> insert_snapshot env fresh now activate name content files pins rows))))))"

definition resolve_active_snapshot ::
  "nat \<Rightarrow> skill_env \<Rightarrow> (skill_row list \<Rightarrow> uuid) \<Rightarrow> time \<Rightarrow> checkout \<Rightarrow> pystr \<Rightarrow> skill_row list
    \<Rightarrow> skill_error + (skill_row \<times> skill_row list)" where
  "resolve_active_snapshot depth env fresh now disk name rows =
    sbind (get_or_create_snapshot depth env fresh now disk None name rows) (\<lambda>(_, rows').
      case active_snapshot rows' name of None \<Rightarrow> Inl No_Active_Snapshot | Some r \<Rightarrow> Inr (r, rows'))"

definition list_snapshots :: "skill_row list \<Rightarrow> pystr \<Rightarrow> skill_row list" where
  "list_snapshots rows name = sort_key (\<lambda>r. - sn_version r) (snapshots_named name rows)"

definition list_skill_names :: "skill_row list \<Rightarrow> pystr list" where
  "list_skill_names rows = sort (uniq (map sn_name rows))"

text \<open>The \<open>SkillContractError\<close> of an activation is a \<open>ValueError\<close>.\<close>

definition set_active_snapshot ::
  "skill_env \<Rightarrow> pystr \<Rightarrow> int \<Rightarrow> skill_row list \<Rightarrow> skill_error + (skill_row \<times> skill_row list)" where
  "set_active_snapshot env name version rows =
    (case find_first (\<lambda>r. sn_name r = name \<and> sn_version r = version) rows of
       None \<Rightarrow> Inl Version_Not_Found
     | Some t \<Rightarrow> sbind (validate_snapshot env rows t) (\<lambda>_.
         let rows' = map (\<lambda>r. if sn_id r = sn_id t then r\<lparr>sn_active := True\<rparr>
               else if sn_name r = name then r\<lparr>sn_active := False\<rparr> else r) rows
         in Inr (t\<lparr>sn_active := True\<rparr>, rows')))"

section \<open>Admin endpoints\<close>

definition list_skills ::
  "nat \<Rightarrow> skill_env \<Rightarrow> (skill_row list \<Rightarrow> uuid) \<Rightarrow> time \<Rightarrow> checkout \<Rightarrow> skill_row list \<Rightarrow> skill_error + (pystr list \<times> skill_row list)" where
  "list_skills depth env fresh now disk rows =
    sbind (sfold (\<lambda>name rows. sbind (get_or_create_snapshot depth env fresh now disk None name rows) (\<lambda>(_, rows'). Inr rows'))
       [u ''log-triage-summary'', u ''daily-alert-report''] rows) (\<lambda>rows'. Inr (list_skill_names rows', rows'))"

definition list_skill_versions :: "skill_row list \<Rightarrow> pystr \<Rightarrow> http_error + skill_row list" where
  "list_skill_versions rows name = (case list_snapshots rows name of
      [] \<Rightarrow> Inl (HTTP 404 (u ''No snapshots recorded for skill'')) | ss \<Rightarrow> Inr ss)"

definition activate_skill_version ::
  "skill_env \<Rightarrow> pystr \<Rightarrow> int \<Rightarrow> skill_row list \<Rightarrow> (http_error + skill_row) \<times> skill_row list" where
  "activate_skill_version env name version rows = (case set_active_snapshot env name version rows of
      Inr (r, rows') \<Rightarrow> (Inr r, rows')
    | Inl (Contract msg) \<Rightarrow> (Inl (HTTP 404 (u msg)), rows)
    | Inl Version_Not_Found \<Rightarrow> (Inl (HTTP 404 (u ''no snapshot with version_label'')), rows)
    | Inl e \<Rightarrow> (Inl (HTTP 500 (u ''Internal Server Error'')), rows))"

section \<open>Invariants of the table\<close>

text \<open>The index \<open>uq_skill_snapshots_one_active_per_name\<close>.\<close>

definition one_active_snapshot :: "skill_row list \<Rightarrow> bool" where
  "one_active_snapshot rows \<longleftrightarrow> distinct (map sn_name (filter sn_active rows))"

interpretation activated: partial_index one_active_snapshot sn_active sn_name
  by unfold_locales (rule one_active_snapshot_def)

text \<open>Two versions of a row that differ in their activation only.\<close>

definition same_content :: "skill_row \<Rightarrow> skill_row \<Rightarrow> bool" where
  "same_content r r' \<longleftrightarrow> r\<lparr>sn_active := True\<rparr> = r'\<lparr>sn_active := True\<rparr>"

definition extends :: "skill_row list \<Rightarrow> skill_row list \<Rightarrow> bool" where
  "extends rows rows' \<longleftrightarrow> list_all2 same_content rows (take (length rows) rows')"

text \<open>Every dependency that a manifest declares is pinned to a row of the table.\<close>

definition pinned_to :: "skill_env \<Rightarrow> uuid set \<Rightarrow> (pystr, uuid) pydict \<Rightarrow> json \<Rightarrow> bool" where
  "pinned_to env ids pins d \<longleftrightarrow> (\<exists>n i. dependency_name d = Inr (JStr n) \<and> n \<noteq> [] \<and> map_of pins n = Some i
     \<and> i \<noteq> [] \<and> i \<in> ids)"

definition pinned_row :: "skill_env \<Rightarrow> uuid set \<Rightarrow> skill_row \<Rightarrow> bool" where
  "pinned_row env ids r \<longleftrightarrow> (\<forall>m ds. manifest_or_empty env (sn_manifest r) = Inr m
     \<longrightarrow> py_iter (jget_or m ''dependencies'' (JArr [])) = Inr ds
     \<longrightarrow> list_all (pinned_to env ids (sn_pins r)) ds)"

definition registry_ok :: "skill_env \<Rightarrow> skill_row list \<Rightarrow> bool" where
  "registry_ok env rows \<longleftrightarrow> distinct (map sn_id rows) \<and> one_active_snapshot rows
     \<and> distinct (map (\<lambda>r. (sn_name r, sn_version r)) rows)
     \<and> (\<forall>r\<in>set rows. \<exists>s\<in>set rows. sn_active s \<and> sn_name s = sn_name r)
     \<and> (\<forall>r\<in>set rows. sn_id r \<noteq> [] \<and> pinned_row env (sn_id ` set rows) r)"

lemma same_content_refl [simp]: "same_content r r"
  by (simp add: same_content_def)

lemma same_content_fields:
  assumes "same_content r r'"
  shows "sn_id r' = sn_id r" "sn_name r' = sn_name r" "sn_version r' = sn_version r" "sn_manifest r' = sn_manifest r"
    "sn_pins r' = sn_pins r" "sn_content_hash r' = sn_content_hash r" "sn_md r' = sn_md r" "sn_schema r' = sn_schema r"
proof -
  have f: "g (r\<lparr>sn_active := True\<rparr>) = g (r'\<lparr>sn_active := True\<rparr>)" for g :: "skill_row \<Rightarrow> 'a"
    using assms unfolding same_content_def by (rule arg_cong)
  show "sn_id r' = sn_id r" using f [of sn_id] by simp
  show "sn_name r' = sn_name r" using f [of sn_name] by simp
  show "sn_version r' = sn_version r" using f [of sn_version] by simp
  show "sn_manifest r' = sn_manifest r" using f [of sn_manifest] by simp
  show "sn_pins r' = sn_pins r" using f [of sn_pins] by simp
  show "sn_content_hash r' = sn_content_hash r" using f [of sn_content_hash] by simp
  show "sn_md r' = sn_md r" using f [of sn_md] by simp
  show "sn_schema r' = sn_schema r" using f [of sn_schema] by simp
qed

lemma same_content_trans: "same_content a b \<Longrightarrow> same_content b c \<Longrightarrow> same_content a c"
  by (simp add: same_content_def)

lemma extends_refl [simp]: "extends rows rows"
  by (simp add: extends_def list_all2_refl)

lemma extends_append [simp]: "extends rows (rows @ new)"
  by (simp add: extends_def list_all2_refl)

lemma extends_trans: "extends a b \<Longrightarrow> extends b c \<Longrightarrow> extends a c"
proof -
  assume a: "extends a b" and b: "extends b c"
  have l: "length a \<le> length b" using list_all2_lengthD [OF a [unfolded extends_def]] by simp
  have "list_all2 same_content (take (length a) b) (take (length a) (take (length b) c))"
    by (rule list_all2_takeI [OF b [unfolded extends_def]])
  then have "list_all2 same_content (take (length a) b) (take (length a) c)" using l by (simp add: min_absorb1)
  with a show "extends a c" unfolding extends_def
    using list_all2_trans [of same_content same_content same_content] same_content_trans by metis
qed

lemma extends_map: "(\<And>r. r \<in> set rows \<Longrightarrow> same_content r (f r)) \<Longrightarrow> extends rows (map f rows)"
  unfolding extends_def by (simp add: list_all2_conv_all_nth)

lemma extends_memD: "extends rows rows' \<Longrightarrow> r \<in> set rows \<Longrightarrow> \<exists>r'\<in>set rows'. same_content r r'"
proof -
  assume e: "extends rows rows'" and r: "r \<in> set rows"
  obtain n where n: "n < length rows" "rows ! n = r" using r unfolding in_set_conv_nth by blast
  have "same_content r (take (length rows) rows' ! n)"
    using list_all2_nthD [OF e [unfolded extends_def] n(1)] n(2) by simp
  moreover have "take (length rows) rows' ! n \<in> set rows'"
    using n(1) list_all2_lengthD [OF e [unfolded extends_def]] by (metis in_set_takeD nth_mem)
  ultimately show ?thesis by blast
qed

lemma extends_ids: "extends rows rows' \<Longrightarrow> sn_id ` set rows \<subseteq> sn_id ` set rows'"
  using extends_memD same_content_fields(1) by (metis image_eqI image_subsetI)

lemma pinned_to_mono: "pinned_to env ids pins d \<Longrightarrow> ids \<subseteq> ids' \<Longrightarrow> pinned_to env ids' pins d"
  unfolding pinned_to_def by (elim exE conjE) (intro exI conjI, assumption+, erule subsetD, assumption)

lemma pinned_row_mono: "pinned_row env ids r \<Longrightarrow> ids \<subseteq> ids' \<Longrightarrow> pinned_row env ids' r"
  unfolding pinned_row_def using pinned_to_mono list.pred_mono_strong by (metis (no_types, lifting))

lemma pinned_row_cong: "same_content r r' \<Longrightarrow> pinned_row env ids r' = pinned_row env ids r"
  unfolding pinned_row_def by (simp add: same_content_fields)

lemma ids_map: "(\<And>r. sn_id (f r) = sn_id r) \<Longrightarrow> sn_id ` set (map f rows) = sn_id ` set rows"
  by (simp add: image_image)

text \<open>Changing flags keeps the table valid when the index holds and every name keeps an active row.\<close>

lemma registry_ok_flags:
  assumes "registry_ok env rows" "\<And>r. same_content r (f r)" "one_active_snapshot (map f rows)"
    and "\<forall>r\<in>set rows. \<exists>s\<in>set rows. sn_active (f s) \<and> sn_name s = sn_name r"
  shows "registry_ok env (map f rows) \<and> extends rows (map f rows)"
proof -
  note c = same_content_fields [OF assms(2)]
  have i: "map sn_id (map f rows) = map sn_id rows" using c(1) by simp
  have v: "map (\<lambda>r. (sn_name r, sn_version r)) (map f rows) = map (\<lambda>r. (sn_name r, sn_version r)) rows"
    using c(2,3) by simp
  have ids: "sn_id ` set (map f rows) = sn_id ` set rows" by (rule ids_map) (rule c(1))
  have a: "\<forall>r\<in>set (map f rows). \<exists>s\<in>set (map f rows). sn_active s \<and> sn_name s = sn_name r"
    using assms(4) c(2) by simp
  have p: "\<forall>r\<in>set (map f rows). sn_id r \<noteq> [] \<and> pinned_row env (sn_id ` set (map f rows)) r"
    unfolding ids using assms(1) c(1) pinned_row_cong [OF assms(2)] by (auto simp: registry_ok_def)
  show ?thesis
    unfolding registry_ok_def i v using assms(1,2,3) a p by (auto simp: registry_ok_def intro: extends_map)
qed

lemma set_active_snapshot_ok:
  assumes "set_active_snapshot env name version rows = Inr (t, rows')" "registry_ok env rows"
  shows "registry_ok env rows' \<and> extends rows rows' \<and> active_snapshot rows' name = Some t \<and> sn_version t = version"
proof -
  obtain t0 where t0: "find_first (\<lambda>r. sn_name r = name \<and> sn_version r = version) rows = Some t0"
      "t = t0\<lparr>sn_active := True\<rparr>"
    "rows' = map (\<lambda>r. if sn_id r = sn_id t0 then r\<lparr>sn_active := True\<rparr>
               else if sn_name r = name then r\<lparr>sn_active := False\<rparr> else r) rows"
    using assms(1) by (auto simp: set_active_snapshot_def Let_def split: option.splits)
  let ?f = "\<lambda>r. if sn_id r = sn_id t0 then r\<lparr>sn_active := True\<rparr>
               else if sn_name r = name then r\<lparr>sn_active := False\<rparr> else r"
  note m = find_first_Some [OF t0(1)]
  have d: "distinct (map sn_id rows)" "one_active_snapshot rows" using assms(2) by (auto simp: registry_ok_def)
  have only: "r = t0" if "r \<in> set rows" "sn_id r = sn_id t0" for r
    using that m d(1) by (metis distinct_map inj_onD)
  have act: "sn_active (?f r) \<and> sn_name r = name \<longleftrightarrow> r = t0" if "r \<in> set rows" for r
    using only [OF that] m by auto
  have uniq: "one_active_snapshot (map ?f rows)"
  proof -
    have keep: "sn_active (?f r) \<longleftrightarrow> (if sn_name r = name then r = t0 else sn_active r)" if "r \<in> set rows" for r
      using only [OF that] m by auto
    have "distinct (map sn_name (filter (\<lambda>r. sn_active (?f r)) rows))"
    proof -
      have "filter (\<lambda>r. sn_active (?f r)) rows = filter (\<lambda>r. if sn_name r = name then r = t0 else sn_active r) rows"
        using keep by (simp cong: filter_cong)
      moreover have "distinct (map sn_name (filter (\<lambda>r. if sn_name r = name then r = t0 else sn_active r) rows))"
      proof -
        have "distinct rows" using d(1) by (simp add: distinct_map)
        moreover have "inj_on sn_name {r \<in> set rows. if sn_name r = name then r = t0 else sn_active r}"
          using activated.holder_unique [OF d(2)] unfolding inj_on_def by (auto split: if_splits)
        ultimately show ?thesis by (simp add: distinct_map)
      qed
      ultimately show ?thesis by simp
    qed
    moreover have "map sn_name (filter sn_active (map ?f rows)) = map sn_name (filter (\<lambda>r. sn_active (?f r)) rows)"
      by (induction rows) simp_all
    ultimately show ?thesis by (simp add: one_active_snapshot_def)
  qed
  have ex: "\<forall>r\<in>set rows. \<exists>s\<in>set rows. sn_active (?f s) \<and> sn_name s = sn_name r"
  proof
    fix r assume r: "r \<in> set rows"
    show "\<exists>s\<in>set rows. sn_active (?f s) \<and> sn_name s = sn_name r"
    proof (cases "sn_name r = name")
      case True
      then show ?thesis using m by auto
    next
      case False
      obtain s where "s \<in> set rows" "sn_active s" "sn_name s = sn_name r" using r assms(2) by (auto simp: registry_ok_def)
      then show ?thesis using False by (intro bexI [of _ s]) auto
    qed
  qed
  have "registry_ok env (map ?f rows) \<and> extends rows (map ?f rows)"
    by (rule registry_ok_flags [OF assms(2) _ uniq ex]) (simp add: same_content_def)
  then have ok: "registry_ok env rows'" "extends rows rows'" by (simp_all add: t0(3))
  have "t \<in> set rows'" using m by (force simp: t0)
  then have "active_snapshot rows' name = Some t"
    using activated.lookup_holder [of rows' t] ok(1) m by (simp add: active_snapshot_def registry_ok_def t0(2))
  then show ?thesis using ok m t0(2) by simp
qed

lemma fold_max_ge: "(x::int) \<in> set xs \<or> x \<le> a \<Longrightarrow> x \<le> fold max xs a"
proof (induction xs arbitrary: a)
  case (Cons y xs)
  have "x \<in> set xs \<or> x \<le> max y a" using Cons.prems by (auto simp only: list.set insert_iff le_max_iff_disj)
  then show ?case using Cons.IH by simp
qed simp

lemma next_version_fresh: "r \<in> set rows \<Longrightarrow> sn_name r = name \<Longrightarrow> sn_version r < next_version rows name"
  using fold_max_ge [of "sn_version r" "map sn_version (snapshots_named name rows)" 0]
  by (simp add: next_version_def snapshots_named_def)

definition fresh_ids :: "(skill_row list \<Rightarrow> uuid) \<Rightarrow> bool" where
  "fresh_ids fresh \<longleftrightarrow> (\<forall>rows. fresh rows \<noteq> [] \<and> fresh rows \<notin> sn_id ` set rows)"

lemma deactivate_content [simp]: "same_content r (if sn_name r = name then r\<lparr>sn_active := False\<rparr> else r)"
  by (simp add: same_content_def)

lemma extends_deactivate: "extends rows (deactivate name rows)"
  unfolding deactivate_def by (rule extends_map) simp

lemma map_deactivate [simp]:
  "map sn_id (deactivate name rows) = map sn_id rows"
  "map (\<lambda>r. (sn_name r, sn_version r)) (deactivate name rows) = map (\<lambda>r. (sn_name r, sn_version r)) rows"
  by (auto simp: deactivate_def)

lemma deactivate_mem:
  assumes "r \<in> set (deactivate name rows)"
  obtains q where "q \<in> set rows" "r = (if sn_name q = name then q\<lparr>sn_active := False\<rparr> else q)"
  using assms unfolding deactivate_def set_map by (elim imageE)

lemma deactivate_other: "r \<in> set rows \<Longrightarrow> sn_name r \<noteq> name \<Longrightarrow> r \<in> set (deactivate name rows)"
  unfolding deactivate_def set_map by (rule image_eqI [of _ _ r]) simp_all

text \<open>A new row: its pins cover its manifest, and it is active when its name had no row.\<close>

lemma smap_Inr_mem: "smap f xs = Inr ys \<Longrightarrow> x \<in> set xs \<Longrightarrow> \<exists>y. f x = Inr y"
  by (induction xs arbitrary: ys) auto

text \<open>A validated snapshot names all its dependencies.\<close>

lemma validate_snapshot_names:
  assumes "validate_snapshot env rows s = Inr ()" "manifest_or_empty env (sn_manifest s) = Inr m"
    and "py_iter (jget_or m ''dependencies'' (JArr [])) = Inr ds" "d \<in> set ds"
  shows "\<exists>n. dependency_name d = Inr n \<and> truthy n"
proof -
  have g: "validate_dependency_graph env rows s [] = Inr ()" using assms(1) by (auto simp: validate_snapshot_def)
  obtain m' where m': "se_yaml env (sn_manifest s) = Some m'" "is_dict m'"
    using assms(1) by (auto simp: validate_snapshot_def load_manifest_def split: option.splits if_splits)
  have "m = por m' (JObj [])" using assms(2) m' by (auto simp: manifest_or_empty_def Let_def split: if_splits)
  then have "m = m'" using m'(2) by (cases m') (auto simp: por_def)
  then have l: "load_manifest env s = Inr m" using m' by (simp add: load_manifest_def)
  obtain xs where xs: "jget_or m ''dependencies'' (JArr []) = JArr xs"
      "\<exists>v. smap (\<lambda>d. sbind (resolve_dependency_snapshot env rows d (sn_pins s)) (\<lambda>c.
             validate_dependency_graph env rows c [sn_name s])) xs = Inr v"
    using g l by (subst (asm) validate_dependency_graph.simps) (auto split: json.splits)
  have "d \<in> set xs" using assms(3,4) xs(1) by simp
  then obtain c where "resolve_dependency_snapshot env rows d (sn_pins s) = Inr c"
    using xs(2) smap_Inr_mem by fastforce
  then show ?thesis
    by (cases d) (auto simp: resolve_dependency_snapshot_def dependency_parts_def dependency_name_def split: if_splits)
qed

lemma insert_snapshot_ok:
  assumes "insert_snapshot env fresh now activate name content files pins rows = Inr (s, rows')"
    and ok: "registry_ok env rows" and fresh: "fresh_ids fresh"
    and pins: "\<And>m ds d. manifest_or_empty env (snd (snd files)) = Inr m
      \<Longrightarrow> py_iter (jget_or m ''dependencies'' (JArr [])) = Inr ds \<Longrightarrow> d \<in> set ds
      \<Longrightarrow> (\<exists>n. dependency_name d = Inr n \<and> \<not> truthy n) \<or> pinned_to env (sn_id ` set rows) pins d"
    and act: "activate \<noteq> Some False"
  shows "registry_ok env rows' \<and> extends rows rows' \<and> s \<in> set rows' \<and> sn_name s = name"
proof -
  define on where "on = (case activate of Some b \<Rightarrow> b | None \<Rightarrow> (snapshots_named name rows = []))"
  define base where "base = (if on then deactivate name rows else rows)"
  obtain h where val: "validate_snapshot env base \<lparr>sn_id = fresh rows, sn_name = name, sn_version = next_version rows name,
         sn_content_hash = content, sn_execution_hash = None, sn_md = fst files, sn_schema = fst (snd files),
         sn_manifest = snd (snd files), sn_pins = pins, sn_created = now, sn_active = on\<rparr> = Inr ()"
    and s: "s = \<lparr>sn_id = fresh rows, sn_name = name, sn_version = next_version rows name, sn_content_hash = content,
         sn_execution_hash = Some h, sn_md = fst files, sn_schema = fst (snd files), sn_manifest = snd (snd files),
         sn_pins = pins, sn_created = now, sn_active = on\<rparr>" "rows' = base @ [s]"
    using assms(1) unfolding insert_snapshot_def Let_def on_def [symmetric] base_def [symmetric] by auto
  have f: "sn_id s = fresh rows" "sn_name s = name" "sn_version s = next_version rows name" "sn_manifest s = snd (snd files)"
      "sn_pins s = pins" "sn_active s = on"
    by (simp_all add: s(1))
  have ext: "extends rows base" using extends_deactivate by (simp add: base_def)
  have ids: "map sn_id base = map sn_id rows" by (simp add: base_def)
  then have idset: "sn_id ` set base = sn_id ` set rows" by (metis list.set_map)
  have vs: "map (\<lambda>r. (sn_name r, sn_version r)) base = map (\<lambda>r. (sn_name r, sn_version r)) rows" by (simp add: base_def)
  then have vset: "(\<lambda>r. (sn_name r, sn_version r)) ` set base = (\<lambda>r. (sn_name r, sn_version r)) ` set rows"
    by (metis list.set_map)
  have "distinct (map sn_id rows')"
    using ok fresh ids idset by (auto simp: s(2) f registry_ok_def fresh_ids_def)
  moreover have "distinct (map (\<lambda>r. (sn_name r, sn_version r)) rows')"
  proof -
    have "(name, next_version rows name) \<notin> (\<lambda>r. (sn_name r, sn_version r)) ` set rows"
      using next_version_fresh by fastforce
    then show ?thesis using ok vs vset by (simp add: s(2) f registry_ok_def)
  qed
  moreover have "one_active_snapshot rows'"
  proof -
    have v: "one_active_snapshot base"
    proof (cases on)
      case True
      then show ?thesis using ok unfolding base_def deactivate_def registry_ok_def
        by (auto intro!: activated.valid_update split: if_splits)
    qed (use ok in \<open>simp add: base_def registry_ok_def\<close>)
    have "sn_active s \<Longrightarrow> \<forall>r\<in>set base. sn_active r \<longrightarrow> sn_name r \<noteq> sn_name s"
    proof
      fix r assume a: "sn_active s" "r \<in> set base"
      then have "r \<in> set (deactivate name rows)" by (simp only: f base_def if_True)
      then obtain q where "r = (if sn_name q = name then q\<lparr>sn_active := False\<rparr> else q)" by (rule deactivate_mem)
      then show "sn_active r \<longrightarrow> sn_name r \<noteq> sn_name s" by (simp add: f(2))
    qed
    with v show ?thesis unfolding s(2) by (rule activated.valid_insert)
  qed
  moreover have "\<forall>r\<in>set rows'. \<exists>x\<in>set rows'. sn_active x \<and> sn_name x = sn_name r"
  proof
    fix r assume r: "r \<in> set rows'"
    show "\<exists>x\<in>set rows'. sn_active x \<and> sn_name x = sn_name r"
    proof (cases "on \<and> sn_name r = name")
      case True
      then show ?thesis by (intro bexI [of _ s]) (simp_all add: s(2) f)
    next
      case False
      have "\<exists>r0\<in>set rows. sn_name r0 = sn_name r"
      proof (cases "r = s")
        case True
        then have "snapshots_named name rows \<noteq> []" using False act by (auto simp: f on_def split: option.splits)
        then show ?thesis using True by (auto simp: snapshots_named_def filter_empty_conv f)
      next
        case False
        then have "r \<in> set base" using r by (simp add: s(2))
        then show ?thesis
        proof (cases on)
          case True
          with \<open>r \<in> set base\<close> obtain q where "q \<in> set rows" "r = (if sn_name q = name then q\<lparr>sn_active := False\<rparr> else q)"
            unfolding base_def by (auto elim: deactivate_mem)
          then show ?thesis by (intro bexI [of _ q]) simp_all
        qed (use \<open>r \<in> set base\<close> in \<open>auto simp: base_def\<close>)
      qed
      then obtain x where x: "x \<in> set rows" "sn_active x" "sn_name x = sn_name r" using ok by (auto simp: registry_ok_def)
      then have "x \<in> set base" using False deactivate_other by (simp add: base_def)
      then show ?thesis using x by (auto simp: s(2))
    qed
  qed
  moreover have "sn_id r \<noteq> [] \<and> pinned_row env (sn_id ` set rows') r" if r: "r \<in> set rows'" for r
  proof -
    have sub: "sn_id ` set rows \<subseteq> sn_id ` set rows'" using idset by (auto simp: s(2))
    show ?thesis
    proof (cases "r = s")
      case True
      have "pinned_to env (sn_id ` set rows) pins d"
        if "manifest_or_empty env (snd (snd files)) = Inr m" "py_iter (jget_or m ''dependencies'' (JArr [])) = Inr ds"
          "d \<in> set ds" for m ds d
        using pins [OF that] validate_snapshot_names [OF val _ that(2,3)] that(1) by auto
      then have "pinned_row env (sn_id ` set rows) s" by (simp add: pinned_row_def f list_all_iff)
      then show ?thesis using True pinned_row_mono [OF _ sub] fresh by (simp add: f fresh_ids_def)
    next
      case False
      then have "r \<in> set base" using r by (simp add: s(2))
      then obtain r0 where r0: "r0 \<in> set rows" "same_content r0 r"
        unfolding base_def by (cases on) (auto elim!: deactivate_mem)
      then have "sn_id r0 \<noteq> []" "pinned_row env (sn_id ` set rows) r0" using ok by (auto simp: registry_ok_def)
      then show ?thesis using r0 pinned_row_cong [OF r0(2)] pinned_row_mono [OF _ sub] same_content_fields(1) [OF r0(2)] by simp
    qed
  qed
  ultimately have "registry_ok env rows'" unfolding registry_ok_def by blast
  moreover have "extends rows rows'" using extends_trans [OF ext] by (simp add: s(2))
  ultimately show ?thesis by (simp add: s(2) f)
qed

text \<open>The loop over the declared dependencies: what it records about each of them.\<close>

definition loop_ok :: "skill_env \<Rightarrow> skill_row list \<Rightarrow> (pystr, uuid) pydict \<times> skill_row list \<Rightarrow> bool" where
  "loop_ok env rows0 st \<longleftrightarrow> registry_ok env (snd st) \<and> extends rows0 (snd st)
     \<and> (\<forall>n i. map_of (fst st) n = Some i \<longrightarrow> i \<noteq> [] \<and> i \<in> sn_id ` set (snd st))"

definition recorded :: "skill_env \<Rightarrow> json \<Rightarrow> (pystr, uuid) pydict \<times> skill_row list \<Rightarrow> bool" where
  "recorded env d st \<longleftrightarrow> (\<exists>n. dependency_name d = Inr n \<and> \<not> truthy n) \<or> pinned_to env (sn_id ` set (snd st)) (fst st) d"

lemma loop_ok_pin:
  assumes "loop_ok env rows0 (pins, rows)" "registry_ok env rows'" "extends rows rows'" "r \<in> set rows'"
  shows "loop_ok env rows0 (AList.update n (sn_id r) pins, rows')"
proof -
  have "sn_id r \<noteq> []" using assms(2,4) by (simp add: registry_ok_def)
  then show ?thesis
    using assms extends_trans extends_ids [OF assms(3)] by (auto simp: loop_ok_def map_of_update_conv split: if_splits)
qed

lemma recorded_pin:
  assumes "dependency_name d = Inr (JStr n)" "n \<noteq> []" "registry_ok env rows'" "r \<in> set rows'"
  shows "recorded env d (AList.update n (sn_id r) pins, rows')"
  using assms by (auto simp: recorded_def pinned_to_def map_of_update_conv registry_ok_def)

lemma recorded_keep:
  assumes "recorded env d (pins, rows)" "extends rows rows'" "registry_ok env rows'" "r \<in> set rows'"
  shows "recorded env d (AList.update n (sn_id r) pins, rows')"
proof -
  have "pinned_to env (sn_id ` set rows') (AList.update n (sn_id r) pins) d"
    if p: "pinned_to env (sn_id ` set rows) pins d"
  proof -
    obtain k i where k: "dependency_name d = Inr (JStr k)" "k \<noteq> []" "map_of pins k = Some i" "i \<noteq> []" "i \<in> sn_id ` set rows"
      using p unfolding pinned_to_def by blast
    show ?thesis
    proof (cases "k = n")
      case True
      then show ?thesis using k assms(3,4) by (auto simp: pinned_to_def map_of_update_conv registry_ok_def)
    next
      case False
      then show ?thesis using k extends_ids [OF assms(2)] by (auto simp: pinned_to_def map_of_update_conv)
    qed
  qed
  then show ?thesis using assms(1) by (auto simp: recorded_def)
qed

lemma existing_snapshot_mem: "existing_snapshot rows name content pins = Some r \<Longrightarrow> r \<in> set rows \<and> sn_name r = name"
  unfolding existing_snapshot_def by (drule find_first_Some) (simp add: snapshots_named_def)

lemma pin_target_mem: "pin_target env rows d n = Inr (Some r) \<Longrightarrow> r \<in> set rows"
  by (auto simp: pin_target_def active_snapshot_def split: option.splits dest: find_first_Some)

lemma get_or_create_ok:
  "get_or_create_snapshot depth env fresh now disk activate name rows = Inr (r, rows') \<Longrightarrow> registry_ok env rows
    \<Longrightarrow> fresh_ids fresh \<Longrightarrow> activate \<noteq> Some False
    \<Longrightarrow> registry_ok env rows' \<and> extends rows rows' \<and> r \<in> set rows' \<and> sn_name r = name"
proof (induction depth arbitrary: activate name rows r rows')
  case (Suc depth)
  let ?step = "\<lambda>d (pins, rows). sbind (dependency_name d) (\<lambda>n.
        if \<not> truthy n then Inr (pins, rows)
        else (case n of
            JStr dn \<Rightarrow> sbind (pin_target env rows d dn) (\<lambda>t. (case t of
                Some r \<Rightarrow> Inr (AList.update dn (sn_id r) pins, rows)
              | None \<Rightarrow> sbind (get_or_create_snapshot depth env fresh now disk None dn rows) (\<lambda>(r, rows').
                  Inr (AList.update dn (sn_id r) pins, rows'))))
          | _ \<Rightarrow> Inl (Python Type_Error)))"
  obtain content files m ds pins rows1 where s: "read_skill_files disk name = Inr files"
      "manifest_or_empty env (snd (snd files)) = Inr m" "py_iter (jget_or m ''dependencies'' (JArr [])) = Inr ds"
      "sfold ?step ds ([], rows) = Inr (pins, rows1)"
      "(case existing_snapshot rows1 name content pins of Some r \<Rightarrow> Inr (r, rows1)
        | None \<Rightarrow> insert_snapshot env fresh now activate name content files pins rows1) = Inr (r, rows')"
    using Suc.prems(1) by (auto simp del: sfold.simps)
  have step: "loop_ok env rows t \<and> recorded env d t" "\<And>e. recorded env e st \<Longrightarrow> recorded env e t"
    if d: "loop_ok env rows st" "?step d st = Inr t" for d st t
  proof -
    obtain ps rs where st: "st = (ps, rs)" by (cases st)
    obtain n where n: "dependency_name d = Inr n" using d(2) by (auto simp: st)
    have "(loop_ok env rows t \<and> recorded env d t) \<and> (\<forall>e. recorded env e st \<longrightarrow> recorded env e t)"
    proof (cases "truthy n")
      case False
      then show ?thesis using d n by (auto simp: st recorded_def)
    next
      case True
      obtain dn where dn: "n = JStr dn" "dn \<noteq> []" using d(2) n True by (cases n) (auto simp: st)
      obtain x rs' where x: "t = (AList.update dn (sn_id x) ps, rs')" "registry_ok env rs'" "extends rs rs'" "x \<in> set rs'"
      proof -
        obtain tg where tg: "pin_target env rs d dn = Inr tg" using d(2) n dn by (auto simp: st)
        show thesis
        proof (cases tg)
          case (Some y)
          then show ?thesis using that [of y rs] d n dn tg pin_target_mem by (auto simp: st loop_ok_def)
        next
          case None
          then obtain y ys where "get_or_create_snapshot depth env fresh now disk None dn rs = Inr (y, ys)"
              "t = (AList.update dn (sn_id y) ps, ys)"
            using d(2) n dn tg by (auto simp: st)
          then show ?thesis using that [of y ys] Suc.IH [of None dn rs y ys] d(1) Suc.prems(3) by (simp add: st loop_ok_def)
        qed
      qed
      then show ?thesis
        using loop_ok_pin [OF d(1) [unfolded st] x(2-4)] recorded_pin [OF n [unfolded dn(1)] dn(2) x(2,4)] recorded_keep st by auto
    qed
    then show "loop_ok env rows t \<and> recorded env d t" "\<And>e. recorded env e st \<Longrightarrow> recorded env e t" by blast+
  qed
  have "loop_ok env rows (pins, rows1) \<and> (\<forall>d\<in>set ds. recorded env d (pins, rows1))"
  proof (rule sfold_each [where P = "loop_ok env rows" and Q = "recorded env", OF s(4)])
    show "loop_ok env rows ([], rows)" using Suc.prems(2) by (simp add: loop_ok_def)
    show "\<And>d st t. d \<in> set ds \<Longrightarrow> loop_ok env rows st \<Longrightarrow> ?step d st = Inr t \<Longrightarrow> loop_ok env rows t \<and> recorded env d t"
      by (rule step(1))
    show "\<And>e d st t. loop_ok env rows st \<Longrightarrow> recorded env e st \<Longrightarrow> ?step d st = Inr t \<Longrightarrow> recorded env e t"
      by (rule step(2))
  qed
  then have l: "registry_ok env rows1" "extends rows rows1" "\<And>d. d \<in> set ds \<Longrightarrow> recorded env d (pins, rows1)"
    by (auto simp: loop_ok_def)
  show ?case
  proof (cases "existing_snapshot rows1 name content pins")
    case None
    then have "insert_snapshot env fresh now activate name content files pins rows1 = Inr (r, rows')" using s(5) by simp
    then have "registry_ok env rows' \<and> extends rows1 rows' \<and> r \<in> set rows' \<and> sn_name r = name"
      by (rule insert_snapshot_ok [OF _ l(1) Suc.prems(3)])
        (use l(3) s(2,3) Suc.prems(4) in \<open>auto simp: recorded_def\<close>)
    then show ?thesis using l(2) extends_trans by blast
  next
    case (Some x)
    then show ?thesis using s(5) l existing_snapshot_mem [OF Some] by simp
  qed
qed simp

section \<open>Synchronisation only appends\<close>

lemma deactivate_unnamed: "snapshots_named name rows = [] \<Longrightarrow> deactivate name rows = rows"
  unfolding deactivate_def snapshots_named_def by (rule map_idI) (auto simp: filter_empty_conv)

lemma insert_snapshot_appends:
  "insert_snapshot env fresh now None name content files pins rows = Inr (s, rows') \<Longrightarrow> rows' = rows @ [s]"
  using deactivate_unnamed [of name rows] by (auto simp: insert_snapshot_def Let_def split: if_splits)

lemma get_or_create_appends:
  "get_or_create_snapshot depth env fresh now disk None name rows = Inr (r, rows') \<Longrightarrow> \<exists>new. rows' = rows @ new"
proof (induction depth arbitrary: name rows r rows')
  case (Suc depth)
  let ?step = "\<lambda>d (pins, rows). sbind (dependency_name d) (\<lambda>n.
        if \<not> truthy n then Inr (pins, rows)
        else (case n of
            JStr dn \<Rightarrow> sbind (pin_target env rows d dn) (\<lambda>t. (case t of
                Some r \<Rightarrow> Inr (AList.update dn (sn_id r) pins, rows)
              | None \<Rightarrow> sbind (get_or_create_snapshot depth env fresh now disk None dn rows) (\<lambda>(r, rows').
                  Inr (AList.update dn (sn_id r) pins, rows'))))
          | _ \<Rightarrow> Inl (Python Type_Error)))"
  obtain content files m ds pins rows1 where s: "sfold ?step ds ([], rows) = Inr (pins, rows1)"
      "(case existing_snapshot rows1 name content pins of Some r \<Rightarrow> Inr (r, rows1)
        | None \<Rightarrow> insert_snapshot env fresh now None name content files pins rows1) = Inr (r, rows')"
    using Suc.prems(1) by (auto simp del: sfold.simps)
  have step: "\<exists>new. snd t = rows @ new" if d: "\<exists>new. snd st = rows @ new" "?step d st = Inr t" for d st t
  proof -
    obtain ps rs a where st: "st = (ps, rs)" "rs = rows @ a" using d(1) by (cases st) auto
    obtain n where n: "dependency_name d = Inr n" using d(2) by (auto simp: st)
    show ?thesis
    proof (cases "truthy n")
      case True
      obtain dn where dn: "n = JStr dn" "dn \<noteq> []" using d(2) n True by (cases n) (auto simp: st)
      obtain tg where tg: "pin_target env rs d dn = Inr tg" using d(2) n dn by (auto simp: st)
      show ?thesis
      proof (cases tg)
        case None
        then obtain y ys where "get_or_create_snapshot depth env fresh now disk None dn rs = Inr (y, ys)" "snd t = ys"
          using d(2) n dn tg by (auto simp: st)
        then show ?thesis using Suc.IH [of dn rs y ys] st(2) by auto
      qed (use d(2) n dn tg in \<open>auto simp: st\<close>)
    qed (use d(2) n in \<open>auto simp: st\<close>)
  qed
  have "\<exists>new. snd (pins, rows1) = rows @ new"
  proof (rule sfold_invariant [where P = "\<lambda>st. \<exists>new. snd st = rows @ new", OF s(1)])
    show "\<And>d st t. d \<in> set ds \<Longrightarrow> \<exists>new. snd st = rows @ new \<Longrightarrow> ?step d st = Inr t \<Longrightarrow> \<exists>new. snd t = rows @ new"
      by (rule step)
  qed simp
  then show ?case using s(2) insert_snapshot_appends by (fastforce split: option.splits)
qed simp

section \<open>Histories of the registry\<close>

text \<open>Registrations of whatever the checkout holds, and activations.\<close>

inductive registry_step :: "skill_env \<Rightarrow> (skill_row list \<Rightarrow> uuid) \<Rightarrow> skill_row list \<Rightarrow> skill_row list \<Rightarrow> bool"
  for env fresh where
  Register: "get_or_create_snapshot depth env fresh now disk None name rows = Inr (r, rows')
    \<Longrightarrow> registry_step env fresh rows rows'"
| Activate: "set_active_snapshot env name version rows = Inr (r, rows') \<Longrightarrow> registry_step env fresh rows rows'"

inductive registration :: "skill_env \<Rightarrow> (skill_row list \<Rightarrow> uuid) \<Rightarrow> skill_row list \<Rightarrow> skill_row list \<Rightarrow> bool"
  for env fresh where
  "get_or_create_snapshot depth env fresh now disk None name rows = Inr (r, rows') \<Longrightarrow> registration env fresh rows rows'"

lemma registry_step_ok:
  "registry_step env fresh rows rows' \<Longrightarrow> registry_ok env rows \<Longrightarrow> fresh_ids fresh
    \<Longrightarrow> registry_ok env rows' \<and> extends rows rows'"
  by (induction rule: registry_step.induct) (auto dest: get_or_create_ok set_active_snapshot_ok)

lemma registry_steps_ok:
  "(registry_step env fresh)\<^sup>*\<^sup>* rows rows' \<Longrightarrow> registry_ok env rows \<Longrightarrow> fresh_ids fresh
    \<Longrightarrow> registry_ok env rows' \<and> extends rows rows'"
  by (induction rule: rtranclp_induct) (auto dest: registry_step_ok intro: extends_trans)

lemma registrations_append:
  "(registration env fresh)\<^sup>*\<^sup>* rows rows' \<Longrightarrow> registry_ok env rows \<Longrightarrow> fresh_ids fresh
    \<Longrightarrow> registry_ok env rows' \<and> (\<exists>new. rows' = rows @ new)"
proof (induction rule: rtranclp_induct)
  case (step y z)
  then obtain depth now disk name r where g: "get_or_create_snapshot depth env fresh now disk None name y = Inr (r, z)"
    by (auto elim: registration.cases)
  then have "registry_ok env z" using get_or_create_ok [OF g] step by simp
  then show ?case using get_or_create_appends [OF g] step by auto
qed simp

section \<open>Stack depth\<close>

text \<open>Only the registry's own recursion can exhaust the stack.\<close>

definition no_limit :: "skill_error + 'a \<Rightarrow> bool" where
  "no_limit x \<longleftrightarrow> x \<noteq> Inl Recursion_Limit"

named_theorems no_limit_rules

lemma no_limit_Inr [simp]: "no_limit (Inr x)"
  by (simp add: no_limit_def)

lemma no_limit_Inl [simp]: "no_limit (Inl e) \<longleftrightarrow> e \<noteq> Recursion_Limit"
  by (simp add: no_limit_def)

lemma no_limit_sbind: "no_limit x \<Longrightarrow> (\<And>v. x = Inr v \<Longrightarrow> no_limit (f v)) \<Longrightarrow> no_limit (sbind x f)"
  by (cases x) auto

lemma no_limit_smap: "(\<And>x. x \<in> set xs \<Longrightarrow> no_limit (f x)) \<Longrightarrow> no_limit (smap f xs)"
  by (induction xs) (auto intro!: no_limit_sbind)

lemma no_limit_sfold: "(\<And>x s. x \<in> set xs \<Longrightarrow> no_limit (f x s)) \<Longrightarrow> no_limit (sfold f xs s)"
  by (induction xs arbitrary: s) (auto intro!: no_limit_sbind)

lemma no_limit_lift [no_limit_rules]: "no_limit (lift_py x)"
  by (cases x) auto

lemma no_limit_check [no_limit_rules]: "no_limit (contract_check ok msg)"
  by (simp add: contract_check_def guard_def)

lemma no_limit_check_in [no_limit_rules]: "no_limit (contract_check_in v xs msg)"
  unfolding contract_check_in_def by (intro no_limit_sbind no_limit_rules)

lemma no_limit_loads [no_limit_rules]: "no_limit (load_manifest env s)" "no_limit (load_schema env s)"
  "no_limit (manifest_or_empty env text)" "no_limit (requested_version env v)" "no_limit (dependency_parts d)"
  "no_limit (dependency_name d)" "no_limit (dependency_version env d)" "no_limit (compute_skill_hash env disk name)"
  "no_limit (read_skill_files disk name)"
  by (auto simp: load_manifest_def load_schema_def manifest_or_empty_def requested_version_def dependency_parts_def Let_def
      dependency_name_def dependency_version_def compute_skill_hash_def read_skill_files_def split: option.split json.split)

lemma no_limit_resolve [no_limit_rules]: "no_limit (resolve_dependency_snapshot env rows d pins)"
  unfolding resolve_dependency_snapshot_def
  by (auto intro!: no_limit_sbind no_limit_rules split: option.split prod.split)

lemma no_limit_graph [no_limit_rules]: "no_limit (validate_dependency_graph env rows s active)"
proof (induction env rows s active rule: validate_dependency_graph.induct)
  case (1 env rows s active)
  show ?case
    by (subst validate_dependency_graph.simps)
      (auto intro!: no_limit_sbind no_limit_smap no_limit_rules 1 split: json.split)
qed

lemma no_limit_export [no_limit_rules]: "no_limit (check_export env s exports kind supported output)"
  unfolding check_export_def Let_def by (auto intro!: no_limit_sbind no_limit_rules)

lemma no_limit_exports [no_limit_rules]: "no_limit (check_exports env s exports)"
  unfolding check_exports_def by (auto intro!: no_limit_sbind no_limit_rules)

lemma no_limit_coverage [no_limit_rules]: "no_limit (check_coverage_policy c)"
  unfolding check_coverage_policy_def by (auto intro!: no_limit_sbind no_limit_sfold no_limit_rules simp del: sfold.simps)

lemma no_limit_fields [no_limit_rules]: "no_limit (check_path_fields d a b)"
  unfolding check_path_fields_def Let_def by (auto intro!: no_limit_sbind no_limit_rules)

lemma no_limit_collection [no_limit_rules]: "no_limit (check_collection c)"
  unfolding check_collection_def by (auto intro!: no_limit_sbind no_limit_rules)

lemma no_limit_projection [no_limit_rules]: "no_limit (check_input_projection p)"
  unfolding check_input_projection_def Let_def by (auto intro!: no_limit_sbind no_limit_sfold no_limit_rules)

lemma no_limit_input [no_limit_rules]: "no_limit (validate_input env s p)"
  unfolding validate_input_def Let_def by (auto intro!: no_limit_sbind no_limit_rules)

lemma no_limit_validate [no_limit_rules]: "no_limit (validate_snapshot env rows s)"
  unfolding validate_snapshot_def Let_def
  by (intro no_limit_sbind no_limit_rules) (simp_all add: no_limit_rules)

lemma no_limit_child [no_limit_rules]: "no_limit (dependency_child env rows s d)"
  unfolding dependency_child_def dependency_snapshot_def
  by (auto intro!: no_limit_sbind no_limit_rules split: option.split)

lemma no_limit_execution_hash [no_limit_rules]: "no_limit (compute_execution_hash env rows s active)"
proof (induction env rows s active rule: compute_execution_hash.induct)
  case (1 env rows s active)
  show ?case
    by (subst compute_execution_hash.simps) (auto intro!: no_limit_sbind no_limit_smap no_limit_rules 1)
qed

lemma no_limit_insert [no_limit_rules]: "no_limit (insert_snapshot env fresh now activate name content files pins rows)"
  unfolding insert_snapshot_def Let_def by (intro no_limit_sbind no_limit_rules no_limit_Inr)

lemma no_limit_pin_target [no_limit_rules]: "no_limit (pin_target env rows d name)"
  unfolding pin_target_def by (intro no_limit_sbind no_limit_rules no_limit_Inr)

text \<open>The names that the manifest in the checkout depends on.\<close>

definition checkout_dependencies :: "skill_env \<Rightarrow> checkout \<Rightarrow> pystr \<Rightarrow> pystr set" where
  "checkout_dependencies env disk name = {n. \<exists>files m ds. read_skill_files disk name = Inr files
     \<and> manifest_or_empty env (snd (snd files)) = Inr m \<and> py_iter (jget_or m ''dependencies'' (JArr [])) = Inr ds
     \<and> (\<exists>d\<in>set ds. dependency_name d = Inr (JStr n)) \<and> n \<noteq> []}"

lemma get_or_create_depth:
  assumes rank: "\<And>a b. b \<in> checkout_dependencies env disk a \<Longrightarrow> rank b < (rank a :: nat)"
  shows "rank name < depth \<Longrightarrow> no_limit (get_or_create_snapshot depth env fresh now disk activate name rows)
    \<and> (rank name < depth' \<longrightarrow> get_or_create_snapshot depth' env fresh now disk activate name rows
         = get_or_create_snapshot depth env fresh now disk activate name rows)"
proof (induction depth arbitrary: depth' activate name rows)
  case (Suc d)
  let ?step = "\<lambda>dep d (pins, rows). sbind (dependency_name d) (\<lambda>n.
        if \<not> truthy n then Inr (pins, rows)
        else (case n of
            JStr dn \<Rightarrow> sbind (pin_target env rows d dn) (\<lambda>t. (case t of
                Some r \<Rightarrow> Inr (AList.update dn (sn_id r) pins, rows)
              | None \<Rightarrow> sbind (get_or_create_snapshot dep env fresh now disk None dn rows) (\<lambda>(r, rows').
                  Inr (AList.update dn (sn_id r) pins, rows'))))
          | _ \<Rightarrow> Inl (Python Type_Error)))"
  have dep: "rank n < d \<and> rank n < rank name"
    if "read_skill_files disk name = Inr files" "manifest_or_empty env (snd (snd files)) = Inr m"
      "py_iter (jget_or m ''dependencies'' (JArr [])) = Inr ds" "x \<in> set ds" "dependency_name x = Inr (JStr n)" "n \<noteq> []"
    for files m ds x n
  proof -
    have "n \<in> checkout_dependencies env disk name" using that by (auto simp: checkout_dependencies_def)
    from rank [OF this] show ?thesis using Suc.prems by simp
  qed
  have lim: "no_limit (?step d x st)"
    if "read_skill_files disk name = Inr files" "manifest_or_empty env (snd (snd files)) = Inr m"
      "py_iter (jget_or m ''dependencies'' (JArr [])) = Inr ds" "x \<in> set ds" for files m ds x st
  proof -
    obtain ps rs where st: "st = (ps, rs)" by (cases st)
    have g: "no_limit (get_or_create_snapshot d env fresh now disk None n rs)"
      if "dependency_name x = Inr (JStr n)" "n \<noteq> []" for n
      using Suc.IH [where name = n and activate = None and rows = rs] dep [OF \<open>read_skill_files disk name = Inr files\<close>
          \<open>manifest_or_empty env (snd (snd files)) = Inr m\<close> \<open>py_iter _ = Inr ds\<close> \<open>x \<in> set ds\<close> that] by blast
    show ?thesis
      unfolding st prod.case
    proof (rule no_limit_sbind)
      fix v assume v: "dependency_name x = Inr v"
      show "no_limit (if \<not> truthy v then Inr (ps, rs)
        else (case v of
            JStr dn \<Rightarrow> sbind (pin_target env rs x dn) (\<lambda>t. (case t of
                Some r \<Rightarrow> Inr (AList.update dn (sn_id r) ps, rs)
              | None \<Rightarrow> sbind (get_or_create_snapshot d env fresh now disk None dn rs) (\<lambda>(r, rows').
                  Inr (AList.update dn (sn_id r) ps, rows'))))
          | _ \<Rightarrow> Inl (Python Type_Error)))"
        using g v by (cases v) (auto intro!: no_limit_sbind no_limit_rules split: option.split)
    qed (rule no_limit_rules)
  qed
  have "no_limit (get_or_create_snapshot (Suc d) env fresh now disk activate name rows)"
    unfolding get_or_create_snapshot.simps
    apply (rule no_limit_sbind, rule no_limit_rules)+
    apply (rule no_limit_sbind, rule no_limit_sfold, simp only: lift_py_Inr, rule lim, assumption+)
    apply (auto intro: no_limit_rules split: option.split)
    done
  moreover have "get_or_create_snapshot depth' env fresh now disk activate name rows
         = get_or_create_snapshot (Suc d) env fresh now disk activate name rows" if l: "rank name < depth'"
  proof -
    obtain d' where d': "depth' = Suc d'" using l by (cases depth') auto
    have eq: "sfold (?step d') ds st = sfold (?step d) ds st"
      if "read_skill_files disk name = Inr files" "manifest_or_empty env (snd (snd files)) = Inr m"
        "py_iter (jget_or m ''dependencies'' (JArr [])) = Inr ds" for files m ds st
    proof (rule sfold_cong [OF refl refl])
      fix x r assume x: "x \<in> set ds"
      have "get_or_create_snapshot d' env fresh now disk None n rs = get_or_create_snapshot d env fresh now disk None n rs"
        if "dependency_name x = Inr (JStr n)" "n \<noteq> []" for n rs
        using Suc.IH [where name = n and activate = None and rows = rs and depth' = d'] dep [OF \<open>read_skill_files disk name = Inr files\<close>
            \<open>manifest_or_empty env (snd (snd files)) = Inr m\<close> \<open>py_iter _ = Inr ds\<close> x that] l d' by simp
      then show "?step d' x r = ?step d x r"
        by (cases r) (auto intro!: sbind_cong split: json.split option.split)
    qed
    show ?thesis unfolding d' get_or_create_snapshot.simps
      by (intro sbind_cong refl) (simp only: lift_py_Inr, rule eq, assumption+)
  qed
  ultimately show ?case by blast
qed simp

text \<open>A skill of the checkout that depends on itself and has no snapshot yet exhausts any stack: the cycle
  checks of the validation come after the recursion.\<close>

theorem cyclic_checkout_exhausts_the_stack:
  assumes "disk name = Some files" "manifest_or_empty env (universal_newlines (snd (snd files))) = Inr m"
    and "jget_or m ''dependencies'' (JArr []) = JArr (JStr name # ds)" "name \<noteq> []" "snapshots_named name rows = []"
  shows "get_or_create_snapshot depth env fresh now disk activate name rows = Inl Recursion_Limit"
proof (induction depth arbitrary: activate)
  case (Suc depth)
  have "active_snapshot rows name = None"
    using assms(5) by (auto simp: active_snapshot_def snapshots_named_def find_first_None_iff filter_empty_conv)
  then have "pin_target env rows (JStr name) name = Inr None" by (simp add: pin_target_def dependency_version_def)
  moreover obtain md sc mf where "files = (md, sc, mf)" by (cases files)
  ultimately show ?case
    using assms Suc.IH by (simp add: compute_skill_hash_def read_skill_files_def dependency_name_def)
qed simp

section \<open>Properties\<close>

text \<open>C21. The registry is an immutable history with one published version per skill: whatever is registered
  or activated later, every snapshot keeps its id, version, content, manifest and pinned dependencies;
  versions of a skill are distinct, each skill has exactly one active snapshot, and every dependency
  a manifest declares is pinned to a snapshot of the table.\<close>

theorem snapshots_are_immutable:
  assumes "(registry_step env fresh)\<^sup>*\<^sup>* rows rows'" "registry_ok env rows" "fresh_ids fresh" "r \<in> set rows"
  shows "\<exists>r'\<in>set rows'. r'\<lparr>sn_active := sn_active r\<rparr> = r
     \<and> (\<exists>!a. a \<in> set rows' \<and> sn_active a \<and> sn_name a = sn_name r)
     \<and> active_snapshot rows' (sn_name r) \<noteq> None
     \<and> (\<forall>x\<in>set rows'. sn_name x = sn_name r \<and> sn_version x = sn_version r \<longrightarrow> x = r')
     \<and> pinned_row env (sn_id ` set rows') r'"
proof -
  have ok: "registry_ok env rows'" "extends rows rows'" using registry_steps_ok [OF assms(1-3)] by auto
  obtain r' where r': "r' \<in> set rows'" "same_content r r'" using extends_memD [OF ok(2) assms(4)] by blast
  obtain a where a: "a \<in> set rows'" "sn_active a" "sn_name a = sn_name r"
    using ok(1) r' same_content_fields(2) [OF r'(2)] by (fastforce simp: registry_ok_def)
  have one: "one_active_snapshot rows'" using ok(1) by (simp add: registry_ok_def)
  have "r'\<lparr>sn_active := sn_active r\<rparr> = r"
    using arg_cong [OF r'(2) [unfolded same_content_def], of "\<lambda>x. x\<lparr>sn_active := sn_active r\<rparr>"] by simp
  moreover have "\<exists>!a. a \<in> set rows' \<and> sn_active a \<and> sn_name a = sn_name r"
    using a activated.holder_unique [OF one] by metis
  moreover have "active_snapshot rows' (sn_name r) \<noteq> None"
    using activated.lookup_holder [OF one a(1,2)] a(3) by (simp add: active_snapshot_def)
  moreover have "\<forall>x\<in>set rows'. sn_name x = sn_name r \<and> sn_version x = sn_version r \<longrightarrow> x = r'"
  proof (intro ballI impI)
    fix x assume x: "x \<in> set rows'" "sn_name x = sn_name r \<and> sn_version x = sn_version r"
    have "inj_on (\<lambda>r. (sn_name r, sn_version r)) (set rows')" using ok(1) by (simp add: registry_ok_def distinct_map)
    then show "x = r'" using x r'(1) same_content_fields(2,3) [OF r'(2)] by (simp add: inj_on_def)
  qed
  moreover have "pinned_row env (sn_id ` set rows') r'" using ok(1) r'(1) by (simp add: registry_ok_def)
  ultimately show ?thesis by (intro bexI [OF _ r'(1)] conjI)
qed

text \<open>Activation controls what new jobs run: after a version has been activated, job creation resolves
  the skill to exactly that version, whatever the checkout contains and whatever has been registered
  from it in the meantime; only another activation can change it.\<close>

theorem activation_controls_new_jobs:
  assumes "registry_ok env rows" "fresh_ids fresh" "set_active_snapshot env name version rows = Inr (t, rows1)"
    and "(registration env fresh)\<^sup>*\<^sup>* rows1 rows2"
    and "resolve_active_snapshot depth env fresh now disk name rows2 = Inr (r, rows3)"
  shows "r = t \<and> sn_name r = name \<and> sn_version r = version \<and> sn_active r"
proof -
  have s: "registry_ok env rows1" "active_snapshot rows1 name = Some t" "sn_version t = version"
    using set_active_snapshot_ok [OF assms(3,1)] by auto
  have r2: "registry_ok env rows2" "\<exists>new. rows2 = rows1 @ new"
    using registrations_append [OF assms(4) s(1) assms(2)] by auto
  obtain x where x: "get_or_create_snapshot depth env fresh now disk None name rows2 = Inr (x, rows3)"
      "active_snapshot rows3 name = Some r"
    using assms(5) by (auto simp: resolve_active_snapshot_def split: option.splits)
  obtain new where "rows3 = rows1 @ new" using get_or_create_appends [OF x(1)] r2(2) by (metis append.assoc)
  then have "active_snapshot rows3 name = Some t" using s(2) by (simp add: active_snapshot_def find_first_append)
  then have "r = t" using x(2) by simp
  moreover have "sn_active t \<and> sn_name t = name" using find_first_Some [OF s(2) [unfolded active_snapshot_def]] by blast
  ultimately show ?thesis using s(3) by blast
qed


section \<open>Concrete instances\<close>

definition sample_skill_env :: skill_env where
  "sample_skill_env = \<lparr>se_py = \<lparr>sha256_hex = (\<lambda>s. s), py_repr = (\<lambda>v. [])\<rparr>,
     se_yaml = (\<lambda>t. Some (JObj [(u ''id'', JStr (u ''s''))])), se_loads = (\<lambda>t. Some (JObj [])),
     se_schema_ok = (\<lambda>v. True), se_int = (\<lambda>v. None), se_utf8 = (\<lambda>s. s), se_sha = (\<lambda>b. take 64 (b @ replicate 64 0)), se_canonical = (\<lambda>v. [])\<rparr>"

definition sample_checkout :: checkout where
  "sample_checkout = (\<lambda>n. if n = u ''s'' then Some ([65], [66], [67]) else None)"

definition sample_fresh :: "skill_row list \<Rightarrow> uuid" where
  "sample_fresh rows = 1 # concat (map sn_id rows)"

lemma sample_fresh_ids: "fresh_ids sample_fresh"
proof -
  have l: "length (sn_id r) \<le> length (concat (map sn_id rows))" if "r \<in> set rows" for r rows
    using that by (induction rows) auto
  have "sample_fresh rows \<noteq> sn_id r" if "r \<in> set rows" for r rows
    using l [OF that] by (auto simp: sample_fresh_def dest: arg_cong [where f = length])
  then show ?thesis by (auto simp: fresh_ids_def sample_fresh_def)
qed

definition sample_manifest :: json where
  "sample_manifest = JObj [(u ''id'', JStr (u ''s''))]"

lemma sample_manifest_simps [simp]:
  "jget sample_manifest ''id'' = JStr (u ''s'')" "jget_or sample_manifest ''id'' v = JStr (u ''s'')"
  "jget_or sample_manifest ''dependencies'' v = v" "jget sample_manifest ''output_schema'' = JNull"
  "jget sample_manifest ''renderer_profile'' = JNull" "jget sample_manifest ''report_export_contract'' = JNull"
  "jget sample_manifest ''exports'' = JNull" "jget sample_manifest ''execution_policy'' = JNull"
  "jget sample_manifest ''coverage'' = JNull" "jget sample_manifest ''input_projection'' = JNull"
  "jget sample_manifest ''input_contract'' = JNull" "is_dict sample_manifest" "truthy sample_manifest"
  by (simp_all add: sample_manifest_def jget_def jget_or_def)

lemma sample_loads [simp]: "load_manifest sample_skill_env s = Inr sample_manifest"
  "manifest_or_empty sample_skill_env text = Inr sample_manifest" "load_schema sample_skill_env s = Inr (JObj [])"
proof -
  have y: "se_yaml sample_skill_env t = Some sample_manifest" for t by (simp add: sample_skill_env_def sample_manifest_def)
  show "load_manifest sample_skill_env s = Inr sample_manifest" by (simp add: load_manifest_def y)
  show "manifest_or_empty sample_skill_env text = Inr sample_manifest" by (simp add: manifest_or_empty_def y por_def)
  show "load_schema sample_skill_env s = Inr (JObj [])" by (simp add: load_schema_def sample_skill_env_def)
qed

lemma sample_validates:
  assumes "sn_name s = u ''s''" "sn_md s = [65]"
  shows "validate_snapshot sample_skill_env rows s = Inr ()"
proof -
  have g: "validate_dependency_graph sample_skill_env rows s [] = Inr ()"
    by (subst validate_dependency_graph.simps) simp
  have "\<not> py_space 65" by (simp add: py_space_def)
  then have "py_strip [65] = [65]" by (simp add: py_strip_def py_lstrip_def)
  then have m: "py_strip [65] \<noteq> []" by simp
  have c: "contract_check True msg = Inr ()" for msg by (simp add: contract_check_def guard_def)
  have r: "contract_check_in JNull SUPPORTED_RENDERER_PROFILES msg = Inr ()" for msg
    by (simp add: contract_check_in_def in_set_def SUPPORTED_RENDERER_PROFILES_def c)
  show ?thesis
    by (simp add: validate_snapshot_def m g assms c r Let_def check_exports_def check_coverage_policy_def
        check_input_projection_def validate_input_def)
qed

lemma sample_hash: "compute_execution_hash sample_skill_env rows s [] = Inr (execution_digest sample_skill_env (sn_content_hash s) [])"
  by (subst compute_execution_hash.simps) simp

definition sample_content :: pystr where
  "sample_content = content_digest sample_skill_env (map (se_utf8 sample_skill_env) [[65], [66], [67]])"

definition sample_snap :: skill_row where
  "sample_snap = \<lparr>sn_id = [1], sn_name = u ''s'', sn_version = 1, sn_content_hash = sample_content,
     sn_execution_hash = Some (execution_digest sample_skill_env sample_content []), sn_md = [65], sn_schema = [66],
     sn_manifest = [67], sn_pins = [], sn_created = 5, sn_active = True\<rparr>"

lemma sample_registers:
  "get_or_create_snapshot 1 sample_skill_env sample_fresh 5 sample_checkout None (u ''s'') [] = Inr (sample_snap, [sample_snap])"
  "get_or_create_snapshot 1 sample_skill_env sample_fresh 5 sample_checkout None (u ''s'') [sample_snap]
     = Inr (sample_snap, [sample_snap])"
proof -
  have h: "compute_skill_hash sample_skill_env sample_checkout (u ''s'') = Inr sample_content"
    by (simp add: compute_skill_hash_def sample_checkout_def sample_content_def)
  have f: "read_skill_files sample_checkout (u ''s'') = Inr ([65], [66], [67])"
    by (simp add: read_skill_files_def sample_checkout_def)
  have e: "existing_snapshot [] (u ''s'') sample_content [] = None"
    by (simp add: existing_snapshot_def snapshots_named_def)
  have e': "existing_snapshot [sample_snap] (u ''s'') sample_content [] = Some sample_snap"
    by (simp add: existing_snapshot_def snapshots_named_def sample_snap_def)
  have i: "insert_snapshot sample_skill_env sample_fresh 5 None (u ''s'') sample_content ([65], [66], [67]) [] []
      = Inr (sample_snap, [sample_snap])"
    by (simp add: insert_snapshot_def snapshots_named_def deactivate_def Let_def sample_validates sample_hash
        sample_fresh_def next_version_def sample_snap_def)
  show "get_or_create_snapshot 1 sample_skill_env sample_fresh 5 sample_checkout None (u ''s'') [] = Inr (sample_snap, [sample_snap])"
    unfolding One_nat_def by (simp add: h f e i)
  show "get_or_create_snapshot 1 sample_skill_env sample_fresh 5 sample_checkout None (u ''s'') [sample_snap]
     = Inr (sample_snap, [sample_snap])"
    unfolding One_nat_def by (simp add: h f e')
qed

lemma sample_registry_ok: "registry_ok sample_skill_env [sample_snap]"
proof -
  have "registry_ok sample_skill_env []" by (simp add: registry_ok_def one_active_snapshot_def)
  then show ?thesis using get_or_create_ok [OF sample_registers(1) _ sample_fresh_ids] by simp
qed

lemma sample_activates: "set_active_snapshot sample_skill_env (u ''s'') 1 [sample_snap] = Inr (sample_snap, [sample_snap])"
  by (simp add: set_active_snapshot_def sample_snap_def sample_validates)

theorem snapshots_are_immutable_witness:
  "registry_step sample_skill_env sample_fresh [] [sample_snap] \<and> active_snapshot [sample_snap] (u ''s'') \<noteq> None"
proof -
  have "sample_snap \<in> set [sample_snap]" by simp
  from snapshots_are_immutable [OF rtranclp.rtrancl_refl sample_registry_ok sample_fresh_ids this]
  have "active_snapshot [sample_snap] (u ''s'') \<noteq> None" by (simp add: sample_snap_def)
  then show ?thesis using registry_step.Register [OF sample_registers(1)] by blast
qed

theorem activation_controls_new_jobs_witness:
  "resolve_active_snapshot 1 sample_skill_env sample_fresh 5 sample_checkout (u ''s'') [sample_snap]
     = Inr (sample_snap, [sample_snap]) \<and> sn_version sample_snap = 1"
proof -
  have r: "resolve_active_snapshot 1 sample_skill_env sample_fresh 5 sample_checkout (u ''s'') [sample_snap]
     = Inr (sample_snap, [sample_snap])"
    unfolding resolve_active_snapshot_def sample_registers(2) by (simp add: active_snapshot_def sample_snap_def)
  from activation_controls_new_jobs [OF sample_registry_ok sample_fresh_ids sample_activates rtranclp.rtrancl_refl this] r
  show ?thesis by simp
qed


end
