(* ===== verification/Skill_Execution.thy ===== *)
theory Skill_Execution
  imports Skill_Registry
begin

text \<open>
  The worker's side of the skill registry, \<^verbatim>\<open>bridge/noc_bridge/skill_registry.py\<close>: fetching a snapshot,
  verifying its bytes and its execution identity, and materializing it with all its dependencies into a
  job's private directory. A directory is the dictionary from skill name to the three files written.
\<close>

section \<open>The checkout, for old messages\<close>

definition verify_skill_hash :: "skill_env \<Rightarrow> checkout \<Rightarrow> pystr \<Rightarrow> pystr option \<Rightarrow> skill_error + unit" where
  "verify_skill_hash env disk name expected = (case expected of
      None \<Rightarrow> Inr ()
    | Some h \<Rightarrow> sbind (compute_skill_hash env disk name) (\<lambda>actual. guard (actual = h) Hash_Mismatch))"

section \<open>Fetching and verifying\<close>

text \<open>The conditional expression of the query binds weaker than the concatenation of its strings, so without
  a snapshot id the statement is the bare \<open>WHERE\<close> clause.\<close>

definition fetch_skill_snapshot :: "skill_row list \<Rightarrow> pystr option \<Rightarrow> uuid option \<Rightarrow> skill_error + skill_row option" where
  "fetch_skill_snapshot rows content snapshot_id = (case truthy_opt snapshot_id of
      Some i \<Rightarrow> Inr (find_first (\<lambda>r. sn_id r = i) rows)
    | None \<Rightarrow> Inl Malformed_Sql)"

definition fetch_dependency_snapshot :: "skill_env \<Rightarrow> skill_row list \<Rightarrow> json \<Rightarrow> json \<Rightarrow> skill_error + skill_row option" where
  "fetch_dependency_snapshot env rows d name = sbind (dependency_version env d) (\<lambda>v. Inr (newest_by sn_version rows name v))"

definition row_digest :: "skill_env \<Rightarrow> skill_row \<Rightarrow> pystr" where
  "row_digest env s = content_digest env (map (se_utf8 env) [sn_md s, sn_schema s, sn_manifest s])"

definition verify_snapshot_row :: "skill_env \<Rightarrow> skill_row \<Rightarrow> pystr option \<Rightarrow> skill_error + unit" where
  "verify_snapshot_row env s expected =
    (if length (sn_content_hash s) = 64 \<and> row_digest env s \<noteq> sn_content_hash s
     then Inl (Snapshot_Missing ''failed content hash verification'')
     else guard (expected = None \<or> expected = Some (sn_content_hash s)) (Snapshot_Missing ''hash does not match the job reference''))"

text \<open>The row a dependency refers to: the pinned id, else the newest row of the name.\<close>

definition fetch_child :: "skill_env \<Rightarrow> skill_row list \<Rightarrow> skill_row \<Rightarrow> json \<Rightarrow> json \<Rightarrow> skill_error + skill_row option" where
  "fetch_child env rows s d name = (case truthy_opt (pin_of (sn_pins s) name) of
      Some i \<Rightarrow> fetch_skill_snapshot rows None (Some i)
    | None \<Rightarrow> fetch_dependency_snapshot env rows d name)"

definition execution_child :: "skill_env \<Rightarrow> skill_row list \<Rightarrow> skill_row \<Rightarrow> json \<Rightarrow> skill_error + skill_row" where
  "execution_child env rows s d = sbind (dependency_name d) (\<lambda>name.
     if is_dict name \<or> is_list name then Inl (Python Type_Error)
     else sbind (fetch_child env rows s d name) (\<lambda>c. case c of
       None \<Rightarrow> Inl (Snapshot_Missing ''dependency snapshot is missing'')
     | Some r \<Rightarrow> if JStr (sn_name r) \<noteq> name then Inl (Snapshot_Missing ''dependency snapshot is missing'') else Inr r))"

lemma fetch_child_mem: "fetch_child env rows s d name = Inr (Some r) \<Longrightarrow> r \<in> set rows"
  by (auto simp: fetch_child_def fetch_skill_snapshot_def fetch_dependency_snapshot_def split: option.splits
      dest: newest_by_mem find_first_Some)

lemma execution_child_mem: "execution_child env rows s d = Inr r \<Longrightarrow> r \<in> set rows"
  by (auto simp: execution_child_def split: option.splits if_splits dest: fetch_child_mem)

text \<open>\<open>manifest.get("dependencies", []) or []\<close>.\<close>

function execution_hash :: "skill_env \<Rightarrow> skill_row list \<Rightarrow> skill_row \<Rightarrow> pystr list \<Rightarrow> skill_error + pystr" where
  "execution_hash env rows s active =
    (if sn_name s \<in> set active then Inl (Snapshot_Missing ''cyclic skill dependency'')
     else sbind (manifest_or_empty env (sn_manifest s)) (\<lambda>m.
       sbind (lift_py (py_iter (por (jget_or m ''dependencies'' (JArr [])) (JArr [])))) (\<lambda>ds.
       sbind (smap (\<lambda>d. sbind (execution_child env rows s d) (\<lambda>c.
           sbind (execution_hash env rows c (sn_name s # active)) (\<lambda>h.
             Inr (sn_name c, sn_content_hash c, h)))) ds) (\<lambda>cs.
       Inr (execution_digest env (sn_content_hash s) cs)))))"
  by pat_completeness auto
termination
  by (relation "measure (\<lambda>(env, rows, s, active). graph_measure rows active s)")
    (auto intro: graph_measure_decreases execution_child_mem)

declare execution_hash.simps [simp del]

section \<open>Materialization\<close>

record workspace =
  ws_files :: "(pystr, pystr \<times> pystr \<times> pystr) pydict"
  ws_ids :: "pystr list"
  ws_names :: "(pystr, pystr) pydict"

definition snapshot_key :: "skill_row \<Rightarrow> pystr" where
  "snapshot_key s = (case truthy_opt (Some (sn_id s)) of Some i \<Rightarrow> i | None \<Rightarrow> sn_content_hash s)"

definition write_snapshot_files :: "skill_row \<Rightarrow> workspace \<Rightarrow> workspace" where
  "write_snapshot_files s ws = ws\<lparr>ws_files := AList.update (sn_name s) (sn_md s, sn_schema s, sn_manifest s) (ws_files ws),
     ws_ids := ws_ids ws @ [snapshot_key s], ws_names := AList.update (sn_name s) (snapshot_key s) (ws_names ws)\<rparr>"

text \<open>One declared dependency: the row, checked against its name and the version asked for.\<close>

definition materialize_child :: "skill_env \<Rightarrow> skill_row list \<Rightarrow> skill_row \<Rightarrow> json \<Rightarrow> skill_error + skill_row" where
  "materialize_child env rows s d = sbind (dependency_name d) (\<lambda>name.
     if \<not> truthy name then Inl (Snapshot_Missing ''dependency is missing an id'')
     else if is_dict name \<or> is_list name then Inl (Python Type_Error)
     else sbind (fetch_child env rows s d name) (\<lambda>c. case c of
       None \<Rightarrow> Inl (Snapshot_Missing ''dependency snapshot is missing'')
     | Some r \<Rightarrow>
         if JStr (sn_name r) \<noteq> name then Inl (Snapshot_Missing ''dependency snapshot does not satisfy the name'')
         else if is_dict d \<and> jget d ''version'' \<noteq> JNull
         then (case se_int env (jget d ''version'') of
             None \<Rightarrow> Inl (Snapshot_Missing ''invalid dependency version'')
           | Some v \<Rightarrow> if sn_version r \<noteq> v then Inl (Snapshot_Missing ''dependency snapshot version does not satisfy'') else Inr r)
         else Inr r))"

lemma materialize_child_mem: "materialize_child env rows s d = Inr r \<Longrightarrow> r \<in> set rows"
  by (auto simp: materialize_child_def split: option.splits if_splits dest: fetch_child_mem)

function materialize_snapshot_tree ::
  "skill_env \<Rightarrow> skill_row list \<Rightarrow> skill_row \<Rightarrow> pystr list \<Rightarrow> pystr option \<Rightarrow> workspace \<Rightarrow> skill_error + workspace" where
  "materialize_snapshot_tree env rows s active expected ws =
    (if sn_name s \<in> set active then Inl (Snapshot_Missing ''cyclic skill dependency'')
     else if map_of (ws_names ws) (sn_name s) \<notin> {None, Some (snapshot_key s)}
     then Inl (Snapshot_Missing ''dependency name resolves to multiple snapshots'')
     else if snapshot_key s \<in> set (ws_ids ws) then Inr ws
     else sbind (verify_snapshot_row env s None) (\<lambda>_.
       sbind (case expected of None \<Rightarrow> Inr ()
              | Some h \<Rightarrow> sbind (execution_hash env rows s []) (\<lambda>actual.
                  guard (actual = h) (Snapshot_Missing ''execution hash does not match the job reference''))) (\<lambda>_.
       sbind (manifest_or_empty env (sn_manifest s)) (\<lambda>m.
       case jget_or m ''dependencies'' (JArr []) of
         JArr ds \<Rightarrow> sfold (\<lambda>d ws. sbind (materialize_child env rows s d) (\<lambda>c.
             materialize_snapshot_tree env rows c (sn_name s # active) None ws)) ds (write_snapshot_files s ws)
       | _ \<Rightarrow> Inl (Snapshot_Missing ''dependencies must be a list'')))))"
  by pat_completeness auto
termination
  by (relation "measure (\<lambda>(env, rows, s, active, expected, ws). graph_measure rows active s)")
    (auto intro: graph_measure_decreases materialize_child_mem)

declare materialize_snapshot_tree.simps [simp del]

definition materialize_snapshot ::
  "skill_env \<Rightarrow> skill_row list \<Rightarrow> pystr \<Rightarrow> pystr option \<Rightarrow> uuid option \<Rightarrow> pystr option
    \<Rightarrow> skill_error + (pystr, pystr \<times> pystr \<times> pystr) pydict" where
  "materialize_snapshot env rows name content snapshot_id execution =
    sbind (fetch_skill_snapshot rows content snapshot_id) (\<lambda>r. case r of
      None \<Rightarrow> Inl (Snapshot_Missing ''no SkillSnapshot found'')
    | Some s \<Rightarrow>
        if sn_name s \<noteq> name then Inl (Snapshot_Missing ''snapshot belongs to another skill'')
        else sbind (verify_snapshot_row env s content) (\<lambda>_.
          sbind (materialize_snapshot_tree env rows s [] execution \<lparr>ws_files = [], ws_ids = [], ws_names = []\<rparr>) (\<lambda>ws.
            Inr (ws_files ws))))"

section \<open>Both sides compute the same execution hash\<close>

lemma smap_mono: "smap f xs = Inr ys \<Longrightarrow> (\<And>x y. x \<in> set xs \<Longrightarrow> f x = Inr y \<Longrightarrow> g x = Inr y) \<Longrightarrow> smap g xs = Inr ys"
  by (induction xs arbitrary: ys) auto

lemma fetch_child_eq: "fetch_child env rows s d name = dependency_snapshot env rows (sn_pins s) d name"
  by (auto simp: fetch_child_def dependency_snapshot_def fetch_skill_snapshot_def fetch_dependency_snapshot_def
      truthy_opt_def split: option.split)

lemma execution_child_of: "dependency_child env rows s d = Inr c \<Longrightarrow> execution_child env rows s d = Inr c"
  by (auto simp: dependency_child_def execution_child_def fetch_child_eq split: if_splits option.splits)

lemma py_iter_por: "py_iter v = Inr ds \<Longrightarrow> py_iter (por v (JArr [])) = Inr ds"
  by (cases v) (auto simp: por_def)

lemma execution_hash_of:
  "compute_execution_hash env rows s active = Inr h \<Longrightarrow> execution_hash env rows s active = Inr h"
proof (induction env rows s active arbitrary: h rule: compute_execution_hash.induct)
  case (1 env rows s active)
  from "1.prems" obtain m ds cs where c: "sn_name s \<notin> set active" "manifest_or_empty env (sn_manifest s) = Inr m"
      "py_iter (jget_or m ''dependencies'' (JArr [])) = Inr ds"
      "smap (\<lambda>d. sbind (dependency_child env rows s d) (\<lambda>c.
           sbind (compute_execution_hash env rows c (sn_name s # active)) (\<lambda>h. Inr (sn_name c, sn_content_hash c, h)))) ds = Inr cs"
      "h = execution_digest env (sn_content_hash s) cs"
    by (subst (asm) compute_execution_hash.simps) (auto split: if_splits)
  have "smap (\<lambda>d. sbind (execution_child env rows s d) (\<lambda>c.
           sbind (execution_hash env rows c (sn_name s # active)) (\<lambda>h. Inr (sn_name c, sn_content_hash c, h)))) ds = Inr cs"
  proof (rule smap_mono [OF c(4)])
    fix d y assume d: "d \<in> set ds" "sbind (dependency_child env rows s d) (\<lambda>c.
           sbind (compute_execution_hash env rows c (sn_name s # active)) (\<lambda>h. Inr (sn_name c, sn_content_hash c, h))) = Inr y"
    then obtain k g where k: "dependency_child env rows s d = Inr k"
        "compute_execution_hash env rows k (sn_name s # active) = Inr g" "y = (sn_name k, sn_content_hash k, g)" by auto
    have "execution_hash env rows k (sn_name s # active) = Inr g"
      by (rule "1.IH" [OF c(1,2) _ d(1) k(1,2)]) (simp add: c(3))
    then show "sbind (execution_child env rows s d) (\<lambda>c.
           sbind (execution_hash env rows c (sn_name s # active)) (\<lambda>h. Inr (sn_name c, sn_content_hash c, h))) = Inr y"
      using execution_child_of [OF k(1)] k(3) by simp
  qed
  then show ?case
    using c by (subst execution_hash.simps) (simp add: py_iter_por [OF c(3)])
qed

section \<open>Later tables give the same results\<close>

lemma find_first_map_id:
  assumes "distinct (map sn_id rows)" "r \<in> set rows"
  shows "find_first (\<lambda>x. sn_id x = sn_id r) rows = Some r"
proof (cases "find_first (\<lambda>x. sn_id x = sn_id r) rows")
  case None
  then show ?thesis using assms(2) by (auto simp: find_first_None_iff)
next
  case (Some x)
  then show ?thesis using find_first_Some [OF Some] assms by (metis distinct_map inj_onD)
qed

text \<open>What the two tables agree on: every row of the first is in the second with the same content.\<close>

definition grown :: "skill_env \<Rightarrow> skill_row list \<Rightarrow> skill_row list \<Rightarrow> bool" where
  "grown env rows rows' \<longleftrightarrow> registry_ok env rows \<and> registry_ok env rows' \<and> extends rows rows'"

lemma grown_pinned_fetch:
  assumes "grown env rows rows'" "pinned_to env (sn_id ` set rows) (sn_pins s) d" "same_content s s'"
  obtains n c c' where "dependency_name d = Inr (JStr n)" "n \<noteq> []"
    "fetch_child env rows s d (JStr n) = Inr (Some c)" "fetch_child env rows' s' d (JStr n) = Inr (Some c')"
    "same_content c c'" "c \<in> set rows"
proof -
  obtain n i where n: "dependency_name d = Inr (JStr n)" "n \<noteq> []" "map_of (sn_pins s) n = Some i" "i \<noteq> []" "i \<in> sn_id ` set rows"
    using assms(2) unfolding pinned_to_def by blast
  obtain c where c: "c \<in> set rows" "sn_id c = i" using n(5) by blast
  obtain c' where c': "c' \<in> set rows'" "same_content c c'"
    using extends_memD [OF _ c(1)] assms(1) unfolding grown_def by blast
  have d: "distinct (map sn_id rows)" "distinct (map sn_id rows')" using assms(1) by (auto simp: grown_def registry_ok_def)
  have "find_first (\<lambda>x. sn_id x = i) rows = Some c" using find_first_map_id [OF d(1) c(1)] c(2) by simp
  moreover have "find_first (\<lambda>x. sn_id x = i) rows' = Some c'"
    using find_first_map_id [OF d(2) c'(1)] same_content_fields(1) [OF c'(2)] c(2) by simp
  ultimately have "fetch_child env rows s d (JStr n) = Inr (Some c)" "fetch_child env rows' s' d (JStr n) = Inr (Some c')"
    using n(3,4) same_content_fields(5) [OF assms(3)]
    by (simp_all add: fetch_child_def fetch_skill_snapshot_def pin_of_def truthy_opt_def)
  with that n(1,2) c'(2) c(1) show thesis by blast
qed

lemma pinned_deps:
  assumes "pinned_row env ids s" "manifest_or_empty env (sn_manifest s) = Inr m"
    and "py_iter (jget_or m ''dependencies'' (JArr [])) = Inr ds" "d \<in> set ds"
  shows "pinned_to env ids (sn_pins s) d"
  using assms unfolding pinned_row_def list_all_iff by blast

lemma smap_cong_ext: "(\<And>x. x \<in> set xs \<Longrightarrow> f x = g x) \<Longrightarrow> smap f xs = smap g xs"
  by (rule smap_cong) auto

lemma execution_hash_grown:
  assumes g: "grown env rows rows'"
  shows "pinned_row env (sn_id ` set rows) s \<Longrightarrow> same_content s s'
    \<Longrightarrow> execution_hash env rows' s' active = execution_hash env rows s active"
proof (induction "graph_measure rows active s" arbitrary: s s' active rule: less_induct)
  case less
  note f = same_content_fields [OF less.prems(2)]
  show ?case
  proof (cases "sn_name s \<in> set active")
    case True
    then show ?thesis by (subst (1 2) execution_hash.simps) (simp add: f)
  next
    case False
    have "smap (\<lambda>d. sbind (execution_child env rows' s' d) (\<lambda>c.
           sbind (execution_hash env rows' c (sn_name s' # active)) (\<lambda>h. Inr (sn_name c, sn_content_hash c, h)))) ds
        = smap (\<lambda>d. sbind (execution_child env rows s d) (\<lambda>c.
           sbind (execution_hash env rows c (sn_name s # active)) (\<lambda>h. Inr (sn_name c, sn_content_hash c, h)))) ds"
      if m: "manifest_or_empty env (sn_manifest s) = Inr m"
        and i: "py_iter (por (jget_or m ''dependencies'' (JArr [])) (JArr [])) = Inr ds" for m ds
    proof (rule smap_cong_ext)
      fix d assume d: "d \<in> set ds"
      then have "py_iter (jget_or m ''dependencies'' (JArr [])) = Inr ds"
        using i by (cases "truthy (jget_or m ''dependencies'' (JArr []))") (auto simp: por_def)
      then have "pinned_to env (sn_id ` set rows) (sn_pins s) d" using pinned_deps [OF less.prems(1) m _ d] by blast
      then obtain n c c' where c: "dependency_name d = Inr (JStr n)" "n \<noteq> []"
          "fetch_child env rows s d (JStr n) = Inr (Some c)" "fetch_child env rows' s' d (JStr n) = Inr (Some c')"
          "same_content c c'" "c \<in> set rows"
        by (rule grown_pinned_fetch [OF g _ less.prems(2)])
      have e: "execution_hash env rows' c' (sn_name s # active) = execution_hash env rows c (sn_name s # active)"
        by (rule less.hyps [OF graph_measure_decreases [OF False c(6)] _ c(5)])
          (use g c(6) in \<open>simp add: grown_def registry_ok_def\<close>)
      show "sbind (execution_child env rows' s' d) (\<lambda>c.
           sbind (execution_hash env rows' c (sn_name s' # active)) (\<lambda>h. Inr (sn_name c, sn_content_hash c, h)))
        = sbind (execution_child env rows s d) (\<lambda>c.
           sbind (execution_hash env rows c (sn_name s # active)) (\<lambda>h. Inr (sn_name c, sn_content_hash c, h)))"
        using c e same_content_fields [OF c(5)] by (simp add: execution_child_def f)
    qed
    then show ?thesis using False
      by (subst (1 2) execution_hash.simps) (auto simp: f intro!: sbind_cong)
  qed
qed

lemma same_content_key: "same_content s s' \<Longrightarrow> snapshot_key s' = snapshot_key s"
  by (simp add: snapshot_key_def same_content_fields split: option.split)

lemma same_content_verify: "same_content s s' \<Longrightarrow> verify_snapshot_row env s' e = verify_snapshot_row env s e"
  by (simp add: verify_snapshot_row_def row_digest_def same_content_fields)

lemma same_content_write: "same_content s s' \<Longrightarrow> write_snapshot_files s' ws = write_snapshot_files s ws"
  by (simp add: write_snapshot_files_def same_content_key same_content_fields)

lemma materialize_tree_grown:
  assumes g: "grown env rows rows'"
  shows "pinned_row env (sn_id ` set rows) s \<Longrightarrow> same_content s s'
    \<Longrightarrow> materialize_snapshot_tree env rows' s' active expected ws = materialize_snapshot_tree env rows s active expected ws"
proof (induction "graph_measure rows active s" arbitrary: s s' active expected ws rule: less_induct)
  case less
  note f = same_content_fields [OF less.prems(2)] same_content_key [OF less.prems(2)] same_content_verify [OF less.prems(2)]
    same_content_write [OF less.prems(2)]
  have h: "execution_hash env rows' s' [] = execution_hash env rows s []"
    by (rule execution_hash_grown [OF g less.prems])
  show ?case
  proof (cases "sn_name s \<in> set active")
    case True
    then show ?thesis by (subst (1 2) materialize_snapshot_tree.simps) (simp add: f)
  next
    case False
    have loop: "sfold (\<lambda>d ws. sbind (materialize_child env rows' s' d) (\<lambda>c.
             materialize_snapshot_tree env rows' c (sn_name s # active) None ws)) ds w
        = sfold (\<lambda>d ws. sbind (materialize_child env rows s d) (\<lambda>c.
             materialize_snapshot_tree env rows c (sn_name s # active) None ws)) ds w"
      if m: "manifest_or_empty env (sn_manifest s) = Inr m" and i: "jget_or m ''dependencies'' (JArr []) = JArr ds" for m ds w
    proof (rule sfold_cong [OF refl refl])
      fix d v assume d: "d \<in> set ds"
      have "pinned_to env (sn_id ` set rows) (sn_pins s) d"
        by (rule pinned_deps [OF less.prems(1) m _ d]) (simp add: i)
      then obtain n c c' where c: "dependency_name d = Inr (JStr n)" "n \<noteq> []"
          "fetch_child env rows s d (JStr n) = Inr (Some c)" "fetch_child env rows' s' d (JStr n) = Inr (Some c')"
          "same_content c c'" "c \<in> set rows"
        by (rule grown_pinned_fetch [OF g _ less.prems(2)])
      have e: "materialize_snapshot_tree env rows' c' (sn_name s # active) None v
          = materialize_snapshot_tree env rows c (sn_name s # active) None v"
        by (rule less.hyps [OF graph_measure_decreases [OF False c(6)] _ c(5)])
          (use g c(6) in \<open>simp add: grown_def registry_ok_def\<close>)
      show "sbind (materialize_child env rows' s' d) (\<lambda>c. materialize_snapshot_tree env rows' c (sn_name s # active) None v)
        = sbind (materialize_child env rows s d) (\<lambda>c. materialize_snapshot_tree env rows c (sn_name s # active) None v)"
        using c(1-4) e same_content_fields [OF c(5)] by (simp add: materialize_child_def split: option.split)
    qed
    show ?thesis
      apply (subst (1 2) materialize_snapshot_tree.simps)
      apply (simp only: f h)
      apply (intro if_cong refl sbind_cong)
      apply (auto simp: loop split: json.split)
      done
  qed
qed

section \<open>What a workspace holds\<close>

definition texts :: "skill_row \<Rightarrow> pystr \<times> pystr \<times> pystr" where
  "texts r = (sn_md r, sn_schema r, sn_manifest r)"

text \<open>Materialization writes verified rows of the table only, one row per name.\<close>

definition workspace_ok :: "skill_env \<Rightarrow> skill_row list \<Rightarrow> workspace \<Rightarrow> bool" where
  "workspace_ok env rows ws \<longleftrightarrow>
     (\<forall>k\<in>set (ws_ids ws). \<exists>r\<in>set rows. snapshot_key r = k \<and> map_of (ws_files ws) (sn_name r) = Some (texts r)
        \<and> map_of (ws_names ws) (sn_name r) = Some k)
   \<and> (\<forall>n k. map_of (ws_names ws) n = Some k \<longrightarrow> k \<in> set (ws_ids ws))
   \<and> (\<forall>n files. map_of (ws_files ws) n = Some files \<longrightarrow> (\<exists>r\<in>set rows. sn_name r = n \<and> files = texts r
        \<and> verify_snapshot_row env r None = Inr () \<and> snapshot_key r \<in> set (ws_ids ws)))"

text \<open>Except for the rows whose loop is still running, a row is there with all its dependencies.\<close>

definition dependencies_of :: "skill_env \<Rightarrow> skill_row \<Rightarrow> json set" where
  "dependencies_of env r = {d. \<exists>m ds. manifest_or_empty env (sn_manifest r) = Inr m
     \<and> jget_or m ''dependencies'' (JArr []) = JArr ds \<and> d \<in> set ds}"

definition complete_except :: "skill_env \<Rightarrow> skill_row list \<Rightarrow> pystr set \<Rightarrow> workspace \<Rightarrow> bool" where
  "complete_except env rows A ws \<longleftrightarrow> (\<forall>r\<in>set rows. snapshot_key r \<in> set (ws_ids ws) \<longrightarrow> sn_name r \<notin> A
     \<longrightarrow> (\<forall>d\<in>dependencies_of env r. \<exists>c. materialize_child env rows r d = Inr c \<and> snapshot_key c \<in> set (ws_ids ws)))"

lemma complete_exceptD:
  "complete_except env rows A ws \<Longrightarrow> r \<in> set rows \<Longrightarrow> snapshot_key r \<in> set (ws_ids ws) \<Longrightarrow> sn_name r \<notin> A
    \<Longrightarrow> d \<in> dependencies_of env r \<Longrightarrow> \<exists>c. materialize_child env rows r d = Inr c \<and> snapshot_key c \<in> set (ws_ids ws)"
  by (simp add: complete_except_def)

lemma snapshot_key_id: "registry_ok env rows \<Longrightarrow> r \<in> set rows \<Longrightarrow> snapshot_key r = sn_id r"
  by (auto simp: snapshot_key_def truthy_opt_def registry_ok_def)

lemma snapshot_key_inj:
  "registry_ok env rows \<Longrightarrow> r \<in> set rows \<Longrightarrow> s \<in> set rows \<Longrightarrow> snapshot_key r = snapshot_key s \<Longrightarrow> r = s"
  using snapshot_key_id [of env rows r] snapshot_key_id [of env rows s]
  by (auto simp: registry_ok_def distinct_map dest: inj_onD)

lemma workspace_ok_write:
  assumes "workspace_ok env rows ws" "s \<in> set rows" "verify_snapshot_row env s None = Inr ()"
    and "map_of (ws_names ws) (sn_name s) = None"
  shows "workspace_ok env rows (write_snapshot_files s ws)"
proof -
  have "\<exists>r\<in>set rows. snapshot_key r = k \<and> map_of (ws_files (write_snapshot_files s ws)) (sn_name r) = Some (texts r)
        \<and> map_of (ws_names (write_snapshot_files s ws)) (sn_name r) = Some k"
    if "k \<in> set (ws_ids (write_snapshot_files s ws))" for k
  proof (cases "k \<in> set (ws_ids ws)")
    case True
    then obtain r where r: "r \<in> set rows" "snapshot_key r = k" "map_of (ws_files ws) (sn_name r) = Some (texts r)"
        "map_of (ws_names ws) (sn_name r) = Some k" using assms(1) unfolding workspace_ok_def by blast
    then have "sn_name r \<noteq> sn_name s" using assms(4) by auto
    then show ?thesis using r by (auto simp: write_snapshot_files_def map_of_update_conv)
  next
    case False
    then show ?thesis using that assms(2) by (auto simp: write_snapshot_files_def map_of_update_conv texts_def)
  qed
  moreover have "k \<in> set (ws_ids (write_snapshot_files s ws))"
    if "map_of (ws_names (write_snapshot_files s ws)) n = Some k" for n k
    using that assms(1) by (auto simp: write_snapshot_files_def map_of_update_conv workspace_ok_def split: if_splits)
  moreover have "\<exists>r\<in>set rows. sn_name r = n \<and> files = texts r \<and> verify_snapshot_row env r None = Inr ()
        \<and> snapshot_key r \<in> set (ws_ids (write_snapshot_files s ws))"
    if "map_of (ws_files (write_snapshot_files s ws)) n = Some files" for n files
  proof (cases "n = sn_name s")
    case True
    then have "files = texts s" using that by (simp add: write_snapshot_files_def map_of_update_conv texts_def)
    then show ?thesis using True assms(2,3) by (auto simp: write_snapshot_files_def)
  next
    case False
    then have "map_of (ws_files ws) n = Some files" using that by (simp add: write_snapshot_files_def map_of_update_conv)
    then obtain r where "r \<in> set rows" "sn_name r = n" "files = texts r" "verify_snapshot_row env r None = Inr ()"
        "snapshot_key r \<in> set (ws_ids ws)" using assms(1) unfolding workspace_ok_def by blast
    then show ?thesis by (intro bexI [of _ r]) (simp_all add: write_snapshot_files_def)
  qed
  ultimately show ?thesis unfolding workspace_ok_def by blast
qed

lemma complete_except_write:
  assumes "complete_except env rows A ws" "registry_ok env rows" "s \<in> set rows"
  shows "complete_except env rows (insert (sn_name s) A) (write_snapshot_files s ws)"
  unfolding complete_except_def
proof (intro ballI impI)
  fix r d assume r: "r \<in> set rows" "snapshot_key r \<in> set (ws_ids (write_snapshot_files s ws))"
    "sn_name r \<notin> insert (sn_name s) A" "d \<in> dependencies_of env r"
  have "snapshot_key r \<noteq> snapshot_key s" using snapshot_key_inj [OF assms(2) r(1) assms(3)] r(3) by auto
  then have "snapshot_key r \<in> set (ws_ids ws)" using r(2) by (simp add: write_snapshot_files_def)
  then obtain c where "materialize_child env rows r d = Inr c" "snapshot_key c \<in> set (ws_ids ws)"
    using assms(1) r unfolding complete_except_def by blast
  then show "\<exists>c. materialize_child env rows r d = Inr c \<and> snapshot_key c \<in> set (ws_ids (write_snapshot_files s ws))"
    by (auto simp: write_snapshot_files_def)
qed

lemma materialize_tree_ok:
  assumes reg: "registry_ok env rows"
  shows "materialize_snapshot_tree env rows s active expected ws = Inr ws' \<Longrightarrow> workspace_ok env rows ws
    \<Longrightarrow> complete_except env rows (set active) ws \<Longrightarrow> s \<in> set rows
    \<Longrightarrow> workspace_ok env rows ws' \<and> complete_except env rows (set active) ws' \<and> set (ws_ids ws) \<subseteq> set (ws_ids ws')
      \<and> snapshot_key s \<in> set (ws_ids ws')"
proof (induction "graph_measure rows active s" arbitrary: s active expected ws ws' rule: less_induct)
  case less
  have a: "sn_name s \<notin> set active" using less.prems(1) by (subst (asm) materialize_snapshot_tree.simps) (auto split: if_splits)
  have n: "map_of (ws_names ws) (sn_name s) \<in> {None, Some (snapshot_key s)}"
    using less.prems(1) a by (subst (asm) materialize_snapshot_tree.simps) (simp split: if_splits)
  show ?case
  proof (cases "snapshot_key s \<in> set (ws_ids ws)")
    case True
    then have "ws' = ws" using less.prems(1) a by (subst (asm) materialize_snapshot_tree.simps) (simp split: if_splits)
    then show ?thesis using True less.prems by simp
  next
    case False
    then have none: "map_of (ws_names ws) (sn_name s) = None" using n less.prems(2) unfolding workspace_ok_def by auto
    from less.prems(1) a none False obtain m where v: "verify_snapshot_row env s None = Inr ()"
        "manifest_or_empty env (sn_manifest s) = Inr m"
        "(case jget_or m ''dependencies'' (JArr []) of
           JArr ds \<Rightarrow> sfold (\<lambda>d ws. sbind (materialize_child env rows s d) (\<lambda>c.
             materialize_snapshot_tree env rows c (sn_name s # active) None ws)) ds (write_snapshot_files s ws)
         | _ \<Rightarrow> Inl (Snapshot_Missing ''dependencies must be a list'')) = Inr ws'"
      unfolding materialize_snapshot_tree.simps [of env rows s active expected ws]
      by (auto simp del: sfold.simps)
    then obtain ds where m: "verify_snapshot_row env s None = Inr ()" "manifest_or_empty env (sn_manifest s) = Inr m"
        "jget_or m ''dependencies'' (JArr []) = JArr ds"
        "sfold (\<lambda>d ws. sbind (materialize_child env rows s d) (\<lambda>c.
             materialize_snapshot_tree env rows c (sn_name s # active) None ws)) ds (write_snapshot_files s ws) = Inr ws'"
      by (cases "jget_or m ''dependencies'' (JArr [])") (simp_all del: sfold.simps)
    define P where "P (w :: workspace) \<longleftrightarrow> workspace_ok env rows w \<and> complete_except env rows (insert (sn_name s) (set active)) w
       \<and> set (ws_ids ws) \<subseteq> set (ws_ids w) \<and> snapshot_key s \<in> set (ws_ids w)" for w
    define Q where "Q d (w :: workspace) \<longleftrightarrow> (\<exists>c. materialize_child env rows s d = Inr c \<and> snapshot_key c \<in> set (ws_ids w))" for d w
    have start: "P (write_snapshot_files s ws)"
      using workspace_ok_write [OF less.prems(2,4) m(1) none] complete_except_write [OF less.prems(3) reg less.prems(4)]
      by (auto simp: P_def write_snapshot_files_def)
    have child: "P w' \<and> (\<exists>c. materialize_child env rows s d = Inr c \<and> snapshot_key c \<in> set (ws_ids w')) \<and> set (ws_ids w) \<subseteq> set (ws_ids w')"
      if w: "P w" "sbind (materialize_child env rows s d) (\<lambda>c. materialize_snapshot_tree env rows c (sn_name s # active) None w) = Inr w'"
      for d w w'
    proof -
      obtain c where c: "materialize_child env rows s d = Inr c"
          "materialize_snapshot_tree env rows c (sn_name s # active) None w = Inr w'" using w(2) by auto
      have "workspace_ok env rows w' \<and> complete_except env rows (set (sn_name s # active)) w'
          \<and> set (ws_ids w) \<subseteq> set (ws_ids w') \<and> snapshot_key c \<in> set (ws_ids w')"
        by (rule less.hyps [OF graph_measure_decreases [OF a materialize_child_mem [OF c(1)]] c(2)])
          (use w(1) materialize_child_mem [OF c(1)] in \<open>simp_all add: P_def\<close>)
      then show ?thesis using c(1) w(1) by (auto simp: P_def)
    qed
    have "P ws' \<and> (\<forall>d\<in>set ds. Q d ws')"
    proof (rule sfold_each [where P = P and Q = Q, OF m(4) start])
      show "\<And>d w w'. d \<in> set ds \<Longrightarrow> P w \<Longrightarrow> sbind (materialize_child env rows s d) (\<lambda>c.
          materialize_snapshot_tree env rows c (sn_name s # active) None w) = Inr w' \<Longrightarrow> P w' \<and> Q d w'"
        using child unfolding Q_def by blast
      show "\<And>d e w w'. P w \<Longrightarrow> Q d w \<Longrightarrow> sbind (materialize_child env rows s e) (\<lambda>c.
          materialize_snapshot_tree env rows c (sn_name s # active) None w) = Inr w' \<Longrightarrow> Q d w'"
        using child unfolding Q_def by blast
    qed
    then have p: "P ws'" and q: "\<And>d. d \<in> set ds \<Longrightarrow> Q d ws'" by auto
    have "complete_except env rows (set active) ws'"
      unfolding complete_except_def
    proof (intro ballI impI)
      fix r d assume r: "r \<in> set rows" "snapshot_key r \<in> set (ws_ids ws')" "sn_name r \<notin> set active" "d \<in> dependencies_of env r"
      show "\<exists>c. materialize_child env rows r d = Inr c \<and> snapshot_key c \<in> set (ws_ids ws')"
      proof (cases "sn_name r = sn_name s")
        case True
        obtain k where k: "k \<in> set rows" "map_of (ws_names ws') (sn_name k) = Some (snapshot_key k)" "snapshot_key k = snapshot_key r"
          using p r(2) unfolding P_def workspace_ok_def by metis
        obtain l where l: "l \<in> set rows" "map_of (ws_names ws') (sn_name l) = Some (snapshot_key l)" "snapshot_key l = snapshot_key s"
          using p unfolding P_def workspace_ok_def by metis
        have "r = k" "s = l" using snapshot_key_inj [OF reg] k l r(1) less.prems(4) by metis+
        then have "r = s" using k(2) l(2) True snapshot_key_inj [OF reg r(1) less.prems(4)] by simp
        then have "d \<in> set ds" using r(4) m(2,3) by (auto simp: dependencies_of_def)
        then show ?thesis using q \<open>r = s\<close> by (simp add: Q_def)
      next
        case False
        then show ?thesis using p r unfolding P_def complete_except_def by blast
      qed
    qed
    then show ?thesis using p by (auto simp: P_def)
  qed
qed

section \<open>The job runs what its snapshot records\<close>

definition empty_workspace :: workspace where
  "empty_workspace = \<lparr>ws_files = [], ws_ids = [], ws_names = []\<rparr>"

lemma materialize_snapshot_ok:
  assumes reg: "registry_ok env rows" and m: "materialize_snapshot env rows name content i execution = Inr files"
  obtains s ws where "s \<in> set rows" "sn_name s = name" "files = ws_files ws" "workspace_ok env rows ws"
    "complete_except env rows {} ws" "snapshot_key s \<in> set (ws_ids ws)" "truthy_opt i = Some (sn_id s)"
proof -
  obtain s ws where s: "fetch_skill_snapshot rows content i = Inr (Some s)" "sn_name s = name"
      "materialize_snapshot_tree env rows s [] execution empty_workspace = Inr ws" "files = ws_files ws"
    using m by (auto simp: materialize_snapshot_def empty_workspace_def split: option.splits if_splits)
  then have mem: "s \<in> set rows" "truthy_opt i = Some (sn_id s)"
    by (auto simp: fetch_skill_snapshot_def split: option.splits dest: find_first_Some)
  have "workspace_ok env rows ws \<and> complete_except env rows (set []) ws \<and> set (ws_ids empty_workspace) \<subseteq> set (ws_ids ws)
      \<and> snapshot_key s \<in> set (ws_ids ws)"
    by (rule materialize_tree_ok [OF reg s(3) _ _ mem(1)])
      (simp_all add: workspace_ok_def complete_except_def empty_workspace_def)
  then show thesis using that s mem by simp
qed

lemma workspace_file:
  assumes "registry_ok env rows" "workspace_ok env rows ws" "r \<in> set rows" "snapshot_key r \<in> set (ws_ids ws)"
  shows "map_of (ws_files ws) (sn_name r) = Some (texts r)"
proof -
  obtain k where "k \<in> set rows" "snapshot_key k = snapshot_key r" "map_of (ws_files ws) (sn_name k) = Some (texts k)"
    using assms(2,4) unfolding workspace_ok_def by blast
  then show ?thesis using snapshot_key_inj [OF assms(1) _ assms(3)] by auto
qed

lemma materialize_snapshot_grown:
  assumes "grown env rows rows'" "r \<in> set rows"
  shows "materialize_snapshot env rows' name content (Some (sn_id r)) execution
    = materialize_snapshot env rows name content (Some (sn_id r)) execution"
proof -
  have ok: "registry_ok env rows" "registry_ok env rows'" using assms(1) by (auto simp: grown_def)
  obtain r' where r': "r' \<in> set rows'" "same_content r r'" using extends_memD assms unfolding grown_def by blast
  note f = same_content_fields [OF r'(2)]
  have i: "truthy_opt (Some (sn_id r)) = Some (sn_id r)" using ok(1) assms(2) by (simp add: registry_ok_def truthy_opt_def)
  have "find_first (\<lambda>x. sn_id x = sn_id r) rows = Some r"
    using find_first_map_id ok(1) assms(2) unfolding registry_ok_def by blast
  moreover have "find_first (\<lambda>x. sn_id x = sn_id r) rows' = Some r'"
    using find_first_map_id [of rows' r'] ok(2) r'(1) f(1) unfolding registry_ok_def by simp
  moreover have "pinned_row env (sn_id ` set rows) r" using ok(1) assms(2) unfolding registry_ok_def by blast
  ultimately show ?thesis
    using materialize_tree_grown [OF assms(1) _ r'(2)] same_content_verify [OF r'(2)]
    by (simp add: materialize_snapshot_def fetch_skill_snapshot_def i f)
qed

text \<open>C23. A job that references a snapshot runs that snapshot and nothing else, however the registry has
  changed since: new registrations and activations of other versions leave what the worker materializes
  unchanged, and what it materializes are verified rows of the table, the referenced one among them, together
  with every dependency their manifests declare.\<close>

theorem job_reproduces_its_snapshot:
  assumes "(registry_step env fresh)\<^sup>*\<^sup>* rows rows'" "registry_ok env rows" "fresh_ids fresh"
    and "r \<in> set rows"
    and "materialize_snapshot env rows (sn_name r) content (Some (sn_id r)) execution = Inr files"
  shows "materialize_snapshot env rows' (sn_name r) content (Some (sn_id r)) execution = Inr files
    \<and> map_of files (sn_name r) = Some (sn_md r, sn_schema r, sn_manifest r)
    \<and> (\<forall>n x. map_of files n = Some x \<longrightarrow> (\<exists>s\<in>set rows. sn_name s = n \<and> x = (sn_md s, sn_schema s, sn_manifest s)
        \<and> verify_snapshot_row env s None = Inr ()
        \<and> (\<forall>d\<in>dependencies_of env s. \<exists>c. materialize_child env rows s d = Inr c
            \<and> map_of files (sn_name c) = Some (sn_md c, sn_schema c, sn_manifest c))))"
proof -
  have g: "grown env rows rows'" using registry_steps_ok [OF assms(1-3)] assms(2) by (simp add: grown_def)
  obtain s ws where s: "s \<in> set rows" "sn_name s = sn_name r" "files = ws_files ws" "workspace_ok env rows ws"
      "complete_except env rows {} ws" "snapshot_key s \<in> set (ws_ids ws)" "truthy_opt (Some (sn_id r)) = Some (sn_id s)"
    by (rule materialize_snapshot_ok [OF assms(2,5)])
  have "sn_id s = sn_id r" using s(7) by (simp add: truthy_opt_def split: if_splits)
  moreover have "inj_on sn_id (set rows)" using assms(2) by (simp add: registry_ok_def distinct_map)
  ultimately have "s = r" using inj_onD [OF _ _ s(1) assms(4)] by blast
  note wfile = workspace_file [OF assms(2) s(4)]
  have "\<exists>k\<in>set rows. sn_name k = n \<and> x = texts k \<and> verify_snapshot_row env k None = Inr ()
      \<and> (\<forall>d\<in>dependencies_of env k. \<exists>c. materialize_child env rows k d = Inr c \<and> map_of files (sn_name c) = Some (texts c))"
    if nx: "map_of files n = Some x" for n x
  proof -
    obtain k where k: "k \<in> set rows" "sn_name k = n" "x = texts k" "verify_snapshot_row env k None = Inr ()"
        "snapshot_key k \<in> set (ws_ids ws)" using s(3,4) nx unfolding workspace_ok_def by blast
    have "\<exists>c. materialize_child env rows k d = Inr c \<and> map_of files (sn_name c) = Some (texts c)"
      if dk: "d \<in> dependencies_of env k" for d
    proof -
      obtain c where c: "materialize_child env rows k d = Inr c" "snapshot_key c \<in> set (ws_ids ws)"
        using complete_exceptD [OF s(5) k(1,5) _ dk] by auto
      have "map_of files (sn_name c) = Some (texts c)" using wfile [OF materialize_child_mem [OF c(1)] c(2)] s(3) by simp
      with c(1) show ?thesis by blast
    qed
    with k show ?thesis by (intro bexI [OF _ k(1)] conjI ballI)
  qed
  moreover have "materialize_snapshot env rows' (sn_name r) content (Some (sn_id r)) execution = Inr files"
    using materialize_snapshot_grown [OF g assms(4)] assms(5) by simp
  moreover have "map_of files (sn_name r) = Some (texts r)" using wfile [OF s(1,6)] \<open>s = r\<close> s(3) by simp
  ultimately show ?thesis unfolding texts_def by blast
qed

text \<open>The API and the worker compute the same execution hash: the value the API computes for a snapshot
  when it stamps a job is the value the worker recomputes for the referenced row, in every later state of the
  registry.\<close>

theorem worker_recomputes_the_stamped_hash:
  assumes "(registry_step env fresh)\<^sup>*\<^sup>* rows rows'" "registry_ok env rows" "fresh_ids fresh"
    and "r \<in> set rows" "compute_execution_hash env rows r [] = Inr h"
    and "fetch_skill_snapshot rows' None (Some (sn_id r)) = Inr (Some r')"
  shows "execution_hash env rows' r' [] = Inr h \<and> sn_md r' = sn_md r \<and> sn_pins r' = sn_pins r"
proof -
  have ok: "registry_ok env rows'" "extends rows rows'" using registry_steps_ok [OF assms(1-3)] by auto
  then have g: "grown env rows rows'" using assms(2) by (simp add: grown_def)
  obtain k where k: "k \<in> set rows'" "same_content r k" using extends_memD [OF ok(2) assms(4)] by blast
  have id: "sn_id r \<noteq> []" "pinned_row env (sn_id ` set rows) r" using assms(2,4) by (auto simp: registry_ok_def)
  have "find_first (\<lambda>x. sn_id x = sn_id k) rows' = Some k"
    using find_first_map_id ok(1) k(1) unfolding registry_ok_def by blast
  then have "r' = k" using assms(6) id(1) same_content_fields(1) [OF k(2)] by (simp add: fetch_skill_snapshot_def truthy_opt_def)
  then show ?thesis
    using execution_hash_grown [OF g id(2) k(2)] execution_hash_of [OF assms(5)] same_content_fields [OF k(2)] by simp
qed

section \<open>Framing and line endings\<close>

lemma digits_unique:
  "(n::nat) < b ^ k \<Longrightarrow> m < b ^ k \<Longrightarrow> (\<And>i. i < k \<Longrightarrow> n div b ^ i mod b = m div b ^ i mod b) \<Longrightarrow> n = m"
proof (induction k arbitrary: n m)
  case (Suc k)
  have "n div b = m div b"
  proof (rule Suc.IH)
    show "n div b < b ^ k" "m div b < b ^ k" using Suc.prems(1,2) by (simp_all add: less_mult_imp_div_less mult.commute)
    show "n div b div b ^ i mod b = m div b div b ^ i mod b" if "i < k" for i
      using Suc.prems(3) [of "Suc i"] that by (simp add: div_mult2_eq)
  qed
  moreover have "n mod b = m mod b" using Suc.prems(3) [of 0] by simp
  ultimately show ?case by (metis div_mult_mod_eq)
qed simp

lemma to_bytes8_inj: "to_bytes8 n = to_bytes8 m \<Longrightarrow> n < 256 ^ 8 \<Longrightarrow> m < 256 ^ 8 \<Longrightarrow> n = m"
proof (rule digits_unique [of n 256 8 m])
  assume "to_bytes8 n = to_bytes8 m"
  then have "\<forall>i\<in>set [7, 6, 5, 4, 3, 2, 1, 0]. n div 256 ^ i mod 256 = m div 256 ^ i mod 256"
    by (simp add: to_bytes8_def)
  moreover fix i :: nat assume "i < 8"
  then have "i \<in> set [7, 6, 5, 4, 3, 2, 1, 0]" by auto
  ultimately show "n div 256 ^ i mod 256 = m div 256 ^ i mod 256" by blast
qed

lemma length_to_bytes8 [simp]: "length (to_bytes8 n) = 8"
  by (simp add: to_bytes8_def)

text \<open>The length prefixes make the framing of a list of contents unambiguous.\<close>

lemma frames_inj:
  "concat (map frame xs) = concat (map frame ys) \<Longrightarrow> length xs = length ys
    \<Longrightarrow> \<forall>x\<in>set xs. length x < 256 ^ 8 \<Longrightarrow> \<forall>y\<in>set ys. length y < 256 ^ 8 \<Longrightarrow> xs = ys"
proof (induction xs arbitrary: ys)
  case (Cons x xs)
  then obtain y zs where y: "ys = y # zs" by (cases ys) auto
  have e: "to_bytes8 (length x) @ x @ concat (map frame xs) = to_bytes8 (length y) @ y @ concat (map frame zs)"
    using Cons.prems(1) by (simp add: y frame_def [of x] frame_def [of y])
  then have l: "to_bytes8 (length x) = to_bytes8 (length y)" "x @ concat (map frame xs) = y @ concat (map frame zs)" by auto
  have "length x = length y" using to_bytes8_inj [OF l(1)] Cons.prems(3,4) by (simp add: y)
  then have "x = y" "concat (map frame xs) = concat (map frame zs)" using l(2) by auto
  then show ?case using Cons.IH [of zs] Cons.prems(2-4) by (simp add: y)
qed simp

lemma universal_newlines_fixed: "universal_newlines s = s \<longleftrightarrow> 13 \<notin> set s"
proof
  have "13 \<notin> set (universal_newlines s)" for s by (induction s rule: universal_newlines.induct) auto
  then show "universal_newlines s = s \<Longrightarrow> 13 \<notin> set s" by metis
  show "13 \<notin> set s \<Longrightarrow> universal_newlines s = s" by (induction s rule: universal_newlines.induct) auto
qed

text \<open>C24. Which registered snapshots can run: the API hashes the bytes of the checkout but stores the text it
  reads with translated line endings, so the worker's verification accepts the stored row exactly when no
  file of the checkout has a carriage return. (With digests of 64 characters, an injective UTF-8 encoding,
  files below \<open>2\<^sup>6\<^sup>4\<close> bytes and no collision between the two framings.)\<close>

theorem stored_snapshot_verifies_iff_no_carriage_return:
  fixes rows :: "skill_row list"
  assumes disk: "disk name = Some (md, schema, manifest)"
    and "compute_skill_hash env disk name = Inr content" "read_skill_files disk name = Inr files"
    and "insert_snapshot env fresh now activate name content files pins rows = Inr (s, rows')"
    and len: "length content = 64" and utf8: "inj (se_utf8 env)"
    and small: "\<forall>f\<in>{md, schema, manifest}. length (se_utf8 env f) < 2 ^ 64 \<and> length (se_utf8 env (universal_newlines f)) < 2 ^ 64"
    and sha: "let raw = concat (map frame (map (se_utf8 env) [md, schema, manifest]));
                  stored = concat (map frame (map (se_utf8 env) (map universal_newlines [md, schema, manifest])))
              in se_sha env stored = se_sha env raw \<longrightarrow> stored = raw"
  shows "verify_snapshot_row env s None = Inr () \<longleftrightarrow> 13 \<notin> set md \<union> set schema \<union> set manifest"
proof -
  have files: "files = (universal_newlines md, universal_newlines schema, universal_newlines manifest)"
    using assms(3) disk by (simp add: read_skill_files_def)
  have c: "content = content_digest env (map (se_utf8 env) [md, schema, manifest])"
    using assms(2) disk by (simp add: compute_skill_hash_def)
  have s: "sn_content_hash s = content" "sn_md s = universal_newlines md" "sn_schema s = universal_newlines schema"
      "sn_manifest s = universal_newlines manifest"
    using assms(4) files by (auto simp: insert_snapshot_def Let_def)
  let ?raw = "map (se_utf8 env) [md, schema, manifest]"
  let ?stored = "map (se_utf8 env) (map universal_newlines [md, schema, manifest])"
  have "verify_snapshot_row env s None = Inr () \<longleftrightarrow> content_digest env ?stored = content_digest env ?raw"
    using len by (simp add: verify_snapshot_row_def row_digest_def s guard_def) (simp add: c)
  also have "\<dots> \<longleftrightarrow> concat (map frame ?stored) = concat (map frame ?raw)"
    using sha by (auto simp: content_digest_def Let_def)
  also have "\<dots> \<longleftrightarrow> ?stored = ?raw"
    using frames_inj [of ?stored ?raw] small by (auto simp: power_numeral_even power_numeral_odd)
  also have "\<dots> \<longleftrightarrow> universal_newlines md = md \<and> universal_newlines schema = schema \<and> universal_newlines manifest = manifest"
    using inj_eq [OF utf8] by simp
  finally show ?thesis by (simp add: universal_newlines_fixed)
qed

section \<open>Witnesses\<close>

lemma sample_fetch: "fetch_skill_snapshot [sample_snap] c (Some (sn_id sample_snap)) = Inr (Some sample_snap)"
proof -
  have "sn_id sample_snap \<noteq> []" by (simp add: sample_snap_def)
  then show ?thesis by (simp add: fetch_skill_snapshot_def truthy_opt_def)
qed

lemma sample_row_verifies: "verify_snapshot_row sample_skill_env sample_snap None = Inr ()"
  by (simp add: verify_snapshot_row_def row_digest_def sample_snap_def sample_content_def guard_def)

lemma sample_materializes:
  "materialize_snapshot sample_skill_env [sample_snap] (sn_name sample_snap) None (Some (sn_id sample_snap)) None
     = Inr [(sn_name sample_snap, sn_md sample_snap, sn_schema sample_snap, sn_manifest sample_snap)]"
proof -
  have "materialize_snapshot_tree sample_skill_env [sample_snap] sample_snap [] None empty_workspace
      = Inr (write_snapshot_files sample_snap empty_workspace)"
    by (subst materialize_snapshot_tree.simps) (simp add: sample_row_verifies empty_workspace_def)
  then show ?thesis
    unfolding materialize_snapshot_def sample_fetch
    by (simp add: sample_row_verifies empty_workspace_def write_snapshot_files_def)
qed

theorem job_reproduces_its_snapshot_witness:
  "map_of [(sn_name sample_snap, sn_md sample_snap, sn_schema sample_snap, sn_manifest sample_snap)] (sn_name sample_snap)
     = Some (sn_md sample_snap, sn_schema sample_snap, sn_manifest sample_snap)"
proof -
  have "sample_snap \<in> set [sample_snap]" by simp
  from job_reproduces_its_snapshot [OF rtranclp.rtrancl_refl sample_registry_ok sample_fresh_ids this sample_materializes]
  show ?thesis by (rule conjunct2 [THEN conjunct1])
qed

theorem worker_recomputes_the_stamped_hash_witness:
  "execution_hash sample_skill_env [sample_snap] sample_snap []
     = Inr (execution_digest sample_skill_env (sn_content_hash sample_snap) [])"
proof -
  have "sample_snap \<in> set [sample_snap]" by simp
  from worker_recomputes_the_stamped_hash
    [OF rtranclp.rtrancl_refl sample_registry_ok sample_fresh_ids this sample_hash sample_fetch]
  show ?thesis by (rule conjunct1)
qed

definition crlf_checkout :: checkout where
  "crlf_checkout = (\<lambda>n. if n = u ''s'' then Some ([65], [13], [67]) else None)"

definition crlf_content :: pystr where
  "crlf_content = content_digest sample_skill_env (map (se_utf8 sample_skill_env) [[65], [13], [67]])"

definition crlf_snap :: skill_row where
  "crlf_snap = \<lparr>sn_id = [1], sn_name = u ''s'', sn_version = 1, sn_content_hash = crlf_content,
     sn_execution_hash = Some (execution_digest sample_skill_env crlf_content []), sn_md = [65], sn_schema = [10],
     sn_manifest = [67], sn_pins = [], sn_created = 5, sn_active = True\<rparr>"

theorem stored_snapshot_verifies_iff_no_carriage_return_witness:
  "verify_snapshot_row sample_skill_env crlf_snap None \<noteq> Inr ()"
proof -
  have i: "insert_snapshot sample_skill_env sample_fresh 5 None (u ''s'') crlf_content ([65], [10], [67]) [] []
      = Inr (crlf_snap, [crlf_snap])"
    by (simp add: insert_snapshot_def snapshots_named_def deactivate_def Let_def sample_validates sample_hash
        sample_fresh_def next_version_def crlf_snap_def)
  have "length crlf_content = 64" by (simp add: crlf_content_def content_digest_def sample_skill_env_def)
  moreover have "inj (se_utf8 sample_skill_env)" by (simp add: sample_skill_env_def inj_def)
  moreover have "let raw = concat (map frame (map (se_utf8 sample_skill_env) [[65], [13], [67]]));
        stored = concat (map frame (map (se_utf8 sample_skill_env) (map universal_newlines [[65], [13], [67]])))
      in se_sha sample_skill_env stored = se_sha sample_skill_env raw \<longrightarrow> stored = raw"
    by (simp add: Let_def sample_skill_env_def frame_def to_bytes8_def)
  ultimately show ?thesis
    using stored_snapshot_verifies_iff_no_carriage_return [of crlf_checkout "u ''s''" "[65]" "[13]" "[67]" sample_skill_env
        crlf_content "([65], [10], [67])" sample_fresh 5 None "[]" "[]" crlf_snap "[crlf_snap]"] i
    by (simp add: crlf_checkout_def compute_skill_hash_def crlf_content_def read_skill_files_def sample_skill_env_def)
qed

end
