(* ===== verification/Analysis_Api.thy ===== *)
theory Analysis_Api
  imports Reports_Api Skill_Registry
begin

text \<open>
  The analysis API, \<^verbatim>\<open>apps/api/app/api/v1/routers/analysis.py\<close>: requesting an analysis (from the cache or
  through the outbox), taking over the result of a completed job and reading the runs. A run extends the
  row that reports freeze by its job, its creation time and its text; the remaining columns are a function
  of their name, as there. MinIO, JSON text, UTF-8 decoding and what PostgreSQL accepts for a column are
  arguments; exceptions without a handler are status 500 and roll the transaction back.
\<close>

section \<open>Tables\<close>

record analysis_run = run_row +
  ar_job_id :: uuid
  ar_created_at :: time
  ar_result_text :: "pystr option"

text \<open>The columns of a job that the worker never writes.\<close>

record job_meta =
  jm_id :: uuid
  jm_type :: pystr
  jm_incident_id :: "uuid option"
  jm_queued_at :: time
  jm_model :: json
  jm_effort :: json
  jm_skill_name :: pystr
  jm_skill_version :: pystr
  jm_used_cache :: bool
  jm_cache_type :: "pystr option"

record analysis_db =
  adb_evidence :: evidence_db
  adb_skills :: "skill_row list"
  adb_runs :: "analysis_run list"
  adb_meta :: "job_meta list"
  adb_jobs :: job_db
  adb_events :: "outbox_event list"

record analysis_settings =
  as_bucket :: pystr
  as_ai_runtime :: pystr
  as_decode :: "pystr \<Rightarrow> pystr"
  as_accepts :: "string \<Rightarrow> json \<Rightarrow> bool"

record request_ids =
  ri_job :: uuid
  ri_run :: uuid
  ri_event :: uuid
  ri_correlation :: pystr
  ri_now :: time

definition set_column :: "string \<Rightarrow> json \<Rightarrow> analysis_run \<Rightarrow> analysis_run" where
  "set_column k v r = r\<lparr>rn_column := (rn_column r)(k := v)\<rparr>"

text \<open>The index \<open>uq_analysis_runs_current_incident\<close>.\<close>

definition one_current_run :: "analysis_run list \<Rightarrow> bool" where
  "one_current_run rows \<longleftrightarrow> distinct (map rn_incident_id (filter rn_current rows))"

interpretation current: partial_index one_current_run rn_current rn_incident_id
  by unfold_locales (rule one_current_run_def)

section \<open>Cache\<close>

definition SKILL_NAME :: pystr where "SKILL_NAME = u ''log-triage-summary''"
definition PREPROCESSOR_VERSION :: pystr where "PREPROCESSOR_VERSION = u ''20''"
definition AI_POLICY_VERSION :: pystr where "AI_POLICY_VERSION = u ''1''"

definition CACHE_CONTRACT_VERSION :: pystr where
  "CACHE_CONTRACT_VERSION = PREPROCESSOR_VERSION @ u ''.'' @ AI_POLICY_VERSION"

text \<open>A filter is left out when its argument is \<open>None\<close>.\<close>

definition matches_opt :: "json \<Rightarrow> pystr option \<Rightarrow> bool" where
  "matches_opt v wanted = (case wanted of None \<Rightarrow> True | Some w \<Rightarrow> v = JStr w)"

definition reusable ::
  "evidence_row \<Rightarrow> pystr option \<Rightarrow> pystr option \<Rightarrow> pystr \<Rightarrow> pystr option \<Rightarrow> uuid option \<Rightarrow> analysis_run \<Rightarrow> bool" where
  "reusable ev model effort hash execution snapshot r \<longleftrightarrow>
     rn_column r ''skill_name'' = JStr SKILL_NAME \<and> rn_column r ''skill_hash'' = JStr hash
   \<and> rn_column r ''cache_contract_version'' = JStr CACHE_CONTRACT_VERSION
   \<and> rn_column r ''input_manifest_sha256'' = JStr (e_sha256 ev) \<and> rn_result r \<noteq> JNull
   \<and> matches_opt (rn_column r ''skill_execution_hash'') execution
   \<and> (case snapshot of None \<Rightarrow> True | Some s \<Rightarrow> rn_snapshot_id r = Some s)
   \<and> matches_opt (rn_column r ''model'') model \<and> matches_opt (rn_column r ''effort'') effort"

definition newest :: "('a \<Rightarrow> time) \<Rightarrow> 'a list \<Rightarrow> 'a option" where
  "newest key rows = find_first (\<lambda>r. True) (sort_key (\<lambda>r. - key r) rows)"

definition find_cached_analysis_run ::
  "analysis_run list \<Rightarrow> evidence_row \<Rightarrow> pystr option \<Rightarrow> pystr option \<Rightarrow> pystr \<Rightarrow> pystr option \<Rightarrow> uuid option
    \<Rightarrow> analysis_run option" where
  "find_cached_analysis_run rows ev model effort hash execution snapshot =
    (if e_sha256 ev = [] then None
     else newest ar_created_at (filter (reusable ev model effort hash execution snapshot) rows))"

section \<open>Taking over a completed result\<close>

definition TELEMETRY_FIELDS :: "string list" where
  "TELEMETRY_FIELDS = [''input_tokens'', ''total_model_input_tokens'', ''output_tokens'', ''cache_creation_tokens'',
     ''cache_read_tokens'', ''duration_ms'', ''num_turns'', ''confidence'', ''escalation_reason'', ''raw_input_bytes'',
     ''evidence_bytes'', ''preprocessing_ratio'', ''attempt_count'', ''initial_model'', ''initial_effort'',
     ''initial_input_tokens'', ''initial_output_tokens'', ''initial_cache_read_tokens'',
     ''initial_cache_creation_tokens'', ''initial_duration_ms'', ''initial_estimated_cost_usd'', ''escalation_model'',
     ''escalation_effort'', ''escalation_input_tokens'', ''escalation_output_tokens'',
     ''escalation_cache_read_tokens'', ''escalation_cache_creation_tokens'', ''escalation_duration_ms'',
     ''escalation_estimated_cost_usd'', ''runtime_name'', ''runtime_version'', ''runtime_profile'', ''provider'',
     ''runtime_model'']"

text \<open>\<open>if field in telemetry: setattr(run, column, telemetry[field])\<close>.\<close>

definition take_field :: "json \<Rightarrow> string \<Rightarrow> string \<Rightarrow> (json \<Rightarrow> json) \<Rightarrow> analysis_run \<Rightarrow> doc_error + analysis_run" where
  "take_field telemetry field column f r = sbind (py_contains telemetry field) (\<lambda>has.
     if \<not> has then Inr r
     else if is_dict telemetry then Inr (set_column column (f (jget telemetry field)) r)
     else Inl Type_Error)"

definition take_telemetry :: "json \<Rightarrow> analysis_run \<Rightarrow> doc_error + analysis_run" where
  "take_telemetry telemetry r =
    sbind (sfold (\<lambda>k. take_field telemetry k k (\<lambda>v. v)) TELEMETRY_FIELDS r) (\<lambda>r.
    sbind (take_field telemetry ''cost_usd'' ''estimated_cost_usd'' (\<lambda>v. v) r) (\<lambda>r.
      take_field telemetry ''escalated'' ''escalated'' (\<lambda>v. JBool (truthy v)) r))"

definition artifact_key :: "uuid \<Rightarrow> string \<Rightarrow> pystr" where
  "artifact_key j name = u ''jobs/'' @ j @ u ''/'' @ u name"

definition fetch_telemetry :: "object_store \<Rightarrow> analysis_settings \<Rightarrow> uuid \<Rightarrow> json" where
  "fetch_telemetry st cfg j = (case so_get st (Some (as_bucket cfg)) (artifact_key j ''telemetry.json'') None of
      None \<Rightarrow> JObj []
    | Some t \<Rightarrow> (case so_loads st t of None \<Rightarrow> JObj [] | Some v \<Rightarrow> v))"

definition written_columns :: "string list" where
  "written_columns = TELEMETRY_FIELDS @ [''estimated_cost_usd'', ''escalated'', ''output_sha256'']"

definition sync_run :: "object_store \<Rightarrow> analysis_settings \<Rightarrow> job_row \<Rightarrow> analysis_run \<Rightarrow> http_error + analysis_run" where
  "sync_run st cfg job r =
    (if rn_result r \<noteq> JNull \<or> j_status job \<noteq> COMPLETED then Inr r
     else (case so_get st (Some (as_bucket cfg)) (artifact_key (ar_job_id r) ''result.json'') None of
       None \<Rightarrow> Inr r
     | Some body \<Rightarrow> (case so_loads st body of
         None \<Rightarrow> Inl internal_error
       | Some v \<Rightarrow>
          (case take_telemetry (fetch_telemetry st cfg (ar_job_id r))
               (set_column ''output_sha256'' (JStr (so_sha st body))
                 (r\<lparr>rn_result := v, ar_result_text := Some (as_decode cfg body)\<rparr>)) of
             Inl e \<Rightarrow> Inl internal_error
           | Inr r' \<Rightarrow>
               if list_all (\<lambda>k. as_accepts cfg k (rn_column r' k)) written_columns then Inr r' else Inl internal_error))))"

definition run_of_job :: "analysis_db \<Rightarrow> uuid \<Rightarrow> analysis_run option" where
  "run_of_job db j = find_first (\<lambda>r. ar_job_id r = j) (adb_runs db)"

definition sync_completed_job ::
  "object_store \<Rightarrow> analysis_settings \<Rightarrow> uuid \<Rightarrow> analysis_db \<Rightarrow> http_error + analysis_run option \<times> analysis_db" where
  "sync_completed_job st cfg j db = (case (run_of_job db j, jobs (adb_jobs db) j) of
      (Some r, Some job) \<Rightarrow> sbind (sync_run st cfg job r) (\<lambda>r'.
         Inr (Some r', db\<lparr>adb_runs := map (\<lambda>x. if rn_id x = rn_id r then r' else x) (adb_runs db)\<rparr>))
    | (run, _) \<Rightarrow> Inr (run, db))"

section \<open>Responses\<close>

record analysis_out =
  ao_meta :: job_meta
  ao_status :: job_status
  ao_attempt :: int
  ao_error_code :: "pystr option"
  ao_error_message :: "pystr option"
  ao_started_at :: "time option"
  ao_completed_at :: "time option"
  ao_run_id :: "uuid option"
  ao_skill_snapshot_id :: "uuid option"
  ao_result :: json
  ao_current :: bool
  ao_escalated :: json
  ao_columns :: "(string \<times> json) list"

definition OUT_COLUMNS :: "string list" where
  "OUT_COLUMNS = [''runtime_name'', ''runtime_version'', ''runtime_profile'', ''provider'', ''runtime_model'', ''skill_hash'',
     ''skill_execution_hash'', ''schema_hash'', ''input_contract_version'', ''preprocessor_version'', ''ai_policy_version'',
     ''ai_policy'', ''input_tokens'', ''total_model_input_tokens'', ''output_tokens'', ''cache_creation_tokens'',
     ''cache_read_tokens'', ''estimated_cost_usd'', ''duration_ms'', ''num_turns'', ''confidence'', ''escalation_reason'',
     ''raw_input_bytes'', ''evidence_bytes'', ''preprocessing_ratio'', ''attempt_count'', ''initial_model'',
     ''initial_effort'', ''initial_input_tokens'', ''initial_output_tokens'', ''initial_cache_read_tokens'',
     ''initial_cache_creation_tokens'', ''initial_duration_ms'', ''initial_estimated_cost_usd'', ''escalation_model'',
     ''escalation_effort'', ''escalation_input_tokens'', ''escalation_output_tokens'', ''escalation_cache_read_tokens'',
     ''escalation_cache_creation_tokens'', ''escalation_duration_ms'', ''escalation_estimated_cost_usd'']"

definition to_out :: "job_meta \<Rightarrow> job_row \<Rightarrow> analysis_run option \<Rightarrow> analysis_out" where
  "to_out m job run = \<lparr>ao_meta = m, ao_status = j_status job, ao_attempt = j_attempt job, ao_error_code = j_error_code job,
     ao_error_message = j_error_message job, ao_started_at = j_started_at job, ao_completed_at = j_completed_at job,
     ao_run_id = map_option rn_id run, ao_skill_snapshot_id = Option.bind run rn_snapshot_id,
     ao_result = (case run of None \<Rightarrow> JNull | Some r \<Rightarrow> rn_result r),
     ao_current = (case run of None \<Rightarrow> False | Some r \<Rightarrow> rn_current r),
     ao_escalated = (case run of None \<Rightarrow> JBool False | Some r \<Rightarrow> rn_column r ''escalated''),
     ao_columns = map (\<lambda>k. (k, case run of None \<Rightarrow> JNull | Some r \<Rightarrow> rn_column r k)) OUT_COLUMNS\<rparr>"

section \<open>Requesting an analysis\<close>

text \<open>The newest active log of the incident.\<close>

definition newest_log :: "evidence_db \<Rightarrow> uuid \<Rightarrow> evidence_row option" where
  "newest_log db i = newest e_created_at (filter (\<lambda>e. e_incident_id e = i \<and> e_type e = u ''LOG'' \<and> e_lifecycle e = ACTIVE)
     (evidence db))"

definition snapshot_schema_hash :: "skill_env \<Rightarrow> skill_row \<Rightarrow> pystr" where
  "snapshot_schema_hash env s = se_sha env (se_utf8 env (sn_schema s))"

text \<open>What the snapshot contributes to a run: its declared version, its input contract, its policy.\<close>

definition snapshot_runtime_provenance :: "skill_env \<Rightarrow> skill_row \<Rightarrow> skill_error + (string \<times> json) list" where
  "snapshot_runtime_provenance env s = sbind (input_contract_version env s) (\<lambda>c. sbind (execution_policy env s) (\<lambda>p.
     Inr [(''input_contract_version'', jopt c), (''preprocessor_version'', JStr PREPROCESSOR_VERSION),
       (''ai_policy_version'', JStr AI_POLICY_VERSION), (''ai_policy'', p)]))"

text \<open>A new current run; the columns that are not given are null, except for the two flags.\<close>

definition new_run ::
  "request_ids \<Rightarrow> uuid \<Rightarrow> evidence_row \<Rightarrow> skill_row \<Rightarrow> (string \<times> json) list \<Rightarrow> json \<Rightarrow> pystr option \<Rightarrow> analysis_run" where
  "new_run ids i ev s cols res txt = \<lparr>rn_id = ri_run ids, rn_incident_id = i, rn_current = True,
     rn_log_evidence_id = Some (e_id ev), rn_snapshot_id = Some (sn_id s), rn_result = res,
     rn_column = (\<lambda>k. case map_of cols k of Some v \<Rightarrow> v
       | None \<Rightarrow> if k \<in> {''used_cache'', ''escalated''} then JBool False else JNull),
     ar_job_id = ri_job ids, ar_created_at = ri_now ids, ar_result_text = txt\<rparr>"

definition identity_columns :: "skill_env \<Rightarrow> evidence_row \<Rightarrow> skill_row \<Rightarrow> pystr \<Rightarrow> pystr \<Rightarrow> (string \<times> json) list" where
  "identity_columns env ev s version execution =
    [(''skill_name'', JStr SKILL_NAME), (''skill_version'', JStr version), (''skill_hash'', JStr (sn_content_hash s)),
     (''skill_execution_hash'', JStr execution), (''schema_hash'', JStr (snapshot_schema_hash env s)),
     (''cache_contract_version'', JStr CACHE_CONTRACT_VERSION), (''input_manifest_sha256'', JStr (e_sha256 ev))]"

definition cached_columns :: "analysis_run \<Rightarrow> (string \<times> json) list" where
  "cached_columns c = [(''model'', rn_column c ''model''), (''effort'', rn_column c ''effort''),
     (''output_sha256'', rn_column c ''output_sha256''), (''used_cache'', JBool True), (''cache_type'', JStr (u ''exact''))]"

definition analysis_job_request :: "request_ids \<Rightarrow> uuid \<Rightarrow> evidence_row \<Rightarrow> skill_row \<Rightarrow> pystr \<Rightarrow> pystr \<Rightarrow> json \<Rightarrow> job_request" where
  "analysis_job_request ids i ev s version execution policy = \<lparr>jr_job_id = ri_job ids, jr_job_type = u ''log_triage'',
     jr_incident_id = Some i,
     jr_object_refs = [jobj [(''bucket'', JStr (e_bucket ev)), (''key'', JStr (e_object_key ev)),
       (''sha256'', JStr (e_sha256 ev)), (''version_id'', jopt (e_version_id ev))]],
     jr_model = None, jr_effort = None, jr_skill_name = SKILL_NAME, jr_skill_version = version,
     jr_correlation_id = ri_correlation ids, jr_attempt = 1, jr_skill_hash = Some (sn_content_hash s),
     jr_skill_execution_hash = Some execution, jr_skill_snapshot_id = Some (sn_id s),
     jr_protocol_version = PROTOCOL_VERSION, jr_expected_output_type = None, jr_ai_policy = Some policy\<rparr>"

definition job_meta_of :: "request_ids \<Rightarrow> uuid \<Rightarrow> pystr \<Rightarrow> analysis_run option \<Rightarrow> job_meta" where
  "job_meta_of ids i version cached = \<lparr>jm_id = ri_job ids, jm_type = u ''log_triage'', jm_incident_id = Some i,
     jm_queued_at = ri_now ids, jm_model = (case cached of None \<Rightarrow> JNull | Some c \<Rightarrow> rn_column c ''model''),
     jm_effort = (case cached of None \<Rightarrow> JNull | Some c \<Rightarrow> rn_column c ''effort''),
     jm_skill_name = SKILL_NAME, jm_skill_version = version, jm_used_cache = (cached \<noteq> None),
     jm_cache_type = (case cached of None \<Rightarrow> None | Some c \<Rightarrow> Some (u ''exact''))\<rparr>"

text \<open>The update that clears the flag reaches the incident's rows it sees; another request may have committed
  a row that it did not see. Then the index refuses the commit and everything is rolled back.\<close>

definition clear_current :: "uuid \<Rightarrow> uuid list \<Rightarrow> analysis_run list \<Rightarrow> analysis_run list" where
  "clear_current i seen rows =
    map (\<lambda>r. if rn_incident_id r = i \<and> rn_id r \<in> set seen then r\<lparr>rn_current := False\<rparr> else r) rows"

definition commit_current :: "analysis_db \<Rightarrow> analysis_db \<Rightarrow> analysis_out \<Rightarrow> (http_error + analysis_out) \<times> analysis_db" where
  "commit_current before after out = (if one_current_run (adb_runs after) then (Inr out, after)
     else (Inl (HTTP 409 (u ''Another analysis became current for this incident; retry the request.'')), before))"

definition request_from_cache ::
  "skill_env \<Rightarrow> request_ids \<Rightarrow> uuid \<Rightarrow> uuid list \<Rightarrow> evidence_row \<Rightarrow> skill_row \<Rightarrow> skill_row list \<Rightarrow> pystr \<Rightarrow> analysis_run
    \<Rightarrow> analysis_db \<Rightarrow> skill_error + (http_error + analysis_out) \<times> analysis_db" where
  "request_from_cache env ids i seen ev s skills execution c db =
    sbind (snapshot_runtime_provenance env s) (\<lambda>prov. sbind (declared_skill_version env s) (\<lambda>version.
      let job = fresh_job_row\<lparr>j_status := COMPLETED, j_started_at := Some (ri_now ids), j_completed_at := Some (ri_now ids)\<rparr>;
          run = new_run ids i ev s (cached_columns c @ identity_columns env ev s version execution @ prov)
                  (rn_result c) (ar_result_text c);
          m = job_meta_of ids i version (Some c)
      in Inr (commit_current db (db\<lparr>adb_skills := skills, adb_runs := clear_current i seen (adb_runs db) @ [run],
             adb_meta := adb_meta db @ [m], adb_jobs := (adb_jobs db)\<lparr>jobs := (jobs (adb_jobs db))(ri_job ids \<mapsto> job)\<rparr>\<rparr>)
           (to_out m job (Some run)))))"

definition request_from_worker ::
  "(json \<Rightarrow> bool) \<Rightarrow> skill_env \<Rightarrow> request_ids \<Rightarrow> uuid \<Rightarrow> uuid list \<Rightarrow> evidence_row \<Rightarrow> skill_row \<Rightarrow> skill_row list \<Rightarrow> pystr
    \<Rightarrow> analysis_db \<Rightarrow> skill_error + (http_error + analysis_out) \<times> analysis_db" where
  "request_from_worker valid env ids i seen ev s skills execution db =
    sbind (declared_skill_version env s) (\<lambda>version. sbind (execution_policy env s) (\<lambda>policy.
    sbind (snapshot_runtime_provenance env s) (\<lambda>prov.
      (case enqueue_job valid (analysis_job_request ids i ev s version execution policy) (ri_event ids) (ri_now ids)
           (adb_jobs db, adb_events db) of
         Inl e \<Rightarrow> Inr (Inl internal_error, db)
       | Inr (jdb, evs) \<Rightarrow>
          (let run = new_run ids i ev s (identity_columns env ev s version execution @ prov) JNull None;
               m = job_meta_of ids i version None
           in Inr (commit_current db (db\<lparr>adb_skills := skills, adb_runs := clear_current i seen (adb_runs db) @ [run],
                 adb_meta := adb_meta db @ [m], adb_jobs := jdb, adb_events := evs\<rparr>)
                (to_out m fresh_job_row (Some run))))))))"

text \<open>\<open>request_analysis\<close>. What resolves the active snapshot, with the table it leaves, is the argument
  \<open>resolve\<close>: the registry's operation on its checkout.\<close>

definition request_analysis ::
  "(json \<Rightarrow> bool) \<Rightarrow> skill_env \<Rightarrow> (skill_row list \<Rightarrow> skill_error + skill_row \<times> skill_row list) \<Rightarrow> analysis_settings
    \<Rightarrow> request_ids \<Rightarrow> uuid \<Rightarrow> uuid list \<Rightarrow> analysis_db \<Rightarrow> (http_error + analysis_out) \<times> analysis_db" where
  "request_analysis valid env resolve cfg ids i seen db =
    (if i \<notin> set (incident_ids (adb_evidence db)) then (Inl (HTTP 404 (u ''Incident not found'')), db)
     else (case newest_log (adb_evidence db) i of
       None \<Rightarrow> (Inl (HTTP 409 (u ''Incident has no LOG evidence attached'')), db)
     | Some ev \<Rightarrow>
        if as_ai_runtime cfg \<noteq> u ''hermes'' then (Inl (HTTP 503 (u ''AI_RUNTIME_UNAVAILABLE'')), db)
        else (case sbind (resolve (adb_skills db)) (\<lambda>(s, skills). sbind (compute_execution_hash env skills s []) (\<lambda>execution.
            case find_cached_analysis_run (adb_runs db) ev None None (sn_content_hash s) (Some execution) (Some (sn_id s)) of
              Some c \<Rightarrow> request_from_cache env ids i seen ev s skills execution c db
            | None \<Rightarrow> request_from_worker valid env ids i seen ev s skills execution db)) of
          Inl e \<Rightarrow> (Inl internal_error, db) | Inr res \<Rightarrow> res)))"

section \<open>Reading runs\<close>

definition poll_job ::
  "object_store \<Rightarrow> analysis_settings \<Rightarrow> job_meta \<Rightarrow> analysis_out list \<times> analysis_db \<Rightarrow> http_error + analysis_out list \<times> analysis_db" where
  "poll_job st cfg m = (\<lambda>(outs, db). (case jobs (adb_jobs db) (jm_id m) of
      None \<Rightarrow> Inr (outs, db)
    | Some job \<Rightarrow> sbind (sync_completed_job st cfg (jm_id m) db) (\<lambda>(run, db'). Inr (outs @ [to_out m job run], db'))))"

definition list_analysis_runs ::
  "object_store \<Rightarrow> analysis_settings \<Rightarrow> uuid \<Rightarrow> analysis_db \<Rightarrow> (http_error + analysis_out list) \<times> analysis_db" where
  "list_analysis_runs st cfg i db =
    (if i \<notin> set (incident_ids (adb_evidence db)) then (Inl (HTTP 404 (u ''Incident not found'')), db)
     else (case sfold (poll_job st cfg) (sort_key (\<lambda>m. - jm_queued_at m)
             (filter (\<lambda>m. jm_incident_id m = Some i \<and> jm_type m = u ''log_triage'') (adb_meta db))) ([], db) of
         Inl e \<Rightarrow> (Inl e, db) | Inr (outs, db') \<Rightarrow> (Inr outs, db')))"

definition get_analysis_run ::
  "object_store \<Rightarrow> analysis_settings \<Rightarrow> uuid \<Rightarrow> uuid \<Rightarrow> analysis_db \<Rightarrow> (http_error + analysis_out) \<times> analysis_db" where
  "get_analysis_run st cfg i j db =
    (if i \<notin> set (incident_ids (adb_evidence db)) then (Inl (HTTP 404 (u ''Incident not found'')), db)
     else (case (find_first (\<lambda>m. jm_id m = j \<and> jm_incident_id m = Some i \<and> jm_type m = u ''log_triage'') (adb_meta db),
             jobs (adb_jobs db) j) of
         (Some m, Some job) \<Rightarrow> (case sync_completed_job st cfg j db of
             Inl e \<Rightarrow> (Inl e, db) | Inr (run, db') \<Rightarrow> (Inr (to_out m job run), db'))
       | _ \<Rightarrow> (Inl (HTTP 404 (u ''Analysis run not found'')), db)))"

end
