(* ===== verification/Analysis_Runs.thy ===== *)
theory Analysis_Runs
  imports Analysis_Api
begin

text \<open>
  The life of analysis runs under the requests of \<open>Analysis_Api\<close>: a step relation in which requests, polls
  and the other writers of the shared tables interleave, the index on current runs, write-once results, the
  exactness of the cache, and a telemetry file that blocks a result.
\<close>

section \<open>Steps\<close>

text \<open>Ids are fresh in each request; other modules may change every table but the runs.\<close>

inductive analysis_step :: "analysis_db \<Rightarrow> analysis_db \<Rightarrow> bool" where
  Request: "request_analysis valid env resolve cfg ids i seen db = (out, db') \<Longrightarrow> ri_run ids \<notin> rn_id ` set (adb_runs db)
    \<Longrightarrow> ri_job ids \<notin> ar_job_id ` set (adb_runs db) \<Longrightarrow> analysis_step db db'"
| List: "list_analysis_runs st cfg i db = (outs, db') \<Longrightarrow> analysis_step db db'"
| Get: "get_analysis_run st cfg i j db = (out, db') \<Longrightarrow> analysis_step db db'"
| Others: "analysis_step db (db\<lparr>adb_evidence := e, adb_skills := rows, adb_meta := meta, adb_jobs := jdb, adb_events := evs\<rparr>)"

definition runs_ok :: "analysis_run list \<Rightarrow> bool" where
  "runs_ok rows \<longleftrightarrow> distinct (map rn_id rows) \<and> distinct (map ar_job_id rows) \<and> one_current_run rows"

text \<open>How a row may develop: its result is written once and its identity never changes.\<close>

definition develops :: "analysis_run \<Rightarrow> analysis_run \<Rightarrow> bool" where
  "develops r r' \<longleftrightarrow> rn_id r' = rn_id r \<and> ar_job_id r' = ar_job_id r \<and> rn_incident_id r' = rn_incident_id r
     \<and> rn_log_evidence_id r' = rn_log_evidence_id r \<and> rn_snapshot_id r' = rn_snapshot_id r
     \<and> ar_created_at r' = ar_created_at r \<and> (rn_current r' \<longrightarrow> rn_current r)
     \<and> (\<forall>k. k \<notin> set written_columns \<longrightarrow> rn_column r' k = rn_column r k)
     \<and> (rn_result r \<noteq> JNull \<longrightarrow> r' = r\<lparr>rn_current := rn_current r'\<rparr>)"

definition rows_develop :: "analysis_run list \<Rightarrow> analysis_run list \<Rightarrow> bool" where
  "rows_develop rows rows' \<longleftrightarrow> (\<forall>r\<in>set rows. \<exists>r'\<in>set rows'. develops r r')"

lemma develops_refl [simp]: "develops r r"
  by (simp add: develops_def)

lemma develops_trans:
  assumes "develops a b" "develops b c"
  shows "develops a c"
proof -
  have "c = a\<lparr>rn_current := rn_current c\<rparr>" if a: "rn_result a \<noteq> JNull"
  proof -
    have b: "b = a\<lparr>rn_current := rn_current b\<rparr>" using assms(1) a by (simp add: develops_def)
    then have "rn_result b = rn_result a" by (metis run_row.simps(6) run_row.update_convs(3) run_row.select_convs(6) run_row.surjective)
    then have "c = b\<lparr>rn_current := rn_current c\<rparr>" using assms(2) a by (simp add: develops_def)
    with b show ?thesis by (metis run_row.update_convs(3) run_row.surjective)
  qed
  then show ?thesis using assms by (simp add: develops_def)
qed

lemma rows_develop_refl [simp]: "rows_develop rows rows"
  unfolding rows_develop_def using develops_refl by blast

lemma rows_develop_trans: "rows_develop a b \<Longrightarrow> rows_develop b c \<Longrightarrow> rows_develop a c"
  unfolding rows_develop_def by (metis develops_trans)

lemma rows_develop_map: "(\<And>r. r \<in> set rows \<Longrightarrow> develops r (f r)) \<Longrightarrow> rows_develop rows (map f rows)"
  by (auto simp: rows_develop_def)

section \<open>What a poll does to the runs\<close>

lemma set_column_simps [simp]:
  "rn_id (set_column k v r) = rn_id r" "rn_incident_id (set_column k v r) = rn_incident_id r"
  "rn_current (set_column k v r) = rn_current r" "rn_log_evidence_id (set_column k v r) = rn_log_evidence_id r"
  "rn_snapshot_id (set_column k v r) = rn_snapshot_id r" "rn_result (set_column k v r) = rn_result r"
  "ar_job_id (set_column k v r) = ar_job_id r" "ar_created_at (set_column k v r) = ar_created_at r"
  "ar_result_text (set_column k v r) = ar_result_text r"
  "rn_column (set_column k v r) k' = (if k' = k then v else rn_column r k')"
  by (simp_all add: set_column_def)

text \<open>Two versions of a row that differ in written columns only.\<close>

definition columns_only :: "analysis_run \<Rightarrow> analysis_run \<Rightarrow> bool" where
  "columns_only r r' \<longleftrightarrow> (\<exists>f. r' = r\<lparr>rn_column := f\<rparr> \<and> (\<forall>k. k \<notin> set written_columns \<longrightarrow> f k = rn_column r k))"

lemma columns_only_refl [simp]: "columns_only r r"
  unfolding columns_only_def by (rule exI [of _ "rn_column r"]) simp

lemma columns_only_trans: "columns_only a b \<Longrightarrow> columns_only b c \<Longrightarrow> columns_only a c"
  unfolding columns_only_def by auto

lemma columns_only_set: "k \<in> set written_columns \<Longrightarrow> columns_only r (set_column k v r)"
  unfolding columns_only_def by (rule exI [of _ "(rn_column r)(k := v)"]) (auto simp: set_column_def)

lemma columns_only_fields:
  "columns_only r r' \<Longrightarrow> rn_id r' = rn_id r \<and> rn_incident_id r' = rn_incident_id r \<and> rn_current r' = rn_current r
     \<and> rn_log_evidence_id r' = rn_log_evidence_id r \<and> rn_snapshot_id r' = rn_snapshot_id r \<and> rn_result r' = rn_result r
     \<and> ar_job_id r' = ar_job_id r \<and> ar_created_at r' = ar_created_at r \<and> ar_result_text r' = ar_result_text r
     \<and> (\<forall>k. k \<notin> set written_columns \<longrightarrow> rn_column r' k = rn_column r k)"
  by (auto simp: columns_only_def)

lemma take_field_columns:
  "take_field t k c f r = Inr r' \<Longrightarrow> c \<in> set written_columns \<Longrightarrow> columns_only r r'"
  by (auto simp: take_field_def columns_only_set split: if_splits)

lemma take_telemetry_columns:
  assumes "take_telemetry t r = Inr r'"
  shows "columns_only r r'"
proof -
  obtain a b where a: "sfold (\<lambda>k. take_field t k k (\<lambda>v. v)) TELEMETRY_FIELDS r = Inr a"
      "take_field t ''cost_usd'' ''estimated_cost_usd'' (\<lambda>v. v) a = Inr b"
      "take_field t ''escalated'' ''escalated'' (\<lambda>v. JBool (truthy v)) b = Inr r'"
    using assms by (auto simp: take_telemetry_def simp del: sfold.simps)
  have "columns_only r a"
  proof (rule sfold_invariant [where P = "columns_only r", OF a(1)])
    fix k s s' assume "k \<in> set TELEMETRY_FIELDS" "columns_only r s" "take_field t k k (\<lambda>v. v) s = Inr s'"
    then show "columns_only r s'" using take_field_columns [of t k k] columns_only_trans by (simp add: written_columns_def)
  qed simp
  moreover have "columns_only a b" by (rule take_field_columns [OF a(2)]) (simp add: written_columns_def)
  moreover have "columns_only b r'" by (rule take_field_columns [OF a(3)]) (simp add: written_columns_def)
  ultimately show ?thesis by (metis columns_only_trans)
qed

lemma sync_run_develops:
  assumes "sync_run st cfg job r = Inr r'"
  shows "develops r r' \<and> rn_current r' = rn_current r"
proof (cases "r' = r")
  case False
  then obtain body v where v: "rn_result r = JNull"
      "take_telemetry (fetch_telemetry st cfg (ar_job_id r)) (set_column ''output_sha256'' (JStr (so_sha st body))
                 (r\<lparr>rn_result := v, ar_result_text := Some (as_decode cfg body)\<rparr>)) = Inr r'"
    using assms by (auto simp: sync_run_def split: if_splits option.splits sum.splits)
  note f = columns_only_fields [OF take_telemetry_columns [OF v(2)]]
  show ?thesis using f v(1) by (auto simp: develops_def written_columns_def)
qed simp

lemma find_run:
  assumes "distinct (map ar_job_id rows)" "r \<in> set rows"
  shows "find_first (\<lambda>x. ar_job_id x = ar_job_id r) rows = Some r"
  using assms by (induction rows) auto

lemma one_current_map:
  assumes "one_current_run rows" "\<And>r. r \<in> set rows \<Longrightarrow> develops r (f r)"
  shows "one_current_run (map f rows)"
  by (rule current.valid_update [OF assms(1)]) (use assms(2) in \<open>auto simp: develops_def\<close>)

lemma runs_ok_map:
  assumes "runs_ok rows" "\<And>r. r \<in> set rows \<Longrightarrow> develops r (f r)"
  shows "runs_ok (map f rows)"
proof -
  have "map rn_id (map f rows) = map rn_id rows" "map ar_job_id (map f rows) = map ar_job_id rows"
    using assms(2) by (auto simp: develops_def)
  moreover have "one_current_run (map f rows)" by (rule one_current_map [OF _ assms(2)]) (use assms(1) in \<open>simp add: runs_ok_def\<close>)
  ultimately show ?thesis using assms(1) unfolding runs_ok_def by argo
qed

lemma sync_completed_job_ok:
  assumes "sync_completed_job st cfg j db = Inr (run, db')" "runs_ok (adb_runs db)"
  shows "runs_ok (adb_runs db') \<and> rows_develop (adb_runs db) (adb_runs db') \<and> adb_jobs db' = adb_jobs db
    \<and> (\<exists>f. adb_runs db' = map f (adb_runs db) \<and> (\<forall>r\<in>set (adb_runs db). ar_job_id r \<noteq> j \<longrightarrow> f r = r))"
proof (cases "run_of_job db j = None \<or> jobs (adb_jobs db) j = None")
  case True
  then have "db' = db" using assms(1) by (auto simp: sync_completed_job_def split: option.splits)
  moreover have "\<exists>f. adb_runs db = map f (adb_runs db) \<and> (\<forall>r\<in>set (adb_runs db). ar_job_id r \<noteq> j \<longrightarrow> f r = r)"
    by (rule exI [of _ "\<lambda>r. r"]) simp
  ultimately show ?thesis using assms(2) by simp
next
  case False
  then obtain r job where r: "run_of_job db j = Some r" "jobs (adb_jobs db) j = Some job" by auto
  then obtain r' where r': "sync_run st cfg job r = Inr r'"
      "db' = db\<lparr>adb_runs := map (\<lambda>x. if rn_id x = rn_id r then r' else x) (adb_runs db)\<rparr>"
    using assms(1) by (auto simp: sync_completed_job_def)
  have mem: "r \<in> set (adb_runs db)" "ar_job_id r = j" using r(1) find_first_Some unfolding run_of_job_def by force+
  have same: "x = r" if "x \<in> set (adb_runs db)" "rn_id x = rn_id r" for x
    using that mem(1) assms(2) by (auto simp: runs_ok_def distinct_map dest: inj_onD)
  let ?f = "\<lambda>x. if rn_id x = rn_id r then r' else x"
  have dev: "develops x (?f x)" if "x \<in> set (adb_runs db)" for x
    using sync_run_develops [OF r'(1)] same [OF that] by auto
  have "\<exists>f. adb_runs db' = map f (adb_runs db) \<and> (\<forall>x\<in>set (adb_runs db). ar_job_id x \<noteq> j \<longrightarrow> f x = x)"
    using r'(2) same mem(2) by (intro exI [of _ ?f]) auto
  then show ?thesis using runs_ok_map [OF assms(2) dev] rows_develop_map [OF dev] r'(2) by simp
qed

lemma poll_job_ok:
  assumes "poll_job st cfg m (outs, db) = Inr (outs', db')" "runs_ok (adb_runs db)"
  shows "runs_ok (adb_runs db') \<and> rows_develop (adb_runs db) (adb_runs db')"
  using assms sync_completed_job_ok [OF _ assms(2)] by (auto simp: poll_job_def split: option.splits prod.splits)

section \<open>What a request does to the runs\<close>

lemma clear_develops: "develops r (if rn_incident_id r = i \<and> rn_id r \<in> set seen then r\<lparr>rn_current := False\<rparr> else r)"
  by (simp add: develops_def)

lemma newest_mem: "newest key rows = Some r \<Longrightarrow> r \<in> set rows"
  by (auto simp: newest_def dest: find_first_Some)

lemma newest_None: "newest key rows = None \<longleftrightarrow> rows = []"
  by (auto simp: newest_def find_first_None_iff)

text \<open>A successful request: the flags of the rows it saw are cleared, one current run is added, and either the
  cached result is copied or a job and its event are created.\<close>

definition requested ::
  "skill_env \<Rightarrow> request_ids \<Rightarrow> uuid \<Rightarrow> uuid list \<Rightarrow> analysis_db \<Rightarrow> evidence_row \<Rightarrow> skill_row \<Rightarrow> pystr \<Rightarrow> analysis_run option
    \<Rightarrow> analysis_run \<Rightarrow> analysis_out \<Rightarrow> analysis_db \<Rightarrow> bool" where
  "requested env ids i seen db ev s execution cached run out db' \<longleftrightarrow>
     adb_runs db' = clear_current i seen (adb_runs db) @ [run] \<and> one_current_run (adb_runs db')
   \<and> rn_id run = ri_run ids \<and> ar_job_id run = ri_job ids \<and> rn_incident_id run = i \<and> rn_current run
   \<and> rn_snapshot_id run = Some (sn_id s) \<and> rn_column run ''skill_execution_hash'' = JStr execution
   \<and> rn_column run ''input_manifest_sha256'' = JStr (e_sha256 ev)
   \<and> ao_run_id out = Some (ri_run ids) \<and> ao_current out \<and> ao_result out = rn_result run
   \<and> (case cached of
        Some c \<Rightarrow> rn_result run = rn_result c \<and> ar_result_text run = ar_result_text c
          \<and> rn_column run ''output_sha256'' = rn_column c ''output_sha256'' \<and> ao_status out = COMPLETED
          \<and> adb_events db' = adb_events db
      | None \<Rightarrow> rn_result run = JNull \<and> ao_status out = QUEUED
          \<and> (\<exists>e. adb_events db' = adb_events db @ [e] \<and> o_job_id e = ri_job ids \<and> pending e))
   \<and> jobs (adb_jobs db') (ri_job ids) \<noteq> None"

lemma provenance_columns:
  "snapshot_runtime_provenance env s = Inr prov \<Longrightarrow> map_of prov ''output_sha256'' = None"
  by (auto simp: snapshot_runtime_provenance_def)

lemma request_from_cache_requested:
  assumes "request_from_cache env ids i seen ev s skills execution c db = Inr (Inr out, db')"
  shows "\<exists>run. requested env ids i seen db ev s execution (Some c) run out db'"
proof -
  obtain prov version where p: "snapshot_runtime_provenance env s = Inr prov" "declared_skill_version env s = Inr version"
    using assms by (auto simp: request_from_cache_def)
  show ?thesis
    using assms p
    by (auto simp: request_from_cache_def Let_def commit_current_def requested_def to_out_def new_run_def
        cached_columns_def identity_columns_def fresh_job_row_def split: if_splits)
qed

lemma request_from_worker_requested:
  assumes "request_from_worker valid env ids i seen ev s skills execution db = Inr (Inr out, db')"
  shows "\<exists>run. requested env ids i seen db ev s execution None run out db'"
proof -
  obtain version policy prov where q: "declared_skill_version env s = Inr version" "execution_policy env s = Inr policy"
      "snapshot_runtime_provenance env s = Inr prov"
    using assms by (auto simp: request_from_worker_def)
  then obtain jdb evs where p: "declared_skill_version env s = Inr version" "execution_policy env s = Inr policy"
      "snapshot_runtime_provenance env s = Inr prov"
      "enqueue_job valid (analysis_job_request ids i ev s version execution policy) (ri_event ids) (ri_now ids)
         (adb_jobs db, adb_events db) = Inr (jdb, evs)"
    using assms by (auto simp: request_from_worker_def split: sum.splits)
  have "(\<exists>e. evs = adb_events db @ [e] \<and> o_job_id e = ri_job ids \<and> pending e) \<and> jobs jdb (ri_job ids) \<noteq> None"
    using p(4) by (auto simp: enqueue_job_def analysis_job_request_def pending_def Let_def split: sum.splits option.splits if_splits)
  then show ?thesis
    using assms p
    by (auto simp: request_from_worker_def Let_def commit_current_def requested_def to_out_def new_run_def
        identity_columns_def fresh_job_row_def split: if_splits)
qed

lemma commit_current_failed: "commit_current db after out = (Inl e, db') \<Longrightarrow> db' = db"
  by (simp add: commit_current_def split: if_splits)

lemma request_from_cache_failed:
  "request_from_cache env ids i seen ev s skills execution c db = Inr (Inl e, db') \<Longrightarrow> db' = db"
  by (auto simp: request_from_cache_def Let_def dest: commit_current_failed)

lemma request_from_worker_failed:
  assumes "request_from_worker valid env ids i seen ev s skills execution db = Inr (Inl e, db')"
  shows "db' = db"
proof -
  obtain version policy prov where q: "declared_skill_version env s = Inr version" "execution_policy env s = Inr policy"
      "snapshot_runtime_provenance env s = Inr prov"
    using assms by (auto simp: request_from_worker_def)
  then show ?thesis using assms
    by (auto simp: request_from_worker_def Let_def split: sum.splits dest: commit_current_failed)
qed

text \<open>The two outcomes of a request.\<close>

lemma request_analysis_failed: "request_analysis valid env resolve cfg ids i seen db = (Inl e, db') \<Longrightarrow> db' = db"
  unfolding request_analysis_def
  by (auto split: if_splits option.splits sum.splits dest: request_from_cache_failed request_from_worker_failed)

lemma request_analysis_succeeded:
  assumes "request_analysis valid env resolve cfg ids i seen db = (Inr out, db')"
  obtains ev s skills execution cached run where "newest_log (adb_evidence db) i = Some ev"
    "resolve (adb_skills db) = Inr (s, skills)" "compute_execution_hash env skills s [] = Inr execution"
    "find_cached_analysis_run (adb_runs db) ev None None (sn_content_hash s) (Some execution) (Some (sn_id s)) = cached"
    "requested env ids i seen db ev s execution cached run out db'"
proof -
  let ?body = "\<lambda>ev. sbind (resolve (adb_skills db)) (\<lambda>(s, skills). sbind (compute_execution_hash env skills s []) (\<lambda>execution.
            case find_cached_analysis_run (adb_runs db) ev None None (sn_content_hash s) (Some execution) (Some (sn_id s)) of
              Some c \<Rightarrow> request_from_cache env ids i seen ev s skills execution c db
            | None \<Rightarrow> request_from_worker valid env ids i seen ev s skills execution db))"
  obtain ev where ev: "newest_log (adb_evidence db) i = Some ev" "?body ev = Inr (Inr out, db')"
    using assms unfolding request_analysis_def by (auto split: if_splits option.splits sum.splits)
  then obtain s skills execution where r: "resolve (adb_skills db) = Inr (s, skills)"
      "compute_execution_hash env skills s [] = Inr execution"
      "(case find_cached_analysis_run (adb_runs db) ev None None (sn_content_hash s) (Some execution) (Some (sn_id s)) of
          Some c \<Rightarrow> request_from_cache env ids i seen ev s skills execution c db
        | None \<Rightarrow> request_from_worker valid env ids i seen ev s skills execution db) = Inr (Inr out, db')"
    by auto
  let ?cached = "find_cached_analysis_run (adb_runs db) ev None None (sn_content_hash s) (Some execution) (Some (sn_id s))"
  have "\<exists>run. requested env ids i seen db ev s execution ?cached run out db'"
    using r(3) request_from_cache_requested request_from_worker_requested by (cases ?cached) force+
  then show thesis using that ev(1) r(1,2) by blast
qed

section \<open>Steps keep the invariants\<close>

lemma request_ok:
  assumes "request_analysis valid env resolve cfg ids i seen db = (out, db')" "ri_run ids \<notin> rn_id ` set (adb_runs db)"
    and "ri_job ids \<notin> ar_job_id ` set (adb_runs db)" "runs_ok (adb_runs db)"
  shows "runs_ok (adb_runs db') \<and> rows_develop (adb_runs db) (adb_runs db')"
proof (cases out)
  case (Inl e)
  then show ?thesis using request_analysis_failed assms(1,4) by fastforce
next
  case (Inr ok)
  obtain ev s skills execution cached run where "requested env ids i seen db ev s execution cached run ok db'"
    by (rule request_analysis_succeeded [OF assms(1) [unfolded Inr]])
  then have run: "adb_runs db' = clear_current i seen (adb_runs db) @ [run]" "one_current_run (adb_runs db')"
      "rn_id run = ri_run ids" "ar_job_id run = ri_job ids" unfolding requested_def by blast+
  have dev: "rows_develop (adb_runs db) (clear_current i seen (adb_runs db))"
    unfolding clear_current_def by (rule rows_develop_map) (rule clear_develops)
  have ids: "map rn_id (clear_current i seen (adb_runs db)) = map rn_id (adb_runs db)"
      "map ar_job_id (clear_current i seen (adb_runs db)) = map ar_job_id (adb_runs db)" by (auto simp: clear_current_def)
  have "distinct (map rn_id (adb_runs db) @ [rn_id run])" "distinct (map ar_job_id (adb_runs db) @ [ar_job_id run])"
    using assms(2-4) run(3,4) by (simp_all add: runs_ok_def)
  then have "distinct (map rn_id (adb_runs db'))" "distinct (map ar_job_id (adb_runs db'))"
    unfolding run(1) map_append ids by simp_all
  then have "runs_ok (adb_runs db')" using run(2) by (simp add: runs_ok_def)
  moreover have "rows_develop (adb_runs db) (adb_runs db')" using dev unfolding run(1) rows_develop_def by auto
  ultimately show ?thesis by blast
qed

lemma list_runs_ok:
  assumes "list_analysis_runs st cfg i db = (outs, db')" "runs_ok (adb_runs db)"
  shows "runs_ok (adb_runs db') \<and> rows_develop (adb_runs db) (adb_runs db')"
proof (cases "db' = db")
  case False
  then obtain ms os where "sfold (poll_job st cfg) ms ([], db) = Inr (os, db')"
    using assms(1) by (auto simp: list_analysis_runs_def split: if_splits sum.splits)
  then have "runs_ok (adb_runs (snd (os, db'))) \<and> rows_develop (adb_runs db) (adb_runs (snd (os, db')))"
  proof (rule sfold_invariant [where P = "\<lambda>st. runs_ok (adb_runs (snd st)) \<and> rows_develop (adb_runs db) (adb_runs (snd st))"])
    fix m s s' assume s: "runs_ok (adb_runs (snd s)) \<and> rows_develop (adb_runs db) (adb_runs (snd s))" "poll_job st cfg m s = Inr s'"
    have "runs_ok (adb_runs (snd s')) \<and> rows_develop (adb_runs (snd s)) (adb_runs (snd s'))"
      using poll_job_ok [of st cfg m "fst s" "snd s" "fst s'" "snd s'"] s by simp
    then show "runs_ok (adb_runs (snd s')) \<and> rows_develop (adb_runs db) (adb_runs (snd s'))"
      using s(1) rows_develop_trans by blast
  qed (use assms(2) in simp)
  then show ?thesis by simp
qed (use assms(2) in simp)

lemma get_run_ok:
  assumes "get_analysis_run st cfg i j db = (out, db')" "runs_ok (adb_runs db)"
  shows "runs_ok (adb_runs db') \<and> rows_develop (adb_runs db) (adb_runs db')"
proof (cases "db' = db")
  case False
  then obtain run where "sync_completed_job st cfg j db = Inr (run, db')"
    using assms(1) by (auto simp: get_analysis_run_def split: if_splits sum.splits option.splits prod.splits)
  then show ?thesis using sync_completed_job_ok [OF _ assms(2)] by blast
qed (use assms(2) in simp)

lemma analysis_step_ok:
  "analysis_step db db' \<Longrightarrow> runs_ok (adb_runs db) \<Longrightarrow> runs_ok (adb_runs db') \<and> rows_develop (adb_runs db) (adb_runs db')"
  by (induction rule: analysis_step.induct) (simp_all add: request_ok list_runs_ok get_run_ok)

lemma analysis_steps_ok:
  "analysis_step\<^sup>*\<^sup>* db db' \<Longrightarrow> runs_ok (adb_runs db) \<Longrightarrow> runs_ok (adb_runs db') \<and> rows_develop (adb_runs db) (adb_runs db')"
  by (induction rule: rtranclp_induct) (auto dest: analysis_step_ok intro: rows_develop_trans)

section \<open>Properties\<close>


text \<open>C26. Every incident has at most one current run, however requests interleave, so that freezing an
  incident for a report never meets two; and a request that succeeds leaves its own run as the incident's
  only current one.\<close>

theorem one_current_run_per_incident:
  assumes "analysis_step\<^sup>*\<^sup>* db db'" "runs_ok (adb_runs db)"
  shows "one_current_run (adb_runs db')
    \<and> (\<forall>fz (rdb :: reports_db) (inc :: incident_row) i. rdb_runs rdb = map run_row.truncate (adb_runs db')
        \<longrightarrow> freeze_incident fz rdb inc \<noteq> Inl (Multiple_Current_Runs i))
    \<and> (\<forall>valid env resolve cfg ids i seen out db''. request_analysis valid env resolve cfg ids i seen db' = (Inr out, db'')
        \<longrightarrow> (\<exists>run. filter (\<lambda>r. rn_incident_id r = i \<and> rn_current r) (adb_runs db'') = [run]
              \<and> rn_id run = ri_run ids \<and> ao_run_id out = Some (rn_id run)))"
proof (intro conjI allI impI)
  show one: "one_current_run (adb_runs db')" using analysis_steps_ok [OF assms] by (simp add: runs_ok_def)
next
  fix fz and rdb :: reports_db and inc :: incident_row and i assume rdb: "rdb_runs rdb = map run_row.truncate (adb_runs db')"
  let ?p = "\<lambda>r. rn_incident_id r = in_id inc \<and> rn_current r"
  have one: "one_current_run (adb_runs db')" using analysis_steps_ok [OF assms] by (simp add: runs_ok_def)
  have le: "length (filter ?p (adb_runs db')) \<le> 1"
  proof (cases "filter ?p (adb_runs db')")
    case (Cons r rs)
    then have "r \<in> set (filter ?p (adb_runs db'))" by simp
    then have r: "r \<in> set (adb_runs db')" "rn_current r" "rn_incident_id r = in_id inc" by auto
    have "filter (\<lambda>s. rn_current s \<and> rn_incident_id s = rn_incident_id r) (adb_runs db') = [r]"
      by (rule current.holders [OF one r(1,2)])
    then show ?thesis using r(3) by (simp add: conj_commute)
  qed simp
  have "length (filter ?p (map run_row.truncate (adb_runs db'))) \<le> 1"
    using le by (simp add: filter_map comp_def run_row.truncate_def)
  then show "freeze_incident fz rdb inc \<noteq> Inl (Multiple_Current_Runs i)"
    by (auto simp: freeze_incident_def rdb Let_def split: sum.split)
next
  fix valid env resolve cfg ids i seen out db''
  assume "request_analysis valid env resolve cfg ids i seen db' = (Inr out, db'')"
  then obtain ev s skills execution cached run where "requested env ids i seen db' ev s execution cached run out db''"
    by (rule request_analysis_succeeded)
  then have run: "adb_runs db'' = clear_current i seen (adb_runs db') @ [run]" "one_current_run (adb_runs db'')" "rn_current run"
      "rn_incident_id run = i" "rn_id run = ri_run ids" "ao_run_id out = Some (ri_run ids)" unfolding requested_def by blast+
  have "filter (\<lambda>s. rn_current s \<and> rn_incident_id s = rn_incident_id run) (adb_runs db'') = [run]"
    by (rule current.holders [OF run(2) _ run(3)]) (simp add: run(1))
  then show "\<exists>run. filter (\<lambda>r. rn_incident_id r = i \<and> rn_current r) (adb_runs db'') = [run]
      \<and> rn_id run = ri_run ids \<and> ao_run_id out = Some (rn_id run)"
    using run(4-6) by (intro exI [of _ run]) (simp add: conj_commute)
qed

text \<open>C27. A request answers from the cache exactly when a finished run of the same evidence bytes, active
  snapshot, execution hash and cache contract exists; then it copies that run's result and creates no event.
  Otherwise it creates one queued job with one pending event, and the run has no result.\<close>

theorem request_reuses_exactly_equivalent_results:
  assumes "request_analysis valid env resolve cfg ids i seen db = (Inr out, db')"
  shows "\<exists>ev s skills h run. newest_log (adb_evidence db) i = Some ev \<and> resolve (adb_skills db) = Inr (s, skills)
    \<and> compute_execution_hash env skills s [] = Inr h
    \<and> adb_runs db' = clear_current i seen (adb_runs db) @ [run] \<and> rn_snapshot_id run = Some (sn_id s)
    \<and> rn_column run ''skill_execution_hash'' = JStr h
    \<and> (let equivalent = (\<lambda>c. e_sha256 ev \<noteq> [] \<and> rn_result c \<noteq> JNull \<and> rn_snapshot_id c = Some (sn_id s)
             \<and> rn_column c ''skill_name'' = JStr SKILL_NAME \<and> rn_column c ''skill_hash'' = JStr (sn_content_hash s)
             \<and> rn_column c ''skill_execution_hash'' = JStr h
             \<and> rn_column c ''input_manifest_sha256'' = JStr (e_sha256 ev)
             \<and> rn_column c ''cache_contract_version'' = JStr CACHE_CONTRACT_VERSION)
       in if \<exists>c\<in>set (adb_runs db). equivalent c
          then ao_status out = COMPLETED \<and> adb_events db' = adb_events db
            \<and> (\<exists>c\<in>set (adb_runs db). equivalent c \<and> rn_result run = rn_result c \<and> ao_result out = rn_result c)
          else ao_status out = QUEUED \<and> rn_result run = JNull
            \<and> (\<exists>e. adb_events db' = adb_events db @ [e] \<and> o_job_id e = ar_job_id run \<and> pending e))"
proof -
  obtain ev s skills h cached run where r: "newest_log (adb_evidence db) i = Some ev" "resolve (adb_skills db) = Inr (s, skills)"
      "compute_execution_hash env skills s [] = Inr h"
      "find_cached_analysis_run (adb_runs db) ev None None (sn_content_hash s) (Some h) (Some (sn_id s)) = cached"
      "requested env ids i seen db ev s h cached run out db'"
    by (rule request_analysis_succeeded [OF assms])
  define equivalent where "equivalent c \<longleftrightarrow> e_sha256 ev \<noteq> [] \<and> rn_result c \<noteq> JNull \<and> rn_snapshot_id c = Some (sn_id s)
      \<and> rn_column c ''skill_name'' = JStr SKILL_NAME \<and> rn_column c ''skill_hash'' = JStr (sn_content_hash s)
      \<and> rn_column c ''skill_execution_hash'' = JStr h \<and> rn_column c ''input_manifest_sha256'' = JStr (e_sha256 ev)
      \<and> rn_column c ''cache_contract_version'' = JStr CACHE_CONTRACT_VERSION" for c :: analysis_run
  have eq: "equivalent c \<longleftrightarrow> e_sha256 ev \<noteq> [] \<and> reusable ev None None (sn_content_hash s) (Some h) (Some (sn_id s)) c" for c
    by (auto simp: equivalent_def reusable_def matches_opt_def)
  have hit: "cached = Some c \<Longrightarrow> c \<in> set (adb_runs db) \<and> equivalent c" for c
    using r(4) by (auto simp: find_cached_analysis_run_def eq split: if_splits dest: newest_mem)
  have miss: "cached = None \<Longrightarrow> \<not> (\<exists>c\<in>set (adb_runs db). equivalent c)"
    using r(4) by (auto simp: find_cached_analysis_run_def eq newest_None filter_empty_conv split: if_splits)
  have "if \<exists>c\<in>set (adb_runs db). equivalent c
      then ao_status out = COMPLETED \<and> adb_events db' = adb_events db
        \<and> (\<exists>c\<in>set (adb_runs db). equivalent c \<and> rn_result run = rn_result c \<and> ao_result out = rn_result c)
      else ao_status out = QUEUED \<and> rn_result run = JNull
        \<and> (\<exists>e. adb_events db' = adb_events db @ [e] \<and> o_job_id e = ar_job_id run \<and> pending e)"
  proof (cases cached)
    case None
    then show ?thesis using miss r(5) by (simp add: requested_def)
  next
    case (Some c)
    then show ?thesis using hit [OF Some] r(5) by (auto simp: requested_def)
  qed
  then show ?thesis using r unfolding Let_def equivalent_def requested_def by blast
qed

section \<open>Telemetry that blocks a result\<close>

lemma sfold_fails:
  assumes "x \<in> set xs" "P s" "\<And>y s s'. P s \<Longrightarrow> f y s = Inr s' \<Longrightarrow> P s'" "\<And>s. P s \<Longrightarrow> \<exists>e. f x s = Inl e"
  shows "\<exists>e. sfold f xs s = Inl e"
  using assms(1,2)
proof (induction xs arbitrary: s)
  case (Cons y ys)
  show ?case
  proof (cases "f y s")
    case (Inr s')
    then have "y \<noteq> x" using assms(4) [OF Cons.prems(2)] by auto
    then show ?thesis using Cons.IH [of s'] Cons.prems assms(3) [OF Cons.prems(2) Inr] Inr by simp
  qed simp
qed simp

lemma take_telemetry_scalar:
  assumes "py_contains t ''input_tokens'' = Inl e"
  shows "take_telemetry t r = Inl e"
  by (simp add: take_telemetry_def TELEMETRY_FIELDS_def take_field_def assms)

text \<open>Telemetry is meant to be best effort, but a telemetry file whose JSON is a scalar blocks the result:
  although the job is completed and its result is readable, reading the run answers with an internal error,
  listing the incident's runs fails too, and nothing is stored, so that every later poll fails again.\<close>

theorem scalar_telemetry_blocks_the_result:
  assumes "runs_ok (adb_runs db)" "r \<in> set (adb_runs db)" "rn_result r = JNull"
    and "jobs (adb_jobs db) (ar_job_id r) = Some job" "j_status job = COMPLETED"
    and "m \<in> set (adb_meta db)" "jm_id m = ar_job_id r" "jm_incident_id m = Some i" "jm_type m = u ''log_triage''"
    and "i \<in> set (incident_ids (adb_evidence db))"
    and "so_get st (Some (as_bucket cfg)) (artifact_key (ar_job_id r) ''result.json'') None = Some body" "so_loads st body = Some v"
    and "so_get st (Some (as_bucket cfg)) (artifact_key (ar_job_id r) ''telemetry.json'') None = Some t"
    and "so_loads st t \<in> Some ` {JNull, JBool b, JInt n}"
  shows "get_analysis_run st cfg i (ar_job_id r) db = (Inl internal_error, db)
    \<and> (\<exists>e. list_analysis_runs st cfg i db = (Inl e, db))"
proof -
  let ?tel = "fetch_telemetry st cfg (ar_job_id r)"
  have scalar: "?tel = JNull \<or> ?tel = JBool b \<or> ?tel = JInt n"
    using assms(13,14) by (auto simp: fetch_telemetry_def)
  then have "py_contains ?tel ''input_tokens'' = Inl Type_Error" by auto
  then have run: "sync_run st cfg job r = Inl internal_error"
    using assms(3,5,11,12) take_telemetry_scalar by (simp add: sync_run_def)
  have blocked: "sync_completed_job st cfg (ar_job_id r) d = Inl internal_error"
    if "runs_ok (adb_runs d)" "r \<in> set (adb_runs d)" "adb_jobs d = adb_jobs db" for d
    using that find_run [of "adb_runs d" r] run assms(4) by (simp add: sync_completed_job_def run_of_job_def runs_ok_def)
  let ?ms = "sort_key (\<lambda>m. - jm_queued_at m) (filter (\<lambda>m. jm_incident_id m = Some i \<and> jm_type m = u ''log_triage'') (adb_meta db))"
  have "\<exists>e. sfold (poll_job st cfg) ?ms ([], db) = Inl e"
  proof (rule sfold_fails [where x = m and
        P = "\<lambda>s. runs_ok (adb_runs (snd s)) \<and> r \<in> set (adb_runs (snd s)) \<and> adb_jobs (snd s) = adb_jobs db"])
    show "m \<in> set ?ms" using assms(6,8,9) by simp
    show "runs_ok (adb_runs (snd ([], db))) \<and> r \<in> set (adb_runs (snd ([], db))) \<and> adb_jobs (snd ([], db)) = adb_jobs db"
      using assms(1,2) by simp
  next
    fix k s s'
    assume s: "runs_ok (adb_runs (snd s)) \<and> r \<in> set (adb_runs (snd s)) \<and> adb_jobs (snd s) = adb_jobs db"
      and step: "poll_job st cfg k s = Inr s'"
    show "runs_ok (adb_runs (snd s')) \<and> r \<in> set (adb_runs (snd s')) \<and> adb_jobs (snd s') = adb_jobs db"
    proof (cases "jobs (adb_jobs (snd s)) (jm_id k)")
      case None
      then have "s' = s" using s step by (cases s) (simp add: poll_job_def)
      then show ?thesis using s by simp
    next
      case (Some j)
      then obtain run where sync: "sync_completed_job st cfg (jm_id k) (snd s) = Inr (run, snd s')"
        using step by (cases s) (auto simp: poll_job_def)
      then have other: "ar_job_id r \<noteq> jm_id k" using blocked s by auto
      then show ?thesis using sync_completed_job_ok [OF sync] s by (auto simp: image_iff) metis
    qed
  next
    fix s :: "analysis_out list \<times> analysis_db" assume "runs_ok (adb_runs (snd s)) \<and> r \<in> set (adb_runs (snd s)) \<and> adb_jobs (snd s) = adb_jobs db"
    then show "\<exists>e. poll_job st cfg m s = Inl e"
      using blocked [of "snd s"] assms(4,7) by (cases s) (auto simp: poll_job_def)
  qed
  then have "\<exists>e. list_analysis_runs st cfg i db = (Inl e, db)" using assms(10) by (auto simp: list_analysis_runs_def)
  moreover have "\<exists>k. find_first (\<lambda>m. jm_id m = ar_job_id r \<and> jm_incident_id m = Some i \<and> jm_type m = u ''log_triage'')
      (adb_meta db) = Some k"
    using assms(6-9) by (auto simp: not_None_eq [symmetric] find_first_None_iff)
  then have "get_analysis_run st cfg i (ar_job_id r) db = (Inl internal_error, db)"
    using blocked [OF assms(1,2)] assms(4,10) by (auto simp: get_analysis_run_def)
  ultimately show ?thesis by blast
qed

section \<open>Witnesses\<close>

definition sample_log :: evidence_row where
  "sample_log = \<lparr>e_id = [5], e_incident_id = [9], e_type = u ''LOG'', e_bucket = u ''b'', e_object_key = u ''k'',
     e_filename = u ''f'', e_mime_type = None, e_byte_size = 1, e_sha256 = u ''h'', e_version_id = None, e_uploaded_by = [],
     e_created_at = 0, e_lifecycle = ACTIVE, e_deleted_at = None\<rparr>"

definition first_ids :: request_ids where
  "first_ids = \<lparr>ri_job = [2], ri_run = [11], ri_event = [6], ri_correlation = [], ri_now = 3\<rparr>"

definition second_ids :: request_ids where
  "second_ids = \<lparr>ri_job = [4], ri_run = [3], ri_event = [7], ri_correlation = [], ri_now = 8\<rparr>"

definition sample_run :: "json \<Rightarrow> analysis_run" where
  "sample_run res = new_run first_ids [9] sample_log sample_snap
     (identity_columns sample_skill_env sample_log sample_snap (u ''1'')
       (execution_digest sample_skill_env (sn_content_hash sample_snap) [])) res (Some [55])"

definition sample_analysis_db :: "json \<Rightarrow> analysis_db" where
  "sample_analysis_db res = \<lparr>adb_evidence = \<lparr>incident_ids = [[9]], evidence = [sample_log], intents = [], ocr_evidence_ids = [],
       analysis_evidence_ids = [], snapshots = []\<rparr>, adb_skills = [], adb_runs = [sample_run res],
     adb_meta = [job_meta_of first_ids [9] (u ''1'') None],
     adb_jobs = \<lparr>jobs = [[2] \<mapsto> fresh_job_row\<lparr>j_status := COMPLETED\<rparr>], reports = []\<rparr>, adb_events = []\<rparr>"

definition sample_analysis_settings :: analysis_settings where
  "sample_analysis_settings = \<lparr>as_bucket = [], as_ai_runtime = u ''hermes'', as_decode = (\<lambda>b. b), as_accepts = (\<lambda>k v. True)\<rparr>"

lemma sample_runs_ok: "runs_ok (adb_runs (sample_analysis_db res))"
  by (simp add: sample_analysis_db_def runs_ok_def one_current_run_def)

lemma sample_request:
  "\<exists>out db'. request_analysis (\<lambda>v. True) sample_skill_env (\<lambda>rows. Inr (sample_snap, rows)) sample_analysis_settings
     second_ids [9] [[11]] (sample_analysis_db (JInt 7)) = (Inr out, db')"
proof -
  let ?h = "execution_digest sample_skill_env (sn_content_hash sample_snap) []"
  have log: "newest_log (adb_evidence (sample_analysis_db (JInt 7))) [9] = Some sample_log"
    by (simp add: newest_log_def newest_def sample_analysis_db_def sample_log_def)
  have hit: "find_cached_analysis_run (adb_runs (sample_analysis_db (JInt 7))) sample_log None None
      (sn_content_hash sample_snap) (Some ?h) (Some (sn_id sample_snap)) = Some (sample_run (JInt 7))"
    by (simp add: find_cached_analysis_run_def newest_def sample_analysis_db_def sample_run_def new_run_def reusable_def
        identity_columns_def matches_opt_def sample_log_def)
  have prov: "\<exists>p. snapshot_runtime_provenance sample_skill_env sample_snap = Inr p"
    by (simp add: snapshot_runtime_provenance_def input_contract_version_def execution_policy_def)
  have version: "\<exists>v. declared_skill_version sample_skill_env sample_snap = Inr v" by (simp add: declared_skill_version_def Let_def)
  have one: "one_current_run (clear_current [9] [[11]] (adb_runs (sample_analysis_db (JInt 7))) @ [run])" for run
    by (simp add: one_current_run_def clear_current_def sample_analysis_db_def sample_run_def new_run_def first_ids_def)
  have i: "[9] \<in> set (incident_ids (adb_evidence (sample_analysis_db (JInt 7))))" by (simp add: sample_analysis_db_def)
  have ai: "as_ai_runtime sample_analysis_settings = u ''hermes''" by (simp add: sample_analysis_settings_def)
  show ?thesis using prov version
    by (auto simp: request_analysis_def i log ai hit sample_hash request_from_cache_def commit_current_def one Let_def)
qed

lemma sample_step:
  obtains out db' where "analysis_step (sample_analysis_db (JInt 7)) db'"
    "request_analysis (\<lambda>v. True) sample_skill_env (\<lambda>rows. Inr (sample_snap, rows)) sample_analysis_settings
      second_ids [9] [[11]] (sample_analysis_db (JInt 7)) = (Inr out, db')"
proof -
  obtain out db' where r: "request_analysis (\<lambda>v. True) sample_skill_env (\<lambda>rows. Inr (sample_snap, rows)) sample_analysis_settings
     second_ids [9] [[11]] (sample_analysis_db (JInt 7)) = (Inr out, db')" using sample_request by blast
  have "analysis_step (sample_analysis_db (JInt 7)) db'"
    by (rule analysis_step.Request [OF r])
      (simp_all add: sample_analysis_db_def second_ids_def sample_run_def new_run_def first_ids_def)
  with r that show thesis by blast
qed


theorem one_current_run_per_incident_witness:
  "\<exists>db'. analysis_step (sample_analysis_db (JInt 7)) db' \<and> length (adb_runs db') = 2 \<and> one_current_run (adb_runs db')"
proof -
  obtain out db' where s: "analysis_step (sample_analysis_db (JInt 7)) db'"
    "request_analysis (\<lambda>v. True) sample_skill_env (\<lambda>rows. Inr (sample_snap, rows)) sample_analysis_settings
      second_ids [9] [[11]] (sample_analysis_db (JInt 7)) = (Inr out, db')" by (rule sample_step)
  obtain ev s skills execution cached run where
    "requested sample_skill_env second_ids [9] [[11]] (sample_analysis_db (JInt 7)) ev s execution cached run out db'"
    by (rule request_analysis_succeeded [OF s(2)])
  then have "length (adb_runs db') = 2" by (simp add: requested_def clear_current_def sample_analysis_db_def)
  then show ?thesis using one_current_run_per_incident [OF r_into_rtranclp [where r = analysis_step, OF s(1)] sample_runs_ok] s(1) by blast
qed

theorem request_reuses_exactly_equivalent_results_witness:
  "\<exists>out db' run. request_analysis (\<lambda>v. True) sample_skill_env (\<lambda>rows. Inr (sample_snap, rows)) sample_analysis_settings
     second_ids [9] [[11]] (sample_analysis_db (JInt 7)) = (Inr out, db')
     \<and> adb_runs db' = clear_current [9] [[11]] (adb_runs (sample_analysis_db (JInt 7))) @ [run]"
proof -
  obtain out db' where s: "request_analysis (\<lambda>v. True) sample_skill_env (\<lambda>rows. Inr (sample_snap, rows)) sample_analysis_settings
      second_ids [9] [[11]] (sample_analysis_db (JInt 7)) = (Inr out, db')" using sample_request by blast
  from request_reuses_exactly_equivalent_results [OF s] s show ?thesis by blast
qed

definition scalar_store :: object_store where
  "scalar_store = \<lparr>so_head = (\<lambda>b k. None), so_get = (\<lambda>b k v. Some []), so_sha = (\<lambda>s. s), so_guess = (\<lambda>s. None),
     so_loads = (\<lambda>s. Some JNull), so_dumps = (\<lambda>v. [])\<rparr>"

theorem scalar_telemetry_blocks_the_result_witness:
  "get_analysis_run scalar_store sample_analysis_settings [9] [2] (sample_analysis_db JNull) = (Inl internal_error, sample_analysis_db JNull)"
proof -
  have j: "ar_job_id (sample_run JNull) = [2]" "rn_result (sample_run JNull) = JNull"
    by (simp_all add: sample_run_def new_run_def first_ids_def)
  have st: "so_get scalar_store b k v = Some []" "so_loads scalar_store s = Some JNull" for b k v s
    by (simp_all add: scalar_store_def)
  have "get_analysis_run scalar_store sample_analysis_settings [9] (ar_job_id (sample_run JNull)) (sample_analysis_db JNull)
      = (Inl internal_error, sample_analysis_db JNull)
    \<and> (\<exists>e. list_analysis_runs scalar_store sample_analysis_settings [9] (sample_analysis_db JNull) = (Inl e, sample_analysis_db JNull))"
    by (rule scalar_telemetry_blocks_the_result [OF sample_runs_ok _ j(2), where job = "fresh_job_row\<lparr>j_status := COMPLETED\<rparr>"
          and m = "job_meta_of first_ids [9] (u ''1'') None" and body = "[]" and t = "[]" and v = JNull])
      (simp_all add: j st sample_analysis_db_def job_meta_of_def first_ids_def)
  then show ?thesis unfolding j by blast
qed

end
