(* ===== verification/Reconcile_Legacy.thy ===== *)
theory Reconcile_Legacy
  imports Preprocess
begin

text \<open>
  \<open>reconcile_result\<close> of \<^verbatim>\<open>sandbox/preprocessing.py\<close>: the entry point of reconciliation. An answer that
  selects entries goes to \<open>_reconcile_entry_grouped_result\<close> (theory Reconcile); one that names
  patterns is reconciled here against the pattern manifest: identities are checked, findings of one
  cause family are merged, omitted patterns are appended and every number is recomputed. The code
  updates the dictionaries of the answer in place, and its callers use the answer again after the
  call, so every finding carries the position of the dictionary object it is (\<open>fi_origin\<close>) and the
  outcome comes with the answer as the call leaves it. The statistics are those of \<open>preprocess_log\<close>,
  whose pattern rows always have a family. \<open>str.casefold\<close> and the Unicode classes of \<open>\w\<close> and \<open>\d\<close>
  are functions of the environment.
\<close>

section \<open>Types\<close>

datatype legacy_error =
    Unknown_Pattern json
  | Assigned_More_Than_Once json
  | Grouped reconcile_error
  | Crash doc_error

record text_classes =
  tc_casefold :: "pystr \<Rightarrow> pystr"
  tc_word :: "nat \<Rightarrow> bool"
  tc_digit :: "nat \<Rightarrow> bool"

text \<open>A finding: its group, the dictionary of the answer it is (none for an appended one), and its
  current content.\<close>

record finding_item =
  fi_key :: bool
  fi_origin :: "nat option"
  fi_doc :: json

text \<open>A crash is an exception the callers do not take for a \<open>ValueError\<close>.\<close>

fun crashing :: "doc_error + 'a \<Rightarrow> legacy_error + 'a" where
  "crashing (Inl e) = Inl (Crash e)"
| "crashing (Inr x) = Inr x"

section \<open>The pattern manifest\<close>

definition UNQUANTIFIED :: json where
  "UNQUANTIFIED = JArr [JStr (u ''unquantified'')]"

definition pattern_by_id :: "pattern_row list \<Rightarrow> json \<Rightarrow> pattern_row option" where
  "pattern_by_id rows v = (case v of JStr p \<Rightarrow> map_of (rev (map (\<lambda>r. (pr_id r, r)) rows)) p | _ \<Rightarrow> None)"

definition family_by_pattern :: "pattern_row list \<Rightarrow> json \<Rightarrow> pystr option" where
  "family_by_pattern rows v = (if v = JStr (u ''other'') then None else map_option pr_family_id (pattern_by_id rows v))"

definition named_rows :: "pattern_row list \<Rightarrow> pattern_row list" where
  "named_rows rows = filter (\<lambda>r. pr_id r \<noteq> u ''other'') rows"

text \<open>\<open>family_labels[family]\<close>: the label of the last row of the family.\<close>

definition family_label :: "pattern_row list \<Rightarrow> pystr \<Rightarrow> pystr" where
  "family_label rows family = (case map_of (rev (map (\<lambda>r. (pr_family_id r, pr_family_label r)) (named_rows rows))) family of
     Some l \<Rightarrow> l | None \<Rightarrow> [])"

definition family_members :: "pattern_row list \<Rightarrow> pystr \<Rightarrow> json list" where
  "family_members rows family = map (\<lambda>r. JStr (pr_id r)) (filter (\<lambda>r. pr_family_id r = family) (named_rows rows))"

text \<open>\<open>pattern_id in pattern_by_id\<close> hashes its operand.\<close>

definition in_manifest :: "pattern_row list \<Rightarrow> json \<Rightarrow> legacy_error + bool" where
  "in_manifest rows v = (if is_dict v \<or> is_list v then Inl (Crash Type_Error) else Inr (pattern_by_id rows v \<noteq> None))"

fun unknown_ids :: "pattern_row list \<Rightarrow> json list \<Rightarrow> legacy_error + json list" where
  "unknown_ids rows [] = Inr []"
| "unknown_ids rows (v # vs) =
     sbind (if v = JStr (u ''unquantified'') then Inr True else in_manifest rows v) (\<lambda>known.
     sbind (unknown_ids rows vs) (\<lambda>rest. Inr (if known then rest else v # rest)))"

text \<open>\<open>sum(pattern_by_id[item]["count"] for item in ids)\<close>.\<close>

fun count_ids :: "pattern_row list \<Rightarrow> json list \<Rightarrow> legacy_error + int" where
  "count_ids rows [] = Inr 0"
| "count_ids rows (v # vs) = (case pattern_by_id rows v of
      None \<Rightarrow> Inl (Crash Key_Error)
    | Some r \<Rightarrow> sbind (count_ids rows vs) (\<lambda>n. Inr (pr_count r + n)))"

definition set_numbers :: "int \<Rightarrow> int \<Rightarrow> json \<Rightarrow> json" where
  "set_numbers tot n f = jset (jset f ''count'' (JInt n)) ''percentage'' (JFloat (percentage_of n tot))"

definition clear_numbers :: "json \<Rightarrow> json" where
  "clear_numbers f = jset (jset f ''count'' JNull) ''percentage'' JNull"

definition quantify_by :: "pattern_row list \<Rightarrow> int \<Rightarrow> json list \<Rightarrow> json \<Rightarrow> legacy_error + json" where
  "quantify_by rows tot ids f = sbind (count_ids rows ids) (\<lambda>n. Inr (set_numbers tot n f))"

section \<open>Checking the identities\<close>

text \<open>The loop over the ids of a finding.\<close>

fun claim_ids :: "pattern_row list \<Rightarrow> json list \<Rightarrow> json list \<Rightarrow> legacy_error + json list" where
  "claim_ids rows used [] = Inr used"
| "claim_ids rows used (v # vs) =
     (if v = JStr (u ''unquantified'') then claim_ids rows used vs
      else if pattern_by_id rows v = None then Inl (Unknown_Pattern v)
      else if v \<in> set used then Inl (Assigned_More_Than_Once v)
      else claim_ids rows (v # used) vs)"

text \<open>What the fallback makes of a finding with unknown ids.\<close>

definition strip_unknown :: "pattern_row list \<Rightarrow> json list \<Rightarrow> json \<Rightarrow> json \<times> json" where
  "strip_unknown rows ids f =
    (let known = filter (\<lambda>v. pattern_by_id rows v \<noteq> None) ids
     in if known \<noteq> [] then (JArr (uniq known), jset f ''pattern_ids'' (JArr (uniq known)))
        else (UNQUANTIFIED, clear_numbers (jset f ''pattern_ids'' UNQUANTIFIED)))"

text \<open>The ids of a finding and the finding: unknown ids raise, or are stripped by the fallback.\<close>

definition resolve_ids :: "pattern_row list \<Rightarrow> bool \<Rightarrow> json \<Rightarrow> legacy_error + json \<times> json" where
  "resolve_ids rows fallback f =
    (let ids = por (jget f ''pattern_ids'') (JArr []) in
     sbind (crashing (py_iter ids)) (\<lambda>xs. sbind (unknown_ids rows xs) (\<lambda>unknown.
       if unknown = [] then Inr (ids, f)
       else if fallback then Inr (strip_unknown rows xs f)
       else Inl (Unknown_Pattern (hd unknown)))))"

text \<open>One finding: the ids used and whether an unquantified one was seen, and the new finding, none
  if it is dropped.\<close>

definition normalize_finding :: "pattern_row list \<Rightarrow> int \<Rightarrow> bool \<Rightarrow> json list \<times> bool \<Rightarrow> json
    \<Rightarrow> legacy_error + (json list \<times> bool) \<times> json option" where
  "normalize_finding rows tot fallback st f =
    (if \<not> is_dict f then Inl (Crash Attribute_Error)
     else sbind (resolve_ids rows fallback f) (\<lambda>(ids, f1).
       if ids = UNQUANTIFIED then
         (if snd st \<and> fallback then Inr (st, None)
          else Inr ((fst st, True), Some (clear_numbers f1)))
       else sbind (crashing (py_iter ids)) (\<lambda>ys. sbind (claim_ids rows (fst st) ys) (\<lambda>used.
         sbind (quantify_by rows tot ys f1) (\<lambda>f2. Inr ((used, snd st), Some f2))))))"

fun normalize_findings :: "pattern_row list \<Rightarrow> int \<Rightarrow> bool \<Rightarrow> json list \<times> bool \<Rightarrow> finding_item list
    \<Rightarrow> legacy_error + finding_item list" where
  "normalize_findings rows tot fallback st [] = Inr []"
| "normalize_findings rows tot fallback st (x # xs) =
     sbind (normalize_finding rows tot fallback st (fi_doc x)) (\<lambda>(st', out).
     sbind (normalize_findings rows tot fallback st' xs) (\<lambda>rest.
       Inr (case out of None \<Rightarrow> rest | Some f \<Rightarrow> x\<lparr>fi_doc := f\<rparr> # rest)))"

text \<open>The findings as the loop leaves them when it raises (without the fallback it drops none, and
  the finding that raises is not changed).\<close>

fun normalize_left :: "pattern_row list \<Rightarrow> int \<Rightarrow> json list \<times> bool \<Rightarrow> finding_item list \<Rightarrow> finding_item list" where
  "normalize_left rows tot st [] = []"
| "normalize_left rows tot st (x # xs) = (case normalize_finding rows tot False st (fi_doc x) of
      Inl e \<Rightarrow> x # xs
    | Inr (st', out) \<Rightarrow> (case out of None \<Rightarrow> x | Some f \<Rightarrow> x\<lparr>fi_doc := f\<rparr>) # normalize_left rows tot st' xs)"

section \<open>Merging splits of one family\<close>

text \<open>\<open>finding.get("pattern_ids", [])\<close> as the loops read it; the loop over the components iterates
  over the ids of every quantified finding, so afterwards iteration does not raise.\<close>

definition raw_ids :: "json \<Rightarrow> doc_error + json list" where
  "raw_ids f = py_iter (jget_or f ''pattern_ids'' (JArr []))"

definition ids_of :: "json \<Rightarrow> json list" where
  "ids_of f = (case raw_ids f of Inl e \<Rightarrow> [] | Inr xs \<Rightarrow> xs)"

definition is_quantified :: "finding_item \<Rightarrow> bool" where
  "is_quantified x \<longleftrightarrow> jget (fi_doc x) ''pattern_ids'' \<noteq> UNQUANTIFIED"

definition families_in :: "pattern_row list \<Rightarrow> json list \<Rightarrow> pystr list" where
  "families_in rows ids = uniq (concat (map (\<lambda>v. case family_by_pattern rows v of None \<Rightarrow> [] | Some f \<Rightarrow> [f]) ids))"

text \<open>The union-find forest: \<open>labels ! i\<close> is \<open>find(i)\<close>. \<open>union(index, previous)\<close> makes the new index
  the root of every component it meets.\<close>

fun link_families :: "nat list \<Rightarrow> (pystr, nat) pydict \<Rightarrow> pystr list list \<Rightarrow> nat list" where
  "link_families labels owner [] = labels"
| "link_families labels owner (fams # rest) =
     (let i = length labels;
          met = map (\<lambda>f. labels ! the (map_of owner f)) (filter (\<lambda>f. map_of owner f \<noteq> None) fams);
          new = filter (\<lambda>f. map_of owner f = None) fams
      in link_families (map (\<lambda>l. if l \<in> set met then i else l) labels @ [i]) (owner @ map (\<lambda>f. (f, i)) new) rest)"

definition components_of :: "pattern_row list \<Rightarrow> json list list \<Rightarrow> nat list list" where
  "components_of rows idss = (let labels = link_families [] [] (map (families_in rows) idss)
     in map snd (group_by (\<lambda>i. labels ! i) [0..<length idss]))"

definition primary_of :: "finding_item list \<Rightarrow> finding_item" where
  "primary_of xs = (case find_first fi_key xs of Some x \<Rightarrow> x | None \<Rightarrow> hd xs)"

definition set_ids :: "json list \<Rightarrow> finding_item \<Rightarrow> finding_item" where
  "set_ids ids x = x\<lparr>fi_doc := jset (fi_doc x) ''pattern_ids'' (JArr ids)\<rparr>"

definition merge_component :: "finding_item list \<Rightarrow> finding_item" where
  "merge_component xs = set_ids (uniq (concat (map (\<lambda>x. ids_of (fi_doc x)) xs))) (primary_of xs)"

text \<open>Key findings before secondary ones.\<close>

definition by_group :: "finding_item list \<Rightarrow> finding_item list" where
  "by_group xs = filter fi_key xs @ filter (\<lambda>x. \<not> fi_key x) xs"

text \<open>The findings afterwards and whether the answer was rebuilt.\<close>

definition merge_families :: "pattern_row list \<Rightarrow> finding_item list \<Rightarrow> legacy_error + bool \<times> finding_item list" where
  "merge_families rows items =
    (let quantified = filter is_quantified items in
     sbind (crashing (smap (\<lambda>x. raw_ids (fi_doc x)) quantified)) (\<lambda>idss.
     let comps = components_of rows idss in
       if list_ex (\<lambda>c. length c > 1) comps
       then Inr (True, by_group (map (\<lambda>c. merge_component (map (\<lambda>i. quantified ! i) c)) comps
              @ filter (\<lambda>x. \<not> is_quantified x) items))
       else Inr (False, items)))"

section \<open>Merging repeated details (fallback only)\<close>

definition compact_narrative_key :: "text_classes \<Rightarrow> pystr \<Rightarrow> pystr" where
  "compact_narrative_key tc s = filter (tc_word tc) (tc_casefold tc s)"

definition detail_signature :: "text_classes \<Rightarrow> json \<Rightarrow> string \<Rightarrow> pystr" where
  "detail_signature tc f k = (case jget f k of JStr s \<Rightarrow> compact_narrative_key tc s | _ \<Rightarrow> [])"

text \<open>The two details of finding \<open>i\<close> against the owners of signatures: the owners afterwards, and the
  owner the finding repeats.\<close>

fun scan_details :: "nat \<Rightarrow> (pystr, nat) pydict \<Rightarrow> pystr list \<Rightarrow> (pystr, nat) pydict \<times> nat option" where
  "scan_details i owners [] = (owners, None)"
| "scan_details i owners (s # ss) =
     (if length s < 32 then scan_details i owners ss
      else (case map_of owners s of
          Some j \<Rightarrow> if j \<noteq> i then (owners, Some j) else scan_details i (AList.update s i owners) ss
        | None \<Rightarrow> scan_details i (AList.update s i owners) ss))"

fun scan_duplicates :: "text_classes \<Rightarrow> nat \<Rightarrow> (pystr, nat) pydict \<Rightarrow> finding_item list \<Rightarrow> (nat \<times> nat) list" where
  "scan_duplicates tc i owners [] = []"
| "scan_duplicates tc i owners (x # xs) =
     (if \<not> is_quantified x then scan_duplicates tc (Suc i) owners xs
      else (case scan_details i owners (map (detail_signature tc (fi_doc x)) [''detail_en'', ''detail_zh'']) of
          (owners', None) \<Rightarrow> scan_duplicates tc (Suc i) owners' xs
        | (owners', Some j) \<Rightarrow> (i, j) # scan_duplicates tc (Suc i) owners' xs))"

definition absorb :: "nat \<times> nat \<Rightarrow> finding_item list \<Rightarrow> finding_item list" where
  "absorb d items = (case d of (i, j) \<Rightarrow>
     items[j := set_ids (uniq (ids_of (fi_doc (items ! j)) @ ids_of (fi_doc (items ! i)))) (items ! j)])"

definition merge_duplicates :: "text_classes \<Rightarrow> finding_item list \<Rightarrow> bool \<times> finding_item list" where
  "merge_duplicates tc items =
    (let dups = scan_duplicates tc 0 [] items;
         merged = fold absorb dups items
     in (dups \<noteq> [], map snd (filter (\<lambda>(i, x). i \<notin> fst ` set dups) (enumerate 0 merged))))"

text \<open>Every count from the ids, and the ids in use.\<close>

definition recount_item :: "pattern_row list \<Rightarrow> int \<Rightarrow> finding_item \<Rightarrow> legacy_error + finding_item" where
  "recount_item rows tot x = (if \<not> is_quantified x then Inr x
     else sbind (quantify_by rows tot (ids_of (fi_doc x)) (fi_doc x)) (\<lambda>f. Inr (x\<lparr>fi_doc := f\<rparr>)))"

definition used_ids :: "finding_item list \<Rightarrow> json list" where
  "used_ids items = concat (map (\<lambda>x. ids_of (fi_doc x)) (filter is_quantified items))"

section \<open>Matching an unquantified finding to a family (fallback only)\<close>

definition hint_char :: "nat \<Rightarrow> bool" where
  "hint_char c \<longleftrightarrow> (97 \<le> c \<and> c \<le> 122) \<or> (48 \<le> c \<and> c \<le> 57) \<or> c = 95"

text \<open>\<open>\b\d{3}\b\<close> at the head of a text; the first argument says whether a word character precedes.\<close>

definition three_digits :: "text_classes \<Rightarrow> bool \<Rightarrow> pystr \<Rightarrow> bool" where
  "three_digits tc prev s \<longleftrightarrow> length s \<ge> 3 \<and> list_all (tc_digit tc) (take 3 s) \<and> prev \<noteq> tc_word tc (s ! 0)
     \<and> tc_word tc (s ! 2) \<noteq> (length s > 3 \<and> tc_word tc (s ! 3))"

text \<open>\<open>re.findall(r"[a-z][a-z0-9_]{3,}|\b\d{3}\b", s)\<close>.\<close>

fun hint_tokens :: "text_classes \<Rightarrow> bool \<Rightarrow> pystr \<Rightarrow> pystr list" where
  "hint_tokens tc prev [] = []"
| "hint_tokens tc prev (c # cs) =
     (let run = takeWhile hint_char cs in
      if 97 \<le> c \<and> c \<le> 122 \<and> 3 \<le> length run
      then (c # run) # hint_tokens tc True (drop (length run) cs)
      else if three_digits tc prev (c # cs)
      then take 3 (c # cs) # hint_tokens tc (tc_word tc (cs ! 1)) (drop 2 cs)
      else hint_tokens tc (tc_word tc c) cs)"

definition GENERIC_WORDS :: "pystr list" where
  "GENERIC_WORDS = map u [''related'', ''failure'', ''failures'', ''error'', ''entries'', ''pattern'', ''timeout'',
     ''exception'', ''database'', ''query'', ''service'', ''logged'', ''json'', ''http'', ''response'', ''return'',
     ''warning'', ''failed'', ''parse'', ''callback'', ''external'', ''third'', ''api'', ''request'', ''line'', ''trace'']"

definition PREFERRED_MARKERS :: "(pystr \<times> pystr) list" where
  "PREFERRED_MARKERS = [(u ''ndrp-availability'', u ''ndrp''), (u ''elasticsearch-timeout'', u ''elasticsearch''),
     (u ''clickhouse-sql'', u ''clickhouse''), (u ''face-compare-timeout'', u ''facecompare''),
     (u ''payment-order-missing'', u ''payment'')]"

definition family_hints :: "text_classes \<Rightarrow> pattern_row list \<Rightarrow> (pystr, pystr list) pydict" where
  "family_hints tc rows = map (\<lambda>(family, rs). (family, filter (\<lambda>t. t \<notin> set GENERIC_WORDS)
      (concat (map (\<lambda>r. hint_tokens tc False (tc_casefold tc (family_label rows family @ [32] @ pr_template r))) rs))))
    (group_by pr_family_id (named_rows rows))"

definition finding_text :: "py_env \<Rightarrow> text_classes \<Rightarrow> json \<Rightarrow> pystr" where
  "finding_text env tc f = tc_casefold tc (py_join [32] (map (\<lambda>k. py_str env (jget_or f k (JStr [])))
      [''label_en'', ''detail_en'', ''label_zh'', ''detail_zh'']))"

definition hint_matches :: "(pystr, pystr list) pydict \<Rightarrow> pystr \<Rightarrow> pystr list" where
  "hint_matches hints s =
    (let preferred = map fst (filter (\<lambda>(family, marker). family \<in> set (map fst hints) \<and> py_in marker s) PREFERRED_MARKERS)
     in if length preferred = 1 then preferred
        else map fst (filter (\<lambda>(family, tokens). list_ex (\<lambda>t. 4 \<le> length t \<and> py_in t s) tokens) hints))"

text \<open>The loop over the unquantified findings; the ids and families in use grow.\<close>

fun attach_hints :: "py_env \<Rightarrow> text_classes \<Rightarrow> pattern_row list \<Rightarrow> int \<Rightarrow> json list \<Rightarrow> pystr list
    \<Rightarrow> finding_item list \<Rightarrow> legacy_error + json list \<times> finding_item list" where
  "attach_hints env tc rows tot used fams [] = Inr (used, [])"
| "attach_hints env tc rows tot used fams (x # xs) =
     (let keep = sbind (attach_hints env tc rows tot used fams xs) (\<lambda>(used', ys). Inr (used', x # ys)) in
      if is_quantified x then keep
      else (case hint_matches (family_hints tc rows) (finding_text env tc (fi_doc x)) of
          [family] \<Rightarrow>
            (if family \<in> set fams then attach_hints env tc rows tot used fams xs
             else if family_members rows family = [] then keep
             else sbind (quantify_by rows tot (family_members rows family) (fi_doc (set_ids (family_members rows family) x)))
               (\<lambda>f. sbind (attach_hints env tc rows tot (used @ family_members rows family) (family # fams) xs)
               (\<lambda>(used', ys). Inr (used', x\<lparr>fi_doc := f\<rparr> # ys))))
        | _ \<Rightarrow> keep))"

section \<open>Omitted patterns\<close>

definition existing_by_family :: "pattern_row list \<Rightarrow> finding_item list \<Rightarrow> pystr \<Rightarrow> nat option" where
  "existing_by_family rows items = map_of (rev (concat (map (\<lambda>(i, x). map (\<lambda>f. (f, i))
      (filter (\<lambda>f. f \<noteq> []) (concat (map (\<lambda>v. case family_by_pattern rows v of None \<Rightarrow> [] | Some f \<Rightarrow> [f])
         (ids_of (fi_doc x)))))) (enumerate 0 items))))"

text \<open>\<open>re.sub(r"[.!?\<dots>]+", " ", s)\<close> with the ASCII and CJK sentence marks.\<close>

definition sentence_mark :: "nat \<Rightarrow> bool" where
  "sentence_mark c \<longleftrightarrow> c \<in> {46, 33, 63, 12290, 65281, 65311}"

fun blank_marks :: "bool \<Rightarrow> pystr \<Rightarrow> pystr" where
  "blank_marks b [] = []"
| "blank_marks b (c # cs) = (if sentence_mark c then (if b then blank_marks True cs else 32 # blank_marks True cs)
     else c # blank_marks False cs)"

definition descriptor :: "pystr \<Rightarrow> pystr" where
  "descriptor label = rev (py_lstrip (rev (take 180 (collapse_space (blank_marks False label)))))"

definition unlabeled_finding :: "pattern_row list \<Rightarrow> int \<Rightarrow> pystr \<Rightarrow> pattern_row list \<Rightarrow> json" where
  "unlabeled_finding rows tot family rs =
    (let n = sum_list (map pr_count rs); label = family_label rows family; d = descriptor label
     in JObj [(u ''id'', JStr (u ''unlabeled-'' @ family)), (u ''label_en'', JStr label), (u ''label_zh'', JStr label),
       (u ''count'', JInt n), (u ''percentage'', JFloat (percentage_of n tot)),
       (u ''pattern_ids'', JArr (map (\<lambda>r. JStr (pr_id r)) rs)),
       (u ''detail_en'', JStr (u ''Observed related log entries matching: '' @ d @ u ''.'')),
       (u ''detail_zh'', JStr ([30456, 20851, 26085, 24535, 26465, 30446, 21305, 37197, 20197, 19979, 27169, 24335, 65306]
           @ d @ [12290]))])"

definition append_family :: "pattern_row list \<Rightarrow> int \<Rightarrow> (pystr \<Rightarrow> nat option) \<Rightarrow> pystr \<times> pattern_row list
    \<Rightarrow> finding_item list \<Rightarrow> legacy_error + finding_item list" where
  "append_family rows tot existing g items = (case g of (family, rs) \<Rightarrow> (case existing family of
      Some i \<Rightarrow>
        (let x = items ! i; ids = uniq (ids_of (fi_doc x) @ map (\<lambda>r. JStr (pr_id r)) rs)
         in sbind (quantify_by rows tot ids (fi_doc (set_ids ids x))) (\<lambda>f. Inr (items[i := x\<lparr>fi_doc := f\<rparr>])))
    | None \<Rightarrow> Inr (items @ [\<lparr>fi_key = False, fi_origin = None, fi_doc = unlabeled_finding rows tot family rs\<rparr>])))"

definition append_omitted :: "pattern_row list \<Rightarrow> int \<Rightarrow> json list \<Rightarrow> finding_item list \<Rightarrow> legacy_error + finding_item list" where
  "append_omitted rows tot used items =
    sfold (append_family rows tot (existing_by_family rows items))
      (group_by pr_family_id (filter (\<lambda>r. JStr (pr_id r) \<notin> set used) (named_rows rows))) items"

text \<open>The fallback gives the answer a key finding.\<close>

definition dominant_finding :: "pattern_row list \<Rightarrow> int \<Rightarrow> pystr \<Rightarrow> legacy_error + json" where
  "dominant_finding rows tot family =
    (let label = family_label rows family; ids = family_members rows family in
     sbind (count_ids rows ids) (\<lambda>n. Inr (JObj [(u ''id'', JStr (u ''fallback-'' @ family)),
       (u ''label_en'', JStr label), (u ''label_zh'', JStr label), (u ''count'', JInt n),
       (u ''percentage'', JFloat (percentage_of n tot)), (u ''pattern_ids'', JArr ids),
       (u ''detail_en'', JStr (u ''Observed the dominant deterministic family: '' @ label @ u ''.'')),
       (u ''detail_zh'', JStr ([26816, 27979, 21040, 20027, 35201, 30830, 23450, 24615, 27169, 24335, 26063, 65306]
           @ label @ [12290]))])))"

definition promote :: "pattern_row list \<Rightarrow> int \<Rightarrow> finding_item list \<Rightarrow> legacy_error + finding_item list" where
  "promote rows tot items =
    (if list_ex fi_key items then Inr items
     else (case items of
        x # xs \<Rightarrow> Inr (x\<lparr>fi_key := True\<rparr> # xs)
      | [] \<Rightarrow> (case named_rows rows of
          [] \<Rightarrow> Inr []
        | r # _ \<Rightarrow> sbind (dominant_finding rows tot (pr_family_id r))
            (\<lambda>f. Inr [\<lparr>fi_key = True, fi_origin = None, fi_doc = f\<rparr>]))))"

section \<open>An answer that names patterns\<close>

definition reconcile_items :: "py_env \<Rightarrow> text_classes \<Rightarrow> pattern_row list \<Rightarrow> int \<Rightarrow> bool \<Rightarrow> finding_item list
    \<Rightarrow> legacy_error + bool \<times> finding_item list" where
  "reconcile_items env tc rows tot fallback items =
    sbind (normalize_findings rows tot fallback ([], False) items) (\<lambda>normal.
    sbind (merge_families rows normal) (\<lambda>(rebuilt, merged).
      let (repeated, single) = (if fallback then merge_duplicates tc merged else (False, merged)) in
    sbind (smap (recount_item rows tot) single) (\<lambda>counted.
    sbind (if fallback then attach_hints env tc rows tot (used_ids counted) (families_in rows (used_ids counted)) counted
           else Inr (used_ids counted, counted)) (\<lambda>(used, attached).
    sbind (append_omitted rows tot used attached) (\<lambda>complete.
    sbind (if fallback then promote rows tot complete else Inr complete) (\<lambda>final.
      Inr (rebuilt \<or> repeated, final)))))))"

definition number_items :: "json list \<Rightarrow> json list \<Rightarrow> finding_item list" where
  "number_items ks ss = map (\<lambda>(i, f). \<lparr>fi_key = True, fi_origin = Some i, fi_doc = f\<rparr>) (enumerate 0 ks)
     @ map (\<lambda>(i, f). \<lparr>fi_key = False, fi_origin = Some i, fi_doc = f\<rparr>) (enumerate (length ks) ss)"

definition key_docs :: "finding_item list \<Rightarrow> json list" where
  "key_docs items = map fi_doc (filter fi_key items)"

definition secondary_docs :: "finding_item list \<Rightarrow> json list" where
  "secondary_docs items = map fi_doc (filter (\<lambda>x. \<not> fi_key x) items)"

text \<open>The groups written into the answer, or a new dictionary \<open>{groups} | {the other keys}\<close>.\<close>

definition with_groups :: "json \<Rightarrow> json list \<Rightarrow> json list \<Rightarrow> json" where
  "with_groups d ks ss = jset (jset d ''key_finds'' (JArr ks)) ''secondary_finds'' (JArr ss)"

definition rebuilt_with :: "json \<Rightarrow> json list \<Rightarrow> json list \<Rightarrow> json" where
  "rebuilt_with d ks ss = (case d of
      JObj kvs \<Rightarrow> JObj ((u ''key_finds'', JArr ks) # (u ''secondary_finds'', JArr ss)
         # filter (\<lambda>kv. fst kv \<noteq> u ''key_finds'' \<and> fst kv \<noteq> u ''secondary_finds'') kvs)
    | _ \<Rightarrow> d)"

definition finish :: "log_summary \<Rightarrow> json \<Rightarrow> bool \<times> finding_item list \<Rightarrow> json" where
  "finish s d out = (case out of (rebuilt, items) \<Rightarrow>
     jset (if rebuilt then rebuilt_with d (key_docs items) (secondary_docs items)
           else with_groups d (key_docs items) (secondary_docs items)) ''total_entries'' (JInt (ls_total s)))"

section \<open>Reading the answer\<close>

text \<open>The two groups, and the exception that ends the iteration over them (a group that is null, a
  number or a boolean).\<close>

definition read_groups :: "json \<Rightarrow> json list \<times> json list \<times> doc_error option" where
  "read_groups d = (case py_iter (jget_or d ''key_finds'' (JArr [])) of
      Inl e \<Rightarrow> ([], [], Some e)
    | Inr ks \<Rightarrow> (case py_iter (jget_or d ''secondary_finds'' (JArr [])) of
        Inl e \<Rightarrow> (ks, [], Some e)
      | Inr ss \<Rightarrow> (ks, ss, None)))"

fun selects_entries :: "json list \<Rightarrow> doc_error option \<Rightarrow> doc_error + bool" where
  "selects_entries [] None = Inr False"
| "selects_entries [] (Some e) = Inl e"
| "selects_entries (f # fs) err = sbind (py_contains f ''evidence_entry_ids'')
     (\<lambda>b. if b then Inr True else selects_entries fs err)"

text \<open>The loop over selected findings, with the findings as it leaves them.\<close>

fun grouped_loop :: "py_env \<Rightarrow> log_statistics \<Rightarrow> int list \<Rightarrow> json list \<Rightarrow> doc_error option
    \<Rightarrow> json list \<times> (legacy_error + int list)" where
  "grouped_loop env st claimed [] None = ([], Inr claimed)"
| "grouped_loop env st claimed [] (Some e) = ([], Inl (Crash e))"
| "grouped_loop env st claimed (f # fs) err = (case py_contains f ''evidence_entry_ids'' of
      Inl e \<Rightarrow> (f # fs, Inl (Crash e))
    | Inr b \<Rightarrow> if b \<and> \<not> is_dict f then (f # fs, Inl (Crash Attribute_Error))
        else (case reconcile_finding env st claimed f of
            Inl e \<Rightarrow> (f # fs, Inl (Grouped e))
          | Inr (claimed', f') \<Rightarrow> (case grouped_loop env st claimed' fs err of (fs', out) \<Rightarrow> (f' # fs', out))))"

definition put_group :: "json \<Rightarrow> string \<Rightarrow> json list \<Rightarrow> json" where
  "put_group d k fs = (if is_list (jget d k) then jset d k (JArr fs) else d)"

text \<open>\<open>_reconcile_entry_grouped_result\<close> on the answer as a dictionary: the answer afterwards and the
  outcome, which is the same dictionary.\<close>

definition reconcile_grouped :: "py_env \<Rightarrow> log_summary \<Rightarrow> json \<Rightarrow> json \<times> (legacy_error + json)" where
  "reconcile_grouped env s d =
    (let (ks, ss, err) = read_groups d;
         st = statistics_of s;
         (fs, out) = grouped_loop env st [] (ks @ ss) err;
         d1 = put_group (put_group d ''key_finds'' (take (length ks) fs)) ''secondary_finds'' (drop (length ks) fs)
     in case out of
        Inl e \<Rightarrow> (d1, Inl e)
      | Inr claimed \<Rightarrow>
         (let unclaimed = sort (filter (\<lambda>i. i \<notin> set claimed) (remdups (map le_id (st_entries st))));
              extra = (if unclaimed \<noteq> [] then fallback_findings env st unclaimed else []);
              secondary = jget_or d1 ''secondary_finds'' (JArr [])
          in if extra \<noteq> [] \<and> \<not> is_list secondary then (d1, Inl (Crash Attribute_Error))
             else (let r = jset (if extra = [] then d1 else jset d1 ''secondary_finds'' (JArr (jelems secondary @ extra)))
                         ''total_entries'' (JInt (ls_total s))
                   in (r, Inr r))))"

definition reconcile_named :: "py_env \<Rightarrow> text_classes \<Rightarrow> log_summary \<Rightarrow> bool \<Rightarrow> json list \<Rightarrow> json list \<Rightarrow> json
    \<Rightarrow> legacy_error + json" where
  "reconcile_named env tc s fallback ks ss d =
    sbind (reconcile_items env tc (ls_patterns s) (ls_total s) fallback (number_items ks ss)) (\<lambda>out. Inr (finish s d out))"

definition reconcile_result :: "py_env \<Rightarrow> text_classes \<Rightarrow> log_summary \<Rightarrow> bool \<Rightarrow> json \<Rightarrow> legacy_error + json" where
  "reconcile_result env tc s fallback d =
    (if \<not> is_dict d then Inl (Crash Attribute_Error)
     else (case read_groups d of (ks, ss, err) \<Rightarrow>
       sbind (crashing (selects_entries (ks @ ss) err)) (\<lambda>selected.
         if selected then snd (reconcile_grouped env s d)
         else reconcile_named env tc s fallback ks ss d)))"

text \<open>The answer after a call without the fallback: the same dictionary as the outcome, unless
  merging rebuilt the outcome; then the old groups with the merged findings changed in place. After
  an error of the identity checks it holds the findings checked so far; after any other error it is
  not read again.\<close>

definition find_origin :: "finding_item list \<Rightarrow> finding_item \<Rightarrow> json" where
  "find_origin final x = (case find_first (\<lambda>y. fi_origin y = fi_origin x) final of
     Some y \<Rightarrow> fi_doc y | None \<Rightarrow> fi_doc x)"

definition named_left :: "py_env \<Rightarrow> text_classes \<Rightarrow> log_summary \<Rightarrow> json list \<Rightarrow> json list \<Rightarrow> json \<Rightarrow> json" where
  "named_left env tc s ks ss d =
    (let rows = ls_patterns s; tot = ls_total s; items = number_items ks ss in
     case normalize_findings rows tot False ([], False) items of
        Inl e \<Rightarrow>
          (let left = normalize_left rows tot ([], False) items in
           case normalize_findings rows tot False ([], False) (filter fi_key items) of
              Inl e' \<Rightarrow> put_group d ''key_finds'' (key_docs left)
            | Inr _ \<Rightarrow> put_group (jset d ''key_finds'' (JArr (key_docs left))) ''secondary_finds'' (secondary_docs left))
      | Inr normal \<Rightarrow>
          (case reconcile_items env tc rows tot False items of
              Inl e \<Rightarrow> d
            | Inr (rebuilt, final) \<Rightarrow>
                (if \<not> rebuilt then finish s d (rebuilt, final)
                 else with_groups d (map (find_origin final) (filter fi_key normal))
                        (map (find_origin final) (filter (\<lambda>x. \<not> fi_key x) normal)))))"

definition answer_after :: "py_env \<Rightarrow> text_classes \<Rightarrow> log_summary \<Rightarrow> json \<Rightarrow> json" where
  "answer_after env tc s d =
    (if \<not> is_dict d then d
     else (case read_groups d of (ks, ss, err) \<Rightarrow>
       (case selects_entries (ks @ ss) err of
          Inl e \<Rightarrow> d
        | Inr selected \<Rightarrow> if selected then fst (reconcile_grouped env s d) else named_left env tc s ks ss d)))"

end
