(* ===== verification/Reconcile_Accounting.thy ===== *)
theory Reconcile_Accounting
  imports Reconcile_Legacy
begin

text \<open>
  What reconciliation of an answer that names patterns guarantees: every pattern of the manifest is
  in exactly one finding and every number is the sum over the patterns of its finding; and what it
  leaves behind in the answer when it merges findings, which decides whether the fallback of the
  worker can still use it.
\<close>

section \<open>Well-formed manifests\<close>

text \<open>What \<open>preprocess_log\<close> produces: pattern ids are distinct and none is the marker of
  unquantified findings.\<close>

definition wf_manifest :: "pattern_row list \<Rightarrow> bool" where
  "wf_manifest rows \<longleftrightarrow> distinct (map pr_id rows) \<and> u ''unquantified'' \<notin> set (map pr_id rows)"

definition good_ids :: "pattern_row list \<Rightarrow> json list \<Rightarrow> bool" where
  "good_ids rows vs \<longleftrightarrow> (\<forall>v\<in>set vs. pattern_by_id rows v \<noteq> None)"

definition weight :: "pattern_row list \<Rightarrow> json \<Rightarrow> int" where
  "weight rows v = (case pattern_by_id rows v of None \<Rightarrow> 0 | Some r \<Rightarrow> pr_count r)"

lemma pattern_by_id_row:
  assumes "wf_manifest rows" "r \<in> set rows"
  shows "pattern_by_id rows (JStr (pr_id r)) = Some r"
proof -
  let ?kvs = "rev (map (\<lambda>r. (pr_id r, r)) rows)"
  have "map fst ?kvs = rev (map pr_id rows)" by (simp add: rev_map comp_def)
  then have "distinct (map fst ?kvs)" using assms(1) by (simp add: wf_manifest_def)
  moreover have "(pr_id r, r) \<in> set ?kvs" using assms(2) by simp
  ultimately show ?thesis by (simp add: pattern_by_id_def map_of_is_SomeI del: rev_map)
qed

lemma pattern_by_id_known:
  assumes "pattern_by_id rows v = Some r"
  shows "r \<in> set rows \<and> v = JStr (pr_id r)"
  using assms by (auto simp: pattern_by_id_def split: json.splits dest: map_of_SomeD)

lemma unquantified_is_unknown [simp]: "wf_manifest rows \<Longrightarrow> pattern_by_id rows (JStr (u ''unquantified'')) = None"
  by (cases "pattern_by_id rows (JStr (u ''unquantified''))")
     (auto simp: wf_manifest_def dest: pattern_by_id_known)

lemma good_ids_simps [simp]: "good_ids rows []"
  "good_ids rows (v # vs) \<longleftrightarrow> pattern_by_id rows v \<noteq> None \<and> good_ids rows vs"
  "good_ids rows (vs @ ws) \<longleftrightarrow> good_ids rows vs \<and> good_ids rows ws" "good_ids rows (uniq vs) \<longleftrightarrow> good_ids rows vs"
  by (auto simp: good_ids_def)

lemma good_ids_not_unquantified: "wf_manifest rows \<Longrightarrow> good_ids rows vs \<Longrightarrow> JArr vs \<noteq> UNQUANTIFIED"
  by (auto simp: UNQUANTIFIED_def)

lemma good_ids_members: "wf_manifest rows \<Longrightarrow> set rs \<subseteq> set rows \<Longrightarrow> good_ids rows (map (\<lambda>r. JStr (pr_id r)) rs)"
  by (induction rs) (auto simp: pattern_by_id_row)

lemma count_ids_good: "good_ids rows vs \<Longrightarrow> count_ids rows vs = Inr (sum_list (map (weight rows) vs))"
  by (induction vs) (auto simp: weight_def)

lemma count_ids_Inr: "count_ids rows vs = Inr n \<Longrightarrow> good_ids rows vs \<and> n = sum_list (map (weight rows) vs)"
  by (induction vs arbitrary: n) (auto simp: weight_def split: option.splits)

lemma pattern_rows_ids: "map pr_id (pattern_rows fs) = uniq (map ef_pattern_id fs)"
  by (simp add: pattern_rows_def group_by_def comp_def)

lemma pattern_id_marks: "pattern_id env t \<noteq> u ''other''" "pattern_id env t \<noteq> u ''unquantified''"
  by (auto simp: pattern_id_def u_def)

lemma entry_pattern_marks:
  "ef_pattern_id (entry_facts_of env sc e) \<noteq> u ''other''"
  "ef_pattern_id (entry_facts_of env sc e) \<noteq> u ''unquantified''"
  using pattern_id_marks [of env]
  by (simp_all add: entry_facts_of_def structured_facts_def Let_def split: prod.split option.split)

lemma pattern_manifest_wf:
  "wf_manifest (pattern_manifest m (pattern_rows (map (entry_facts_of env sc) es)))"
proof -
  define rows where "rows = pattern_rows (map (entry_facts_of env sc) es)"
  define ranked where "ranked = sort_key (\<lambda>r. (- pr_count r, pr_id r)) rows"
  have r: "set (map pr_id rows) = ef_pattern_id ` entry_facts_of env sc ` set es"
    unfolding rows_def pattern_rows_ids by auto
  then have ids: "u ''other'' \<notin> pr_id ` set rows" "u ''unquantified'' \<notin> pr_id ` set rows"
    using entry_pattern_marks [of env sc, symmetric] by (auto simp: image_iff)
  have "distinct (map pr_id rows)" unfolding rows_def pattern_rows_ids by simp
  then have "distinct (map pr_id ranked)"
    unfolding ranked_def by (simp add: distinct_map)
  then have "distinct (map pr_id (take m ranked))" by (simp add: take_map [symmetric] distinct_take)
  moreover have "pr_id ` set (take m ranked) \<subseteq> pr_id ` set rows"
    unfolding ranked_def using set_take_subset by fastforce
  ultimately show ?thesis
    unfolding pattern_manifest_def Let_def rows_def [symmetric] ranked_def [symmetric] wf_manifest_def
    using ids by auto
qed

lemma preprocess_log_manifest: "preprocess_log env sc m n log_text = Some s \<Longrightarrow> wf_manifest (ls_patterns s)"
  using pattern_manifest_wf by (auto simp: preprocess_log_def summarize_def Let_def split: option.splits prod.splits)

section \<open>Contents of findings\<close>

lemma ids_of_jset_other [simp]: "is_dict f \<Longrightarrow> k \<noteq> ''pattern_ids'' \<Longrightarrow> ids_of (jset f k v) = ids_of f"
  by (simp add: ids_of_def raw_ids_def jget_or_def jlookup_jset)

lemma ids_of_set_numbers [simp]: "is_dict f \<Longrightarrow> ids_of (set_numbers tot n f) = ids_of f"
  by (simp add: ids_of_def raw_ids_def set_numbers_def jget_or_def jlookup_jset)

lemma ids_of_jset_ids [simp]: "is_dict f \<Longrightarrow> ids_of (jset f ''pattern_ids'' (JArr vs)) = vs"
  by (simp add: ids_of_def raw_ids_def jget_or_def jlookup_jset)

lemma ids_of_or_empty:
  assumes "py_iter (por (jget f ''pattern_ids'') (JArr [])) = Inr xs" "is_dict f"
  shows "ids_of f = xs"
proof (cases "jlookup f (u ''pattern_ids'')")
  case None
  with assms show ?thesis by (simp add: ids_of_def raw_ids_def jget_or_def jget_def por_def)
next
  case (Some v)
  with assms show ?thesis
    by (cases v) (auto simp: ids_of_def raw_ids_def jget_or_def jget_def por_def split: if_splits)
qed

definition qids :: "finding_item \<Rightarrow> json list" where
  "qids x = (if is_quantified x then ids_of (fi_doc x) else [])"

lemma used_ids_qids: "used_ids items = concat (map qids items)"
  by (induction items) (auto simp: used_ids_def qids_def)

lemma used_ids_simps [simp]: "used_ids [] = []" "used_ids (x # xs) = qids x @ used_ids xs"
  "used_ids (xs @ ys) = used_ids xs @ used_ids ys"
  by (simp_all add: used_ids_qids)

definition item_ok :: "pattern_row list \<Rightarrow> finding_item \<Rightarrow> bool" where
  "item_ok rows x \<longleftrightarrow> is_dict (fi_doc x) \<and> good_ids rows (qids x)"

definition item_counted :: "pattern_row list \<Rightarrow> int \<Rightarrow> finding_item \<Rightarrow> bool" where
  "item_counted rows tot x \<longleftrightarrow> (is_quantified x \<longrightarrow>
     (let n = sum_list (map (weight rows) (qids x)) in
      jget (fi_doc x) ''count'' = JInt n \<and> jget (fi_doc x) ''percentage'' = JFloat (percentage_of n tot)))"

lemma qids_set_ids:
  assumes "wf_manifest rows" "is_dict (fi_doc x)" "good_ids rows vs"
  shows "qids (set_ids vs x) = vs" "is_quantified (set_ids vs x)" "is_dict (fi_doc (set_ids vs x))"
proof -
  show "is_quantified (set_ids vs x)"
    using good_ids_not_unquantified [OF assms(1,3)] assms(2) by (simp add: is_quantified_def set_ids_def)
  then show "qids (set_ids vs x) = vs" using assms(2) by (simp add: qids_def set_ids_def)
  show "is_dict (fi_doc (set_ids vs x))" using assms(2) by (simp add: set_ids_def)
qed

lemma quantify_by_good:
  assumes "quantify_by rows tot vs f = Inr g"
  shows "good_ids rows vs" "g = set_numbers tot (sum_list (map (weight rows) vs)) f"
  using assms count_ids_Inr by (auto simp: quantify_by_def)

text \<open>A finding whose ids and numbers have been set.\<close>

lemma counted_item:
  assumes "wf_manifest rows" "is_dict (fi_doc x)" "is_quantified x" "ids_of (fi_doc x) = vs"
    and "quantify_by rows tot vs (fi_doc x) = Inr f"
  shows "item_ok rows (x\<lparr>fi_doc := f\<rparr>)" "item_counted rows tot (x\<lparr>fi_doc := f\<rparr>)" "qids (x\<lparr>fi_doc := f\<rparr>) = vs"
    "is_quantified (x\<lparr>fi_doc := f\<rparr>)"
proof -
  note q = quantify_by_good [OF assms(5)]
  have u: "is_quantified (x\<lparr>fi_doc := f\<rparr>)"
    using assms(2,3) by (simp add: q(2) is_quantified_def set_numbers_def)
  then show i: "is_quantified (x\<lparr>fi_doc := f\<rparr>)" "qids (x\<lparr>fi_doc := f\<rparr>) = vs"
    using assms(2,4) by (simp_all add: qids_def q(2))
  show "item_ok rows (x\<lparr>fi_doc := f\<rparr>)"
    using i q(1) assms(2) by (simp add: item_ok_def q(2) set_numbers_def)
  show "item_counted rows tot (x\<lparr>fi_doc := f\<rparr>)"
    unfolding item_counted_def i(2) using assms(2) by (simp add: q(2) set_numbers_def Let_def)
qed

section \<open>Checking the identities\<close>

lemma claim_ids_ok:
  "claim_ids rows used vs = Inr used' \<Longrightarrow> JStr (u ''unquantified'') \<notin> set vs \<Longrightarrow>
    distinct vs \<and> set vs \<inter> set used = {} \<and> set used' = set used \<union> set vs"
  by (induction vs arbitrary: used) (fastforce split: if_splits)+

lemma resolve_ids_ok:
  assumes "resolve_ids rows fb f = Inr (ids, f1)" "is_dict f" "wf_manifest rows"
  shows "is_dict f1" "ids = UNQUANTIFIED \<Longrightarrow> jget f1 ''pattern_ids'' = UNQUANTIFIED"
    "ids \<noteq> UNQUANTIFIED \<Longrightarrow> jget f1 ''pattern_ids'' \<noteq> UNQUANTIFIED"
    "py_iter ids = Inr ys \<Longrightarrow> ids_of f1 = ys"
proof -
  let ?ids = "por (jget f ''pattern_ids'') (JArr [])"
  obtain xs unknown where xs: "py_iter ?ids = Inr xs" and un: "unknown_ids rows xs = Inr unknown"
      and out: "(if unknown = [] then Inr (?ids, f) else if fb then Inr (strip_unknown rows xs f)
         else Inl (Unknown_Pattern (hd unknown))) = Inr (ids, f1)"
    using assms(1) by (auto simp: resolve_ids_def Let_def elim!: crashing.elims)
  have "is_dict f1 \<and> (ids = UNQUANTIFIED \<longrightarrow> jget f1 ''pattern_ids'' = UNQUANTIFIED)
    \<and> (ids \<noteq> UNQUANTIFIED \<longrightarrow> jget f1 ''pattern_ids'' \<noteq> UNQUANTIFIED) \<and> (py_iter ids = Inr ys \<longrightarrow> ids_of f1 = ys)"
  proof (cases "unknown = []")
    case True
    then have "ids = ?ids" "f1 = f" using out by auto
    then show ?thesis using assms(2) xs ids_of_or_empty [OF xs assms(2)]
      by (auto simp: por_def UNQUANTIFIED_def split: if_splits)
  next
    case False
    then have "strip_unknown rows xs f = (ids, f1)" using out by (auto split: if_splits)
    then show ?thesis using assms(2)
      by (auto simp: strip_unknown_def Let_def clear_numbers_def UNQUANTIFIED_def split: if_splits)
  qed
  then show "is_dict f1" "ids = UNQUANTIFIED \<Longrightarrow> jget f1 ''pattern_ids'' = UNQUANTIFIED"
    "ids \<noteq> UNQUANTIFIED \<Longrightarrow> jget f1 ''pattern_ids'' \<noteq> UNQUANTIFIED"
    "py_iter ids = Inr ys \<Longrightarrow> ids_of f1 = ys" by blast+
qed

text \<open>One finding: it becomes unquantified, or its ids are known, new and distinct and its numbers are theirs.\<close>

lemma normalize_finding_ok:
  assumes "normalize_finding rows tot fb st (fi_doc x) = Inr (st', Some f)" "wf_manifest rows"
  defines "y \<equiv> x\<lparr>fi_doc := f\<rparr>"
  shows "item_ok rows y \<and> distinct (qids y) \<and> set (qids y) \<inter> set (fst st) = {}
    \<and> set (fst st') = set (fst st) \<union> set (qids y)"
proof -
  obtain ids f1 where d: "is_dict (fi_doc x)" and r: "resolve_ids rows fb (fi_doc x) = Inr (ids, f1)"
    using assms(1) by (auto simp: normalize_finding_def split: if_splits)
  note r' = resolve_ids_ok [OF r d assms(2)]
  show ?thesis
  proof (cases "ids = UNQUANTIFIED")
    case True
    then have "f = clear_numbers f1" "fst st' = fst st"
      using assms(1) d r by (auto simp: normalize_finding_def split: if_splits)
    moreover have "\<not> is_quantified y" "is_dict f"
      using r'(1,2) True calculation by (simp_all add: y_def is_quantified_def clear_numbers_def)
    ultimately show ?thesis by (simp add: item_ok_def qids_def y_def)
  next
    case False
    then obtain ys used where ys: "py_iter ids = Inr ys" and c: "claim_ids rows (fst st) ys = Inr used"
        and q: "quantify_by rows tot ys f1 = Inr f" and st': "fst st' = used"
      using assms(1) d r by (auto simp: normalize_finding_def elim!: crashing.elims)
    note i = counted_item [of rows "x\<lparr>fi_doc := f1\<rparr>" ys tot f]
    have p: "wf_manifest rows" "is_dict f1" "is_quantified (x\<lparr>fi_doc := f1\<rparr>)" "ids_of f1 = ys"
      using assms(2) r' False ys by (simp_all add: is_quantified_def)
    have g: "good_ids rows ys" using quantify_by_good(1) [OF q] .
    then have "JStr (u ''unquantified'') \<notin> set ys" using assms(2) by (auto simp: good_ids_def)
    then show ?thesis
      using i(1,3) p q claim_ids_ok [OF c] by (simp add: y_def st')
  qed
qed

lemma normalize_findings_ok:
  assumes "normalize_findings rows tot fb st xs = Inr ys" "wf_manifest rows"
  shows "(\<forall>y\<in>set ys. item_ok rows y) \<and> distinct (used_ids ys) \<and> set (used_ids ys) \<inter> set (fst st) = {}"
  using assms(1)
proof (induction xs arbitrary: st ys)
  case (Cons x xs)
  then obtain st' out rest where o: "normalize_finding rows tot fb st (fi_doc x) = Inr (st', out)"
      and r: "normalize_findings rows tot fb st' xs = Inr rest"
      and ys: "ys = (case out of None \<Rightarrow> rest | Some f \<Rightarrow> x\<lparr>fi_doc := f\<rparr> # rest)"
    by auto
  note ih = Cons.IH [OF r]
  show ?case
  proof (cases out)
    case None
    then have "fst st' = fst st" using o by (auto simp: normalize_finding_def split: if_splits prod.splits)
    then show ?thesis using ih None ys by simp
  next
    case (Some f)
    note n = normalize_finding_ok [OF o [unfolded Some] assms(2)]
    show ?thesis using n ih unfolding ys Some by auto
  qed
qed simp

text \<open>Without the fallback no finding is dropped and every one stays in its group.\<close>

lemma normalize_findings_positions:
  "normalize_findings rows tot False st xs = Inr ys \<Longrightarrow>
    map fi_key ys = map fi_key xs \<and> map fi_origin ys = map fi_origin xs"
proof (induction xs arbitrary: st ys)
  case (Cons x xs)
  then show ?case by (fastforce simp: normalize_finding_def split: option.splits if_splits prod.splits)
qed simp

section \<open>Merging\<close>

lemma mset_concat_map: "mset (concat (map g xs)) = (\<Sum>x\<in>#mset xs. mset (g x))"
  by (induction xs) auto

lemma concat_map_concat: "concat (map g (concat xss)) = concat (map (\<lambda>xs. concat (map g xs)) xss)"
  by (induction xss) auto

lemma used_ids_by_group: "mset (used_ids (by_group xs)) = mset (used_ids xs)"
  unfolding by_group_def used_ids_qids mset_concat_map by (simp flip: multiset_partition)

lemma set_by_group [simp]: "set (by_group xs) = set xs"
  by (auto simp: by_group_def)

lemma used_ids_not_quantified: "\<forall>x\<in>set xs. \<not> is_quantified x \<Longrightarrow> used_ids xs = []"
  by (induction xs) (auto simp: qids_def)

lemma used_ids_filter: "used_ids (filter is_quantified xs) = used_ids xs"
  by (induction xs) (auto simp: qids_def)

lemma primary_of_member: "xs \<noteq> [] \<Longrightarrow> primary_of xs \<in> set xs"
  by (auto simp: primary_of_def dest: find_first_Some split: option.split)

lemma merge_component_ok:
  assumes "xs \<noteq> []" "\<forall>x\<in>set xs. item_ok rows x \<and> is_quantified x" "wf_manifest rows"
    and "distinct (used_ids xs)"
  shows "item_ok rows (merge_component xs)" "qids (merge_component xs) = used_ids xs"
    "is_quantified (merge_component xs)" "fi_origin (merge_component xs) = fi_origin (primary_of xs)"
proof -
  have u: "concat (map (\<lambda>x. ids_of (fi_doc x)) xs) = used_ids xs"
    using assms(2) by (induction xs) (auto simp: qids_def)
  have g: "good_ids rows (used_ids xs)"
    using assms(2) by (induction xs) (auto simp: item_ok_def)
  have d: "is_dict (fi_doc (primary_of xs))"
    using primary_of_member [OF assms(1)] assms(2) by (auto simp: item_ok_def)
  note q = qids_set_ids [OF assms(3) d g]
  have m: "merge_component xs = set_ids (used_ids xs) (primary_of xs)"
    unfolding merge_component_def u uniq_distinct [OF assms(4)] ..
  show "item_ok rows (merge_component xs)" "qids (merge_component xs) = used_ids xs" "is_quantified (merge_component xs)"
    using q g unfolding m by (simp_all add: item_ok_def)
  show "fi_origin (merge_component xs) = fi_origin (primary_of xs)" by (simp add: m set_ids_def)
qed

text \<open>The components are a partition of the quantified findings.\<close>

lemma components_partition: "mset (concat (components_of rows idss)) = mset [0..<length idss]"
  unfolding components_of_def Let_def by (rule mset_concat_group_by)

lemma components_nonempty: "c \<in> set (components_of rows idss) \<Longrightarrow> c \<noteq> []"
  by (auto simp: components_of_def Let_def dest: group_by_members)

lemma components_bound: "c \<in> set (components_of rows idss) \<Longrightarrow> i \<in> set c \<Longrightarrow> i < length idss"
proof -
  assume "c \<in> set (components_of rows idss)" "i \<in> set c"
  then have "i \<in> set (concat (components_of rows idss))" by auto
  also have "\<dots> = set [0..<length idss]" using components_partition mset_eq_setD by blast
  finally show "i < length idss" by simp
qed

lemma merge_families_ok:
  assumes "merge_families rows items = Inr (rebuilt, out)" "\<forall>x\<in>set items. item_ok rows x"
    and "distinct (used_ids items)" "wf_manifest rows"
  shows "\<forall>y\<in>set out. item_ok rows y" "mset (used_ids out) = mset (used_ids items)"
proof -
  define q where "q = filter is_quantified items"
  obtain idss where idss: "smap (\<lambda>x. raw_ids (fi_doc x)) q = Inr idss"
      and out: "(let comps = components_of rows idss in
        if list_ex (\<lambda>c. length c > 1) comps
        then Inr (True, by_group (map (\<lambda>c. merge_component (map (\<lambda>i. q ! i) c)) comps
              @ filter (\<lambda>x. \<not> is_quantified x) items))
        else Inr (False, items)) = (Inr (rebuilt, out) :: legacy_error + bool \<times> finding_item list)"
    using assms(1) unfolding merge_families_def q_def [symmetric] Let_def
    by (auto elim!: crashing.elims)
  have len: "length idss = length q" using idss by (auto simp: smap_eq_Inr dest: list_all2_lengthD)
  let ?comps = "components_of rows idss"
  let ?merge = "\<lambda>c. merge_component (map (\<lambda>i. q ! i) c)"
  have qi: "\<forall>x\<in>set q. item_ok rows x \<and> is_quantified x" using assms(2) by (auto simp: q_def)
  have "mset (concat (map (\<lambda>i. qids (q ! i)) (concat ?comps))) = mset (concat (map (\<lambda>i. qids (q ! i)) [0..<length q]))"
    unfolding mset_concat_map components_partition len ..
  also have "concat (map (\<lambda>i. qids (q ! i)) [0..<length q]) = used_ids q"
    unfolding used_ids_qids by (metis (no_types) map_nth map_map comp_apply map_cong)
  also have "used_ids q = used_ids items" unfolding q_def by (rule used_ids_filter)
  finally have all: "mset (concat (map (\<lambda>i. qids (q ! i)) (concat ?comps))) = mset (used_ids items)" .
  then have dist: "distinct (concat (map (\<lambda>i. qids (q ! i)) (concat ?comps)))"
    using assms(3) mset_eq_imp_distinct_iff by blast
  have comp: "item_ok rows (?merge c) \<and> qids (?merge c) = concat (map (\<lambda>i. qids (q ! i)) c)"
    if c: "c \<in> set ?comps" for c
  proof -
    obtain pre post where "?comps = pre @ c # post" using c by (meson split_list)
    then have d: "distinct (concat (map (\<lambda>i. qids (q ! i)) c))" using dist by simp
    have u: "used_ids (map (\<lambda>i. q ! i) c) = concat (map (\<lambda>i. qids (q ! i)) c)"
      by (simp add: used_ids_qids comp_def)
    have "\<forall>x\<in>set (map (\<lambda>i. q ! i) c). item_ok rows x \<and> is_quantified x"
      using qi components_bound [OF c] len by (auto intro: nth_mem)
    from merge_component_ok [OF _ this assms(4)] components_nonempty [OF c] d show ?thesis
      unfolding u by simp
  qed
  have merged: "mset (used_ids (by_group (map ?merge ?comps @ filter (\<lambda>x. \<not> is_quantified x) items))) = mset (used_ids items)"
  proof -
    have "used_ids (filter (\<lambda>x. \<not> is_quantified x) items) = []" by (rule used_ids_not_quantified) simp
    moreover have "used_ids (map ?merge ?comps) = concat (map (\<lambda>i. qids (q ! i)) (concat ?comps))"
      using comp unfolding used_ids_qids concat_map_concat by (simp add: comp_def cong: map_cong)
    ultimately show ?thesis unfolding used_ids_by_group by (simp add: all)
  qed
  show "\<forall>y\<in>set out. item_ok rows y" "mset (used_ids out) = mset (used_ids items)"
    using out comp assms(2) merged by (auto simp: Let_def split: if_splits)
qed

section \<open>Repeated details\<close>

text \<open>Disjointness of indexed lists, which survives updates at an index.\<close>

definition separate :: "(nat \<Rightarrow> 'a list) \<Rightarrow> nat set \<Rightarrow> bool" where
  "separate g K \<longleftrightarrow> (\<forall>k\<in>K. distinct (g k)) \<and> (\<forall>k\<in>K. \<forall>l\<in>K. k \<noteq> l \<longrightarrow> set (g k) \<inter> set (g l) = {})"

lemma distinct_concat_separate: "distinct ks \<Longrightarrow> distinct (concat (map g ks)) \<longleftrightarrow> separate g (set ks)"
proof (induction ks)
  case (Cons k ks)
  have "separate g (set (k # ks)) \<longleftrightarrow>
      separate g (set ks) \<and> distinct (g k) \<and> (\<forall>l\<in>set ks. set (g k) \<inter> set (g l) = {})"
    using Cons.prems unfolding separate_def by (auto; blast)
  moreover have "set (g k) \<inter> set (concat (map g ks)) = {} \<longleftrightarrow> (\<forall>l\<in>set ks. set (g k) \<inter> set (g l) = {})"
    by auto
  ultimately show ?case using Cons by auto
qed (simp add: separate_def)

lemma separate_absorb:
  assumes "separate g K" "i \<in> K" "i \<noteq> j"
  shows "separate (\<lambda>k. if k = j then uniq (g j @ g i) else g k) (K - {i})"
proof -
  have d: "set (g k) \<inter> set (g l) = {}" if "k \<in> K" "l \<in> K" "k \<noteq> l" for k l
    using assms(1) that by (simp add: separate_def)
  have "set (g k) \<inter> set (g j @ g i) = {}" if "k \<in> K - {i}" "k \<noteq> j" "j \<in> K - {i}" for k
    using d [of k j] d [of k i] that assms(2) by auto
  then show ?thesis using assms(1) unfolding separate_def by (auto; blast)
qed

lemma map_nth_upt: "map (\<lambda>i. f (xs ! i)) [0..<length xs] = map f xs"
  by (metis (no_types) map_nth map_map comp_apply map_cong)

lemma distinct_used_ids: "distinct (used_ids items) \<longleftrightarrow> separate (\<lambda>k. qids (items ! k)) {0..<length items}"
  using distinct_concat_separate [OF distinct_upt, of "\<lambda>k. qids (items ! k)" 0 "length items"]
  by (simp add: used_ids_qids map_nth_upt)

lemma enumerate_nth: "enumerate 0 xs = map (\<lambda>i. (i, xs ! i)) [0..<length xs]"
  by (rule nth_equalityI) (simp_all add: nth_enumerate_eq)

definition live_items :: "nat set \<Rightarrow> finding_item list \<Rightarrow> finding_item list" where
  "live_items R items = map snd (filter (\<lambda>(i, x). i \<notin> R) (enumerate 0 items))"

lemma live_items_nth: "live_items R items = map (\<lambda>i. items ! i) (filter (\<lambda>i. i \<notin> R) [0..<length items])"
  by (simp add: live_items_def enumerate_nth filter_map comp_def)

lemma distinct_live_items:
  "distinct (used_ids (live_items R items)) \<longleftrightarrow> separate (\<lambda>k. qids (items ! k)) ({0..<length items} - R)"
proof -
  have "distinct (filter (\<lambda>i. i \<notin> R) [0..<length items])" by simp
  from distinct_concat_separate [OF this, of "\<lambda>k. qids (items ! k)"] show ?thesis
    by (simp add: live_items_nth used_ids_qids comp_def set_diff_eq)
qed

lemma set_alist_update: "set (AList.update k v al) \<subseteq> insert (k, v) (set al)"
  by (induction al) auto

text \<open>An owner of a signature is an earlier quantified finding.\<close>

lemma scan_details_ok:
  assumes "scan_details i owners sigs = (owners', out)" "\<forall>(s, j)\<in>set owners. P j" "P i"
  shows "(\<forall>(s, j)\<in>set owners'. P j) \<and> (\<forall>j. out = Some j \<longrightarrow> P j \<and> j \<noteq> i)"
  using assms(1,2)
proof (induction sigs arbitrary: owners)
  case (Cons s sigs)
  have u: "\<forall>(s', j)\<in>set (AList.update s i owners). P j"
    using Cons.prems(2) assms(3) set_alist_update [of s i owners] by fastforce
  then show ?case
    using Cons.prems Cons.IH [of owners] Cons.IH [of "AList.update s i owners"]
    by (auto split: if_splits option.splits dest: map_of_SomeD)
qed simp

lemma scan_duplicates_ok:
  assumes "\<forall>(s, j)\<in>set owners. j < i \<and> j < length items \<and> is_quantified (items ! j)" "xs = drop i items"
  shows "(\<forall>(a, b)\<in>set (scan_duplicates tc i owners xs). i \<le> a \<and> a < length items \<and> b < a
      \<and> is_quantified (items ! a) \<and> is_quantified (items ! b)) \<and> distinct (map fst (scan_duplicates tc i owners xs))"
  using assms
proof (induction xs arbitrary: i owners)
  case (Cons x xs)
  let ?P = "\<lambda>j k. j < k \<and> j < length items \<and> is_quantified (items ! j)"
  have i: "i < length items" using Cons.prems(2) by (metis drop_all list.discI not_le)
  then have x: "x = items ! i" "xs = drop (Suc i) items"
    using Cons.prems(2) unfolding Cons_nth_drop_Suc [OF i, symmetric] by simp_all
  show ?case
  proof (cases "is_quantified x")
    case False
    have "\<forall>(s, j)\<in>set owners. ?P j (Suc i)" using Cons.prems(1) by fastforce
    from Cons.IH [OF this x(2)] False show ?thesis by fastforce
  next
    case True
    obtain owners' out where
      o: "scan_details i owners (map (detail_signature tc (fi_doc x)) [''detail_en'', ''detail_zh'']) = (owners', out)"
      by fastforce
    have p: "\<forall>(s, j)\<in>set owners. ?P j (Suc i)" "?P i (Suc i)" using Cons.prems(1) True x(1) i by fastforce+
    note sc = scan_details_ok [where P = "\<lambda>j. ?P j (Suc i)", OF o p]
    have o': "\<forall>(s, j)\<in>set owners'. ?P j (Suc i)" using sc by blast
    note ih = Cons.IH [OF o' x(2)]
    show ?thesis
    proof (cases out)
      case None
      then show ?thesis using ih True o by fastforce
    next
      case (Some j)
      have "j < i" "j < length items" "is_quantified (items ! j)" using sc Some by (auto simp: less_Suc_eq)
      moreover have "i \<notin> fst ` set (scan_duplicates tc (Suc i) owners' xs)" using ih by fastforce
      ultimately show ?thesis using ih True o Some i x(1) by fastforce
    qed
  qed
qed simp

definition absorbing :: "pattern_row list \<Rightarrow> finding_item list \<Rightarrow> nat set \<Rightarrow> bool" where
  "absorbing rows items R \<longleftrightarrow> (\<forall>x\<in>set items. item_ok rows x)
     \<and> separate (\<lambda>k. qids (items ! k)) ({0..<length items} - R)"

lemma absorb_step:
  assumes "absorbing rows items R" "wf_manifest rows" "i < length items" "j < i" "i \<notin> R"
    "is_quantified (items ! i)" "is_quantified (items ! j)"
  shows "absorbing rows (absorb (i, j) items) (insert i R)" "length (absorb (i, j) items) = length items"
    "is_quantified (absorb (i, j) items ! k) = is_quantified (items ! k)"
proof -
  define ids where "ids = uniq (qids (items ! j) @ qids (items ! i))"
  have j: "j < length items" using assms(3,4) by simp
  have ok: "item_ok rows (items ! i)" "item_ok rows (items ! j)"
    using assms(1,3) j by (auto simp: absorbing_def)
  then have g: "good_ids rows ids" "is_dict (fi_doc (items ! j))" by (simp_all add: ids_def item_ok_def)
  note s = qids_set_ids [OF assms(2) g(2,1)]
  have a: "absorb (i, j) items = items[j := set_ids ids (items ! j)]"
    using assms(6,7) by (simp add: absorb_def ids_def qids_def)
  show "length (absorb (i, j) items) = length items" by (simp add: a)
  show "is_quantified (absorb (i, j) items ! k) = is_quantified (items ! k)"
    using s(2) assms(7) j by (cases "k = j") (simp_all add: a)
  have "item_ok rows (set_ids ids (items ! j))" using s g by (simp add: item_ok_def)
  then have "\<forall>x\<in>set (absorb (i, j) items). item_ok rows x"
    using assms(1) set_update_subset_insert [of items j "set_ids ids (items ! j)"]
    by (auto simp: a absorbing_def)
  moreover have "separate (\<lambda>k. qids (absorb (i, j) items ! k)) ({0..<length items} - insert i R)"
  proof -
    let ?K = "{0..<length items} - R"
    have sep: "separate (\<lambda>k. qids (items ! k)) ?K" using assms(1) by (simp add: absorbing_def)
    have q: "qids (absorb (i, j) items ! k) = (if k = j then ids else qids (items ! k))" for k
      using s(1) j by (simp add: a)
    have "i \<in> ?K" using assms(3,5) by simp
    moreover have "i \<noteq> j" using assms(4) by simp
    ultimately show ?thesis
      unfolding q ids_def Diff_insert [of _ i R] by (rule separate_absorb [OF sep])
  qed
  ultimately show "absorbing rows (absorb (i, j) items) (insert i R)" by (simp add: absorbing_def a)
qed

lemma fold_absorb_ok:
  assumes "absorbing rows items R" "wf_manifest rows" "distinct (map fst dups)" "fst ` set dups \<inter> R = {}"
    "\<forall>(a, b)\<in>set dups. a < length items \<and> b < a \<and> is_quantified (items ! a) \<and> is_quantified (items ! b)"
  shows "absorbing rows (fold absorb dups items) (R \<union> fst ` set dups)"
  using assms
proof (induction dups arbitrary: items R)
  case (Cons d dups)
  obtain i j where d: "d = (i, j)" by (cases d)
  have h: "i < length items" "j < i" "i \<notin> R" "is_quantified (items ! i)" "is_quantified (items ! j)"
    using Cons.prems(4,5) by (auto simp: d)
  note st = absorb_step [OF Cons.prems(1,2) h]
  have "absorbing rows (fold absorb dups (absorb d items)) (insert i R \<union> fst ` set dups)"
  proof (rule Cons.IH)
    show "absorbing rows (absorb d items) (insert i R)" using st(1) by (simp add: d)
    show "fst ` set dups \<inter> insert i R = {}" using Cons.prems(3,4) by (auto simp: d)
    show "\<forall>(a, b)\<in>set dups. a < length (absorb d items) \<and> b < a \<and> is_quantified (absorb d items ! a)
        \<and> is_quantified (absorb d items ! b)"
      using Cons.prems(5) unfolding d st(2,3) by auto
  qed (use Cons.prems in simp_all)
  then show ?case by (simp add: d)
qed simp

lemma merge_duplicates_ok:
  assumes "merge_duplicates tc items = (repeated, out)" "\<forall>x\<in>set items. item_ok rows x"
    "distinct (used_ids items)" "wf_manifest rows"
  shows "\<forall>x\<in>set out. item_ok rows x" "distinct (used_ids out)"
proof -
  define dups where "dups = scan_duplicates tc 0 [] items"
  have sc: "(\<forall>(a, b)\<in>set dups. 0 \<le> a \<and> a < length items \<and> b < a \<and> is_quantified (items ! a) \<and> is_quantified (items ! b))
      \<and> distinct (map fst dups)"
    unfolding dups_def by (rule scan_duplicates_ok) simp_all
  have "absorbing rows items {}" using assms(2,3) by (simp add: absorbing_def distinct_used_ids)
  then have "absorbing rows (fold absorb dups items) ({} \<union> fst ` set dups)"
    using sc assms(4) by (intro fold_absorb_ok) auto
  then have ab: "absorbing rows (fold absorb dups items) (fst ` set dups)" by simp
  have out: "out = live_items (fst ` set dups) (fold absorb dups items)"
    using assms(1) by (simp add: merge_duplicates_def dups_def live_items_def Let_def)
  show "\<forall>x\<in>set out. item_ok rows x"
    using ab unfolding out live_items_nth absorbing_def by (auto intro: nth_mem)
  show "distinct (used_ids out)" using ab unfolding out distinct_live_items by (simp add: absorbing_def)
qed

section \<open>Counting\<close>

lemma recount_item_ok:
  assumes "recount_item rows tot x = Inr y" "item_ok rows x" "wf_manifest rows"
  shows "item_ok rows y" "item_counted rows tot y" "qids y = qids x"
proof -
  have "item_ok rows y \<and> item_counted rows tot y \<and> qids y = qids x"
  proof (cases "is_quantified x")
    case False
    then show ?thesis using assms(1,2) by (simp add: recount_item_def item_counted_def)
  next
    case True
    then obtain f where f: "quantify_by rows tot (ids_of (fi_doc x)) (fi_doc x) = Inr f" "y = x\<lparr>fi_doc := f\<rparr>"
      using assms(1) by (auto simp: recount_item_def)
    have d: "is_dict (fi_doc x)" using assms(2) by (simp add: item_ok_def)
    show ?thesis using counted_item [OF assms(3) d True refl f(1)] True by (simp add: f(2) qids_def)
  qed
  then show "item_ok rows y" "item_counted rows tot y" "qids y = qids x" by blast+
qed

definition items_counted :: "pattern_row list \<Rightarrow> int \<Rightarrow> finding_item list \<Rightarrow> bool" where
  "items_counted rows tot xs \<longleftrightarrow> (\<forall>x\<in>set xs. item_ok rows x \<and> item_counted rows tot x)"

lemma items_counted_simps [simp]: "items_counted rows tot []"
  "items_counted rows tot (x # xs) \<longleftrightarrow> item_ok rows x \<and> item_counted rows tot x \<and> items_counted rows tot xs"
  "items_counted rows tot (xs @ ys) \<longleftrightarrow> items_counted rows tot xs \<and> items_counted rows tot ys"
  by (auto simp: items_counted_def)

lemma recount_items_ok:
  assumes "smap (recount_item rows tot) xs = Inr ys" "\<forall>x\<in>set xs. item_ok rows x" "wf_manifest rows"
  shows "items_counted rows tot ys \<and> used_ids ys = used_ids xs"
  using assms(1,2)
proof (induction xs arbitrary: ys)
  case (Cons x xs)
  then obtain y zs where y: "recount_item rows tot x = Inr y" "smap (recount_item rows tot) xs = Inr zs" "ys = y # zs"
    by auto
  then show ?case using Cons recount_item_ok [OF y(1) _ assms(3)] by simp
qed simp

lemma good_used_ids: "\<forall>x\<in>set xs. item_ok rows x \<Longrightarrow> good_ids rows (used_ids xs)"
  by (induction xs) (auto simp: item_ok_def)

section \<open>Matched families\<close>

lemma family_of_member:
  assumes "wf_manifest rows" "v \<in> set (family_members rows family)"
  shows "family_by_pattern rows v = Some family" "pattern_by_id rows v \<noteq> None"
  using assms pattern_by_id_row [OF assms(1)]
  by (auto simp: family_members_def named_rows_def family_by_pattern_def)

lemma distinct_family_members: "wf_manifest rows \<Longrightarrow> distinct (family_members rows family)"
  by (auto simp: family_members_def named_rows_def wf_manifest_def distinct_map inj_on_def)

text \<open>Attached ids are new: their family had no finding.\<close>

lemma attach_hints_ok:
  assumes "attach_hints env tc rows tot used fams xs = Inr (used', ys)" "wf_manifest rows"
    and "items_counted rows tot xs" "\<forall>v\<in>set used. \<forall>f. family_by_pattern rows v = Some f \<longrightarrow> f \<in> set fams"
  shows "items_counted rows tot ys \<and> (\<exists>new. mset (used_ids ys) = mset (used_ids xs) + mset new
      \<and> mset used' = mset used + mset new \<and> distinct new \<and> set new \<inter> set used = {})"
  using assms(1,3,4)
proof (induction xs arbitrary: used fams used' ys)
  case Nil
  then show ?case by (auto intro: exI [of _ "[]"])
next
  case (Cons x xs)
  let ?ok = "\<lambda>zs. items_counted rows tot zs \<and> (\<exists>new. mset (used_ids zs) = mset (used_ids (x # xs)) + mset new
      \<and> mset used' = mset used + mset new \<and> distinct new \<and> set new \<inter> set used = {})"
  have keep: ?case if k: "sbind (attach_hints env tc rows tot used fams xs) (\<lambda>(used', ys). Inr (used', x # ys)) = Inr (used', ys)"
  proof -
    obtain zs where z: "attach_hints env tc rows tot used fams xs = Inr (used', zs)" "ys = x # zs" using k by auto
    then show ?thesis using Cons.IH [OF z(1)] Cons.prems(2,3) by (auto simp: add.assoc)
  qed
  show ?case
  proof (cases "is_quantified x \<or> length (hint_matches (family_hints tc rows) (finding_text env tc (fi_doc x))) \<noteq> 1")
    case True
    then show ?thesis using Cons.prems(1) keep by (auto simp: Let_def split: list.splits)
  next
    case False
    then obtain family where m: "hint_matches (family_hints tc rows) (finding_text env tc (fi_doc x)) = [family]"
        and nq: "\<not> is_quantified x"
      by (auto simp: length_Suc_conv)
    let ?ids = "family_members rows family"
    consider (dropped) "family \<in> set fams" | (none) "family \<notin> set fams" "?ids = []" | (new) "family \<notin> set fams" "?ids \<noteq> []"
      by blast
    then show ?thesis
    proof cases
      case dropped
      then have "attach_hints env tc rows tot used fams xs = Inr (used', ys)"
        using Cons.prems(1) m nq by simp
      from Cons.IH [OF this] Cons.prems(2,3) show ?thesis using nq by (simp add: qids_def)
    next
      case none
      then show ?thesis using Cons.prems(1) m nq keep by (simp add: Let_def)
    next
      case new
      then obtain f zs where f: "quantify_by rows tot ?ids (fi_doc (set_ids ?ids x)) = Inr f"
          and z: "attach_hints env tc rows tot (used @ ?ids) (family # fams) xs = Inr (used', zs)"
          and ys: "ys = x\<lparr>fi_doc := f\<rparr> # zs"
        using Cons.prems(1) m nq by (auto simp: Let_def)
      have d: "is_dict (fi_doc x)" and g: "good_ids rows ?ids"
        using Cons.prems(2) family_of_member [OF assms(2)] by (auto simp: item_ok_def good_ids_def)
      note s = qids_set_ids [OF assms(2) d g]
      have i: "ids_of (fi_doc (set_ids ?ids x)) = ?ids" using s(1,2) by (simp add: qids_def)
      note c = counted_item [OF assms(2) s(3,2) i f]
      have x': "(set_ids ?ids x)\<lparr>fi_doc := f\<rparr> = x\<lparr>fi_doc := f\<rparr>" by (simp add: set_ids_def)
      have fam: "\<forall>v\<in>set (used @ ?ids). \<forall>f. family_by_pattern rows v = Some f \<longrightarrow> f \<in> set (family # fams)"
        using Cons.prems(3) family_of_member [OF assms(2)] by auto
      obtain nw where nw: "items_counted rows tot zs" "mset (used_ids zs) = mset (used_ids xs) + mset nw"
          "mset used' = mset (used @ ?ids) + mset nw" "distinct nw" "set nw \<inter> set (used @ ?ids) = {}"
        using Cons.IH [OF z _ fam] Cons.prems(2) by auto
      have "set ?ids \<inter> set used = {}"
        using Cons.prems(3) new(1) family_of_member(1) [OF assms(2)] by blast
      then have n: "distinct (?ids @ nw)" "set (?ids @ nw) \<inter> set used = {}"
        using nw(4,5) distinct_family_members [OF assms(2)] by auto
      have m1: "mset (used_ids ys) = mset (used_ids (x # xs)) + mset (?ids @ nw)"
        using c(3) nq nw(2) by (simp add: ys x' qids_def)
      have m2: "mset used' = mset used + mset (?ids @ nw)" using nw(3) by (simp add: add.assoc)
      have "items_counted rows tot ys" using c nw(1) by (simp add: ys x')
      then show ?thesis using n m1 m2 by blast
    qed
  qed
qed

section \<open>Omitted patterns\<close>

abbreviation row_ids :: "pattern_row list \<Rightarrow> json list" where
  "row_ids rs \<equiv> map (\<lambda>r. JStr (pr_id r)) rs"

lemma distinct_row_ids: "distinct (row_ids rs) \<longleftrightarrow> distinct (map pr_id rs)"
  by (auto simp: distinct_map inj_on_def)

lemma existing_by_family_item:
  assumes "existing_by_family rows items family = Some i" "wf_manifest rows"
  shows "i < length items \<and> is_quantified (items ! i)"
proof -
  have "(family, i) \<in> set (concat (map (\<lambda>(i, x). map (\<lambda>f. (f, i)) (filter (\<lambda>f. f \<noteq> [])
      (concat (map (\<lambda>v. case family_by_pattern rows v of None \<Rightarrow> [] | Some f \<Rightarrow> [f]) (ids_of (fi_doc x))))))
      (enumerate 0 items)))"
    using map_of_SomeD [OF assms(1) [unfolded existing_by_family_def]] by simp
  then obtain x v where x: "(i, x) \<in> set (enumerate 0 items)" and v: "v \<in> set (ids_of (fi_doc x))"
      "family_by_pattern rows v = Some family"
    by (auto split: option.splits)
  have "i < length items" "x = items ! i" using x by (auto simp: enumerate_nth)
  moreover have "is_quantified x"
  proof (rule ccontr)
    assume "\<not> is_quantified x"
    then have "jget (fi_doc x) ''pattern_ids'' = UNQUANTIFIED" by (simp add: is_quantified_def)
    then have "ids_of (fi_doc x) = [JStr (u ''unquantified'')]"
      by (simp add: ids_of_def raw_ids_def UNQUANTIFIED_def jget_def jget_or_def split: option.splits)
    with v assms(2) show False by (simp add: family_by_pattern_def split: if_splits)
  qed
  ultimately show ?thesis by simp
qed

text \<open>What later steps keep of a finding: the dictionary it is, its ids, and that it is a dictionary
  without selected entries whose ids can be read.\<close>

definition plain_doc :: "json \<Rightarrow> bool" where
  "plain_doc f \<longleftrightarrow> is_dict f \<and> \<not> jhas f ''evidence_entry_ids''
     \<and> (jget f ''pattern_ids'' \<noteq> UNQUANTIFIED \<longrightarrow> (\<exists>xs. raw_ids f = Inr xs))"

lemma plain_doc_numbers [simp]: "plain_doc f \<Longrightarrow> plain_doc (set_numbers tot n f)"
  by (simp add: plain_doc_def set_numbers_def raw_ids_def jget_or_def jlookup_jset)

lemma plain_doc_ids [simp]: "plain_doc f \<Longrightarrow> plain_doc (jset f ''pattern_ids'' (JArr ids))"
  by (simp add: plain_doc_def raw_ids_def jget_or_def jlookup_jset)

definition extends_to :: "finding_item \<Rightarrow> finding_item \<Rightarrow> bool" where
  "extends_to x y \<longleftrightarrow> fi_origin y = fi_origin x \<and> set (qids x) \<subseteq> set (qids y)"

definition origins :: "finding_item list \<Rightarrow> nat list" where
  "origins xs = map the (filter (\<lambda>x. x \<noteq> None) (map fi_origin xs))"

definition covers :: "finding_item list \<Rightarrow> finding_item list \<Rightarrow> bool" where
  "covers items out \<longleftrightarrow> (\<forall>x\<in>set items. \<exists>y\<in>set out. extends_to x y) \<and> origins out = origins items
     \<and> ((\<forall>x\<in>set items. plain_doc (fi_doc x)) \<longrightarrow> (\<forall>y\<in>set out. plain_doc (fi_doc y)))"

lemma covers_refl [simp]: "covers xs xs"
  by (auto simp: covers_def extends_to_def)

lemma extends_to_trans: "extends_to x y \<Longrightarrow> extends_to y z \<Longrightarrow> extends_to x z"
  by (auto simp: extends_to_def)

lemma covers_trans:
  assumes "covers xs ys" "covers ys zs"
  shows "covers xs zs"
proof -
  note c = assms(1) [unfolded covers_def] assms(2) [unfolded covers_def]
  have "\<exists>z\<in>set zs. extends_to x z" if x: "x \<in> set xs" for x
  proof -
    obtain y where "y \<in> set ys" "extends_to x y" using conjunct1 [OF c(1)] x by (elim ballE) auto
    moreover from this obtain z where "z \<in> set zs" "extends_to y z" using conjunct1 [OF c(2)] by (elim ballE) auto
    ultimately show ?thesis using extends_to_trans by blast
  qed
  then have "\<forall>x\<in>set xs. \<exists>z\<in>set zs. extends_to x z" by (rule ballI)
  moreover have "origins zs = origins xs" using c by (simp only:)
  moreover have "\<forall>z\<in>set zs. plain_doc (fi_doc z)" if p: "\<forall>x\<in>set xs. plain_doc (fi_doc x)"
    by (rule mp [OF conjunct2 [OF conjunct2 [OF c(2)]] mp [OF conjunct2 [OF conjunct2 [OF c(1)]] p]])
  ultimately show ?thesis unfolding covers_def by (intro conjI impI)
qed

lemma origins_simps [simp]: "origins [] = []"
  "origins (x # xs) = (case fi_origin x of None \<Rightarrow> origins xs | Some i \<Rightarrow> i # origins xs)"
  "origins (xs @ ys) = origins xs @ origins ys"
  by (auto simp: origins_def split: option.split)

definition gains :: "pattern_row list \<Rightarrow> int \<Rightarrow> json list \<Rightarrow> finding_item list \<Rightarrow> finding_item list \<Rightarrow> bool" where
  "gains rows tot ids items out \<longleftrightarrow> items_counted rows tot out \<and> distinct (used_ids out)
     \<and> set (used_ids out) = set (used_ids items) \<union> set ids \<and> length items \<le> length out
     \<and> (\<forall>k<length items. is_quantified (items ! k) \<longrightarrow> is_quantified (out ! k)) \<and> covers items out"

lemma unlabeled_finding_ok:
  fixes tot :: int and family :: pystr
  assumes "wf_manifest rows" "set rs \<subseteq> set rows"
  defines "x \<equiv> \<lparr>fi_key = False, fi_origin = None, fi_doc = unlabeled_finding rows tot family rs\<rparr>"
  shows "item_ok rows x" "item_counted rows tot x" "qids x = row_ids rs"
proof -
  have g: "good_ids rows (row_ids rs)" using assms(1,2) by (rule good_ids_members)
  have ids: "ids_of (fi_doc x) = row_ids rs"
    by (simp add: x_def unlabeled_finding_def Let_def ids_of_def raw_ids_def jget_or_def)
  have "jget (fi_doc x) ''pattern_ids'' = JArr (row_ids rs)"
    by (simp add: x_def unlabeled_finding_def Let_def jget_def)
  then have q: "is_quantified x" using good_ids_not_unquantified [OF assms(1) g] by (simp add: is_quantified_def)
  then show qi: "qids x = row_ids rs" by (simp add: qids_def ids)
  show "item_ok rows x" unfolding item_ok_def qi using g
    by (simp add: x_def unlabeled_finding_def Let_def)
  have "map (weight rows) (row_ids rs) = map pr_count rs"
    using assms(2) pattern_by_id_row [OF assms(1)] by (auto simp: weight_def)
  then have "sum_list (map (weight rows) (row_ids rs)) = sum_list (map pr_count rs)" by (rule arg_cong)
  moreover have "jget (fi_doc x) ''count'' = JInt (sum_list (map pr_count rs))"
      "jget (fi_doc x) ''percentage'' = JFloat (percentage_of (sum_list (map pr_count rs)) tot)"
    by (simp_all add: x_def unlabeled_finding_def Let_def jget_def)
  ultimately show "item_counted rows tot x" unfolding item_counted_def qi Let_def by (simp only: simp_thms)
qed

lemma append_family_ok:
  assumes "append_family rows tot existing (family, rs) items = Inr out" "wf_manifest rows"
    "items_counted rows tot items" "distinct (used_ids items)" "set rs \<subseteq> set rows" "distinct (row_ids rs)"
    "set (row_ids rs) \<inter> set (used_ids items) = {}"
    "\<forall>i. existing family = Some i \<longrightarrow> i < length items \<and> is_quantified (items ! i)"
  shows "gains rows tot (row_ids rs) items out"
proof (cases "existing family")
  case None
  then have out: "out = items @ [\<lparr>fi_key = False, fi_origin = None, fi_doc = unlabeled_finding rows tot family rs\<rparr>]"
    using assms(1) by (simp add: append_family_def)
  note n = unlabeled_finding_ok [OF assms(2,5), of tot family]
  have "plain_doc (unlabeled_finding rows tot family rs)"
    by (simp add: plain_doc_def unlabeled_finding_def Let_def jhas_def raw_ids_def jget_or_def)
  then have "covers items out" unfolding out covers_def by (auto simp: extends_to_def)
  then show ?thesis unfolding gains_def out using n assms(3,4,6,7) by (auto simp: nth_append)
next
  case (Some i)
  let ?x = "items ! i"
  have i: "i < length items" "is_quantified ?x" using assms(8) Some by simp_all
  define A where "A = used_ids (take i items)"
  define B where "B = used_ids (drop (Suc i) items)"
  have u: "used_ids items = A @ qids ?x @ B"
    using id_take_nth_drop [OF i(1)] unfolding A_def B_def by (metis used_ids_simps(2,3))
  have x: "item_ok rows ?x" using assms(3) i(1) by (simp add: items_counted_def)
  then have d: "is_dict (fi_doc ?x)" and g: "good_ids rows (qids ?x @ row_ids rs)"
    using good_ids_members [OF assms(2,5)] by (simp_all add: item_ok_def)
  have "distinct (qids ?x @ row_ids rs)" using assms(4,6,7) unfolding u by auto
  then have ids: "uniq (ids_of (fi_doc ?x) @ row_ids rs) = qids ?x @ row_ids rs"
    using i(2) by (simp add: qids_def uniq_distinct)
  then obtain f where f: "quantify_by rows tot (qids ?x @ row_ids rs) (fi_doc (set_ids (qids ?x @ row_ids rs) ?x)) = Inr f"
      and out: "out = items[i := ?x\<lparr>fi_doc := f\<rparr>]"
    using assms(1) Some by (auto simp: append_family_def Let_def)
  note s = qids_set_ids [OF assms(2) d g]
  have e: "(set_ids (qids ?x @ row_ids rs) ?x)\<lparr>fi_doc := f\<rparr> = ?x\<lparr>fi_doc := f\<rparr>" by (simp add: set_ids_def)
  have "ids_of (fi_doc (set_ids (qids ?x @ row_ids rs) ?x)) = qids ?x @ row_ids rs"
    using s(1,2) by (simp add: qids_def)
  note c = counted_item [OF assms(2) s(3,2) this f, unfolded e]
  have "used_ids out = A @ (qids ?x @ row_ids rs) @ B"
    unfolding out upd_conv_take_nth_drop [OF i(1)] by (simp add: A_def B_def c(3))
  then have o: "distinct (used_ids out)" "set (used_ids out) = set (used_ids items) \<union> set (row_ids rs)"
    using assms(4,6,7) unfolding u by auto
  have "items_counted rows tot out"
    using assms(3) c(1,2) set_update_subset_insert [of items i "?x\<lparr>fi_doc := f\<rparr>"]
    by (auto simp: items_counted_def out)
  moreover have "\<forall>k<length items. is_quantified (items ! k) \<longrightarrow> is_quantified (out ! k)"
    using c(4) unfolding out by (metis nth_list_update_eq nth_list_update_neq)
  moreover have "covers items out"
  proof -
    have "map fi_origin out = map fi_origin items"
      unfolding out map_update by (rule list_update_same_conv [THEN iffD2]) (use i(1) in simp_all)
    then have "origins out = origins items" by (simp add: origins_def)
    moreover have "\<exists>y\<in>set out. extends_to z y" if z: "z \<in> set items" for z
    proof -
      obtain k where k: "k < length items" "z = items ! k" using z by (auto simp: in_set_conv_nth)
      have "extends_to z (out ! k)"
        using k i(1) c(3) by (cases "k = i") (auto simp: out extends_to_def)
      then show ?thesis using k(1) by (auto simp: out intro!: bexI [of _ "out ! k"] nth_mem)
    qed
    moreover have "plain_doc f" if "plain_doc (fi_doc ?x)"
      using that quantify_by_good(2) [OF f] by (simp add: set_ids_def)
    ultimately show ?thesis
      using i(1) set_update_subset_insert [of items i "?x\<lparr>fi_doc := f\<rparr>"] unfolding covers_def out by fastforce
  qed
  ultimately show ?thesis using o by (simp add: gains_def out)
qed

lemma append_families_ok:
  assumes "sfold (append_family rows tot existing) gs items = Inr out" "wf_manifest rows"
    "items_counted rows tot items" "distinct (used_ids items)" "\<forall>g\<in>set gs. set (snd g) \<subseteq> set rows"
    "distinct (row_ids (concat (map snd gs)))" "set (row_ids (concat (map snd gs))) \<inter> set (used_ids items) = {}"
    "\<forall>family i. existing family = Some i \<longrightarrow> i < length items \<and> is_quantified (items ! i)"
  shows "gains rows tot (row_ids (concat (map snd gs))) items out"
  using assms(1,3-8)
proof (induction gs arbitrary: items)
  case Nil
  then show ?case by (simp add: gains_def)
next
  case (Cons g gs)
  obtain family rs where g: "g = (family, rs)" by (cases g)
  obtain mid where mid: "append_family rows tot existing (family, rs) items = Inr mid"
      and out: "sfold (append_family rows tot existing) gs mid = Inr out"
    using Cons.prems(1) by (auto simp: g)
  have a: "gains rows tot (row_ids rs) items mid"
    using Cons.prems unfolding g by (intro append_family_ok [OF mid assms(2)]) auto
  then have m: "items_counted rows tot mid" "distinct (used_ids mid)"
      "set (used_ids mid) = set (used_ids items) \<union> set (row_ids rs)" "length items \<le> length mid"
      "\<forall>k<length items. is_quantified (items ! k) \<longrightarrow> is_quantified (mid ! k)" "covers items mid"
    unfolding gains_def by blast+
  have "gains rows tot (row_ids (concat (map snd gs))) mid out"
  proof (rule Cons.IH [OF out m(1,2)])
    show "\<forall>g\<in>set gs. set (snd g) \<subseteq> set rows" "distinct (row_ids (concat (map snd gs)))"
      using Cons.prems(4,5) by (simp_all add: g)
    show "set (row_ids (concat (map snd gs))) \<inter> set (used_ids mid) = {}"
      using Cons.prems(5,6) unfolding m(3) by (auto simp: g)
    show "\<forall>family i. existing family = Some i \<longrightarrow> i < length mid \<and> is_quantified (mid ! i)"
      using Cons.prems(7) m(4,5) by (meson less_le_trans)
  qed
  then show ?case using m(3,4,5) covers_trans [OF m(6)] unfolding gains_def g by auto
qed

text \<open>Afterwards every named pattern is in use.\<close>

lemma append_omitted_ok:
  assumes "append_omitted rows tot used items = Inr out" "wf_manifest rows" "items_counted rows tot items"
    "distinct (used_ids items)" "set used = set (used_ids items)"
  shows "items_counted rows tot out" "distinct (used_ids out)"
    "set (row_ids (named_rows rows)) \<subseteq> set (used_ids out)" "covers items out"
proof -
  define om where "om = filter (\<lambda>r. JStr (pr_id r) \<notin> set used) (named_rows rows)"
  define gs where "gs = group_by pr_family_id om"
  have mset: "mset (concat (map snd gs)) = mset om" unfolding gs_def by (rule mset_concat_group_by)
  then have set: "set (concat (map snd gs)) = set om" by (rule mset_eq_setD)
  have om: "distinct (row_ids om)" "set om \<subseteq> set rows" "set (row_ids om) \<inter> set used = {}"
    using assms(2) unfolding distinct_row_ids
    by (auto simp: om_def named_rows_def wf_manifest_def distinct_map inj_on_def)
  have "gains rows tot (row_ids (concat (map snd gs))) items out"
  proof (rule append_families_ok [OF _ assms(2-4)])
    show "sfold (append_family rows tot (existing_by_family rows items)) gs items = Inr out"
      using assms(1) by (simp add: append_omitted_def gs_def om_def)
    show "\<forall>g\<in>set gs. set (snd g) \<subseteq> set rows" using set om(2) by fastforce
    have "mset (row_ids (concat (map snd gs))) = mset (row_ids om)" using mset by (simp only: mset_map)
    then show "distinct (row_ids (concat (map snd gs)))" using om(1) mset_eq_imp_distinct_iff by blast
    show "set (row_ids (concat (map snd gs))) \<inter> set (used_ids items) = {}"
      using om(3) assms(5) by (simp add: set del: set_concat)
    show "\<forall>family i. existing_by_family rows items family = Some i \<longrightarrow> i < length items \<and> is_quantified (items ! i)"
      using existing_by_family_item [OF _ assms(2)] by blast
  qed
  then have g: "items_counted rows tot out" "distinct (used_ids out)"
      "set (used_ids out) = set (used_ids items) \<union> set (row_ids om)" "covers items out"
    unfolding gains_def by (simp_all add: set del: set_concat)
  show "items_counted rows tot out" "distinct (used_ids out)" "covers items out" by fact+
  show "set (row_ids (named_rows rows)) \<subseteq> set (used_ids out)"
    unfolding g(3) using assms(5) by (auto simp: om_def)
qed

lemma promote_ok:
  assumes "promote rows tot items = Inr out" "items_counted rows tot items" "distinct (used_ids items)"
    "set (row_ids (named_rows rows)) \<subseteq> set (used_ids items)"
  shows "items_counted rows tot out \<and> distinct (used_ids out) \<and> set (row_ids (named_rows rows)) \<subseteq> set (used_ids out)"
proof (cases items)
  case Nil
  then have "named_rows rows = []" using assms(4) by simp
  with Nil assms show ?thesis by (simp add: promote_def)
next
  case (Cons x xs)
  have "qids (x\<lparr>fi_key := True\<rparr>) = qids x" "item_ok rows (x\<lparr>fi_key := True\<rparr>) = item_ok rows x"
      "item_counted rows tot (x\<lparr>fi_key := True\<rparr>) = item_counted rows tot x"
    by (simp_all add: qids_def item_ok_def item_counted_def is_quantified_def)
  with Cons assms show ?thesis by (auto simp: promote_def split: if_splits)
qed

section \<open>The whole reconciliation\<close>

lemma reconcile_items_ok:
  assumes "reconcile_items env tc rows tot fb items = Inr (rebuilt, final)" "wf_manifest rows"
  shows "items_counted rows tot final \<and> distinct (used_ids final)
    \<and> set (row_ids (named_rows rows)) \<subseteq> set (used_ids final)"
proof -
  obtain normal where normal: "normalize_findings rows tot fb ([], False) items = Inr normal"
    using assms(1) by (auto simp: reconcile_items_def)
  obtain rb merged where merged: "merge_families rows normal = Inr (rb, merged)"
    using assms(1) normal by (auto simp: reconcile_items_def)
  obtain rep single where single: "(if fb then merge_duplicates tc merged else (False, merged)) = (rep, single)"
    by fastforce
  obtain counted where counted: "smap (recount_item rows tot) single = Inr counted"
    using assms(1) by (auto simp: reconcile_items_def normal merged single)
  obtain used attached where attached: "(if fb then attach_hints env tc rows tot (used_ids counted)
      (families_in rows (used_ids counted)) counted else Inr (used_ids counted, counted)) = Inr (used, attached)"
    using assms(1) by (auto simp: reconcile_items_def normal merged single counted)
  obtain complete where complete: "append_omitted rows tot used attached = Inr complete"
      and final: "(if fb then promote rows tot complete else Inr complete) = Inr final"
    using assms(1) by (auto simp: reconcile_items_def normal merged single counted attached)
  note n = normalize_findings_ok [OF normal assms(2)]
  have m: "\<forall>y\<in>set merged. item_ok rows y" "distinct (used_ids merged)"
    using merge_families_ok [OF merged _ _ assms(2)] n mset_eq_imp_distinct_iff by blast+
  have s: "\<forall>y\<in>set single. item_ok rows y" "distinct (used_ids single)"
    using single m merge_duplicates_ok [of tc merged rep single rows] assms(2) by (auto split: if_splits)
  have c: "items_counted rows tot counted" "distinct (used_ids counted)"
    using recount_items_ok [OF counted s(1) assms(2)] s(2) by simp_all
  have a: "items_counted rows tot attached \<and> distinct (used_ids attached) \<and> set used = set (used_ids attached)"
  proof (cases fb)
    case True
    have "\<forall>v\<in>set (used_ids counted). \<forall>f. family_by_pattern rows v = Some f \<longrightarrow> f \<in> set (families_in rows (used_ids counted))"
      by (force simp: families_in_def)
    moreover have "attach_hints env tc rows tot (used_ids counted) (families_in rows (used_ids counted)) counted
        = Inr (used, attached)" using attached True by simp
    ultimately obtain new where
      new: "items_counted rows tot attached" "mset (used_ids attached) = mset (used_ids counted) + mset new"
        "mset used = mset (used_ids counted) + mset new" "distinct new" "set new \<inter> set (used_ids counted) = {}"
      using attach_hints_ok [OF _ assms(2) c(1)] by blast
    have "mset (used_ids attached) = mset (used_ids counted @ new)" "mset used = mset (used_ids counted @ new)"
      using new(2,3) by simp_all
    moreover have "distinct (used_ids counted @ new)" using new(4,5) c(2) by auto
    ultimately show ?thesis using new(1) by (metis mset_eq_imp_distinct_iff mset_eq_setD)
  qed (use attached c in auto)
  note o = append_omitted_ok [OF complete assms(2)]
  show ?thesis using o a final promote_ok [of rows tot complete final] by (auto split: if_splits)
qed

lemma reconcile_result_named:
  assumes "reconcile_result env tc s fb d = Inr r" "read_groups d = (ks, ss, None)" "selects_entries (ks @ ss) None = Inr False"
  obtains rebuilt final where "is_dict d"
    "reconcile_items env tc (ls_patterns s) (ls_total s) fb (number_items ks ss) = Inr (rebuilt, final)"
    "r = finish s d (rebuilt, final)"
proof -
  have d: "is_dict d" using assms(1) by (simp add: reconcile_result_def split: if_splits)
  then have "reconcile_named env tc s fb ks ss d = Inr r" using assms by (simp add: reconcile_result_def)
  then show thesis using that d by (auto simp: reconcile_named_def)
qed

text \<open>The findings of an answer that carry numbers.\<close>

definition pattern_findings :: "json \<Rightarrow> json list" where
  "pattern_findings r = filter (\<lambda>f. jget f ''pattern_ids'' \<noteq> UNQUANTIFIED)
     (jelems (jget r ''key_finds'') @ jelems (jget r ''secondary_finds''))"

lemma finish_groups:
  assumes "is_dict d"
  shows "jget (finish s d (rebuilt, final)) ''key_finds'' = JArr (key_docs final)"
    "jget (finish s d (rebuilt, final)) ''secondary_finds'' = JArr (secondary_docs final)"
    "jget (finish s d (rebuilt, final)) ''total_entries'' = JInt (ls_total s)"
proof -
  obtain kvs where d: "d = JObj kvs" using assms by (cases d) auto
  have n: "u ''key_finds'' \<noteq> u ''secondary_finds''" by simp
  show "jget (finish s d (rebuilt, final)) ''key_finds'' = JArr (key_docs final)"
    "jget (finish s d (rebuilt, final)) ''secondary_finds'' = JArr (secondary_docs final)"
    "jget (finish s d (rebuilt, final)) ''total_entries'' = JInt (ls_total s)"
    using n by (auto simp: finish_def with_groups_def rebuilt_with_def d jget_def)
qed

lemma pattern_findings_finish:
  assumes "is_dict d"
  shows "pattern_findings (finish s d (rebuilt, final)) = map fi_doc (filter is_quantified (by_group final))"
  unfolding pattern_findings_def finish_groups [OF assms] key_docs_def secondary_docs_def jelems.simps
  by (simp add: by_group_def is_quantified_def [abs_def] filter_map comp_def)

lemma used_ids_docs: "concat (map ids_of (map fi_doc (filter is_quantified xs))) = used_ids xs"
  by (simp add: used_ids_def comp_def)


lemma append_families_new:
  "(\<And>family. existing family = None) \<Longrightarrow> \<exists>out. sfold (append_family rows tot existing) gs items = Inr out"
  by (induction gs arbitrary: items) (auto simp: append_family_def)

lemma empty_answer_reconciles: "\<exists>r. reconcile_result env tc s False (JObj []) = Inr r"
proof -
  have "\<exists>out. append_omitted (ls_patterns s) (ls_total s) [] [] = Inr out"
    unfolding append_omitted_def by (rule append_families_new) (simp add: existing_by_family_def)
  then show ?thesis
    by (auto simp: reconcile_result_def read_groups_def jget_or_def reconcile_named_def reconcile_items_def
      number_items_def merge_families_def components_of_def group_by_def Let_def)
qed


end
