(* ===== verification/Reconcile_Fallback.thy ===== *)
theory Reconcile_Fallback
  imports Reconcile_Accounting
begin

text \<open>
  What a reconciled answer looks like to the next reconciliation. The worker reconciles the answer of
  the last attempt a second time, with the fallback, when it is still invalid; the answer it then
  reads is the dictionary the first call updated in place. Findings of one cause family are merged
  into the first of them, but the others stay in that dictionary with their ids, so after a merge the
  second call meets every merged id twice.
\<close>

section \<open>Findings of one family are one component\<close>

definition linked :: "nat list \<Rightarrow> (pystr, nat) pydict \<Rightarrow> pystr list list \<Rightarrow> bool" where
  "linked labels owner fss \<longleftrightarrow> length labels = length fss
     \<and> (\<forall>f k. map_of owner f = Some k \<longrightarrow> k < length fss) \<and> (\<forall>i<length fss. \<forall>f\<in>set (fss ! i).
     \<exists>k. map_of owner f = Some k \<and> labels ! k = labels ! i)"

lemma link_families_step:
  fixes fams :: "pystr list"
  assumes "linked labels owner fss"
  defines "i \<equiv> length labels"
  defines "met \<equiv> map (\<lambda>f. labels ! the (map_of owner f)) (filter (\<lambda>f. map_of owner f \<noteq> None) fams)"
  shows "linked (map (\<lambda>l. if l \<in> set met then i else l) labels @ [i])
      (owner @ map (\<lambda>f. (f, i)) (filter (\<lambda>f. map_of owner f = None) fams)) (fss @ [fams])"
proof -
  let ?labels = "map (\<lambda>l. if l \<in> set met then i else l) labels @ [i]"
  let ?owner = "owner @ map (\<lambda>f. (f, i)) (filter (\<lambda>f. map_of owner f = None) fams)"
  have len: "length labels = length fss" and bd: "\<And>f k. map_of owner f = Some k \<Longrightarrow> k < length fss"
    using assms(1) by (auto simp: linked_def)
  have fresh: "map_of (map (\<lambda>f. (f, i)) (filter (\<lambda>f. map_of owner f = None) fs)) f
      = (if f \<in> set fs \<and> map_of owner f = None then Some i else None)" for f fs
    by (induction fs) auto
  have own: "map_of ?owner f = (case map_of owner f of Some k \<Rightarrow> Some k
      | None \<Rightarrow> if f \<in> set fams then Some i else None)" for f
    by (simp add: map_of_append map_add_def fresh split: option.split)
  have old: "\<exists>k. map_of ?owner f = Some k \<and> ?labels ! k = ?labels ! j"
    if j: "j < length fss" "f \<in> set (fss ! j)" for j f
  proof -
    obtain k where k: "map_of owner f = Some k" "labels ! k = labels ! j"
      using assms(1) j unfolding linked_def by meson
    then have "map_of ?owner f = Some k" unfolding own by simp
    moreover have "?labels ! k = ?labels ! j" using bd [OF k(1)] k(2) j(1) by (simp add: nth_append len)
    ultimately show ?thesis by blast
  qed
  have new: "\<exists>k. map_of ?owner f = Some k \<and> ?labels ! k = i" if f: "f \<in> set fams" for f
  proof (cases "map_of owner f")
    case None
    then have "map_of ?owner f = Some i" using f unfolding own by simp
    moreover have "?labels ! i = i" by (simp add: i_def nth_append)
    ultimately show ?thesis by blast
  next
    case (Some k)
    then have "k < length labels" using bd len by simp
    moreover have "labels ! k \<in> set met" using Some f by (force simp: met_def)
    ultimately have "?labels ! k = i" by (simp add: nth_append)
    moreover have "map_of ?owner f = Some k" using Some unfolding own by simp
    ultimately show ?thesis by blast
  qed
  have bound: "k < length (fss @ [fams])" if "map_of ?owner f = Some k" for f k
    using that bd [of f k] len unfolding own by (auto simp: i_def split: option.splits if_splits)
  show ?thesis
    unfolding linked_def
  proof (intro conjI allI impI ballI)
    show "length ?labels = length (fss @ [fams])" by (simp add: len)
    show "k < length (fss @ [fams])" if "map_of ?owner f = Some k" for f k using bound that .
    fix j f assume j: "j < length (fss @ [fams])" and f: "f \<in> set ((fss @ [fams]) ! j)"
    show "\<exists>k. map_of ?owner f = Some k \<and> ?labels ! k = ?labels ! j"
    proof (cases "j < length fss")
      case True
      then show ?thesis using old f by (simp add: nth_append)
    next
      case False
      then have "j = length labels" using j len by simp
      then show ?thesis using new f len by (simp add: nth_append)
    qed
  qed
qed

lemma link_families_ok:
  assumes "linked labels owner fss"
  shows "\<exists>owner'. linked (link_families labels owner rest) owner' (fss @ rest)"
  using assms
proof (induction rest arbitrary: labels owner fss)
  case (Cons fams rest)
  note st = link_families_step [OF Cons.prems, of fams]
  show ?case using Cons.IH [OF st] by (simp add: Let_def)
qed auto

text \<open>Two findings that name patterns of one family are in one component.\<close>

lemma same_component:
  assumes "i < length idss" "j < length idss" "i \<noteq> j"
    and "family_by_pattern rows v = Some f" "family_by_pattern rows w = Some f" "v \<in> set (idss ! i)" "w \<in> set (idss ! j)"
  shows "\<exists>c\<in>set (components_of rows idss). i \<in> set c \<and> j \<in> set c"
proof -
  define labels where "labels = link_families [] [] (map (families_in rows) idss)"
  have "linked [] [] []" by (simp add: linked_def)
  from link_families_ok [OF this, of "map (families_in rows) idss"]
  obtain owner where o: "linked labels owner (map (families_in rows) idss)"
    unfolding labels_def by auto
  have fam: "\<exists>k. map_of owner f = Some k \<and> labels ! k = labels ! n"
    if "n < length idss" "f \<in> set (families_in rows (idss ! n))" for n
    using o that unfolding linked_def by (simp only: length_map nth_map)
  have "f \<in> set (families_in rows (idss ! i))" "f \<in> set (families_in rows (idss ! j))"
    using assms(4-7) by (force simp: families_in_def)+
  then have l: "labels ! i = labels ! j" using fam [OF assms(1)] fam [OF assms(2)] by auto
  let ?c = "filter (\<lambda>k. labels ! k = labels ! i) [0..<length idss]"
  have "?c \<in> set (components_of rows idss)"
    using assms(1) by (force simp: components_of_def labels_def [symmetric] Let_def group_by_def)
  then show ?thesis using l assms(1,2) by (intro bexI [of _ ?c]) auto
qed

section \<open>The findings after the identity checks\<close>

text \<open>Without the fallback the checks change only numbers.\<close>

definition checked :: "finding_item \<Rightarrow> finding_item \<Rightarrow> bool" where
  "checked x y \<longleftrightarrow> fi_key y = fi_key x \<and> fi_origin y = fi_origin x \<and> ids_of (fi_doc y) = ids_of (fi_doc x)
     \<and> is_dict (fi_doc x) \<and> is_dict (fi_doc y) \<and> jhas (fi_doc y) ''evidence_entry_ids'' = jhas (fi_doc x) ''evidence_entry_ids''"

lemma normalize_finding_checked:
  assumes "normalize_finding rows tot False st (fi_doc x) = Inr (st', out)"
  obtains f where "out = Some f" "checked x (x\<lparr>fi_doc := f\<rparr>)"
proof -
  have d: "is_dict (fi_doc x)" using assms by (simp add: normalize_finding_def split: if_splits)
  then obtain ids where r: "resolve_ids rows False (fi_doc x) = Inr (ids, fi_doc x)"
    using assms by (auto simp: normalize_finding_def resolve_ids_def Let_def split: if_splits)
  have "\<exists>f. out = Some f \<and> (f = clear_numbers (fi_doc x) \<or> (\<exists>n. f = set_numbers tot n (fi_doc x)))"
    using assms d r by (auto simp: normalize_finding_def quantify_by_def split: if_splits)
  then show thesis using that d by (auto simp: checked_def clear_numbers_def set_numbers_def)
qed

lemma normalize_findings_checked:
  "normalize_findings rows tot False st xs = Inr ys \<Longrightarrow> list_all2 checked xs ys"
proof (induction xs arbitrary: st ys)
  case (Cons x xs)
  then obtain st' out rest where o: "normalize_finding rows tot False st (fi_doc x) = Inr (st', out)"
      and r: "normalize_findings rows tot False st' xs = Inr rest"
      and ys: "ys = (case out of None \<Rightarrow> rest | Some f \<Rightarrow> x\<lparr>fi_doc := f\<rparr> # rest)"
    by auto
  obtain f where "out = Some f" "checked x (x\<lparr>fi_doc := f\<rparr>)" by (rule normalize_finding_checked [OF o])
  then show ?case using Cons.IH [OF r] by (simp add: ys)
qed simp

text \<open>The checks of the fallback on findings whose ids are all known: they fail only on a repeated id.\<close>

lemma unknown_ids_good: "good_ids rows vs \<Longrightarrow> unknown_ids rows vs = Inr []"
  by (induction vs) (auto simp: in_manifest_def pattern_by_id_def split: json.splits)

lemma claim_ids_good:
  assumes "good_ids rows vs" "wf_manifest rows"
  shows "(\<exists>v. claim_ids rows used vs = Inl (Assigned_More_Than_Once v)) \<or> (\<exists>used'. claim_ids rows used vs = Inr used')"
  using assms(1)
proof (induction vs arbitrary: used)
  case (Cons v vs)
  then have "v \<noteq> JStr (u ''unquantified'')" using assms(2) by auto
  with Cons show ?case by auto
qed simp

lemma plain_iter:
  assumes "plain_doc f" "jget f ''pattern_ids'' \<noteq> UNQUANTIFIED"
  shows "py_iter (por (jget f ''pattern_ids'') (JArr [])) = Inr (ids_of f)"
proof -
  obtain xs where xs: "raw_ids f = Inr xs" using assms by (auto simp: plain_doc_def)
  show ?thesis
  proof (cases "jlookup f (u ''pattern_ids'')")
    case None
    then show ?thesis by (simp add: jget_def por_def ids_of_def raw_ids_def jget_or_def)
  next
    case (Some v)
    then show ?thesis using xs
      by (cases v) (auto simp: jget_def por_def ids_of_def raw_ids_def jget_or_def)
  qed
qed

lemma fallback_checks:
  assumes "\<forall>x\<in>set xs. plain_doc (fi_doc x) \<and> item_ok rows x" "wf_manifest rows"
  shows "(\<exists>v. normalize_findings rows tot True st xs = Inl (Assigned_More_Than_Once v))
    \<or> ((\<exists>ys. normalize_findings rows tot True st xs = Inr ys) \<and> distinct (used_ids xs) \<and> set (used_ids xs) \<inter> set (fst st) = {})"
  using assms(1)
proof (induction xs arbitrary: st)
  case (Cons x xs)
  let ?f = "fi_doc x"
  have x: "plain_doc ?f" "item_ok rows x" "is_dict ?f" using Cons.prems by (auto simp: item_ok_def)
  show ?case
  proof (cases "is_quantified x")
    case False
    then have n: "jget ?f ''pattern_ids'' = UNQUANTIFIED" by (simp add: is_quantified_def)
    then have "resolve_ids rows True ?f = Inr (UNQUANTIFIED, ?f)"
      by (simp add: resolve_ids_def por_def UNQUANTIFIED_def Let_def)
    then obtain st' out where "normalize_finding rows tot True st ?f = Inr (st', out)" "fst st' = fst st"
      using x(3) by (cases "snd st") (auto simp: normalize_finding_def)
    then show ?thesis using Cons.IH [of st'] Cons.prems False by (auto simp: qids_def split: option.split)
  next
    case True
    then have n: "jget ?f ''pattern_ids'' \<noteq> UNQUANTIFIED" by (simp add: is_quantified_def)
    have q: "qids x = ids_of ?f" and g: "good_ids rows (ids_of ?f)" using True x(2) by (simp_all add: qids_def item_ok_def)
    define ids where "ids = por (jget ?f ''pattern_ids'') (JArr [])"
    have it: "py_iter ids = Inr (ids_of ?f)" unfolding ids_def using plain_iter [OF x(1) n] .
    have "ids \<noteq> UNQUANTIFIED" using n by (auto simp: ids_def por_def UNQUANTIFIED_def)
    moreover have "resolve_ids rows True ?f = Inr (ids, ?f)"
      using it unknown_ids_good [OF g] unfolding resolve_ids_def ids_def [symmetric] Let_def by simp
    ultimately have nf: "normalize_finding rows tot True st ?f = sbind (claim_ids rows (fst st) (ids_of ?f)) (\<lambda>used.
        Inr ((used, snd st), Some (set_numbers tot (sum_list (map (weight rows) (ids_of ?f))) ?f)))"
      using x(3) it by (simp add: normalize_finding_def quantify_by_def count_ids_good [OF g])
    have un: "JStr (u ''unquantified'') \<notin> set (ids_of ?f)" using g assms(2) by (auto simp: good_ids_def)
    show ?thesis
    proof (cases "claim_ids rows (fst st) (ids_of ?f)")
      case (Inl e)
      then show ?thesis using claim_ids_good [OF g assms(2), of "fst st"] nf by auto
    next
      case (Inr used)
      note c = claim_ids_ok [OF Inr un]
      show ?thesis using Cons.IH [of "(used, snd st)"] Cons.prems c nf Inr q by auto
    qed
  qed
qed simp

section \<open>A merge\<close>

lemma distinct_choice:
  "distinct (concat cs) \<Longrightarrow> \<forall>c\<in>set cs. p c \<in> set c \<Longrightarrow> distinct (map p cs)"
proof (induction cs)
  case (Cons c cs)
  then have "p c \<notin> set (map p cs)" by fastforce
  with Cons show ?case by simp
qed simp

lemma distinct_concat_unique:
  "distinct (concat cs) \<Longrightarrow> c \<in> set cs \<Longrightarrow> c' \<in> set cs \<Longrightarrow> i \<in> set c \<Longrightarrow> i \<in> set c' \<Longrightarrow> c = c'"
  by (induction cs) auto

lemma mset_by_group: "mset (by_group xs) = mset xs"
  by (simp add: by_group_def flip: multiset_partition)

definition org :: "finding_item \<Rightarrow> nat" where
  "org x = the (fi_origin x)"

lemma origins_Some: "\<forall>x\<in>set xs. fi_origin x \<noteq> None \<Longrightarrow> origins xs = map org xs"
  by (induction xs) (auto simp: org_def)

lemma distinct_org_eq:
  assumes "distinct (map org xs)" "x \<in> set xs" "y \<in> set xs" "org x = org y"
  shows "x = y"
  using assms by (meson distinct_map inj_onD)

text \<open>The merged findings when two of the checked findings share a family: one finding carries the
  ids of another one, which is gone.\<close>

lemma merge_families_shared:
  assumes "merge_families rows normal = Inr (rebuilt, merged)" "wf_manifest rows"
    and "\<forall>x\<in>set normal. fi_origin x \<noteq> None \<and> item_ok rows x" "distinct (map org normal)" "distinct (used_ids normal)"
    and "x1 \<in> set normal" "x2 \<in> set normal" "x1 \<noteq> x2" "is_quantified x1" "is_quantified x2"
    and "v1 \<in> set (qids x1)" "v2 \<in> set (qids x2)" "family_by_pattern rows v1 = Some f" "family_by_pattern rows v2 = Some f"
  shows "rebuilt" "distinct (origins merged)"
    "\<exists>p\<in>set normal. \<exists>x\<in>set normal. \<exists>m\<in>set merged. is_quantified x \<and> org p \<noteq> org x \<and> qids x \<noteq> []
       \<and> fi_origin m = fi_origin p \<and> set (qids x) \<subseteq> set (qids m) \<and> org x \<notin> set (origins merged)"
proof -
  define q where "q = filter is_quantified normal"
  define unq where "unq = filter (\<lambda>x. \<not> is_quantified x) normal"
  obtain idss where idss: "smap (\<lambda>x. raw_ids (fi_doc x)) q = Inr idss"
      and out: "(let comps = components_of rows idss in
        if list_ex (\<lambda>c. length c > 1) comps
        then Inr (True, by_group (map (\<lambda>c. merge_component (map (\<lambda>i. q ! i) c)) comps @ unq))
        else Inr (False, normal)) = (Inr (rebuilt, merged) :: legacy_error + bool \<times> finding_item list)"
    using assms(1) unfolding merge_families_def q_def [symmetric] unq_def [symmetric] Let_def
    by (auto elim!: crashing.elims)
  define comps where "comps = components_of rows idss"
  have l: "length idss = length q" "\<And>i. i < length q \<Longrightarrow> raw_ids (fi_doc (q ! i)) = Inr (idss ! i)"
    using idss by (auto simp: smap_eq_Inr list_all2_conv_all_nth)
  have qn: "set q \<subseteq> set normal" "\<forall>x\<in>set q. is_quantified x \<and> item_ok rows x" using assms(3) by (auto simp: q_def)
  have ids: "idss ! i = qids (q ! i)" if "i < length q" for i
    using l(2) [OF that] qn(2) nth_mem [OF that] by (simp add: qids_def ids_of_def)
  have cd: "distinct (concat comps)"
    using mset_eq_imp_distinct_iff [OF components_partition [of rows idss]] by (simp add: comps_def)
  have bound: "i < length q" if "c \<in> set comps" "i \<in> set c" for c i
    using components_bound [of c rows idss i] that l(1) by (simp add: comps_def)
  obtain i j where ij: "i < length q" "j < length q" "q ! i = x1" "q ! j = x2"
    using assms(6,7,9,10) by (metis (no_types, lifting) q_def filter_set in_set_conv_nth mem_Collect_eq set_filter)
  then have "i \<noteq> j" using assms(8) by auto
  moreover have "v1 \<in> set (idss ! i)" "v2 \<in> set (idss ! j)" using ids ij assms(11,12) by simp_all
  ultimately obtain c where c: "c \<in> set comps" "i \<in> set c" "j \<in> set c"
    using same_component [of i idss j rows v1 f v2] ij(1,2) l(1) assms(13,14) by (auto simp: comps_def)
  have "length c > 1"
    using c(2,3) \<open>i \<noteq> j\<close> by (cases c) auto
  then have ex: "list_ex (\<lambda>c. length c > 1) comps" using c(1) by (auto simp: list_ex_iff)
  let ?merge = "\<lambda>c. merge_component (map (\<lambda>i. q ! i) c)"
  show rb: "rebuilt" using out ex by (simp add: comps_def [symmetric] Let_def)
  have m: "merged = by_group (map ?merge comps @ unq)" using out ex by (simp add: comps_def [symmetric] Let_def)
  define h where "h i = org (q ! i)" for i
  have dq: "distinct (map org q)" using assms(4) by (simp add: q_def distinct_map inj_on_def)
  have inj: "i = j" if "i < length q" "j < length q" "h i = h j" for i j
    using that dq by (simp add: h_def distinct_conv_nth) blast
  define p where "p c = (SOME i. i \<in> set c \<and> q ! i = primary_of (map (\<lambda>i. q ! i) c))" for c
  have p: "p c \<in> set c" "q ! (p c) = primary_of (map (\<lambda>i. q ! i) c)" if c': "c \<in> set comps" for c
  proof -
    have "map (\<lambda>i. q ! i) c \<noteq> []" using components_nonempty c' by (auto simp: comps_def)
    from primary_of_member [OF this] have "\<exists>i. i \<in> set c \<and> q ! i = primary_of (map (\<lambda>i. q ! i) c)" by auto
    from someI_ex [OF this] show "p c \<in> set c" "q ! (p c) = primary_of (map (\<lambda>i. q ! i) c)"
      unfolding p_def by blast+
  qed
  have mo: "fi_origin (?merge c) = fi_origin (q ! (p c))" if "c \<in> set comps" for c
    using p [OF that] by (simp add: merge_component_def set_ids_def)
  have some: "fi_origin x \<noteq> None" if "x \<in> set merged" for x
    using that assms(3) qn(1) mo p(1) bound unfolding m unq_def by (fastforce dest: nth_mem)
  have om: "mset (origins merged) = mset (map h (map p comps) @ map org unq)"
  proof -
    have "mset (origins merged) = mset (map org merged)" using origins_Some some by metis
    also have "\<dots> = mset (map org (map ?merge comps @ unq))"
      unfolding m mset_map mset_by_group ..
    also have "\<dots> = mset (map h (map p comps) @ map org unq)"
    proof -
      have "map org (map ?merge comps) = map h (map p comps)" using mo by (simp add: org_def h_def)
      then show ?thesis by (simp only: map_append)
    qed
    finally show ?thesis .
  qed
  show "distinct (origins merged)"
  proof -
    have "distinct (map p comps)" using distinct_choice [OF cd] p(1) by blast
    then have "distinct (map h (map p comps))"
      using inj bound p(1) by (subst distinct_map) (auto simp: inj_on_def)
    moreover have "distinct (map org unq)" using assms(4) by (simp add: unq_def distinct_map inj_on_def)
    moreover have "h (p c) \<notin> set (map org unq)" if "c \<in> set comps" for c
      using nth_mem [OF bound [OF that p(1) [OF that]]] distinct_org_eq [OF assms(4)]
      by (auto simp: h_def q_def unq_def)
    ultimately have "distinct (map h (map p comps) @ map org unq)" by auto
    then show ?thesis using mset_eq_imp_distinct_iff [OF om] by blast
  qed
  obtain k where k: "k \<in> set c" "k \<noteq> p c" "k = i \<or> k = j" using c(2,3) \<open>i \<noteq> j\<close> by metis
  have kq: "k < length q" "p c < length q" using bound [OF c(1)] k(1) p(1) [OF c(1)] by blast+
  have "qids (q ! k) \<noteq> []" using k(3) ij assms(11,12) by auto
  moreover have "set (qids (q ! k)) \<subseteq> set (qids (?merge c))"
  proof -
    have "distinct (used_ids (map (\<lambda>i. q ! i) c))"
    proof -
      have "distinct (used_ids q)" using assms(5) unfolding q_def used_ids_filter .
      then have "separate (\<lambda>k. qids (q ! k)) {0..<length q}" by (simp only: distinct_used_ids)
      then have "separate (\<lambda>k. qids (q ! k)) (set c)"
        using bound [OF c(1)] unfolding separate_def by auto
      moreover have "distinct c" using cd c(1) by (auto dest: split_list)
      ultimately show ?thesis by (simp add: used_ids_qids comp_def distinct_concat_separate)
    qed
    moreover have "\<forall>x\<in>set (map (\<lambda>i. q ! i) c). item_ok rows x \<and> is_quantified x"
      using qn(2) bound [OF c(1)] by auto
    ultimately have "qids (?merge c) = used_ids (map (\<lambda>i. q ! i) c)"
      using merge_component_ok(2) assms(2) c(2) by (metis list.map_disc_iff list.set_cases list.distinct(1))
    then show ?thesis using k(1) by (auto simp: used_ids_qids)
  qed
  moreover have "org (q ! k) \<notin> set (origins merged)"
  proof
    assume "org (q ! k) \<in> set (origins merged)"
    then have "h k \<in> set (map h (map p comps) @ map org unq)" using mset_eq_setD [OF om] by (simp add: h_def)
    then consider c' where "c' \<in> set comps" "h k = h (p c')" | x where "x \<in> set unq" "h k = org x" by auto
    then show False
    proof cases
      case 1
      then have "k = p c'" using inj kq(1) bound p(1) by blast
      then have "c' = c" using distinct_concat_unique [OF cd 1(1) c(1)] p(1) [OF 1(1)] k(1) by blast
      with k(2) \<open>k = p c'\<close> show False by simp
    next
      case 2
      then have "x = q ! k" using distinct_org_eq [OF assms(4), of x "q ! k"] qn(1) nth_mem [OF kq(1)]
        by (auto simp: h_def unq_def)
      then show False using 2(1) qn(2) nth_mem [OF kq(1)] by (auto simp: unq_def)
    qed
  qed
  moreover have "org (q ! p c) \<noteq> org (q ! k)" using inj [of "p c" k] kq k(2) by (auto simp: h_def)
  moreover have "?merge c \<in> set merged" "q ! k \<in> set normal" "q ! p c \<in> set normal" "is_quantified (q ! k)"
    using c(1) qn kq nth_mem unfolding m by auto
  ultimately show "\<exists>p\<in>set normal. \<exists>x\<in>set normal. \<exists>m\<in>set merged. is_quantified x \<and> org p \<noteq> org x \<and> qids x \<noteq> []
       \<and> fi_origin m = fi_origin p \<and> set (qids x) \<subseteq> set (qids m) \<and> org x \<notin> set (origins merged)"
    using mo [OF c(1)] by blast
qed

lemma merge_families_readable:
  assumes "merge_families rows normal = Inr (rebuilt, merged)"
    and "\<forall>x\<in>set normal. is_dict (fi_doc x) \<and> \<not> jhas (fi_doc x) ''evidence_entry_ids''"
  shows "\<forall>x\<in>set normal. plain_doc (fi_doc x)" "\<forall>x\<in>set merged. plain_doc (fi_doc x)"
proof -
  define q where "q = filter is_quantified normal"
  define unq where "unq = filter (\<lambda>x. \<not> is_quantified x) normal"
  obtain idss where idss: "smap (\<lambda>x. raw_ids (fi_doc x)) q = Inr idss"
      and out: "(let comps = components_of rows idss in
        if list_ex (\<lambda>c. length c > 1) comps
        then Inr (True, by_group (map (\<lambda>c. merge_component (map (\<lambda>i. q ! i) c)) comps @ unq))
        else Inr (False, normal)) = (Inr (rebuilt, merged) :: legacy_error + bool \<times> finding_item list)"
    using assms(1) unfolding merge_families_def q_def [symmetric] unq_def [symmetric] Let_def
    by (auto elim!: crashing.elims)
  have l: "length idss = length q" using idss by (auto simp: smap_eq_Inr dest: list_all2_lengthD)
  have "\<forall>x\<in>set q. \<exists>xs. raw_ids (fi_doc x) = Inr xs"
    using idss by (auto simp: smap_eq_Inr list_all2_conv_all_nth in_set_conv_nth)
  then show n: "\<forall>x\<in>set normal. plain_doc (fi_doc x)"
    using assms(2) by (auto simp: plain_doc_def is_quantified_def q_def)
  have "plain_doc (fi_doc (merge_component (map (\<lambda>i. q ! i) c)))" if c: "c \<in> set (components_of rows idss)" for c
  proof -
    have "map (\<lambda>i. q ! i) c \<noteq> []" using components_nonempty c by auto
    then have "primary_of (map (\<lambda>i. q ! i) c) \<in> set (map (\<lambda>i. q ! i) c)" by (rule primary_of_member)
    then have "primary_of (map (\<lambda>i. q ! i) c) \<in> set q" using components_bound [OF c] l by auto
    then show ?thesis using n by (auto simp: merge_component_def set_ids_def q_def)
  qed
  then show "\<forall>x\<in>set merged. plain_doc (fi_doc x)" using out n by (auto simp: Let_def unq_def split: if_splits)
qed

lemma recount_covers:
  assumes "smap (recount_item rows tot) xs = Inr ys" "\<forall>x\<in>set xs. item_ok rows x" "wf_manifest rows"
  shows "covers xs ys"
  using assms(1,2)
proof (induction xs arbitrary: ys)
  case (Cons x xs)
  then obtain y zs where y: "recount_item rows tot x = Inr y" "smap (recount_item rows tot) xs = Inr zs" "ys = y # zs"
    by auto
  have ih: "covers xs zs" using Cons y by simp
  have o: "fi_origin y = fi_origin x" "plain_doc (fi_doc x) \<longrightarrow> plain_doc (fi_doc y)"
    using y(1) by (auto simp: recount_item_def quantify_by_def split: if_splits)
  have "extends_to x y" using o(1) recount_item_ok(3) [OF y(1) _ assms(3)] Cons.prems(2) by (simp add: extends_to_def)
  then show ?case using ih o unfolding y(3) covers_def by (auto split: option.split)
qed simp

section \<open>Finding the dictionaries again\<close>

lemma in_origins: "k \<in> set (origins ys) \<longleftrightarrow> (\<exists>y\<in>set ys. fi_origin y = Some k)"
  by (force simp: origins_def)

lemma find_first_origin:
  "distinct (origins ys) \<Longrightarrow> y \<in> set ys \<Longrightarrow> fi_origin y = Some k \<Longrightarrow> find_first (\<lambda>z. fi_origin z = Some k) ys = Some y"
proof (induction ys)
  case (Cons z zs)
  show ?case
  proof (cases "z = y")
    case False
    then have "k \<in> set (origins zs)" using Cons.prems by (auto simp: in_origins)
    then show ?thesis using Cons False by (auto split: option.splits)
  qed (use Cons in simp)
qed simp

lemma qids_doc: "fi_doc x = fi_doc y \<Longrightarrow> qids x = qids y \<and> item_ok rows x = item_ok rows y"
  by (simp add: qids_def item_ok_def is_quantified_def)

lemma number_items_nth:
  assumes "k < length (ks @ ss)"
  shows "fi_doc (number_items ks ss ! k) = (ks @ ss) ! k" "fi_origin (number_items ks ss ! k) = Some k"
  using assms by (auto simp: number_items_def nth_append nth_enumerate_eq)

lemma number_items_facts [simp]: "length (number_items ks ss) = length (ks @ ss)"
  "map fi_doc (number_items ks ss) = ks @ ss"
  "map fi_key (number_items ks ss) = replicate (length ks) True @ replicate (length ss) False"
  by (auto simp: number_items_def comp_def case_prod_beta map_replicate_const simp flip: map_map [of snd])

lemma keys_first: "map fi_key xs = replicate a True @ replicate b False \<Longrightarrow> filter fi_key xs @ filter (\<lambda>x. \<not> fi_key x) xs = xs"
proof (induction xs arbitrary: a)
  case (Cons x xs)
  show ?case
  proof (cases a)
    case 0
    then have "\<forall>y\<in>set (x # xs). \<not> fi_key y"
      using Cons.prems by (metis append_Nil in_set_replicate list.set_map imageI replicate_0)
    then show ?thesis by (simp add: filter_False)
  qed (use Cons in auto)
qed simp

lemma shared_not_distinct:
  "x \<in> set xs \<Longrightarrow> y \<in> set xs \<Longrightarrow> x \<noteq> y \<Longrightarrow> v \<in> set (g x) \<Longrightarrow> v \<in> set (g y) \<Longrightarrow> \<not> distinct (concat (map g xs))"
  by (induction xs) auto

lemma known_id_quantified:
  assumes "v \<in> set (ids_of (fi_doc x))" "family_by_pattern rows v = Some f" "wf_manifest rows"
  shows "is_quantified x"
proof (rule ccontr)
  assume "\<not> is_quantified x"
  then have "jget (fi_doc x) ''pattern_ids'' = UNQUANTIFIED" by (simp add: is_quantified_def)
  then have "ids_of (fi_doc x) = [JStr (u ''unquantified'')]"
    by (simp add: ids_of_def raw_ids_def UNQUANTIFIED_def jget_def jget_or_def split: option.splits)
  with assms show False by (simp add: family_by_pattern_def split: if_splits)
qed

lemma plain_contains: "plain_doc f \<Longrightarrow> py_contains f ''evidence_entry_ids'' = Inr False"
  by (cases f) (simp_all add: plain_doc_def)

lemma selects_no_entries: "\<forall>f\<in>set fs. plain_doc f \<Longrightarrow> selects_entries fs None = Inr False"
  by (induction fs) (auto simp: plain_contains)

lemma no_selected_entries:
  "selects_entries fs None = Inr False \<Longrightarrow> f \<in> set fs \<Longrightarrow> is_dict f \<Longrightarrow> \<not> jhas f ''evidence_entry_ids''"
  by (induction fs) (fastforce simp: is_dict_iff split: if_splits)+

lemma jget_or_jset: "is_dict d \<Longrightarrow> jget_or (jset d k v) k' w = (if k' = k then v else jget_or d k' w)"
  by (simp add: jget_or_def jlookup_jset)

lemma read_with_groups: "is_dict d \<Longrightarrow> read_groups (with_groups d ks ss) = (ks, ss, None)"
  by (simp add: read_groups_def with_groups_def jget_or_jset)

text \<open>A second reconciliation of findings of which two share an id.\<close>

lemma fallback_rejects_repeated_ids:
  assumes "is_dict d" "wf_manifest (ls_patterns s)" "\<forall>x\<in>set xs. plain_doc (g x) \<and> item_ok (ls_patterns s) (x\<lparr>fi_doc := g x\<rparr>)"
    and "map g xs = ks @ ss" "x \<in> set xs" "y \<in> set xs" "x \<noteq> y"
    and "v \<in> set (qids (x\<lparr>fi_doc := g x\<rparr>))" "v \<in> set (qids (y\<lparr>fi_doc := g y\<rparr>))"
  shows "\<exists>v. reconcile_result env tc s True (with_groups d ks ss) = Inl (Assigned_More_Than_Once v)"
proof -
  let ?items = "number_items ks ss"
  let ?q = "\<lambda>f. qids \<lparr>fi_key = True, fi_origin = None, fi_doc = f\<rparr>"
  have q: "qids z = ?q (fi_doc z)" for z by (rule conjunct1 [OF qids_doc]) simp
  have docs: "\<forall>z\<in>set ?items. \<exists>x\<in>set xs. fi_doc z = g x"
    by (metis number_items_facts(2) assms(4) imageE image_eqI list.set_map)
  have ok: "\<forall>z\<in>set ?items. plain_doc (fi_doc z) \<and> item_ok (ls_patterns s) z"
  proof
    fix z assume "z \<in> set ?items"
    then obtain x where x: "x \<in> set xs" "fi_doc z = g x" using docs by blast
    then show "plain_doc (fi_doc z) \<and> item_ok (ls_patterns s) z"
      using assms(3) qids_doc [of z "x\<lparr>fi_doc := g x\<rparr>"] by simp
  qed
  have "used_ids ?items = concat (map ?q (map fi_doc ?items))"
    unfolding used_ids_qids map_map comp_def q [symmetric] ..
  also have "\<dots> = concat (map (\<lambda>x. ?q (g x)) xs)" unfolding number_items_facts(2) assms(4) [symmetric] by (simp add: comp_def)
  finally have u: "used_ids ?items = concat (map (\<lambda>x. ?q (g x)) xs)" .
  have "v \<in> set (?q (g x))" "v \<in> set (?q (g y))"
    using assms(8,9) q [of "x\<lparr>fi_doc := g x\<rparr>"] q [of "y\<lparr>fi_doc := g y\<rparr>"] by simp_all
  then have "\<not> distinct (used_ids ?items)"
    unfolding u by (rule shared_not_distinct [OF assms(5-7)])
  then obtain v where "normalize_findings (ls_patterns s) (ls_total s) True ([], False) ?items = Inl (Assigned_More_Than_Once v)"
    using fallback_checks [OF ok assms(2)] by blast
  moreover have "\<forall>f\<in>set (ks @ ss). plain_doc f" using assms(3,4) by (metis (no_types, lifting) imageE list.set_map)
  ultimately show ?thesis
    using assms(1) read_with_groups [OF assms(1)] selects_no_entries [of "ks @ ss"]
    by (simp add: reconcile_result_def with_groups_def reconcile_named_def reconcile_items_def)
qed

text \<open>The findings after the checks, and those of the complete result.\<close>

lemma checked_items:
  assumes "normalize_findings rows tot False ([], False) (number_items ks ss) = Inr normal" "wf_manifest rows"
    and "selects_entries (ks @ ss) None = Inr False"
  shows "length normal = length (ks @ ss)" "map org normal = [0..<length (ks @ ss)]"
    "\<forall>x\<in>set normal. fi_origin x \<noteq> None \<and> item_ok rows x"
    "\<forall>x\<in>set normal. is_dict (fi_doc x) \<and> \<not> jhas (fi_doc x) ''evidence_entry_ids''"
    "k < length (ks @ ss) \<Longrightarrow> ids_of (fi_doc (normal ! k)) = ids_of ((ks @ ss) ! k)"
    "filter fi_key normal @ filter (\<lambda>x. \<not> fi_key x) normal = normal"
proof -
  note ck = normalize_findings_checked [OF assms(1)] and nok = normalize_findings_ok [OF assms(1,2)]
  show len: "length normal = length (ks @ ss)" using list_all2_lengthD [OF ck] by simp
  have nth: "checked (number_items ks ss ! k) (normal ! k)" if "k < length (ks @ ss)" for k
    using list_all2_nthD [OF ck, of k] that by simp
  have orig: "fi_origin (normal ! k) = Some k \<and> ids_of (fi_doc (normal ! k)) = ids_of ((ks @ ss) ! k)
      \<and> is_dict (fi_doc (normal ! k)) \<and> \<not> jhas (fi_doc (normal ! k)) ''evidence_entry_ids''" if k: "k < length (ks @ ss)" for k
    using nth [OF k] number_items_nth [OF k] no_selected_entries [OF assms(3) nth_mem [OF k]]
    by (simp add: checked_def)
  have el: "\<exists>k<length (ks @ ss). x = normal ! k" if "x \<in> set normal" for x
    using that len by (metis in_set_conv_nth)
  show "map org normal = [0..<length (ks @ ss)]"
    by (rule nth_equalityI) (use len orig in \<open>simp_all add: org_def\<close>)
  show "\<forall>x\<in>set normal. fi_origin x \<noteq> None \<and> item_ok rows x"
  proof
    fix x assume x: "x \<in> set normal"
    obtain k where "k < length (ks @ ss)" "x = normal ! k" using el [OF x] by blast
    then show "fi_origin x \<noteq> None \<and> item_ok rows x" using orig [of k] nok x by simp
  qed
  show "\<forall>x\<in>set normal. is_dict (fi_doc x) \<and> \<not> jhas (fi_doc x) ''evidence_entry_ids''"
  proof
    fix x assume x: "x \<in> set normal"
    obtain k where "k < length (ks @ ss)" "x = normal ! k" using el [OF x] by blast
    then show "is_dict (fi_doc x) \<and> \<not> jhas (fi_doc x) ''evidence_entry_ids''" using orig [of k] by simp
  qed
  show "k < length (ks @ ss) \<Longrightarrow> ids_of (fi_doc (normal ! k)) = ids_of ((ks @ ss) ! k)" using orig by blast
  have "map fi_key normal = map fi_key (number_items ks ss)"
    using normalize_findings_positions [OF assms(1)] by simp
  then show "filter fi_key normal @ filter (\<lambda>x. \<not> fi_key x) normal = normal" by (intro keys_first) simp
qed

lemma completed_items:
  assumes "reconcile_items env tc rows tot False items = Inr (rebuilt, final)" "wf_manifest rows"
    and "normalize_findings rows tot False ([], False) items = Inr normal" "merge_families rows normal = Inr (rb, merged)"
    and "\<forall>x\<in>set merged. plain_doc (fi_doc x)"
  shows "rebuilt = rb" "covers merged final" "\<forall>y\<in>set final. plain_doc (fi_doc y) \<and> item_ok rows y"
proof -
  obtain counted where counted: "smap (recount_item rows tot) merged = Inr counted"
      and final: "append_omitted rows tot (used_ids counted) counted = Inr final" "rebuilt = rb"
    using assms(1) by (auto simp: reconcile_items_def assms(3,4))
  note nok = normalize_findings_ok [OF assms(3,2)]
  have mok: "\<forall>y\<in>set merged. item_ok rows y" "distinct (used_ids merged)"
    using merge_families_ok [OF assms(4) _ _ assms(2)] nok mset_eq_imp_distinct_iff by blast+
  have cok: "items_counted rows tot counted" "distinct (used_ids counted)"
    using recount_items_ok [OF counted mok(1) assms(2)] mok(2) by simp_all
  note ao = append_omitted_ok [OF final(1) assms(2) cok refl]
  show cov: "covers merged final" using covers_trans [OF recount_covers [OF counted mok(1) assms(2)] ao(4)] .
  show "\<forall>y\<in>set final. plain_doc (fi_doc y) \<and> item_ok rows y"
    using cov assms(5) ao(1) by (auto simp: covers_def items_counted_def)
  show "rebuilt = rb" by fact
qed

text \<open>The dictionary of a finding after the call: that of the finding it became, or unchanged.\<close>

lemma find_origin_kept:
  assumes "distinct (origins final)" "y \<in> set final" "fi_origin y = fi_origin x" "fi_origin x \<noteq> None"
  shows "find_origin final x = fi_doc y"
  using find_first_origin [OF assms(1,2)] assms(3,4) by (auto simp: find_origin_def)

lemma find_origin_gone:
  assumes "org x \<notin> set (origins final)" "fi_origin x \<noteq> None"
  shows "find_origin final x = fi_doc x"
proof -
  have "find_first (\<lambda>y. fi_origin y = fi_origin x) final = None"
    using assms by (auto simp: find_first_None_iff in_origins org_def)
  then show ?thesis by (simp add: find_origin_def)
qed

lemma find_origin_ok:
  assumes "\<forall>y\<in>set final. plain_doc (fi_doc y) \<and> item_ok rows y" "plain_doc (fi_doc z)" "item_ok rows z"
  shows "plain_doc (find_origin final z) \<and> item_ok rows (z\<lparr>fi_doc := find_origin final z\<rparr>)"
proof (cases "find_first (\<lambda>y. fi_origin y = fi_origin z) final")
  case None
  then show ?thesis using assms(2,3) by (simp add: find_origin_def)
next
  case (Some w)
  then have "w \<in> set final" by (auto dest: find_first_Some)
  then show ?thesis
    using Some assms(1) qids_doc [of "z\<lparr>fi_doc := fi_doc w\<rparr>" w] by (simp add: find_origin_def)
qed

text \<open>C30. Once a reconciliation has merged two findings of one cause family, the fallback cannot use
  the answer any more: if two findings of the answer name patterns of one family and the first
  reconciliation succeeds, then reconciling the answer as that call left it with the fallback (which
  the worker does when the merged result is invalid in some other way, say by an over-long detail)
  always fails, because the merged finding has taken over ids that the absorbed finding still has.\<close>

theorem merged_answers_defeat_the_fallback:
  assumes "preprocess_log env sc m n log_text = Some s" "reconcile_result env tc s False d = Inr r"
    and "read_groups d = (ks, ss, None)" "selects_entries (ks @ ss) None = Inr False"
    and "i < j" "j < length (ks @ ss)" "v \<in> set (ids_of ((ks @ ss) ! i))" "w \<in> set (ids_of ((ks @ ss) ! j))"
    and "family_by_pattern (ls_patterns s) v = Some f" "family_by_pattern (ls_patterns s) w = Some f"
  shows "\<exists>x. reconcile_result env tc s True (answer_after env tc s d) = Inl (Assigned_More_Than_Once x)"
proof -
  let ?rows = "ls_patterns s"
  obtain rebuilt final where d: "is_dict d"
      and it: "reconcile_items env tc ?rows (ls_total s) False (number_items ks ss) = Inr (rebuilt, final)"
    by (rule reconcile_result_named [OF assms(2-4)])
  have wf: "wf_manifest ?rows" using preprocess_log_manifest [OF assms(1)] .
  obtain normal where normal: "normalize_findings ?rows (ls_total s) False ([], False) (number_items ks ss) = Inr normal"
    using it by (auto simp: reconcile_items_def)
  obtain rb merged where merged: "merge_families ?rows normal = Inr (rb, merged)"
    using it normal by (auto simp: reconcile_items_def)
  note ch = checked_items [OF normal wf assms(4)]
  have plain: "\<forall>x\<in>set normal. plain_doc (fi_doc x)" "\<forall>x\<in>set merged. plain_doc (fi_doc x)"
    using merge_families_readable [OF merged ch(4)] by blast+
  note cp = completed_items [OF it wf normal merged plain(2)]
  have ij: "i < length (ks @ ss)" "i < length normal" "j < length normal" using assms(5,6) ch(1) by simp_all
  have v: "v \<in> set (ids_of (fi_doc (normal ! i)))" "w \<in> set (ids_of (fi_doc (normal ! j)))"
    using ch(5) [OF ij(1)] ch(5) [OF assms(6)] assms(7,8) by simp_all
  have quant: "is_quantified (normal ! i)" "is_quantified (normal ! j)"
    using known_id_quantified [OF v(1) assms(9) wf] known_id_quantified [OF v(2) assms(10) wf] by simp_all
  have "map org normal ! i \<noteq> map org normal ! j" unfolding ch(2) using assms(5) ij(1) assms(6) by simp
  then have ne: "normal ! i \<noteq> normal ! j" using ij(2,3) by auto
  have dist: "distinct (map org normal)" "distinct (used_ids normal)"
    unfolding ch(2) using normalize_findings_ok [OF normal wf] by simp_all
  have vq: "v \<in> set (qids (normal ! i))" "w \<in> set (qids (normal ! j))" using v quant by (simp_all add: qids_def)
  note sh = merge_families_shared [OF merged wf ch(3) dist nth_mem [OF ij(2)] nth_mem [OF ij(3)] ne quant vq assms(9,10)]
  obtain p x m where px: "p \<in> set normal" "x \<in> set normal" "m \<in> set merged" "org p \<noteq> org x"
      "qids x \<noteq> []" "fi_origin m = fi_origin p" "set (qids x) \<subseteq> set (qids m)" "org x \<notin> set (origins merged)"
    using sh(3) by blast
  have fin: "origins final = origins merged" using cp(2) by (simp add: covers_def)
  obtain y where y: "y \<in> set final" "extends_to m y" using cp(2) px(3) by (auto simp: covers_def)
  have fp: "find_origin final p = fi_doc y"
    using y sh(2) px(1,6) ch(3) by (intro find_origin_kept) (auto simp: fin extends_to_def)
  have fx: "find_origin final x = fi_doc x" using px(2,8) ch(3) by (intro find_origin_gone) (auto simp: fin)
  define K where "K = map (find_origin final) (filter fi_key normal)"
  define S where "S = map (find_origin final) (filter (\<lambda>x. \<not> fi_key x) normal)"
  have KS: "map (find_origin final) normal = K @ S" unfolding K_def S_def by (metis map_append ch(6))
  have left: "answer_after env tc s d = with_groups d K S"
    using d assms(3,4) sh(1) cp(1) it normal
    by (simp add: answer_after_def named_left_def Let_def K_def S_def)
  have docs: "\<forall>z\<in>set normal. plain_doc (find_origin final z) \<and> item_ok ?rows (z\<lparr>fi_doc := find_origin final z\<rparr>)"
    using find_origin_ok [OF cp(3)] plain(1) ch(3) by blast
  obtain k where k: "k \<in> set (qids x)" using px(5) by (cases "qids x") auto
  then have wx: "k \<in> set (qids (x\<lparr>fi_doc := find_origin final x\<rparr>))" using fx by simp
  have wp: "k \<in> set (qids (p\<lparr>fi_doc := find_origin final p\<rparr>))"
    using k px(7) y(2) qids_doc [of "p\<lparr>fi_doc := fi_doc y\<rparr>" y] by (auto simp: fp extends_to_def)
  have "p \<noteq> x" using px(4) by auto
  then show ?thesis
    unfolding left by (rule fallback_rejects_repeated_ids [OF d wf docs KS px(1,2) _ wp wx])
qed

text \<open>A log of two entries of one family, and an answer that splits them.\<close>

definition ndrp_scanner :: scanner where
  "ndrp_scanner = plain_scanner\<lparr>sc_casefold := \<lambda>s. u ''ndrp''\<rparr>"

definition ndrp_facts :: "nat \<Rightarrow> entry_facts" where
  "ndrp_facts c = \<lparr>ef_line = [c], ef_level = None, ef_pattern_id = u ''p-'' @ [c], ef_template = [c],
     ef_family = (u ''ndrp-availability'', u ''NDRP availability or response failure''),
     ef_trace_id = None, ef_endpoints = [], ef_statuses = [], ef_traces = [], ef_exceptions = [], ef_users = [], ef_records = [],
           ef_times = []\<rparr>"

definition ndrp_row :: "nat \<Rightarrow> pattern_row" where
  "ndrp_row c = \<lparr>pr_id = u ''p-'' @ [c], pr_template = [c], pr_count = 1, pr_samples = [[c]],
     pr_family_id = u ''ndrp-availability'', pr_family_label = u ''NDRP availability or response failure''\<rparr>"

lemma ndrp_family: "cause_family env ndrp_scanner t = (u ''ndrp-availability'', u ''NDRP availability or response failure'')"
  by (simp add: cause_family_def ndrp_scanner_def CAUSE_RULES_def u_def)

lemma ndrp_line: "c = 65 \<or> c = 66 \<Longrightarrow> entry_template ndrp_scanner [c] None = [c]"
  by (auto simp: entry_template_def Let_def ndrp_scanner_def plain_scanner_def py_strip_def py_lstrip_def py_space_def)

lemma ndrp_none: "entry_level ndrp_scanner [c] None = None" "entry_trace_id plain_env ndrp_scanner [c] None = None"
  by (simp_all add: entry_level_def entry_trace_id_def ndrp_scanner_def plain_scanner_def jget_def por_def Let_def)

lemma ndrp_entry: "c = 65 \<or> c = 66 \<Longrightarrow> entry_facts_of plain_env ndrp_scanner ([c], None) = ndrp_facts c"
  by (simp add: entry_facts_of_def Let_def ndrp_family ndrp_facts_def ndrp_line ndrp_none pattern_id_def)
     (simp add: plain_env_def ndrp_scanner_def plain_scanner_def)

lemma ndrp_log: "\<exists>s. preprocess_log plain_env ndrp_scanner 2 2 [65, 10, 66] = Some s
   \<and> ls_patterns s = [ndrp_row 65, ndrp_row 66] \<and> ls_total s = 2"
proof -
  have e: "entries_of plain_env ndrp_scanner [65, 10, 66] = [([65], None), ([66], None)]"
    by (simp add: entries_of_def ndrp_scanner_def plain_scanner_def line_break_def py_strip_def py_lstrip_def py_space_def json_object_def)
  have r: "pattern_manifest 2 (pattern_rows [ndrp_facts 65, ndrp_facts 66]) = [ndrp_row 65, ndrp_row 66]"
    by (simp add: pattern_manifest_def pattern_rows_def group_by_def ndrp_facts_def ndrp_row_def Let_def u_def)
  show ?thesis
    unfolding preprocess_log_def e list.map ndrp_entry [OF disjI1 [OF refl]] ndrp_entry [OF disjI2 [OF refl]] summarize_def r
    by (simp add: Let_def time_range_def ndrp_facts_def)
qed

lemma ndrp_manifest:
  "pattern_by_id [ndrp_row 65, ndrp_row 66] (JStr (u ''p-'' @ [65])) = Some (ndrp_row 65)"
  "pattern_by_id [ndrp_row 65, ndrp_row 66] (JStr (u ''p-'' @ [66])) = Some (ndrp_row 66)"
  "family_by_pattern [ndrp_row 65, ndrp_row 66] (JStr (u ''p-'' @ [65])) = Some (u ''ndrp-availability'')"
  "family_by_pattern [ndrp_row 65, ndrp_row 66] (JStr (u ''p-'' @ [66])) = Some (u ''ndrp-availability'')"
  by (simp_all add: pattern_by_id_def family_by_pattern_def ndrp_row_def u_def)

lemma ndrp_ids: "u ''p-'' @ [65] \<noteq> u ''p-'' @ [66]" "u ''p-'' @ [c] \<noteq> u ''other''" "u ''p-'' @ [c] \<noteq> u ''unquantified''"
  by (simp_all add: u_def)

definition split_finding :: "nat \<Rightarrow> json" where
  "split_finding c = JObj [(u ''pattern_ids'', JArr [JStr (u ''p-'' @ [c])])]"

definition split_answer :: json where
  "split_answer = JObj [(u ''key_finds'', JArr [split_finding 65]), (u ''secondary_finds'', JArr [split_finding 66])]"

lemma split_plain [simp]: "py_contains (split_finding c) ''evidence_entry_ids'' = Inr False"
  by (simp add: split_finding_def jhas_def)

lemma split_answer_groups: "read_groups split_answer = ([split_finding 65], [split_finding 66], None)"
    "selects_entries ([split_finding 65] @ [split_finding 66]) None = Inr False" "is_dict split_answer"
  by (simp_all add: read_groups_def split_answer_def jget_or_def)

definition split_item :: "nat \<Rightarrow> int \<Rightarrow> finding_item" where
  "split_item c tot = \<lparr>fi_key = (c = 65), fi_origin = Some (c - 65), fi_doc = set_numbers tot 1 (split_finding c)\<rparr>"

lemma split_finding_simps [simp]: "is_dict (set_numbers tot n (split_finding c))" "is_dict (split_finding c)" "ids_of (split_finding c) = [JStr (u ''p-'' @ [c])]"
  "raw_ids (set_numbers tot n (split_finding c)) = Inr [JStr (u ''p-'' @ [c])]"
  "jget (set_numbers tot n (split_finding c)) ''pattern_ids'' = JArr [JStr (u ''p-'' @ [c])]"
  by (simp_all add: split_finding_def ids_of_def raw_ids_def jget_or_def set_numbers_def jget_def)

lemma split_normal:
  "normalize_findings [ndrp_row 65, ndrp_row 66] tot False ([], False) (number_items [split_finding 65] [split_finding 66])
    = Inr [split_item 65 tot, split_item 66 tot]"
  by (simp add: number_items_def normalize_finding_def resolve_ids_def split_finding_def jget_def por_def UNQUANTIFIED_def
      in_manifest_def ndrp_manifest ndrp_ids quantify_by_def Let_def split_item_def)
    (simp add: ndrp_row_def)

lemma split_merged:
  "\<exists>x. merge_families [ndrp_row 65, ndrp_row 66] [split_item 65 tot, split_item 66 tot] = Inr (True, [x])
     \<and> is_quantified x \<and> is_dict (fi_doc x) \<and> ids_of (fi_doc x) = [JStr (u ''p-'' @ [65]), JStr (u ''p-'' @ [66])]"
proof -
  have "components_of [ndrp_row 65, ndrp_row 66] [[JStr (u ''p-'' @ [65])], [JStr (u ''p-'' @ [66])]] = [[0, 1]]"
    by (simp add: components_of_def families_in_def ndrp_manifest Let_def group_by_def)
  then show ?thesis
    by (simp add: merge_families_def is_quantified_def split_item_def UNQUANTIFIED_def ndrp_ids merge_component_def
        primary_of_def set_ids_def by_group_def Let_def)
qed

lemma split_answer_reconciles:
  assumes "ls_patterns s = [ndrp_row 65, ndrp_row 66]"
  shows "\<exists>r. reconcile_result plain_env tc s False split_answer = Inr r"
proof -
  obtain x where x: "merge_families [ndrp_row 65, ndrp_row 66] [split_item 65 (ls_total s), split_item 66 (ls_total s)] = Inr (True, [x])"
      "is_quantified x" "is_dict (fi_doc x)" "ids_of (fi_doc x) = [JStr (u ''p-'' @ [65]), JStr (u ''p-'' @ [66])]"
    using split_merged by blast
  have q: "qids x = [JStr (u ''p-'' @ [65]), JStr (u ''p-'' @ [66])]" using x(2,4) by (simp add: qids_def)
  have "\<exists>y. recount_item [ndrp_row 65, ndrp_row 66] (ls_total s) x = Inr y"
    using x(2,4) by (simp add: recount_item_def quantify_by_def ndrp_manifest)
  then obtain y where y: "recount_item [ndrp_row 65, ndrp_row 66] (ls_total s) x = Inr y" by blast
  then have "used_ids [y] = qids x" using x(2-4) by (auto simp: recount_item_def quantify_by_def qids_def is_quantified_def set_numbers_def)
  then have "append_omitted [ndrp_row 65, ndrp_row 66] (ls_total s) (used_ids [y]) [y] = Inr [y]"
    unfolding q by (simp add: append_omitted_def named_rows_def ndrp_ids ndrp_row_def group_by_def)
  with x(1) y have "reconcile_items plain_env tc [ndrp_row 65, ndrp_row 66] (ls_total s) False
      (number_items [split_finding 65] [split_finding 66]) = Inr (True, [y])"
    by (simp add: reconcile_items_def split_normal)
  then show ?thesis by (simp add: reconcile_result_def reconcile_named_def assms split_answer_groups)
qed

definition plain_classes :: text_classes where
  "plain_classes = \<lparr>tc_casefold = id, tc_word = \<lambda>c. True, tc_digit = \<lambda>c. False\<rparr>"

theorem merged_answers_defeat_the_fallback_witness:
  "\<exists>s x. preprocess_log plain_env ndrp_scanner 2 2 [65, 10, 66] = Some s
     \<and> reconcile_result plain_env plain_classes s True (answer_after plain_env plain_classes s split_answer) = Inl (Assigned_More_Than_Once x)"
proof -
  obtain s where s: "preprocess_log plain_env ndrp_scanner 2 2 [65, 10, 66] = Some s" "ls_patterns s = [ndrp_row 65, ndrp_row 66]"
    using ndrp_log by blast
  obtain r where r: "reconcile_result plain_env plain_classes s False split_answer = Inr r"
    using split_answer_reconciles [OF s(2)] by blast
  note t = merged_answers_defeat_the_fallback [OF s(1) r split_answer_groups(1,2), where i = 0 and j = 1
      and v = "JStr (u ''p-'' @ [65])" and w = "JStr (u ''p-'' @ [66])" and f = "u ''ndrp-availability''"]
  show ?thesis using t s by (simp add: ndrp_manifest)
qed

end
