(* ===== verification/Object_Store.thy ===== *)
theory Object_Store
  imports Failures Json
begin

text \<open>
  The object storage the worker uses, with the helpers of \<^verbatim>\<open>bridge/noc_bridge/storage.py\<close>. A store
  is the list of all object versions, the newest first: a read without a version id gets the newest
  one of its key. The hash of a body and the version id a bucket assigns to a new object are functions
  of the environment, as is which uploads succeed; a read fails only when there is no such object. A
  file on disk is its content.
\<close>

section \<open>Store\<close>

type_synonym bytes = "nat list"

record stored_object =
  so_bucket :: pystr
  so_key :: pystr
  so_body :: bytes
  so_version :: "pystr option"
  so_type :: pystr

type_synonym bucket_store = "stored_object list"

record store_env =
  se_hash :: "bytes \<Rightarrow> pystr"
  se_assign_version :: "bucket_store \<Rightarrow> pystr \<Rightarrow> pystr \<Rightarrow> pystr option"
  se_uploads :: "pystr \<Rightarrow> pystr \<Rightarrow> bool"

definition client_error :: py_exn where
  "client_error = \<lparr>ex_class = OtherException (u ''ClientError'') False, ex_message = []\<rparr>"

definition find_object :: "bucket_store \<Rightarrow> pystr \<Rightarrow> pystr \<Rightarrow> pystr option \<Rightarrow> stored_object option" where
  "find_object st bucket key version = find_first (\<lambda>x. so_bucket x = bucket \<and> so_key x = key
     \<and> (version = None \<or> so_version x = version)) st"

definition get_object :: "bucket_store \<Rightarrow> pystr \<Rightarrow> pystr \<Rightarrow> pystr option \<Rightarrow> py_exn + bytes" where
  "get_object st bucket key version = (case find_object st bucket key (truthy_opt version) of
     None \<Rightarrow> Inl client_error | Some x \<Rightarrow> Inr (so_body x))"

definition head_object :: "bucket_store \<Rightarrow> pystr \<Rightarrow> pystr \<Rightarrow> py_exn + pystr option \<times> pystr" where
  "head_object st bucket key = (case find_object st bucket key None of
     None \<Rightarrow> Inl client_error | Some x \<Rightarrow> Inr (so_version x, so_type x))"

definition upload_file :: "store_env \<Rightarrow> pystr \<Rightarrow> pystr \<Rightarrow> bytes \<Rightarrow> pystr \<Rightarrow> bucket_store \<Rightarrow> (py_exn + unit) \<times> bucket_store" where
  "upload_file env bucket key body content_type st =
    (if \<not> se_uploads env bucket key then (Inl client_error, st)
     else (Inr (), \<lparr>so_bucket = bucket, so_key = key, so_body = body,
        so_version = se_assign_version env st bucket key, so_type = content_type\<rparr> # st))"

section \<open>Helpers\<close>

definition checksum_mismatch :: py_exn where
  "checksum_mismatch = \<lparr>ex_class = ChecksumMismatch, ex_message = []\<rparr>"

text \<open>\<open>download_object\<close>: the body, once it has the expected checksum (none or an empty one is not
  checked).\<close>

definition download_object ::
  "store_env \<Rightarrow> bucket_store \<Rightarrow> pystr \<Rightarrow> pystr \<Rightarrow> pystr option \<Rightarrow> pystr option \<Rightarrow> py_exn + bytes" where
  "download_object env st bucket key expected version = sbind (get_object st bucket key version) (\<lambda>body.
     case truthy_opt expected of
       None \<Rightarrow> Inr body
     | Some h \<Rightarrow> if se_hash env body \<noteq> h then Inl checksum_mismatch else Inr body)"

definition object_exists :: "bucket_store \<Rightarrow> pystr \<Rightarrow> pystr \<Rightarrow> bool" where
  "object_exists st bucket key \<longleftrightarrow> (case head_object st bucket key of Inl e \<Rightarrow> False | Inr h \<Rightarrow> True)"

definition upload_artifact ::
  "store_env \<Rightarrow> pystr \<Rightarrow> pystr \<Rightarrow> bytes \<Rightarrow> bucket_store \<Rightarrow> (py_exn + pystr) \<times> bucket_store" where
  "upload_artifact env bucket key body st = (case upload_file env bucket key body (u ''application/json'') st of
     (Inl e, st') \<Rightarrow> (Inl e, st') | (Inr _, st') \<Rightarrow> (Inr (se_hash env body), st'))"

record stored_metadata =
  sm_bucket :: pystr
  sm_object_key :: pystr
  sm_version_id :: "pystr option"
  sm_sha256 :: pystr
  sm_byte_size :: int
  sm_content_type :: pystr

definition read_artifact_metadata :: "store_env \<Rightarrow> bucket_store \<Rightarrow> pystr \<Rightarrow> pystr \<Rightarrow> py_exn + stored_metadata" where
  "read_artifact_metadata env st bucket key = sbind (head_object st bucket key) (\<lambda>(version, content_type).
     sbind (get_object st bucket key version) (\<lambda>body.
       Inr \<lparr>sm_bucket = bucket, sm_object_key = key, sm_version_id = version, sm_sha256 = se_hash env body,
         sm_byte_size = int (length body), sm_content_type = content_type\<rparr>))"

definition upload_artifact_metadata ::
  "store_env \<Rightarrow> pystr \<Rightarrow> pystr \<Rightarrow> bytes \<Rightarrow> pystr \<Rightarrow> bucket_store \<Rightarrow> (py_exn + stored_metadata) \<times> bucket_store" where
  "upload_artifact_metadata env bucket key body content_type st =
    (case upload_file env bucket key body content_type st of
       (Inl e, st') \<Rightarrow> (Inl e, st')
     | (Inr _, st') \<Rightarrow> (read_artifact_metadata env st' bucket key, st'))"

section \<open>Lemmas\<close>

lemma find_object_Cons: "find_object (x # st) bucket key v =
    (if so_bucket x = bucket \<and> so_key x = key \<and> (v = None \<or> so_version x = v) then Some x else find_object st bucket key v)"
  by (auto simp: find_object_def)

text \<open>A store only grows: an upload puts the new version in front, a failed one changes nothing.\<close>

lemma upload_file_cases:
  obtains e where "upload_file env bucket key body ct st = (Inl e, st)"
  | x where "upload_file env bucket key body ct st = (Inr (), x # st)" "so_bucket x = bucket" "so_key x = key" "so_body x = body"
      "so_version x = se_assign_version env st bucket key"
  by (cases "se_uploads env bucket key") (auto simp: upload_file_def)

lemma read_own_upload:
  "upload_file env bucket key body ct st = (Inr (), st') \<Longrightarrow> get_object st' bucket key None = Inr body"
  by (auto simp: upload_file_def get_object_def find_object_Cons truthy_opt_def split: if_splits)

lemma metadata_of_upload:
  assumes "upload_artifact_metadata env bucket key body ct st = (Inr m, st')"
  shows "m = \<lparr>sm_bucket = bucket, sm_object_key = key, sm_version_id = se_assign_version env st bucket key,
     sm_sha256 = se_hash env body, sm_byte_size = int (length body), sm_content_type = ct\<rparr>"
    "read_artifact_metadata env st' bucket key = Inr m"
  using assms
  by (auto simp: upload_artifact_metadata_def upload_file_def read_artifact_metadata_def head_object_def get_object_def
    find_object_Cons truthy_opt_def split: if_splits option.splits)

lemma read_artifact_metadata_other:
  "so_bucket x \<noteq> bucket \<or> so_key x \<noteq> key \<Longrightarrow> read_artifact_metadata env (x # st) bucket key = read_artifact_metadata env st bucket key"
  by (auto simp: read_artifact_metadata_def head_object_def get_object_def find_object_Cons)

lemma download_is_verified:
  "download_object env st bucket key expected version = Inr body \<Longrightarrow> truthy_opt expected = Some h \<Longrightarrow> se_hash env body = h"
  by (auto simp: download_object_def split: option.splits if_splits)

end
