(* ===== verification/Log_Jobs.thy ===== *)
theory Log_Jobs
  imports Hermes_Client Reconcile_Fallback Log_Validation Skill_Execution Reports_Api Ai_Worker Object_Store
begin

text \<open>
  The log-triage processor of \<^verbatim>\<open>bridge/noc_bridge/worker.py\<close> and its crash-reconciliation probe: from a
  job message to the stored analysis. It composes the skill snapshot (Skill_Execution), the evidence in
  the object store (Object_Store), preprocessing (Preprocess), the Hermes client (Hermes_Client),
  reconciliation (Reconcile_Legacy) and validation (Log_Validation). One call of the processor is a
  function of the tables, the store and the answers Hermes gives to its attempts; its result is the
  outcome, the store afterwards and the messages sent to Hermes. JSON text, UTF-8, JSON Schema, the
  clock and what the imported components leave open are functions of the environment.
\<close>

section \<open>Environment\<close>

record job_settings =
  js_artifacts_bucket :: pystr
  js_reports_bucket :: pystr
  js_hermes_version :: pystr
  js_profile :: pystr
  js_max_output_attempts :: int

record job_env =
  je_py :: py_env
  je_store :: store_env
  je_skills :: skill_env
  je_hermes :: hermes_env
  je_dumps :: "json \<Rightarrow> pystr"
  je_dumps_compact :: "json \<Rightarrow> pystr"
  je_encode :: "pystr \<Rightarrow> bytes option"
  je_decode :: "bytes \<Rightarrow> pystr option"
  je_schema_valid :: "json \<Rightarrow> json \<Rightarrow> bool"
  je_scanner :: scanner
  je_classes :: text_classes
  je_phrases :: causal_phrases
  je_iso :: "time \<Rightarrow> pystr"
  je_iso_datetime :: "py_datetime \<Rightarrow> pystr"

text \<open>What Hermes answers to one attempt and how long it takes, and the rest of the clock.\<close>

record hermes_turn =
  ht_transport :: transport
  ht_elapsed :: int

definition exn :: "exn_class \<Rightarrow> py_exn" where
  "exn c = \<lparr>ex_class = c, ex_message = []\<rparr>"

fun doc_exn :: "doc_error \<Rightarrow> py_exn" where
  "doc_exn Key_Error = exn (OtherException (u ''KeyError'') False)"
| "doc_exn Type_Error = exn type_error"
| "doc_exn Attribute_Error = exn attribute_error"
| "doc_exn Value_Error = exn ValueError"

fun skill_exn :: "skill_error \<Rightarrow> py_exn" where
  "skill_exn (Snapshot_Missing s) = exn SkillSnapshotMissing"
| "skill_exn Hash_Mismatch = exn SkillHashMismatch"
| "skill_exn (Python e) = doc_exn e"
| "skill_exn Malformed_Yaml = exn (OtherException (u ''YAMLError'') False)"
| "skill_exn Malformed_Sql = exn (OtherException (u ''SyntaxError'') False)"
| "skill_exn _ = exn (OtherException (u ''RuntimeError'') False)"

fun with_exn :: "('e \<Rightarrow> py_exn) \<Rightarrow> 'e + 'a \<Rightarrow> py_exn + 'a" where
  "with_exn f (Inl e) = Inl (f e)"
| "with_exn f (Inr x) = Inr x"

text \<open>A value that may be missing, with the exception its absence raises.\<close>

definition need :: "py_exn \<Rightarrow> 'a option \<Rightarrow> py_exn + 'a" where
  "need e v = (case v of None \<Rightarrow> Inl e | Some x \<Rightarrow> Inr x)"

section \<open>Incident and evidence\<close>

definition newest_evidence :: "evidence_row list \<Rightarrow> evidence_row option" where
  "newest_evidence rows = (case sort_key (\<lambda>r. - e_created_at r) rows of [] \<Rightarrow> None | r # _ \<Rightarrow> Some r)"

definition incident_and_evidence ::
  "job_env \<Rightarrow> incident_row list \<Rightarrow> evidence_row list \<Rightarrow> json \<Rightarrow> py_exn + json \<times> evidence_row" where
  "incident_and_evidence env incidents evs m =
    (let refs = por (jget m ''object_refs'') (JArr []) in
     case (truthy (jget m ''incident_id''), jelems refs) of
       (True, [ref]) \<Rightarrow>
        (case py_uuid (py_str (je_py env) (jget m ''incident_id'')) of
           None \<Rightarrow> Inl (exn (OtherException (u ''InvalidTextRepresentation'') False))
         | Some i \<Rightarrow>
          (let incident = find_first (\<lambda>r. in_id r = i) incidents;
               ev = newest_evidence (filter (\<lambda>r. e_incident_id r = i \<and> e_type r = u ''LOG'' \<and> e_lifecycle r = ACTIVE
                      \<and> JStr (e_bucket r) = jget ref ''bucket'' \<and> JStr (e_object_key r) = jget ref ''key'') evs)
           in case (incident, ev) of
               (Some r, Some e) \<Rightarrow>
                 if truthy (jget ref ''sha256'') \<and> jget ref ''sha256'' \<noteq> JStr (e_sha256 e)
                 then Inl (exn EvidenceVerificationError)
                 else if truthy (jget ref ''version_id'') \<and> jget ref ''version_id'' \<noteq> jopt (e_version_id e)
                 then Inl (exn EvidenceVerificationError)
                 else Inr (JObj [(u ''id'', JStr (in_id r)), (u ''title'', in_column r ''title''),
                     (u ''service'', in_column r ''service''), (u ''environment'', in_column r ''environment''),
                     (u ''triggered_at'', JStr (je_iso env (in_triggered_at r))),
                     (u ''recovered_at'', jopt (map_option (je_iso env) (in_recovered_at r)))], e)
             | _ \<Rightarrow> Inl (exn EvidenceVerificationError)))
     | _ \<Rightarrow> Inl (exn EvidenceVerificationError))"

definition evidence_json :: "evidence_row \<Rightarrow> json" where
  "evidence_json e = JObj [(u ''id'', JStr (e_id e)), (u ''bucket'', JStr (e_bucket e)), (u ''key'', JStr (e_object_key e)),
     (u ''filename'', JStr (e_filename e)), (u ''sha256'', JStr (e_sha256 e)), (u ''content_version'', jopt (e_version_id e)),
     (u ''byte_size'', JInt (e_byte_size e))]"

section \<open>The skill of the job\<close>

definition opt_field :: "json \<Rightarrow> string \<Rightarrow> pystr option" where
  "opt_field m k = (case jget m k of JStr s \<Rightarrow> Some s | _ \<Rightarrow> None)"

text \<open>The instructions and the output schema materialized for the job.\<close>

definition job_skill :: "job_env \<Rightarrow> skill_row list \<Rightarrow> json \<Rightarrow> py_exn + pystr \<times> json" where
  "job_skill env rows m =
    (let name = jstr (jget m ''skill_name'') in
     sbind (with_exn skill_exn (materialize_snapshot (je_skills env) rows name (opt_field m ''skill_hash'')
         (opt_field m ''skill_snapshot_id'') (opt_field m ''skill_execution_hash''))) (\<lambda>files.
     sbind (need (exn (OtherException (u ''FileNotFoundError'') False)) (map_of files name)) (\<lambda>(md, schema, manifest).
     sbind (need (exn ValueError) (he_loads (je_hermes env) (universal_newlines schema))) (\<lambda>s.
       Inr (universal_newlines md, s)))))"

section \<open>The request\<close>

definition preprocessor_version :: pystr where
  "preprocessor_version = u ''20''"

definition MAX_DIRECT_LOG_CHARS :: nat where
  "MAX_DIRECT_LOG_CHARS = 2000000"

definition counts_json :: "(pystr, int) pydict \<Rightarrow> json" where
  "counts_json d = JObj (map (\<lambda>(k, n). (k, JInt n)) d)"

definition public_statistics :: "job_env \<Rightarrow> log_summary \<Rightarrow> json" where
  "public_statistics env s = JObj [(u ''preprocessing_version'', JStr preprocessor_version),
     (u ''total_entries'', JInt (ls_total s)), (u ''level_counts'', counts_json (ls_level_counts s)),
     (u ''error_count'', JInt (ls_error_count s)), (u ''exception_count'', JInt (ls_exception_count s)),
     (u ''exception_counts'', counts_json (ls_exception_counts s)), (u ''endpoint_counts'', counts_json (ls_endpoint_counts s)),
     (u ''http_status_counts'', counts_json (ls_http_status_counts s)), (u ''trace_counts'', counts_json (ls_trace_counts s)),
     (u ''user_id_counts'', counts_json (ls_user_id_counts s)), (u ''record_id_counts'', counts_json (ls_record_id_counts s)),
     (u ''representative_entries'', JArr (map (\<lambda>(i, level, t). JObj [(u ''id'', JInt i), (u ''level'', jopt level),
         (u ''text'', JStr t)]) (ls_representative s))),
     (u ''timestamp_start'', jopt (map_option (je_iso_datetime env \<circ> fst) (ls_time_range s))),
     (u ''timestamp_end'', jopt (map_option (je_iso_datetime env \<circ> snd) (ls_time_range s))),
     (u ''duration_seconds'', case ls_duration_seconds s of None \<Rightarrow> JNull | Some r \<Rightarrow> JFloat r),
     (u ''normalization'', JStr (u ''json-array-or-json-lines-or-text-lines''))]"

definition build_hermes_input :: "job_env \<Rightarrow> json \<Rightarrow> json \<Rightarrow> json \<Rightarrow> pystr \<Rightarrow> log_summary \<Rightarrow> json" where
  "build_hermes_input env job_id incident ev log_text s =
    JObj [(u ''schema_version'', JStr (u ''1.0'')), (u ''task'', JStr (u ''log_analysis'')), (u ''job_id'', job_id),
     (u ''incident'', incident), (u ''evidence'', ev), (u ''statistics'', public_statistics env s),
     (u ''representative_entries'', jget (public_statistics env s) ''representative_entries''),
     (u ''log_excerpt'', JStr (compact_log (annotated_log (ls_entry_manifest s) log_text) MAX_DIRECT_LOG_CHARS)),
     (u ''language_order'', JArr [JStr (u ''zh-CN''), JStr (u ''en'')])]"

definition REPAIR_HINT :: pystr where
  \<open>REPAIR_HINT = u (''Group the annotated log entries by underlying operational cause. Return evidence_entry_ids '' @
     ''copied exactly from the [entry_id=N] markers in log_excerpt; do not invent IDs or assign one '' @
     ''entry to more than one finding. Use pattern_ids:["unquantified"] and null count/percentage in '' @
     ''the model response; the application will calculate authoritative counts after reconciliation. '' @
     ''Return one concise bilingual result: summary_zh/summary_en must be at most 800 characters and '' @
     ''2-4 sentences; key details at most 600 characters and 3 sentences; secondary details at most '' @
     ''320 characters and 1 sentence. Every summary and detail must end with complete sentence '' @
     ''punctuation; never stop mid-sentence or use an ellipsis.'')\<close>

section \<open>Judging an answer\<close>

definition triage_of :: "json \<Rightarrow> triage_result" where
  "triage_of d = \<lparr>key_finds = jelems (jget d ''key_finds''), secondary_finds = jelems (jget d ''secondary_finds''),
     other_fields = (case d of JObj kvs \<Rightarrow> kvs | _ \<Rightarrow> [])\<rparr>"

text \<open>\<open>validate_against_schema\<close> and \<open>validate_log_triage_result\<close> on a dictionary; a group that is not a
  list is one of the latter's errors.\<close>

definition valid_analysis :: "job_env \<Rightarrow> json \<Rightarrow> json \<Rightarrow> bool" where
  "valid_analysis env schema d \<longleftrightarrow> je_schema_valid env schema d
     \<and> is_list (jget d ''key_finds'') \<and> is_list (jget d ''secondary_finds'')
     \<and> validate_log_triage_result (tc_word (je_classes env)) (compact_narrative_key (je_classes env)) (je_phrases env)
         (triage_of d) = None"

datatype verdict = Accept json | Reject | Raise py_exn

definition first_verdict :: "job_env \<Rightarrow> log_summary \<Rightarrow> json \<Rightarrow> json \<Rightarrow> verdict" where
  "first_verdict env s schema d = (case reconcile_result (je_py env) (je_classes env) s False d of
      Inl (Crash e) \<Rightarrow> if e = Value_Error then Reject else Raise (doc_exn e)
    | Inl _ \<Rightarrow> Reject
    | Inr c \<Rightarrow> if valid_analysis env schema c then Accept c else Reject)"

text \<open>\<open>compact_log_triage_narrative\<close> on a dictionary.\<close>

definition compact_text :: "nat \<Rightarrow> nat \<Rightarrow> string \<Rightarrow> json \<Rightarrow> doc_error + json" where
  "compact_text m n k d = (case compact_field m n d k of None \<Rightarrow> Inl Value_Error | Some d' \<Rightarrow> Inr d')"

definition compact_group :: "string \<Rightarrow> nat \<Rightarrow> nat \<Rightarrow> json \<Rightarrow> doc_error + json" where
  "compact_group k m n d = sbind (py_iter (jget_or d k (JArr []))) (\<lambda>fs.
     sbind (smap (\<lambda>f. if \<not> is_dict f then Inl Attribute_Error
         else (case compact_finding m n f of None \<Rightarrow> Inl Value_Error | Some f' \<Rightarrow> Inr f')) fs) (\<lambda>fs'.
       Inr (put_group d k fs')))"

definition compact_answer :: "json \<Rightarrow> doc_error + json" where
  "compact_answer d = sbind (compact_text 800 4 ''summary_zh'' d) (\<lambda>d1. sbind (compact_text 800 4 ''summary_en'' d1) (\<lambda>d2.
     sbind (compact_group ''key_finds'' 600 3 d2) (compact_group ''secondary_finds'' 320 1)))"

text \<open>The handler of the terminal repair lists every error but \<open>AttributeError\<close>.\<close>

fun fallback_exn :: "doc_error \<Rightarrow> py_exn" where
  "fallback_exn Attribute_Error = exn attribute_error"
| "fallback_exn _ = exn HermesInvalidResponse"

definition fallback_verdict :: "job_env \<Rightarrow> log_summary \<Rightarrow> json \<Rightarrow> json \<Rightarrow> verdict" where
  "fallback_verdict env s schema d =
    (case reconcile_result (je_py env) (je_classes env) s True (answer_after (je_py env) (je_classes env) s d) of
       Inl (Crash e) \<Rightarrow> Raise (fallback_exn e)
     | Inl _ \<Rightarrow> Raise (exn HermesInvalidResponse)
     | Inr c \<Rightarrow> (case compact_answer c of
         Inl e \<Rightarrow> Raise (fallback_exn e)
       | Inr c' \<Rightarrow> if valid_analysis env schema c' then Accept c' else Raise (exn HermesInvalidResponse)))"

section \<open>The attempts\<close>

text \<open>Attempt \<open>k\<close>, with \<open>n\<close> more allowed: the accepted analysis, the answer it came from and the number
  of attempts, or the exception; and the messages of every request.\<close>

fun triage_attempts :: "job_env \<Rightarrow> job_settings \<Rightarrow> log_summary \<Rightarrow> json \<Rightarrow> pystr \<Rightarrow> json \<Rightarrow> (nat \<Rightarrow> hermes_turn) \<Rightarrow> nat \<Rightarrow> nat
    \<Rightarrow> (py_exn + hermes_result \<times> json \<times> nat) \<times> chat_message list list" where
  "triage_attempts env cfg s payload skill_md schema turns n k =
    (let request = build_messages (je_hermes env) payload skill_md schema (u ''log_analysis'')
           (if k > 0 then Some REPAIR_HINT else None);
         again = (case n of 0 \<Rightarrow> None
           | Suc n' \<Rightarrow> Some (triage_attempts env cfg s payload skill_md schema turns n' (Suc k)));
         retry = (\<lambda>last. case again of None \<Rightarrow> (last, [request]) | Some (out, calls) \<Rightarrow> (out, request # calls))
     in case analyze (je_hermes env) (js_profile cfg) (ht_elapsed (turns k)) (ht_transport (turns k)) of
          Inl c \<Rightarrow> if c = HermesInvalidResponse then retry (Inl (exn c)) else (Inl (exn c), [request])
        | Inr answer \<Rightarrow> (case first_verdict env s schema (hr_result answer) of
              Accept c \<Rightarrow> (Inr (answer, c, Suc k), [request])
            | Raise e \<Rightarrow> (Inl e, [request])
            | Reject \<Rightarrow> retry (case fallback_verdict env s schema (hr_result answer) of
                Accept c \<Rightarrow> Inr (answer, c, Suc k) | Raise e \<Rightarrow> Inl e | Reject \<Rightarrow> Inl (exn HermesInvalidResponse))))"

section \<open>The job\<close>

text \<open>The tables the processor reads.\<close>

record job_tables =
  jt_incidents :: "incident_row list"
  jt_evidence :: "evidence_row list"
  jt_skills :: "skill_row list"

record triage_input =
  ti_job_id :: json
  ti_evidence :: evidence_row
  ti_skill_md :: pystr
  ti_schema :: json
  ti_raw :: bytes
  ti_summary :: log_summary
  ti_payload :: json

definition key_error :: py_exn where
  "key_error = doc_exn Key_Error"

text \<open>Everything before the first request to Hermes.\<close>

definition prepare_triage :: "job_env \<Rightarrow> job_tables \<Rightarrow> bucket_store \<Rightarrow> json \<Rightarrow> py_exn + triage_input" where
  "prepare_triage env tabs st m =
    (if jget m ''job_type'' \<noteq> JStr (u ''log_triage'') then Inl (exn WorkerInputError)
     else if jget m ''skill_name'' \<noteq> JStr (u ''log-triage-summary'') then Inl (exn SkillConfigurationError)
     else
       sbind (incident_and_evidence env (jt_incidents tabs) (jt_evidence tabs) m) (\<lambda>(incident, e).
       sbind (need key_error (jlookup m (u ''job_id''))) (\<lambda>job_id.
       sbind (job_skill env (jt_skills tabs) m) (\<lambda>(skill_md, schema).
       sbind (download_object (je_store env) st (e_bucket e) (e_object_key e) (Some (e_sha256 e)) (e_version_id e)) (\<lambda>raw.
       sbind (need (exn EvidenceVerificationError) (je_decode env raw)) (\<lambda>log_text.
       sbind (need (exn type_error) (preprocess_log (je_py env) (je_scanner env) 80 40 log_text)) (\<lambda>s.
         Inr \<lparr>ti_job_id = job_id, ti_evidence = e, ti_skill_md = skill_md, ti_schema = schema, ti_raw = raw,
           ti_summary = s, ti_payload = build_hermes_input env job_id incident (evidence_json e) log_text s\<rparr>)))))))"

text \<open>\<open>{**base, k: v, \<dots>}\<close>.\<close>

definition merged :: "(string \<times> json) list \<Rightarrow> (string \<times> json) list \<Rightarrow> json" where
  "merged base new = JObj (fold (\<lambda>(k, v). AList.update (u k) v) new (map (\<lambda>(k, v). (u k, v)) base))"

definition py_round4 :: "rat \<Rightarrow> rat" where
  "py_round4 x = fl (of_int (round_half_even (x * 10000)) / 10000)"

definition preprocessing_ratio :: "job_env \<Rightarrow> json \<Rightarrow> bytes \<Rightarrow> rat" where
  "preprocessing_ratio env payload raw =
    py_round4 (fl (of_nat (length (je_dumps env payload)) / of_nat (max 1 (length raw))))"

definition triage_telemetry :: "job_env \<Rightarrow> job_settings \<Rightarrow> int \<Rightarrow> triage_input \<Rightarrow> hermes_result \<Rightarrow> json \<Rightarrow> nat \<Rightarrow> json" where
  "triage_telemetry env cfg prep_ms i answer output n = merged (hr_telemetry answer)
    [(''hermes_version'', JStr (js_hermes_version cfg)), (''runtime_version'', JStr (js_hermes_version cfg)),
     (''input_hash'', JStr (e_sha256 (ti_evidence i))), (''evidence_sha256'', JStr (e_sha256 (ti_evidence i))),
     (''preprocessor_version'', JStr preprocessor_version), (''schema_version'', jget (ti_payload i) ''schema_version''),
     (''raw_input_bytes'', JInt (int (length (ti_raw i)))), (''evidence_bytes'', JInt (int (length (ti_raw i)))),
     (''preprocessing_ratio'', JFloat (preprocessing_ratio env (ti_payload i) (ti_raw i))),
     (''confidence'', jget output ''confidence''), (''output_attempts'', JInt (int n)),
     (''preprocessing_duration_ms'', JInt prep_ms)]"

definition artifact_key :: "job_env \<Rightarrow> json \<Rightarrow> string \<Rightarrow> pystr" where
  "artifact_key env job_id name = u ''jobs/'' @ py_str (je_py env) job_id @ u ''/'' @ u name"

text \<open>\<open>write_text(json.dumps(v, ensure_ascii=False, separators=(",", ":")), encoding="utf-8")\<close>.\<close>

definition json_file :: "job_env \<Rightarrow> json \<Rightarrow> py_exn + bytes" where
  "json_file env v = need (exn (OtherException (u ''UnicodeEncodeError'') True)) (je_encode env (je_dumps_compact env v))"

text \<open>The two artifacts of an accepted analysis: both files are written before the first upload.\<close>

definition store_analysis ::
  "job_env \<Rightarrow> job_settings \<Rightarrow> json \<Rightarrow> json \<Rightarrow> json \<Rightarrow> bucket_store \<Rightarrow> (py_exn + unit) \<times> bucket_store" where
  "store_analysis env cfg job_id output telemetry st =
    (case sbind (json_file env output) (\<lambda>a. sbind (json_file env telemetry) (\<lambda>b. Inr (a, b))) of
       Inl e \<Rightarrow> (Inl e, st)
     | Inr (a, b) \<Rightarrow>
        (case upload_artifact (je_store env) (js_artifacts_bucket cfg) (artifact_key env job_id ''result.json'') a st of
           (Inl e, st1) \<Rightarrow> (Inl e, st1)
         | (Inr _, st1) \<Rightarrow>
            (case upload_artifact (je_store env) (js_artifacts_bucket cfg) (artifact_key env job_id ''telemetry.json'') b st1 of
               (Inl e, st2) \<Rightarrow> (Inl e, st2)
             | (Inr _, st2) \<Rightarrow> (Inr (), st2))))"

record triage_run =
  tr_outcome :: "py_exn + json \<times> json"
  tr_store :: bucket_store
  tr_calls :: "chat_message list list"

definition process_log_triage ::
  "job_env \<Rightarrow> job_settings \<Rightarrow> job_tables \<Rightarrow> (nat \<Rightarrow> hermes_turn) \<Rightarrow> int \<Rightarrow> bucket_store \<Rightarrow> json \<Rightarrow> triage_run" where
  "process_log_triage env cfg tabs turns prep_ms st m =
    (case prepare_triage env tabs st m of
       Inl e \<Rightarrow> \<lparr>tr_outcome = Inl e, tr_store = st, tr_calls = []\<rparr>
     | Inr i \<Rightarrow>
        (case triage_attempts env cfg (ti_summary i) (ti_payload i) (ti_skill_md i) (ti_schema i) turns
                (nat (max 1 (js_max_output_attempts cfg)) - 1) 0 of
           (Inl e, calls) \<Rightarrow> \<lparr>tr_outcome = Inl e, tr_store = st, tr_calls = calls\<rparr>
         | (Inr (answer, output, n), calls) \<Rightarrow>
            (let telemetry = triage_telemetry env cfg prep_ms i answer output n;
                 (res, st') = store_analysis env cfg (ti_job_id i) output telemetry st
             in \<lparr>tr_outcome = (case res of Inl e \<Rightarrow> Inl e | Inr _ \<Rightarrow> Inr (output, telemetry)),
                  tr_store = st', tr_calls = calls\<rparr>)))"

section \<open>Crash reconciliation\<close>

text \<open>\<open>_artifact_exists_and_valid\<close>: every exception of its body means no. Reconciliation works on the
  loaded result in place.\<close>

definition artifact_exists_and_valid ::
  "job_env \<Rightarrow> bucket_store \<Rightarrow> pystr \<Rightarrow> pystr \<Rightarrow> json \<Rightarrow> log_summary \<Rightarrow> bool" where
  "artifact_exists_and_valid env st bucket key schema s \<longleftrightarrow> object_exists st bucket key
     \<and> (case get_object st bucket key None of Inl e \<Rightarrow> False | Inr body \<Rightarrow>
        (case je_decode env body of None \<Rightarrow> False | Some t \<Rightarrow>
        (case he_loads (je_hermes env) t of None \<Rightarrow> False | Some r \<Rightarrow>
           valid_analysis env schema r
           \<and> (case reconcile_result (je_py env) (je_classes env) s False r of Inl e \<Rightarrow> False | Inr _ \<Rightarrow>
                valid_analysis env schema (answer_after (je_py env) (je_classes env) s r)))))"

text \<open>What \<open>handle_delivery\<close> does before it runs a log-triage job again. The evidence is read as text,
  so bytes that are not UTF-8 raise \<open>UnicodeDecodeError\<close>.\<close>

definition undecodable :: py_exn where
  "undecodable = exn (OtherException (u ''UnicodeDecodeError'') True)"

definition stored_analysis :: "job_env \<Rightarrow> job_settings \<Rightarrow> job_tables \<Rightarrow> bucket_store \<Rightarrow> json \<Rightarrow> py_exn + bool" where
  "stored_analysis env cfg tabs st m =
    sbind (need key_error (jlookup m (u ''job_id''))) (\<lambda>job_id.
    sbind (incident_and_evidence env (jt_incidents tabs) (jt_evidence tabs) m) (\<lambda>(incident, e).
    sbind (job_skill env (jt_skills tabs) m) (\<lambda>(skill_md, schema).
    sbind (download_object (je_store env) st (e_bucket e) (e_object_key e) (Some (e_sha256 e)) (e_version_id e)) (\<lambda>raw.
    sbind (need undecodable (je_decode env raw)) (\<lambda>log_text.
    sbind (need (exn type_error) (preprocess_log (je_py env) (je_scanner env) 80 40 (universal_newlines log_text))) (\<lambda>s.
      Inr (artifact_exists_and_valid env st (js_artifacts_bucket cfg) (artifact_key env job_id ''result.json'') schema s)))))))"

section \<open>The steps of the delivery loop\<close>

definition recon_step :: "job_env \<Rightarrow> job_settings \<Rightarrow> job_tables \<Rightarrow> bucket_store \<Rightarrow> bool step" where
  "recon_step env cfg tabs st m db = (stored_analysis env cfg tabs st m, db)"

definition triage_step ::
  "job_env \<Rightarrow> job_settings \<Rightarrow> job_tables \<Rightarrow> (nat \<Rightarrow> hermes_turn) \<Rightarrow> int \<Rightarrow> bucket_store \<Rightarrow> artifact_metadata option step" where
  "triage_step env cfg tabs turns prep_ms st m db =
    ((case tr_outcome (process_log_triage env cfg tabs turns prep_ms st m) of Inl e \<Rightarrow> Inl e | Inr _ \<Rightarrow> Inr None), db)"

section \<open>Lemmas\<close>

lemma first_verdict_valid: "first_verdict env s schema d = Accept c \<Longrightarrow> valid_analysis env schema c"
  by (auto simp: first_verdict_def split: sum.splits legacy_error.splits if_splits)

lemma fallback_verdict_valid: "fallback_verdict env s schema d = Accept c \<Longrightarrow> valid_analysis env schema c"
  by (auto simp: fallback_verdict_def split: sum.splits legacy_error.splits if_splits)

lemma attempts_shape:
  "triage_attempts env cfg s payload skill_md schema turns n k = (out, calls) \<Longrightarrow>
    calls \<noteq> [] \<and> length calls \<le> Suc n \<and> (\<forall>j<length calls. calls ! j =
      build_messages (je_hermes env) payload skill_md schema (u ''log_analysis'') (if k + j > 0 then Some REPAIR_HINT else None))"
proof (induction n arbitrary: k out calls)
  case 0
  then show ?case
    by (auto simp: Let_def split: sum.splits verdict.splits if_splits)
next
  case (Suc n)
  let ?first = "build_messages (je_hermes env) payload skill_md schema (u ''log_analysis'') (if k > 0 then Some REPAIR_HINT else None)"
  obtain out' calls' where rec: "triage_attempts env cfg s payload skill_md schema turns n (Suc k) = (out', calls')"
    by fastforce
  have "calls = [?first] \<or> calls = ?first # calls'"
    using Suc.prems rec by (auto simp: Let_def split: sum.splits verdict.splits if_splits)
  then show ?case
    using Suc.IH [OF rec] by (auto simp: nth_Cons split: nat.splits)
qed

lemma attempts_accept:
  "triage_attempts env cfg s payload skill_md schema turns n k = (Inr (answer, c, m), calls) \<Longrightarrow>
    m = k + length calls
    \<and> analyze (je_hermes env) (js_profile cfg) (ht_elapsed (turns (m - 1))) (ht_transport (turns (m - 1))) = Inr answer
    \<and> (first_verdict env s schema (hr_result answer) = Accept c
       \<or> fallback_verdict env s schema (hr_result answer) = Accept c \<and> length calls = Suc n)"
proof (induction n arbitrary: k calls)
  case 0
  then show ?case
    by (auto simp: Let_def split: sum.splits verdict.splits if_splits)
next
  case (Suc n)
  obtain out' calls' where rec: "triage_attempts env cfg s payload skill_md schema turns n (Suc k) = (out', calls')"
    by fastforce
  let ?t = "analyze (je_hermes env) (js_profile cfg) (ht_elapsed (turns k)) (ht_transport (turns k))"
  from Suc.prems rec have "?t = Inr answer \<and> first_verdict env s schema (hr_result answer) = Accept c \<and> m = Suc k \<and> length calls = 1
      \<or> out' = Inr (answer, c, m) \<and> length calls = Suc (length calls')"
    by (auto simp: Let_def split: sum.splits verdict.splits if_splits)
  then show ?case
  proof
    assume "out' = Inr (answer, c, m) \<and> length calls = Suc (length calls')"
    with Suc.IH [of "Suc k" calls'] rec show ?thesis by auto
  qed auto
qed

lemma prepare_verified:
  assumes "prepare_triage env tabs st m = Inr i" "e_sha256 (ti_evidence i) \<noteq> []"
  shows "se_hash (je_store env) (ti_raw i) = e_sha256 (ti_evidence i)"
  using assms by (auto simp: prepare_triage_def truthy_opt_def split: if_splits dest!: download_is_verified)

lemma artifact_keys_differ: "artifact_key env job_id ''result.json'' \<noteq> artifact_key env job_id ''telemetry.json''"
  by (simp add: artifact_key_def u_def)

text \<open>An upload that succeeds puts one object in front.\<close>

lemma upload_artifact_cases:
  "upload_artifact senv bucket key body st = (res, st') \<Longrightarrow>
    (\<exists>e. res = Inl e \<and> st' = st)
    \<or> res = Inr (se_hash senv body) \<and> (\<exists>x. st' = x # st \<and> so_bucket x = bucket \<and> so_key x = key \<and> so_body x = body)"
  by (auto simp: upload_artifact_def upload_file_def split: prod.splits if_splits)

text \<open>What storing an analysis adds, in every case, and what can be read after it succeeded.\<close>

lemma store_analysis_adds:
  assumes "store_analysis env cfg job_id output telemetry st = (res, st')"
  shows "\<exists>new. st' = new @ st \<and> (\<forall>x\<in>set new. so_bucket x = js_artifacts_bucket cfg
      \<and> (so_key x = artifact_key env job_id ''telemetry.json''
         \<or> so_key x = artifact_key env job_id ''result.json'' \<and> json_file env output = Inr (so_body x)))"
  using assms
  by (fastforce simp: store_analysis_def split: sum.splits prod.splits dest!: upload_artifact_cases)

lemma store_analysis_readable:
  assumes "store_analysis env cfg job_id output telemetry st = (Inr (), st')"
  obtains a b where "json_file env output = Inr a" "json_file env telemetry = Inr b"
    "get_object st' (js_artifacts_bucket cfg) (artifact_key env job_id ''result.json'') None = Inr a"
    "get_object st' (js_artifacts_bucket cfg) (artifact_key env job_id ''telemetry.json'') None = Inr b"
proof -
  from assms obtain a b where files: "json_file env output = Inr a" "json_file env telemetry = Inr b"
    by (auto simp: store_analysis_def split: sum.splits prod.splits)
  obtain r1 st1 where one: "upload_artifact (je_store env) (js_artifacts_bucket cfg) (artifact_key env job_id ''result.json'') a st
      = (r1, st1)"
    by fastforce
  with assms files obtain h1 where "r1 = Inr h1" by (cases r1) (auto simp: store_analysis_def)
  with one files assms obtain r2 where two:
    "upload_artifact (je_store env) (js_artifacts_bucket cfg) (artifact_key env job_id ''telemetry.json'') b st1 = (Inr r2, st')"
    by (auto simp: store_analysis_def split: sum.splits prod.splits)
  from upload_artifact_cases [OF one] upload_artifact_cases [OF two] \<open>r1 = Inr h1\<close> show thesis
    using artifact_keys_differ [of env job_id]
    by (intro that [OF files]) (auto simp: get_object_def find_object_Cons truthy_opt_def)
qed

lemma output_attempts_of_telemetry:
  "jget (triage_telemetry env cfg ms i answer output n) ''output_attempts'' = JInt (int n)"
  by (simp add: triage_telemetry_def merged_def jget_def update_conv')

text \<open>A run that got to Hermes: its preparation, its attempts and what it stored.\<close>

lemma process_log_triage_cases:
  obtains e where "process_log_triage env cfg tabs turns ms st m = \<lparr>tr_outcome = Inl e, tr_store = st, tr_calls = []\<rparr>"
      "prepare_triage env tabs st m = Inl e"
  | i e calls where "prepare_triage env tabs st m = Inr i"
      "triage_attempts env cfg (ti_summary i) (ti_payload i) (ti_skill_md i) (ti_schema i) turns
        (nat (max 1 (js_max_output_attempts cfg)) - 1) 0 = (Inl e, calls)"
      "process_log_triage env cfg tabs turns ms st m = \<lparr>tr_outcome = Inl e, tr_store = st, tr_calls = calls\<rparr>"
  | i answer outp n calls res st' where "prepare_triage env tabs st m = Inr i"
      "triage_attempts env cfg (ti_summary i) (ti_payload i) (ti_skill_md i) (ti_schema i) turns
        (nat (max 1 (js_max_output_attempts cfg)) - 1) 0 = (Inr (answer, outp, n), calls)"
      "store_analysis env cfg (ti_job_id i) outp (triage_telemetry env cfg ms i answer outp n) st = (res, st')"
      "process_log_triage env cfg tabs turns ms st m = \<lparr>tr_outcome = (case res of Inl e \<Rightarrow> Inl e
        | Inr _ \<Rightarrow> Inr (outp, triage_telemetry env cfg ms i answer outp n)), tr_store = st', tr_calls = calls\<rparr>"
proof (cases "prepare_triage env tabs st m")
  case (Inl e)
  then show ?thesis using that(1) by (simp add: process_log_triage_def)
next
  case (Inr i)
  obtain out calls where a: "triage_attempts env cfg (ti_summary i) (ti_payload i) (ti_skill_md i) (ti_schema i) turns
        (nat (max 1 (js_max_output_attempts cfg)) - 1) 0 = (out, calls)" by fastforce
  show ?thesis
  proof (cases out)
    case (Inl e)
    then show ?thesis using that(2) [of i e calls] a Inr by (simp add: process_log_triage_def)
  next
    case (Inr x)
    obtain answer outp n where x: "x = (answer, outp, n)" by (cases x)
    obtain res st' where "store_analysis env cfg (ti_job_id i) outp (triage_telemetry env cfg ms i answer outp n) st
        = (res, st')" by fastforce
    then show ?thesis
      using that(3) [of i answer outp n calls res st'] a \<open>prepare_triage env tabs st m = Inr i\<close> Inr x
      by (simp add: process_log_triage_def Let_def)
  qed
qed

text \<open>The requests of a run: the instructions and the schema of the job's skill, and one payload.\<close>

lemma requests_of_run:
  assumes "tr_calls (process_log_triage env cfg tabs turns ms st m) \<noteq> []"
  obtains skill_md schema payload where "job_skill env (jt_skills tabs) m = Inr (skill_md, schema)"
    "\<And>k. k < length (tr_calls (process_log_triage env cfg tabs turns ms st m)) \<Longrightarrow>
       tr_calls (process_log_triage env cfg tabs turns ms st m) ! k = build_messages (je_hermes env) payload skill_md schema
         (u ''log_analysis'') (if k > 0 then Some REPAIR_HINT else None)"
proof -
  obtain i out where i: "prepare_triage env tabs st m = Inr i"
      and a: "triage_attempts env cfg (ti_summary i) (ti_payload i) (ti_skill_md i) (ti_schema i) turns
        (nat (max 1 (js_max_output_attempts cfg)) - 1) 0 = (out, tr_calls (process_log_triage env cfg tabs turns ms st m))"
    using assms by (cases rule: process_log_triage_cases [of env cfg tabs turns ms st m]) auto
  have "job_skill env (jt_skills tabs) m = Inr (ti_skill_md i, ti_schema i)"
    using i by (auto simp: prepare_triage_def split: if_splits)
  then show thesis using attempts_shape [OF a] that by auto
qed

section \<open>Properties\<close>


text \<open>C32. Untrusted data never reaches the system prompt: two jobs that run the same skill snapshot send the same
  system message with their \<open>k\<close>-th requests, whatever their incidents, their evidence, the statistics and
  Hermes' previous answers are; the rest of a request is one user message.\<close>

theorem system_prompt_is_independent_of_evidence:
  assumes "job_skill env (jt_skills tabs) m = job_skill env (jt_skills tabs') m'"
  shows "let calls = tr_calls (process_log_triage env cfg tabs turns ms st m);
      calls' = tr_calls (process_log_triage env cfg' tabs' turns' ms' st' m')
    in \<forall>k<min (length calls) (length calls'). \<exists>v w.
         calls ! k = [calls ! k ! 0, \<lparr>cm_role = u ''user'', cm_content = v\<rparr>] \<and> cm_role (calls ! k ! 0) = u ''system''
       \<and> calls' ! k = [calls ! k ! 0, \<lparr>cm_role = u ''user'', cm_content = w\<rparr>]"
proof (cases "tr_calls (process_log_triage env cfg tabs turns ms st m) = []
    \<or> tr_calls (process_log_triage env cfg' tabs' turns' ms' st' m') = []")
  case False
  then obtain md sch p md' sch' p' where "job_skill env (jt_skills tabs) m = Inr (md, sch)"
      "job_skill env (jt_skills tabs') m' = Inr (md', sch')"
      "\<And>k. k < length (tr_calls (process_log_triage env cfg tabs turns ms st m)) \<Longrightarrow>
        tr_calls (process_log_triage env cfg tabs turns ms st m) ! k = build_messages (je_hermes env) p md sch
          (u ''log_analysis'') (if k > 0 then Some REPAIR_HINT else None)"
      "\<And>k. k < length (tr_calls (process_log_triage env cfg' tabs' turns' ms' st' m')) \<Longrightarrow>
        tr_calls (process_log_triage env cfg' tabs' turns' ms' st' m') ! k = build_messages (je_hermes env) p' md' sch'
          (u ''log_analysis'') (if k > 0 then Some REPAIR_HINT else None)"
    by (metis requests_of_run)
  with assms show ?thesis by (simp add: build_messages_def)
qed auto

text \<open>Evidence that is not UTF-8 is meant to end its job for good: the processor raises
  \<open>EvidenceVerificationError\<close>, which is terminal. The delivery loop never gets there: its crash
  reconciliation reads the same evidence as text first, and the \<open>UnicodeDecodeError\<close> it raises is retried.\<close>

theorem undecodable_evidence_is_retried:
  assumes "jget m ''job_type'' = JStr (u ''log_triage'')" "jget m ''skill_name'' = JStr (u ''log-triage-summary'')"
    and "jlookup m (u ''job_id'') = Some j"
    and "incident_and_evidence env (jt_incidents tabs) (jt_evidence tabs) m = Inr (incident, e)"
    and "job_skill env (jt_skills tabs) m = Inr skill"
    and "download_object (je_store env) st (e_bucket e) (e_object_key e) (Some (e_sha256 e)) (e_version_id e) = Inr raw"
    and "je_decode env raw = None"
  shows "(\<exists>x. tr_outcome (process_log_triage env cfg tabs turns ms st m) = Inl x
        \<and> ex_class x = EvidenceVerificationError \<and> classify_failure x = TERMINAL)
    \<and> run_job (recon_step env cfg tabs st) (triage_step env cfg tabs turns ms st) report now tag i m w
        = (Inl undecodable, w)
    \<and> classify_failure undecodable = RETRYABLE"
proof -
  obtain md schema where "skill = (md, schema)" by (cases skill)
  with assms have "prepare_triage env tabs st m = Inl (exn EvidenceVerificationError)"
    "stored_analysis env cfg tabs st m = Inl undecodable"
    by (simp_all add: prepare_triage_def stored_analysis_def need_def)
  moreover have "classify_failure undecodable = RETRYABLE" by (code_simp)
  ultimately show ?thesis
    using assms(1) by (simp add: process_log_triage_def run_job_def recon_step_def exn_def classify_failure_def)
qed

section \<open>A sample job\<close>

definition sample_skill :: skill_row where
  "sample_skill = sample_snap\<lparr>sn_name := u ''log-triage-summary''\<rparr>"

definition sample_log :: evidence_row where
  "sample_log = \<lparr>e_id = u ''e'', e_incident_id = sample_id, e_type = u ''LOG'', e_bucket = u ''evidence'',
     e_object_key = u ''k'', e_filename = u ''f'', e_mime_type = None, e_byte_size = 0, e_sha256 = u ''h'',
     e_version_id = None, e_uploaded_by = u ''u'', e_created_at = 0, e_lifecycle = ACTIVE, e_deleted_at = None\<rparr>"

definition sample_tables :: job_tables where
  "sample_tables = \<lparr>jt_incidents = [\<lparr>in_id = sample_id, in_shift_id = None, in_created_at = 0, in_triggered_at = 0,
       in_recovered_at = None, in_column = (\<lambda>c. JNull)\<rparr>],
     jt_evidence = [sample_log], jt_skills = [sample_skill]\<rparr>"

definition sample_bucket :: bucket_store where
  "sample_bucket = [\<lparr>so_bucket = u ''evidence'', so_key = u ''k'', so_body = [], so_version = None, so_type = []\<rparr>]"

definition sample_answer :: json where
  "sample_answer = JObj [(u ''summary_zh'', JStr (u ''It ran. It broke.'')), (u ''summary_en'', JStr (u ''It ran. It broke.''))]"

definition sample_job :: json where
  "sample_job = JObj [(u ''job_id'', JStr (u ''j'')), (u ''job_type'', JStr (u ''log_triage'')),
     (u ''skill_name'', JStr (u ''log-triage-summary'')), (u ''skill_snapshot_id'', JStr [1]),
     (u ''incident_id'', JStr sample_id),
     (u ''object_refs'', JArr [JObj [(u ''bucket'', JStr (u ''evidence'')), (u ''key'', JStr (u ''k''))]])]"

definition sample_job_env :: "(bytes \<Rightarrow> pystr option) \<Rightarrow> job_env" where
  "sample_job_env decode = \<lparr>je_py = plain_env,
     je_store = \<lparr>se_hash = (\<lambda>b. u ''h''), se_assign_version = (\<lambda>st b k. None), se_uploads = (\<lambda>b k. True)\<rparr>,
     je_skills = sample_skill_env, je_hermes = \<lparr>he_loads = (\<lambda>s. Some sample_answer), he_dumps = (\<lambda>v. [])\<rparr>,
     je_dumps = (\<lambda>v. []), je_dumps_compact = (\<lambda>v. u ''text''), je_encode = Some, je_decode = decode,
     je_schema_valid = (\<lambda>sch d. True), je_scanner = plain_scanner, je_classes = plain_classes,
     je_phrases = no_causal_phrases, je_iso = (\<lambda>t. []), je_iso_datetime = (\<lambda>t. [])\<rparr>"

definition sample_job_settings :: "int \<Rightarrow> job_settings" where
  "sample_job_settings n = \<lparr>js_artifacts_bucket = u ''artifacts'', js_reports_bucket = u ''reports'',
     js_hermes_version = u ''1'', js_profile = u ''p'', js_max_output_attempts = n\<rparr>"

definition sample_turn :: hermes_turn where
  "sample_turn = \<lparr>ht_transport = Reply (JObj [(u ''choices'', JArr [JObj [(u ''message'',
     JObj [(u ''content'', JStr (u ''x''))])]])]), ht_elapsed = 7\<rparr>"

lemma sample_incident_and_evidence:
  "\<exists>incident. incident_and_evidence (sample_job_env decode) (jt_incidents sample_tables) (jt_evidence sample_tables) sample_job
     = Inr (incident, sample_log)"
proof -
  have "jget sample_job ''incident_id'' = JStr sample_id" "sample_id \<noteq> []"
    "por (jget sample_job ''object_refs'') (JArr []) = JArr [JObj [(u ''bucket'', JStr (u ''evidence'')), (u ''key'', JStr (u ''k''))]]"
    by (simp_all add: sample_job_def jget_def por_def sample_id_def u_def)
  then show ?thesis
    by (simp add: incident_and_evidence_def sample_uuid py_str_def sample_tables_def sample_log_def newest_evidence_def
        sort_key_def jget_def)
qed

lemma sample_job_skill: "job_skill (sample_job_env decode) (jt_skills sample_tables) sample_job = Inr ([65], sample_answer)"
proof -
  have v: "verify_snapshot_row sample_skill_env sample_skill None = Inr ()"
    by (simp add: verify_snapshot_row_def row_digest_def sample_skill_def sample_snap_def sample_content_def guard_def)
  have "materialize_snapshot_tree sample_skill_env [sample_skill] sample_skill [] None \<lparr>ws_files = [], ws_ids = [], ws_names = []\<rparr>
      = Inr (write_snapshot_files sample_skill \<lparr>ws_files = [], ws_ids = [], ws_names = []\<rparr>)"
    by (subst materialize_snapshot_tree.simps) (simp add: v)
  then have "materialize_snapshot sample_skill_env [sample_skill] (u ''log-triage-summary'') None (Some [1]) None
      = Inr [(u ''log-triage-summary'', [65], [66], [67])]"
    by (simp add: materialize_snapshot_def fetch_skill_snapshot_def truthy_opt_def v write_snapshot_files_def)
      (simp add: sample_skill_def sample_snap_def v [unfolded sample_skill_def sample_snap_def])
  moreover have "jget sample_job ''skill_name'' = JStr (u ''log-triage-summary'')" "opt_field sample_job ''skill_hash'' = None"
    "opt_field sample_job ''skill_snapshot_id'' = Some [1]" "opt_field sample_job ''skill_execution_hash'' = None"
    by (simp_all add: sample_job_def jget_def opt_field_def)
  ultimately show ?thesis
    by (simp add: job_skill_def sample_job_env_def sample_tables_def need_def universal_newlines_fixed)
qed

lemma sample_download:
  "download_object (je_store (sample_job_env decode)) sample_bucket (e_bucket sample_log) (e_object_key sample_log)
     (Some (e_sha256 sample_log)) (e_version_id sample_log) = Inr []"
  by (simp add: download_object_def sample_job_env_def sample_bucket_def sample_log_def get_object_def find_object_Cons truthy_opt_def)

lemma sample_job_fields: "jget sample_job ''job_type'' = JStr (u ''log_triage'')"
  "jget sample_job ''skill_name'' = JStr (u ''log-triage-summary'')" "jlookup sample_job (u ''job_id'') = Some (JStr (u ''j''))"
  by (simp_all add: sample_job_def jget_def)

theorem undecodable_evidence_is_retried_witness:
  "fst (run_job (recon_step (sample_job_env (\<lambda>b. None)) (sample_job_settings 2) sample_tables sample_bucket)
      (triage_step (sample_job_env (\<lambda>b. None)) (sample_job_settings 2) sample_tables (\<lambda>k. sample_turn) 0 sample_bucket)
      (\<lambda>m db. (Inr None, db)) 0 1 sample_id sample_job (sample_world QUEUED None)) = Inl undecodable"
proof -
  obtain incident where i: "incident_and_evidence (sample_job_env (\<lambda>b. None)) (jt_incidents sample_tables)
      (jt_evidence sample_tables) sample_job = Inr (incident, sample_log)"
    using sample_incident_and_evidence by blast
  have d: "je_decode (sample_job_env (\<lambda>b. None)) [] = None" by (simp add: sample_job_env_def)
  show ?thesis
    using undecodable_evidence_is_retried [OF sample_job_fields i sample_job_skill sample_download d] by (metis fst_conv)
qed

text \<open>With an empty log, Hermes' first answer is accepted.\<close>

lemma sample_statistics_empty:
  "\<exists>s. preprocess_log plain_env plain_scanner 80 40 [] = Some s \<and> ls_patterns s = [] \<and> ls_total s = 0"
proof -
  have "entries_of plain_env plain_scanner [] = []" by (simp add: entries_of_def plain_scanner_def)
  then show ?thesis by (simp add: preprocess_log_def summarize_def Let_def time_range_def pattern_manifest_def pattern_rows_def group_by_def)
qed

lemma sample_prepared:
  obtains i where "prepare_triage (sample_job_env (\<lambda>b. Some [])) sample_tables sample_bucket sample_job = Inr i"
    "ti_job_id i = JStr (u ''j'')" "ti_schema i = sample_answer" "ti_skill_md i = [65]"
    "ls_patterns (ti_summary i) = []" "ls_total (ti_summary i) = 0"
proof -
  obtain incident where a: "incident_and_evidence (sample_job_env (\<lambda>b. Some [])) (jt_incidents sample_tables)
      (jt_evidence sample_tables) sample_job = Inr (incident, sample_log)"
    using sample_incident_and_evidence by blast
  obtain s where s: "preprocess_log plain_env plain_scanner 80 40 [] = Some s" "ls_patterns s = []" "ls_total s = 0"
    using sample_statistics_empty by blast
  have "je_decode (sample_job_env (\<lambda>b. Some [])) [] = Some []" "je_py (sample_job_env (\<lambda>b. Some [])) = plain_env"
    "je_scanner (sample_job_env (\<lambda>b. Some [])) = plain_scanner" by (simp_all add: sample_job_env_def)
  with a s show thesis
    by (intro that) (simp add: prepare_triage_def sample_job_fields sample_job_skill sample_download need_def, simp_all)
qed

definition sample_output :: json where
  "sample_output = jset (with_groups sample_answer [] []) ''total_entries'' (JInt 0)"

lemma sample_reconciles:
  assumes "ls_patterns s = []" "ls_total s = 0"
  shows "reconcile_result plain_env plain_classes s False sample_answer = Inr sample_output"
proof -
  have "is_dict sample_answer" "read_groups sample_answer = ([], [], None)"
    by (simp_all add: sample_answer_def read_groups_def jget_or_def)
  then show ?thesis
    by (simp add: reconcile_result_def reconcile_named_def reconcile_items_def number_items_def assms used_ids_def
        append_omitted_def finish_def sample_output_def key_docs_def secondary_docs_def merge_families_def components_of_def named_rows_def group_by_def Let_def)
qed

lemma sample_output_valid: "valid_analysis (sample_job_env decode) schema sample_output"
proof -
  note eval = py_strip_def py_lstrip_def is_ending_def py_space_def u_def endings_in_def sentence_count_def
    validate_narrative_completion_def rstrip_chars_def is_closing_def py_suffix_def trailing_incomplete_def
    ends_dangling_def dangling_words_def dangling_chinese_def re_lower_def
  have n: "validate_narrative_completion (\<lambda>c. True) (u ''It ran. It broke.'') = None"
    by (simp add: eval)
  have c: "sentence_count (u ''It ran. It broke.'') = 2" "length (u ''It ran. It broke.'') = 17"
    by (simp_all add: sentence_count_def endings_in_def is_ending_def u_def)
  have b: "Log_Validation.nonblank (JStr (u ''It ran. It broke.''))"
    by (simp add: Log_Validation.nonblank_def py_strip_def py_lstrip_def py_space_def u_def)
  have f: "field (triage_of sample_output) ''total_entries'' = JInt 0"
    "field (triage_of sample_output) ''summary_zh'' = JStr (u ''It ran. It broke.'')"
    "field (triage_of sample_output) ''summary_en'' = JStr (u ''It ran. It broke.'')"
    "key_finds (triage_of sample_output) = []" "secondary_finds (triage_of sample_output) = []"
    "is_list (jget sample_output ''key_finds'')" "is_list (jget sample_output ''secondary_finds'')"
    by (simp_all add: sample_output_def sample_answer_def with_groups_def triage_of_def field_def jget_def)
  have "causation_language_ok no_causal_phrases r" for r by (simp add: causation_language_ok_def no_causal_phrases_def)
  then show ?thesis
    by (simp add: valid_analysis_def f sample_job_env_def plain_classes_def validate_log_triage_result_def check_summary_def
        n c b check_density_def repetition_error_def nonneg_int_def Let_def)
qed

lemma sample_first_request:
  "\<exists>answer. analyze (je_hermes (sample_job_env decode)) (u ''p'') 7 (ht_transport sample_turn) = Inr answer
     \<and> hr_result answer = sample_answer"
proof -
  have "py_strip (u ''x'') = u ''x''" "\<not> py_prefix fence (u ''x'')"
    by (simp_all add: py_strip_def py_lstrip_def py_space_def u_def fence_def)
  then show ?thesis
    by (simp add: analyze_def sample_turn_def assistant_message_def jget_def read_content_def parse_structured_content_def
        sample_job_env_def sample_answer_def por_def Let_def u_def)
qed

abbreviation sample_run :: "int \<Rightarrow> triage_run" where
  "sample_run n \<equiv> process_log_triage (sample_job_env (\<lambda>b. Some [])) (sample_job_settings n) sample_tables (\<lambda>k. sample_turn) 0
     sample_bucket sample_job"

lemma sample_run_succeeds: "\<exists>tel. tr_outcome (sample_run budget) = Inr (sample_output, tel) \<and> length (tr_calls (sample_run budget)) = 1"
proof -
  let ?env = "sample_job_env (\<lambda>b. Some [])"
  obtain i where i: "prepare_triage ?env sample_tables sample_bucket sample_job = Inr i"
      "ls_patterns (ti_summary i) = []" "ls_total (ti_summary i) = 0" "ti_job_id i = JStr (u ''j'')"
    using sample_prepared by blast
  have "je_py ?env = plain_env" "je_classes ?env = plain_classes" by (simp_all add: sample_job_env_def)
  with sample_reconciles [OF i(2,3)] sample_output_valid
  have v: "first_verdict ?env (ti_summary i) (ti_schema i) sample_answer = Accept sample_output"
    by (simp add: first_verdict_def)
  obtain answer where a: "analyze (je_hermes ?env) (u ''p'') 7 (ht_transport sample_turn) = Inr answer"
      "hr_result answer = sample_answer" using sample_first_request by blast
  have s: "js_profile (sample_job_settings budget) = u ''p''" "ht_elapsed sample_turn = 7" "js_max_output_attempts (sample_job_settings budget) = budget"
    by (simp_all add: sample_job_settings_def sample_turn_def)
  have st: "\<exists>st'. store_analysis ?env (sample_job_settings budget) job_id out tel sample_bucket = (Inr (), st')" for job_id out tel
    by (simp add: store_analysis_def json_file_def need_def sample_job_env_def upload_artifact_def upload_file_def)
  have first: "triage_attempts ?env (sample_job_settings budget) (ti_summary i) payload md (ti_schema i) (\<lambda>k. sample_turn) n 0
      = (Inr (answer, sample_output, 1), [build_messages (je_hermes ?env) payload md (ti_schema i) (u ''log_analysis'') None])"
    for payload md n
    using a v s by (cases n) auto
  show ?thesis
  proof (cases rule: process_log_triage_cases [of ?env "sample_job_settings budget" sample_tables "\<lambda>k. sample_turn" 0 sample_bucket sample_job])
    case (3 i' answer' outp n calls res st')
    moreover obtain st'' where "store_analysis ?env (sample_job_settings budget) (ti_job_id i') outp
        (triage_telemetry ?env (sample_job_settings budget) 0 i' answer' outp n) sample_bucket = (Inr (), st'')" using st by blast
    ultimately show ?thesis using i first by auto
  qed (use i first in auto)
qed


text \<open>The same first request goes out whatever the budget is.\<close>

theorem system_prompt_is_independent_of_evidence_witness:
  "\<exists>v w. tr_calls (sample_run 2) ! 0 = [tr_calls (sample_run 2) ! 0 ! 0, \<lparr>cm_role = u ''user'', cm_content = v\<rparr>]
     \<and> tr_calls (sample_run 5) ! 0 = [tr_calls (sample_run 2) ! 0 ! 0, \<lparr>cm_role = u ''user'', cm_content = w\<rparr>]"
proof -
  have "length (tr_calls (sample_run 2)) = 1" "length (tr_calls (sample_run 5)) = 1"
    using sample_run_succeeds by blast+
  with system_prompt_is_independent_of_evidence [of "sample_job_env (\<lambda>b. Some [])" sample_tables sample_job
      sample_tables sample_job, OF refl, of "sample_job_settings 2" "\<lambda>k. sample_turn" 0 sample_bucket "sample_job_settings 5" "\<lambda>k. sample_turn" 0 sample_bucket]
  show ?thesis unfolding Let_def by auto
qed

end
