(* ===== verification/Docx_Render.thy ===== *)
theory Docx_Render
  imports Log_Jobs Report_Composition Report_Preview Py_Float
begin

text \<open>
  The DOCX renderer, \<^verbatim>\<open>bridge/noc_bridge/docx_render.py\<close>: what a rendered report contains, in
  order - the text of the page header and footer, and the paragraphs and tables of the body with their styles,
  texts, hyperlinks, bookmarks and pictures. Fonts, colours, borders, indents and spacing are not kept.
  python-docx and lxml are arguments: which values they accept as text, as element text and as attribute,
  which styles the template has, and what they read from the bytes of an image.
\<close>

section \<open>Documents\<close>

datatype inline =
    Text pystr
  | Internal_Link pystr pystr
  | External_Link pystr pystr
  | Bookmark_Start pystr pystr
  | Bookmark_End pystr
  | Picture bytes int int
  | Page_Field
  | Page_Break

record para_t =
  pa_style :: json
  pa_items :: "inline list"

datatype element = Para para_t | Table "para_t list list"

record docx =
  wd_header :: "inline list"
  wd_footer :: "inline list"
  wd_body :: "element list"

record docx_env =
  wx_doc :: doc_env
  wx_text :: "json \<Rightarrow> py_exn + pystr"
  wx_xml :: "json \<Rightarrow> py_exn + pystr"
  wx_attr :: "json \<Rightarrow> py_exn + pystr"
  wx_style :: "json \<Rightarrow> bool"
  wx_hex :: "pystr \<Rightarrow> int option"
  wx_casefold :: "pystr \<Rightarrow> pystr"
  wx_image :: "bytes \<Rightarrow> (int \<times> int \<times> int \<times> int) option"

text \<open>A screenshot fetcher takes bucket and key, and version and checksum where the caller passes them.\<close>

type_synonym fetcher = "json \<Rightarrow> json \<Rightarrow> (json \<times> json) option \<Rightarrow> py_exn + bytes"

definition show_str :: "docx_env \<Rightarrow> json \<Rightarrow> pystr" where
  "show_str env v = py_str (de_py (wx_doc env)) v"

section \<open>Paragraphs\<close>

text \<open>\<open>add_run(text)\<close>; without a text the run is empty.\<close>

definition add_run :: "docx_env \<Rightarrow> json \<Rightarrow> py_exn + inline list" where
  "add_run env v = (if truthy v then sbind (wx_text env v) (\<lambda>s. Inr [Text s]) else Inr [])"

text \<open>\<open>doc.add_paragraph(text, style)\<close> and \<open>doc.add_heading(text, level)\<close>.\<close>

definition add_paragraph :: "docx_env \<Rightarrow> json \<Rightarrow> json \<Rightarrow> py_exn + para_t" where
  "add_paragraph env v style = sbind (add_run env v) (\<lambda>items.
     if style \<noteq> JNull \<and> \<not> wx_style env style then Inl (key_error)
     else Inr \<lparr>pa_style = style, pa_items = items\<rparr>)"

definition heading_style :: "int \<Rightarrow> json" where
  "heading_style level = JStr (if level = 0 then u ''Title'' else u ''Heading '' @ int_str level)"

definition add_heading :: "docx_env \<Rightarrow> json \<Rightarrow> int \<Rightarrow> py_exn + para_t" where
  "add_heading env v level =
    (if level < 0 \<or> 9 < level then Inl (exn ValueError) else add_paragraph env v (heading_style level))"

definition plain :: "inline list \<Rightarrow> para_t" where
  "plain items = \<lparr>pa_style = JNull, pa_items = items\<rparr>"

definition line :: "docx_env \<Rightarrow> pystr \<Rightarrow> py_exn + element list" where
  "line env s = sbind (add_paragraph env (JStr s) JNull) (\<lambda>p. Inr [Para p])"

definition add_hyperlink :: "docx_env \<Rightarrow> json \<Rightarrow> json \<Rightarrow> py_exn + inline list" where
  "add_hyperlink env url v = sbind (wx_attr env url) (\<lambda>a. sbind (wx_xml env v) (\<lambda>s. Inr [External_Link a s]))"

definition add_internal_hyperlink :: "docx_env \<Rightarrow> json \<Rightarrow> json \<Rightarrow> py_exn + inline list" where
  "add_internal_hyperlink env target v = sbind (wx_attr env target) (\<lambda>a. sbind (wx_xml env v) (\<lambda>s. Inr [Internal_Link a s]))"

definition ALERTS_START :: json where
  "ALERTS_START = JStr (u ''alerts_start'')"

definition bookmark_id :: "docx_env \<Rightarrow> json \<Rightarrow> py_exn + pystr" where
  "bookmark_id env name =
    (if name = ALERTS_START then Inr (u ''0'')
     else (case name of
         JStr s \<Rightarrow> (case wx_hex env (rev (takeWhile (\<lambda>c. c \<noteq> 95) (rev s))) of
             Some i \<Rightarrow> Inr (int_str i) | None \<Rightarrow> Inl (exn ValueError))
       | _ \<Rightarrow> Inl (exn attribute_error)))"

definition add_bookmark :: "docx_env \<Rightarrow> json \<Rightarrow> para_t \<Rightarrow> py_exn + para_t" where
  "add_bookmark env name p = sbind (bookmark_id env name) (\<lambda>i. sbind (wx_attr env name) (\<lambda>a.
     Inr (p\<lparr>pa_items := Bookmark_Start i a # pa_items p @ [Bookmark_End i]\<rparr>)))"

definition add_link_paragraph :: "docx_env \<Rightarrow> link_t \<Rightarrow> py_exn + element list" where
  "add_link_paragraph env l = sbind (add_hyperlink env (lk_url l) (por (lk_prefix l) (lk_label l))) (\<lambda>is. Inr [Para (plain is)])"

section \<open>Pictures\<close>

definition fetch_shot :: "fetcher option \<Rightarrow> screenshot_t \<Rightarrow> py_exn + bytes" where
  "fetch_shot fetcher sh = (case fetcher of
      None \<Rightarrow> Inl (exn EvidenceIntegrityError)
    | Some f \<Rightarrow>
        sbind (case f (sh_bucket sh) (sh_object_key sh) (Some (sh_version_id sh, sh_sha256 sh)) of
            Inl e \<Rightarrow> if ex_class e = type_error then f (sh_bucket sh) (sh_object_key sh) None else Inl e
          | Inr body \<Rightarrow> Inr body)
        (\<lambda>body. if body = [] then Inl (exn EvidenceRetrievalError) else Inr body))"

definition EMU_PER_INCH :: int where
  "EMU_PER_INCH = 914400"

text \<open>Both bounds are decimal literals, read as floats.\<close>

definition scaled_dimensions :: "docx_env \<Rightarrow> bytes \<Rightarrow> rat \<Rightarrow> rat \<Rightarrow> (int \<times> int) option" where
  "scaled_dimensions env body max_w max_h = (case wx_image env body of
      None \<Rightarrow> None
    | Some (pw, ph, hdpi, vdpi) \<Rightarrow>
        (let w = fl (of_int pw / of_int (if hdpi = 0 then 96 else hdpi));
             h = fl (of_int ph / of_int (if vdpi = 0 then 96 else vdpi))
         in if w = 0 \<or> h = 0 then None
            else (let scale = min (min (fl (fl max_w / w)) (fl (fl max_h / h))) 1
                  in Some (round_half_even (fl (fl (w * scale) * of_int EMU_PER_INCH)),
                           round_half_even (fl (fl (h * scale) * of_int EMU_PER_INCH))))))"

definition SINGLE_MAX_WIDTH :: rat where "SINGLE_MAX_WIDTH = 49 / 10"
definition SINGLE_MAX_HEIGHT :: rat where "SINGLE_MAX_HEIGHT = 34 / 10"
definition PAIR_MAX_WIDTH :: rat where "PAIR_MAX_WIDTH = 3"
definition PAIR_MAX_HEIGHT :: rat where "PAIR_MAX_HEIGHT = 32 / 10"

text \<open>\<open>None\<close> is an exception inside one of the blocks that turn every exception into an integrity error.\<close>

definition add_picture :: "docx_env \<Rightarrow> bytes \<Rightarrow> inline option" where
  "add_picture env body = map_option (\<lambda>(w, h). Picture body w h) (scaled_dimensions env body SINGLE_MAX_WIDTH SINGLE_MAX_HEIGHT)"

definition integrity :: "'a option \<Rightarrow> py_exn + 'a" where
  "integrity v = need (exn EvidenceIntegrityError) v"

definition add_screenshot :: "docx_env \<Rightarrow> fetcher option \<Rightarrow> screenshot_t \<Rightarrow> py_exn + element list" where
  "add_screenshot env fetcher sh = sbind (fetch_shot fetcher sh) (\<lambda>body.
     sbind (integrity (add_picture env body)) (\<lambda>p. Inr [Para (plain [p])]))"

definition screenshot_label :: "docx_env \<Rightarrow> screenshot_t \<Rightarrow> int \<Rightarrow> pystr option" where
  "screenshot_label env sh i = (case por (sh_filename sh) (sh_object_key sh) of
      JStr s \<Rightarrow> (let name = wx_casefold env s in
        Some (if py_in (u ''recover'') name then u ''Recovered'' else if py_in (u ''trigger'') name then u ''Triggered''
              else u ''Screenshot '' @ int_str i))
    | _ \<Rightarrow> None)"

definition stacked :: "docx_env \<Rightarrow> (int \<times> screenshot_t \<times> bytes) list \<Rightarrow> element list option" where
  "stacked env items = (let parts = map (\<lambda>(i, sh, body). (screenshot_label env sh i, add_picture env body)) items in
     if \<exists>(l, p)\<in>set parts. l = None \<or> p = None then None
     else Some (concat (map (\<lambda>(l, p). [Para (plain [Text (the l)]), Para (plain [the p])]) parts)))"

definition side_by_side :: "docx_env \<Rightarrow> (int \<times> screenshot_t \<times> bytes) list \<Rightarrow> (int \<times> int) list \<Rightarrow> element list option" where
  "side_by_side env items dims =
    (let height = Min (set (map snd dims)); labels = map (\<lambda>(i, sh, body). screenshot_label env sh i) items in
     if None \<in> set labels \<or> (\<exists>(w, h)\<in>set dims. h = 0) then None
     else Some [Table [map (\<lambda>l. plain [Text (the l)]) labels,
        map (\<lambda>((i, sh, body), (w, h)). plain [Picture body (round_half_even (fl (of_int (w * height) / of_int h))) height])
          (zip items dims)]])"

definition add_pair :: "docx_env \<Rightarrow> (int \<times> screenshot_t \<times> bytes) list \<Rightarrow> element list option" where
  "add_pair env items =
    (let dims = map (\<lambda>(i, sh, body). scaled_dimensions env body PAIR_MAX_WIDTH PAIR_MAX_HEIGHT) items in
     if None \<in> set dims then None
     else if \<exists>(w, h)\<in>set (map the dims). fl (of_int w / of_int EMU_PER_INCH) < fl (215 / 100) then stacked env items
     else side_by_side env items (map the dims))"

definition add_screenshots :: "docx_env \<Rightarrow> fetcher option \<Rightarrow> screenshot_t list \<Rightarrow> py_exn + element list" where
  "add_screenshots env fetcher shots =
    (if length shots \<noteq> 2 then sbind (smap (add_screenshot env fetcher) shots) (\<lambda>es. Inr (concat es))
     else sbind (smap (fetch_shot fetcher) shots) (\<lambda>bodies. integrity (add_pair env (zip [1, 2] (zip shots bodies)))))"

section \<open>Blocks\<close>

definition add_alert_navigation :: "docx_env \<Rightarrow> nav_entry list \<Rightarrow> py_exn + element list" where
  "add_alert_navigation env entries = sbind (add_heading env (JStr (u ''Alert Navigation'')) 3) (\<lambda>h.
     sbind (add_bookmark env ALERTS_START h) (\<lambda>h'.
     sbind (smap (\<lambda>e. sbind (add_internal_hyperlink env (nv_target e) (nv_text e)) (\<lambda>is.
         sbind (add_paragraph env JNull (JStr (u ''List Bullet''))) (\<lambda>p. Inr (Para (p\<lparr>pa_items := is\<rparr>))))) entries) (\<lambda>es.
       Inr (Para h' # es))))"

definition add_log_file :: "docx_env \<Rightarrow> log_file_ref \<Rightarrow> py_exn + element list" where
  "add_log_file env f = sbind (if truthy (lf_url f) then add_hyperlink env (lf_url f) (lf_filename f) else add_run env (lf_filename f))
     (\<lambda>is. Inr [Para (plain (Text (u ''Log File: '') # is))])"

definition stat_suffix :: "docx_env \<Rightarrow> bool \<Rightarrow> json \<Rightarrow> pystr" where
  "stat_suffix env zh stat = (if \<not> truthy stat then []
     else if zh then [65288] @ show_str env stat @ [65289] else u '' ('' @ show_str env stat @ u '')'')"

definition add_find :: "docx_env \<Rightarrow> bool \<Rightarrow> int \<times> find_t \<Rightarrow> py_exn + element" where
  "add_find env zh = (\<lambda>(i, f).
     sbind (add_run env (JStr (int_str i @ u ''. ''))) (\<lambda>number.
     sbind (add_run env (fd_label f)) (\<lambda>label.
     sbind (add_run env (JStr (stat_suffix env zh (fd_stat f)))) (\<lambda>stats.
     sbind (if truthy (fd_detail f) then add_run env (JStr (u '' - '' @ show_str env (fd_detail f))) else Inr []) (\<lambda>detail.
       Inr (Para (plain (number @ label @ stats @ detail))))))))"

definition add_finds :: "docx_env \<Rightarrow> json \<Rightarrow> find_t list \<Rightarrow> bool \<Rightarrow> py_exn + element list" where
  "add_finds env heading finds zh = sbind (add_paragraph env heading (JStr (u ''Intense Quote''))) (\<lambda>h.
     sbind (smap (add_find env zh) (zip (map int [1..<Suc (length finds)]) finds)) (\<lambda>es. Inr (Para h # es)))"

definition add_bilingual_find_list :: "docx_env \<Rightarrow> bilingual_find_list \<Rightarrow> py_exn + element list" where
  "add_bilingual_find_list env b = sbind (add_finds env (bf_heading_zh b) (bf_finds_zh b) True) (\<lambda>zh.
     sbind (add_finds env (bf_heading_en b) (bf_finds_en b) False) (\<lambda>en. Inr (zh @ en)))"

definition language_text :: "docx_env \<Rightarrow> json \<Rightarrow> json \<Rightarrow> py_exn + element list" where
  "language_text env heading v = sbind (if truthy heading then sbind (add_heading env heading 3) (\<lambda>h. Inr [Para h]) else Inr []) (\<lambda>hs.
     sbind (add_paragraph env v JNull) (\<lambda>p. Inr (hs @ [Para p])))"

definition add_bilingual_text :: "docx_env \<Rightarrow> bilingual_text \<Rightarrow> py_exn + element list" where
  "add_bilingual_text env b = sbind (language_text env (bt_heading_zh b) (bt_zh b)) (\<lambda>zh.
     sbind (language_text env (bt_heading_en b) (bt_en b)) (\<lambda>en. Inr (zh @ en)))"

definition when_some :: "'a option \<Rightarrow> ('a \<Rightarrow> py_exn + element list) \<Rightarrow> py_exn + element list" where
  "when_some v f = (case v of None \<Rightarrow> Inr [] | Some x \<Rightarrow> f x)"

definition add_metadata :: "docx_env \<Rightarrow> metadata_line \<Rightarrow> py_exn + element list" where
  "add_metadata env m = sbind (add_run env (JStr (show_str env (md_label m) @ u '': ''))) (\<lambda>l.
     sbind (add_run env (md_value m)) (\<lambda>v. Inr [Para (plain (l @ v))]))"

definition metadata_text :: "docx_env \<Rightarrow> metadata_line \<Rightarrow> pystr" where
  "metadata_text env m = show_str env (md_label m) @ u '': '' @ show_str env (md_value m)"

text \<open>Steps that append to the document one after the other.\<close>

definition in_turn :: "(py_exn + element list) list \<Rightarrow> py_exn + element list" where
  "in_turn steps = sbind (smap id steps) (\<lambda>es. Inr (concat es))"

definition add_incident_evidence :: "docx_env \<Rightarrow> fetcher option \<Rightarrow> bool \<Rightarrow> incident_evidence_t \<Rightarrow> py_exn + element list" where
  "add_incident_evidence env fetcher prov e = in_turn
     [sbind (add_heading env JNull 2) (\<lambda>h.
        sbind (if truthy (ie_navigation_target e) then add_internal_hyperlink env (ie_navigation_target e) (ie_heading e)
               else add_run env (ie_heading e)) (\<lambda>is. Inr [Para (h\<lparr>pa_items := is\<rparr>)])),
      add_screenshots env fetcher (ie_screenshots e),
      in_turn (map (add_metadata env) (ie_metadata e)),
      in_turn (map (add_link_paragraph env) ((case ie_link e of Some l \<Rightarrow> [l] | None \<Rightarrow> []) @ ie_links e)),
      when_some (ie_log_file e) (add_log_file env),
      if prov \<and> truthy (ie_incident_id e) then line env (u ''Incident ID: '' @ show_str env (ie_incident_id e)) else Inr []]"

definition optional_line :: "docx_env \<Rightarrow> json \<Rightarrow> py_exn + element list" where
  "optional_line env v = (if truthy v then sbind (add_paragraph env v JNull) (\<lambda>p. Inr [Para p]) else Inr [])"

text \<open>What an analysis reference shows before and after its children.\<close>

definition analysis_head :: "docx_env \<Rightarrow> fetcher option \<Rightarrow> bool \<Rightarrow> analysis_fields \<Rightarrow> py_exn + element list" where
  "analysis_head env fetcher prov a = in_turn
     [sbind (add_heading env (ar_heading a) 2) (\<lambda>h.
        sbind (if truthy (ar_bookmark a) then add_bookmark env (ar_bookmark a) h else Inr h) (\<lambda>h'. Inr [Para h'])),
      add_screenshots env fetcher (ar_screenshots a),
      when_some (ar_log_file a) (add_log_file env),
      if prov \<and> truthy (ar_analysis_run_id a) then line env (u ''Analysis reference: '' @ show_str env (ar_analysis_run_id a)) else Inr [],
      if prov then in_turn (map (\<lambda>m. line env (metadata_text env m)) (ar_metadata a @ ar_provenance a)) else Inr []]"

definition analysis_tail :: "docx_env \<Rightarrow> analysis_fields \<Rightarrow> py_exn + element list" where
  "analysis_tail env a = in_turn
     [when_some (ar_summary a) (add_bilingual_text env), when_some (ar_key_finds a) (add_bilingual_find_list env),
      when_some (ar_secondary_finds a) (add_bilingual_find_list env),
      when_some (ar_likely_cause a) (\<lambda>b. in_turn [optional_line env (bt_zh b), optional_line env (bt_en b)]),
      when_some (ar_recommended_action a) (\<lambda>b. in_turn [optional_line env (bt_zh b), optional_line env (bt_en b)]),
      if truthy (ar_bookmark a) then sbind (add_internal_hyperlink env ALERTS_START (JStr (8593 # u '' Back to Alerts'')))
        (\<lambda>is. Inr [Para (plain is)]) else Inr []]"

fun render_block :: "docx_env \<Rightarrow> fetcher option \<Rightarrow> bool \<Rightarrow> block \<Rightarrow> py_exn + element list"
  and render_blocks :: "docx_env \<Rightarrow> fetcher option \<Rightarrow> bool \<Rightarrow> block list \<Rightarrow> py_exn + element list" where
  "render_block env f prov (Heading t l) = sbind (add_heading env t l) (\<lambda>h. Inr [Para h])"
| "render_block env f prov (Paragraph t s) = sbind (add_paragraph env t (if truthy s then s else JNull)) (\<lambda>p. Inr [Para p])"
| "render_block env f prov (MetadataBlock m) = line env (metadata_text env m)"
| "render_block env f prov (LinkBlock l) = add_link_paragraph env l"
| "render_block env f prov (LogFileReference l) = add_log_file env l"
| "render_block env f prov (Screenshot s) = add_screenshot env f s"
| "render_block env f prov (AlertNavigation es) = add_alert_navigation env es"
| "render_block env f prov Divider = line env (replicate 20 8213)"
| "render_block env f prov PageBreak = Inr [Para (plain [Page_Break])]"
| "render_block env f prov (BilingualText b) = add_bilingual_text env b"
| "render_block env f prov (BilingualFindList b) = add_bilingual_find_list env b"
| "render_block env f prov (FindList l) = add_finds env (fs_heading l) (fs_finds l) (fs_language l = JStr (u ''Chinese''))"
| "render_block env f prov (IncidentEvidence e) = add_incident_evidence env f prov e"
| "render_block env f prov (AnalysisReference a ch) = sbind (analysis_head env f prov a) (\<lambda>front.
     if \<not> ar_available a
     then sbind (add_paragraph env (por (ar_unavailable_text a) (JStr (u ''No analysis available.''))) JNull) (\<lambda>p. Inr (front @ [Para p]))
     else sbind (render_blocks env f prov ch) (\<lambda>es. sbind (analysis_tail env a) (\<lambda>back. Inr (front @ es @ back))))"
| "render_blocks env f prov [] = Inr []"
| "render_blocks env f prov (b # bs) = sbind (render_block env f prov b) (\<lambda>es. sbind (render_blocks env f prov bs) (\<lambda>rest. Inr (es @ rest)))"

section \<open>The document\<close>

text \<open>\<open>sep.join(values)\<close>; a value that is not a string is an error.\<close>

definition join_values :: "pystr \<Rightarrow> json list \<Rightarrow> py_exn + json" where
  "join_values sep vs = (if \<forall>v\<in>set vs. is_str v then Inr (JStr (py_join sep (map jstr vs))) else Inl (exn type_error))"

definition value_of :: "string \<Rightarrow> metadata_line list \<Rightarrow> json" where
  "value_of label ms = (case find_first (\<lambda>m. md_label m = JStr (u label)) ms of Some m \<Rightarrow> md_value m | None \<Rightarrow> JStr [])"

definition footer_of :: "docx_env \<Rightarrow> metadata_line list \<Rightarrow> py_exn + inline list" where
  "footer_of env ms = sbind (join_values [32, 183, 32] (filter truthy [value_of ''Date'' ms, value_of ''Shift'' ms])) (\<lambda>v.
     sbind (add_run env v) (\<lambda>is. Inr (is @ [Text (u ''  |  Page ''), Page_Field])))"

definition subtitle :: "docx_env \<Rightarrow> metadata_line list \<Rightarrow> py_exn + element list" where
  "subtitle env ms = (if ms = [] then Inr []
     else sbind (join_values (u '' | '') (map (\<lambda>m. if md_label m \<in> {JStr (u ''Date''), JStr (u ''Shift'')} then md_value m
         else JStr (metadata_text env m)) ms)) (\<lambda>v. sbind (add_paragraph env v JNull) (\<lambda>p. Inr [Para p])))"

definition audit_section :: "docx_env \<Rightarrow> bool \<Rightarrow> metadata_line list \<Rightarrow> py_exn + element list" where
  "audit_section env prov ms = (if \<not> prov \<or> ms = [] then Inr []
     else sbind (add_heading env (JStr (u ''Audit Provenance'')) 2) (\<lambda>h.
       sbind (in_turn (map (\<lambda>m. line env (metadata_text env m)) ms)) (\<lambda>es. Inr (Para h # es))))"

definition render_document :: "docx_env \<Rightarrow> fetcher option \<Rightarrow> bool \<Rightarrow> report_document \<Rightarrow> py_exn + docx" where
  "render_document env f prov d =
     sbind (add_run env (rd_title d)) (\<lambda>header.
     sbind (footer_of env (rd_metadata d)) (\<lambda>footer.
     sbind (add_heading env (rd_title d) 0) (\<lambda>title.
     sbind (subtitle env (rd_metadata d)) (\<lambda>sub.
     sbind (audit_section env prov (rd_provenance d)) (\<lambda>audit.
     sbind (render_blocks env f prov (rd_blocks d)) (\<lambda>body.
       Inr \<lparr>wd_header = header, wd_footer = footer, wd_body = Para title # sub @ audit @ body\<rparr>))))))"

text \<open>\<open>render_daily_report_docx\<close>: the historical entry point.\<close>

definition render_daily_report_docx :: "docx_env \<Rightarrow> fetcher option \<Rightarrow> json \<Rightarrow> py_exn + docx" where
  "render_daily_report_docx env f result =
     sbind (with_exn doc_exn (build_daily_report_document (wx_doc env) result)) (render_document env f False)"

section \<open>Contents of a rendered document\<close>

fun items_of :: "element \<Rightarrow> inline list" where
  "items_of (Para p) = pa_items p"
| "items_of (Table rows) = concat (map pa_items (concat rows))"

definition all_items :: "element list \<Rightarrow> inline list" where
  "all_items es = concat (map items_of es)"

fun anchor_of :: "inline \<Rightarrow> pystr list" where
  "anchor_of (Internal_Link a s) = [a]"
| "anchor_of _ = []"

fun mark_of :: "inline \<Rightarrow> pystr list" where
  "mark_of (Bookmark_Start i a) = [a]"
| "mark_of _ = []"

fun picture_of :: "inline \<Rightarrow> bytes list" where
  "picture_of (Picture body w h) = [body]"
| "picture_of _ = []"

text \<open>The targets of the internal links, the names of the bookmarks and the pictures, in order.\<close>

definition anchors :: "element list \<Rightarrow> pystr list" where
  "anchors es = concat (map anchor_of (all_items es))"

definition marks :: "element list \<Rightarrow> pystr list" where
  "marks es = concat (map mark_of (all_items es))"

definition pictures :: "element list \<Rightarrow> bytes list" where
  "pictures es = concat (map picture_of (all_items es))"

text \<open>What a block asks for.\<close>

fun links_of_block :: "block \<Rightarrow> json list" where
  "links_of_block (AlertNavigation es) = map nv_target es"
| "links_of_block (IncidentEvidence e) = (if truthy (ie_navigation_target e) then [ie_navigation_target e] else [])"
| "links_of_block (AnalysisReference a ch) = (if ar_available a
     then concat (map links_of_block ch) @ (if truthy (ar_bookmark a) then [ALERTS_START] else []) else [])"
| "links_of_block _ = []"

fun marks_of_block :: "block \<Rightarrow> json list" where
  "marks_of_block (AlertNavigation es) = [ALERTS_START]"
| "marks_of_block (AnalysisReference a ch) = (if truthy (ar_bookmark a) then [ar_bookmark a] else [])
     @ (if ar_available a then concat (map marks_of_block ch) else [])"
| "marks_of_block _ = []"

fun rendered_shots :: "block \<Rightarrow> screenshot_t list" where
  "rendered_shots (Screenshot s) = [s]"
| "rendered_shots (IncidentEvidence e) = ie_screenshots e"
| "rendered_shots (AnalysisReference a ch) = ar_screenshots a @ (if ar_available a then concat (map rendered_shots ch) else [])"
| "rendered_shots _ = []"

section \<open>Lemmas\<close>

named_theorems docx_content

lemma contents_append [docx_content]: "anchors (es @ fs) = anchors es @ anchors fs" "marks (es @ fs) = marks es @ marks fs"
  "pictures (es @ fs) = pictures es @ pictures fs"
  by (simp_all add: anchors_def marks_def pictures_def all_items_def)

lemma contents_Nil [docx_content]: "anchors [] = []" "marks [] = []" "pictures [] = []"
  by (simp_all add: anchors_def marks_def pictures_def all_items_def)

lemma contents_Cons [docx_content]: "anchors (Para p # es) = concat (map anchor_of (pa_items p)) @ anchors es"
  "marks (Para p # es) = concat (map mark_of (pa_items p)) @ marks es"
  "pictures (Para p # es) = concat (map picture_of (pa_items p)) @ pictures es"
  by (simp_all add: anchors_def marks_def pictures_def all_items_def)

text \<open>Items without links, bookmarks and pictures.\<close>

fun plain_item :: "inline \<Rightarrow> bool" where
  "plain_item (Text s) = True"
| "plain_item (External_Link a s) = True"
| "plain_item Page_Break = True"
| "plain_item Page_Field = True"
| "plain_item _ = False"

definition quiet :: "element list \<Rightarrow> bool" where
  "quiet es \<longleftrightarrow> list_all plain_item (all_items es)"

lemma plain_items:
  "list_all plain_item is \<Longrightarrow> concat (map anchor_of is) = [] \<and> concat (map mark_of is) = [] \<and> concat (map picture_of is) = []"
proof (induction "is")
  case (Cons i "is")
  then show ?case by (cases i) auto
qed simp

lemma quiet_contents: "quiet es \<Longrightarrow> anchors es = [] \<and> marks es = [] \<and> pictures es = []"
  using plain_items by (simp add: quiet_def anchors_def marks_def pictures_def)

lemma quiet_simps [simp]: "quiet []" "quiet (es @ fs) \<longleftrightarrow> quiet es \<and> quiet fs"
  "quiet (Para p # es) \<longleftrightarrow> list_all plain_item (pa_items p) \<and> quiet es"
  by (simp_all add: quiet_def all_items_def)

lemma add_run_plain: "add_run env v = Inr is \<Longrightarrow> list_all plain_item is"
  by (auto simp: add_run_def split: if_splits)

lemma add_paragraph_plain: "add_paragraph env v s = Inr p \<Longrightarrow> list_all plain_item (pa_items p)"
  using add_run_plain by (auto simp: add_paragraph_def split: if_splits)

lemma add_heading_plain: "add_heading env v l = Inr p \<Longrightarrow> list_all plain_item (pa_items p)"
  using add_paragraph_plain by (auto simp: add_heading_def split: if_splits)

lemma add_hyperlink_plain: "add_hyperlink env url v = Inr is \<Longrightarrow> list_all plain_item is"
  by (auto simp: add_hyperlink_def)

lemmas parts_plain = add_run_plain add_paragraph_plain add_heading_plain add_hyperlink_plain

lemma in_turn_Inr: "in_turn steps = Inr es \<longleftrightarrow> (\<exists>parts. steps = map Inr parts \<and> es = concat parts)"
proof -
  have "smap id steps = Inr parts \<longleftrightarrow> steps = map Inr parts" for parts
    by (auto simp: smap_eq_Inr list_all2_conv_all_nth intro: nth_equalityI)
  then show ?thesis by (auto simp: in_turn_def)
qed

lemma quiet_concat: "quiet (concat parts) \<longleftrightarrow> (\<forall>p\<in>set parts. quiet p)"
  by (induction parts) auto

lemma in_turn_quiet: "in_turn steps = Inr es \<Longrightarrow> (\<And>es. Inr es \<in> set steps \<Longrightarrow> quiet es) \<Longrightarrow> quiet es"
  by (auto simp: in_turn_Inr quiet_concat)

lemma line_quiet: "line env s = Inr es \<Longrightarrow> quiet es"
  using parts_plain by (auto simp: line_def)

lemma add_link_paragraph_quiet: "add_link_paragraph env l = Inr es \<Longrightarrow> quiet es"
  using parts_plain by (auto simp: add_link_paragraph_def plain_def)

lemma add_log_file_quiet: "add_log_file env l = Inr es \<Longrightarrow> quiet es"
  using parts_plain by (auto simp: add_log_file_def plain_def split: if_splits)

lemma add_find_quiet: "add_find env zh x = Inr e \<Longrightarrow> quiet [e]"
  using parts_plain by (cases x) (auto simp: add_find_def plain_def split: if_splits)

lemma smap_quiet: "smap f xs = Inr es \<Longrightarrow> (\<And>x e. f x = Inr e \<Longrightarrow> quiet [e]) \<Longrightarrow> quiet es"
proof (induction xs arbitrary: es)
  case (Cons x xs)
  then obtain e es' where e: "f x = Inr e" "smap f xs = Inr es'" "es = e # es'" by auto
  then have "quiet [e]" "quiet es'" using Cons by blast+
  then show ?case using e quiet_simps(2) [of "[e]" es'] by simp
qed simp

lemma add_finds_quiet: "add_finds env h fs zh = Inr es \<Longrightarrow> quiet es"
  using parts_plain smap_quiet [OF _ add_find_quiet] by (fastforce simp: add_finds_def)

lemma add_bilingual_find_list_quiet: "add_bilingual_find_list env b = Inr es \<Longrightarrow> quiet es"
  using add_finds_quiet by (auto simp: add_bilingual_find_list_def)

lemma add_bilingual_text_quiet: "add_bilingual_text env b = Inr es \<Longrightarrow> quiet es"
  using parts_plain by (auto simp: add_bilingual_text_def language_text_def split: if_splits)

lemma add_metadata_quiet: "add_metadata env m = Inr es \<Longrightarrow> quiet es"
  using parts_plain by (auto simp: add_metadata_def plain_def)

lemma optional_line_quiet: "optional_line env v = Inr es \<Longrightarrow> quiet es"
  using parts_plain by (auto simp: optional_line_def split: if_splits)

lemmas steps_quiet = line_quiet add_link_paragraph_quiet add_log_file_quiet add_finds_quiet add_bilingual_find_list_quiet
  add_bilingual_text_quiet add_metadata_quiet optional_line_quiet

text \<open>Screenshots become pictures of the fetched bytes, in order, and nothing that links.\<close>

lemma stacked_contents:
  assumes "stacked env items = Some es"
  shows "anchors es = [] \<and> marks es = [] \<and> pictures es = map (\<lambda>(i, sh, body). body) items"
  using assms
proof (induction items arbitrary: es)
  case (Cons x items)
  obtain i sh body where x: "x = (i, sh, body)" by (cases x)
  obtain es' l w h where "stacked env items = Some es'" "es = Para (plain [Text l]) # Para (plain [Picture body w h]) # es'"
    using Cons.prems unfolding stacked_def x Let_def by (auto simp: add_picture_def split: if_splits)
  then show ?case using Cons.IH by (simp add: docx_content plain_def x)
qed (simp add: stacked_def docx_content)

lemma picture_row_contents:
  assumes "length dims = length items"
  shows "concat (map picture_of (concat (map pa_items
      (map (\<lambda>((i, sh, body), (w, h)). plain [Picture body (g w h) height]) (zip items dims))))) = map (\<lambda>(i, sh, body). body) items
    \<and> concat (map anchor_of (concat (map pa_items
      (map (\<lambda>((i, sh, body), (w, h)). plain [Picture body (g w h) height]) (zip items dims))))) = []
    \<and> concat (map mark_of (concat (map pa_items
      (map (\<lambda>((i, sh, body), (w, h)). plain [Picture body (g w h) height]) (zip items dims))))) = []"
  using assms
proof (induction items arbitrary: dims)
  case (Cons x items)
  obtain i sh body w h dims' where "x = (i, sh, body)" "dims = (w, h) # dims'" "length dims' = length items"
    using Cons.prems by (cases x; cases dims) auto
  then show ?case using Cons.IH [of dims'] by (simp add: plain_def)
qed simp

lemma side_by_side_contents:
  assumes "side_by_side env items dims = Some es" "length dims = length items"
  shows "anchors es = [] \<and> marks es = [] \<and> pictures es = map (\<lambda>(i, sh, body). body) items"
proof -
  define labels where "labels = map (\<lambda>l. plain [Text (the l)]) (map (\<lambda>(i, sh, body). screenshot_label env sh i) items)"
  define pics where "pics = map (\<lambda>((i, sh, body), (w, h)). plain [Picture body (round_half_even (fl (of_int (w * Min (set (map snd dims))) / of_int h)))
      (Min (set (map snd dims)))]) (zip items dims)"
  have es: "es = [Table [labels, pics]]"
    using assms(1) by (simp add: side_by_side_def Let_def labels_def pics_def split: if_splits)
  have "list_all plain_item (concat (map pa_items labels))"
    by (auto simp: labels_def plain_def list_all_iff)
  note l = plain_items [OF this]
  note p = picture_row_contents [OF assms(2), of "\<lambda>w h. round_half_even (fl (of_int (w * Min (set (map snd dims))) / of_int h))"
      "Min (set (map snd dims))", folded pics_def]
  show ?thesis using l p by (simp add: es anchors_def marks_def pictures_def all_items_def)
qed

lemma add_screenshots_contents:
  assumes "add_screenshots env f shots = Inr es"
  shows "anchors es = [] \<and> marks es = [] \<and> smap (fetch_shot f) shots = Inr (pictures es)"
proof (cases "length shots = 2")
  case True
  then obtain bodies where b: "smap (fetch_shot f) shots = Inr bodies" and p: "add_pair env (zip [1, 2] (zip shots bodies)) = Some es"
    using assms by (auto simp: add_screenshots_def integrity_def need_def split: option.splits)
  have "length bodies = 2" using b True list_all2_lengthD unfolding smap_eq_Inr by fastforce
  then have z: "map (\<lambda>(i, sh, body). body) (zip [1::int, 2] (zip shots bodies)) = bodies"
    using True by (auto simp: numeral_2_eq_2 length_Suc_conv)
  have "anchors es = [] \<and> marks es = [] \<and> pictures es = map (\<lambda>(i, sh, body). body) (zip [1::int, 2] (zip shots bodies))"
    using p side_by_side_contents [of env "zip [1::int, 2] (zip shots bodies)" _ es] stacked_contents
    by (auto simp: add_pair_def Let_def split: if_splits)
  with b z show ?thesis by simp
next
  case False
  then have "\<exists>parts. smap (add_screenshot env f) shots = Inr parts \<and> es = concat parts"
    using assms by (auto simp: add_screenshots_def)
  then obtain parts where "smap (add_screenshot env f) shots = Inr parts" "es = concat parts" by blast
  then show ?thesis
  proof (induction shots arbitrary: parts es)
    case (Cons s shots)
    then obtain part parts' where "add_screenshot env f s = Inr part" "smap (add_screenshot env f) shots = Inr parts'"
        "es = part @ concat parts'" by auto
    moreover obtain body w h where "fetch_shot f s = Inr body" "part = [Para (plain [Picture body w h])]"
      using \<open>add_screenshot env f s = Inr part\<close>
      by (auto simp: add_screenshot_def add_picture_def integrity_def need_def split: option.splits)
    ultimately show ?case using Cons.IH [of parts' "concat parts'"] by (simp add: docx_content plain_def)
  qed (simp add: docx_content)
qed

text \<open>The links, bookmarks and pictures of every block are the ones it asks for.\<close>

definition resolved :: "docx_env \<Rightarrow> json list \<Rightarrow> pystr list \<Rightarrow> bool" where
  "resolved env ts as \<longleftrightarrow> smap (wx_attr env) ts = Inr as"

definition renders :: "docx_env \<Rightarrow> fetcher option \<Rightarrow> block list \<Rightarrow> element list \<Rightarrow> bool" where
  "renders env f bs es \<longleftrightarrow> resolved env (concat (map links_of_block bs)) (anchors es)
     \<and> resolved env (concat (map marks_of_block bs)) (marks es)
     \<and> smap (fetch_shot f) (concat (map rendered_shots bs)) = Inr (pictures es)"

lemma smap_append_Inr: "smap f (xs @ ys) = Inr zs \<longleftrightarrow> (\<exists>us vs. smap f xs = Inr us \<and> smap f ys = Inr vs \<and> zs = us @ vs)"
proof (induction xs arbitrary: zs)
  case (Cons x xs)
  show ?case by (cases "f x") (auto simp: Cons.IH)
qed simp

lemma renders_append: "renders env f bs es \<Longrightarrow> renders env f cs fs \<Longrightarrow> renders env f (bs @ cs) (es @ fs)"
  by (auto simp: renders_def resolved_def smap_append_Inr docx_content)

lemma renders_quiet:
  assumes "quiet es" "links_of_block b = []" "marks_of_block b = []" "rendered_shots b = []"
  shows "renders env f [b] es"
  using quiet_contents [OF assms(1)] assms by (simp add: renders_def resolved_def)

lemma navigation_renders:
  assumes "add_alert_navigation env entries = Inr es"
  shows "renders env f [AlertNavigation entries] es"
proof -
  obtain h h' ps where h: "add_heading env (JStr (u ''Alert Navigation'')) 3 = Inr h" "add_bookmark env ALERTS_START h = Inr h'"
      "smap (\<lambda>e. sbind (add_internal_hyperlink env (nv_target e) (nv_text e)) (\<lambda>is.
         sbind (add_paragraph env JNull (JStr (u ''List Bullet''))) (\<lambda>p. Inr (Para (p\<lparr>pa_items := is\<rparr>))))) entries = Inr ps"
      "es = Para h' # ps"
    using assms by (auto simp: add_alert_navigation_def)
  have "anchors [Para h'] = []" "resolved env [ALERTS_START] (marks [Para h'])" "pictures [Para h'] = []"
    using h(2) plain_items [OF add_heading_plain [OF h(1)]]
    by (auto simp: add_bookmark_def resolved_def docx_content)
  moreover have "resolved env (map nv_target entries) (anchors ps) \<and> marks ps = [] \<and> pictures ps = []"
    using h(3) by (induction entries arbitrary: ps) (auto simp: resolved_def docx_content add_internal_hyperlink_def)
  moreover have "anchors es = anchors [Para h'] @ anchors ps" "marks es = marks [Para h'] @ marks ps"
      "pictures es = pictures [Para h'] @ pictures ps"
    by (simp_all add: h(4) docx_content)
  ultimately show ?thesis by (simp add: renders_def)
qed

lemma incident_renders:
  assumes "add_incident_evidence env f prov e = Inr es"
  shows "renders env f [IncidentEvidence e] es"
proof -
  obtain h shots meta links log prv where parts: "es = h @ shots @ meta @ links @ log @ prv"
      and h: "sbind (add_heading env JNull 2) (\<lambda>h.
        sbind (if truthy (ie_navigation_target e) then add_internal_hyperlink env (ie_navigation_target e) (ie_heading e)
               else add_run env (ie_heading e)) (\<lambda>is. Inr [Para (h\<lparr>pa_items := is\<rparr>)])) = Inr h"
      and s: "add_screenshots env f (ie_screenshots e) = Inr shots"
      and m: "in_turn (map (add_metadata env) (ie_metadata e)) = Inr meta"
      and l: "in_turn (map (add_link_paragraph env) ((case ie_link e of Some l \<Rightarrow> [l] | None \<Rightarrow> []) @ ie_links e)) = Inr links"
      and g: "when_some (ie_log_file e) (add_log_file env) = Inr log"
      and i: "(if prov \<and> truthy (ie_incident_id e) then line env (u ''Incident ID: '' @ show_str env (ie_incident_id e)) else Inr []) = Inr prv"
    using assms unfolding add_incident_evidence_def
    by (subst (asm) in_turn_Inr) (clarsimp simp: Cons_eq_map_conv)
  have "quiet meta" using in_turn_quiet [OF m] add_metadata_quiet by fastforce
  moreover have "quiet links" using in_turn_quiet [OF l] add_link_paragraph_quiet by fastforce
  moreover have "quiet log" using g add_log_file_quiet by (auto simp: when_some_def split: option.splits)
  moreover have "quiet prv" using i line_quiet by (auto split: if_splits)
  ultimately have q: "quiet (meta @ links @ log @ prv)" by simp
  have "resolved env (links_of_block (IncidentEvidence e)) (anchors h) \<and> marks h = [] \<and> pictures h = []"
    using h plain_items [OF add_run_plain]
    by (auto simp: resolved_def docx_content add_internal_hyperlink_def split: if_splits)
  with quiet_contents [OF q] add_screenshots_contents [OF s] show ?thesis
    by (simp add: renders_def parts docx_content resolved_def)
qed

lemma analysis_head_contents:
  assumes "analysis_head env f prov a = Inr es"
  shows "anchors es = [] \<and> resolved env (if truthy (ar_bookmark a) then [ar_bookmark a] else []) (marks es)
    \<and> smap (fetch_shot f) (ar_screenshots a) = Inr (pictures es)"
proof -
  obtain h shots log run prv where parts: "es = h @ shots @ log @ run @ prv"
      and h: "sbind (add_heading env (ar_heading a) 2) (\<lambda>h.
        sbind (if truthy (ar_bookmark a) then add_bookmark env (ar_bookmark a) h else Inr h) (\<lambda>h'. Inr [Para h'])) = Inr h"
      and s: "add_screenshots env f (ar_screenshots a) = Inr shots"
      and g: "when_some (ar_log_file a) (add_log_file env) = Inr log"
      and r: "(if prov \<and> truthy (ar_analysis_run_id a) then line env (u ''Analysis reference: '' @ show_str env (ar_analysis_run_id a)) else Inr []) = Inr run"
      and m: "(if prov then in_turn (map (\<lambda>m. line env (metadata_text env m)) (ar_metadata a @ ar_provenance a)) else Inr []) = Inr prv"
    using assms unfolding analysis_head_def
    by (subst (asm) in_turn_Inr) (clarsimp simp: Cons_eq_map_conv)
  have "quiet log" using g add_log_file_quiet by (auto simp: when_some_def split: option.splits)
  moreover have "quiet run" using r line_quiet by (auto split: if_splits)
  moreover have "quiet prv" using m in_turn_quiet line_quiet by (fastforce split: if_splits)
  ultimately have q: "quiet (log @ run @ prv)" by simp
  obtain p where p: "add_heading env (ar_heading a) 2 = Inr p" using h by auto
  have "anchors h = [] \<and> resolved env (if truthy (ar_bookmark a) then [ar_bookmark a] else []) (marks h) \<and> pictures h = []"
  proof (cases "truthy (ar_bookmark a)")
    case True
    then obtain p' where "add_bookmark env (ar_bookmark a) p = Inr p'" "h = [Para p']" using h p by auto
    with True plain_items [OF add_heading_plain [OF p]] show ?thesis
      by (auto simp: resolved_def docx_content add_bookmark_def)
  next
    case False
    with h p have "h = [Para p]" by simp
    with False plain_items [OF add_heading_plain [OF p]] show ?thesis by (simp add: resolved_def docx_content)
  qed
  with quiet_contents [OF q] add_screenshots_contents [OF s] show ?thesis
    by (simp add: parts docx_content resolved_def)
qed

lemma analysis_tail_contents:
  assumes "analysis_tail env a = Inr es"
  shows "resolved env (if truthy (ar_bookmark a) then [ALERTS_START] else []) (anchors es) \<and> marks es = [] \<and> pictures es = []"
proof -
  let ?pair = "\<lambda>b. in_turn [optional_line env (bt_zh b), optional_line env (bt_en b)]"
  obtain p1 p2 p3 p4 p5 ending where parts: "es = p1 @ p2 @ p3 @ p4 @ p5 @ ending"
      and p: "when_some (ar_summary a) (add_bilingual_text env) = Inr p1"
        "when_some (ar_key_finds a) (add_bilingual_find_list env) = Inr p2"
        "when_some (ar_secondary_finds a) (add_bilingual_find_list env) = Inr p3"
        "when_some (ar_likely_cause a) ?pair = Inr p4" "when_some (ar_recommended_action a) ?pair = Inr p5"
      and b: "(if truthy (ar_bookmark a) then sbind (add_internal_hyperlink env ALERTS_START (JStr (8593 # u '' Back to Alerts'')))
        (\<lambda>is. Inr [Para (plain is)]) else Inr []) = Inr ending"
    using assms unfolding analysis_tail_def
    by (subst (asm) in_turn_Inr) (clarsimp simp: Cons_eq_map_conv)
  have pair: "?pair x = Inr es' \<Longrightarrow> quiet es'" for x es'
    using optional_line_quiet by (auto simp: in_turn_Inr Cons_eq_map_conv)
  have w: "when_some v g = Inr es' \<Longrightarrow> (\<And>x es'. g x = Inr es' \<Longrightarrow> quiet es') \<Longrightarrow> quiet es'" for v :: "'b option" and g es'
    by (auto simp: when_some_def split: option.splits)
  have "quiet p1" "quiet p2" "quiet p3" "quiet p4" "quiet p5"
    using w [OF p(1)] w [OF p(2)] w [OF p(3)] w [OF p(4)] w [OF p(5)] add_bilingual_text_quiet add_bilingual_find_list_quiet pair
    by blast+
  then have q: "quiet (p1 @ p2 @ p3 @ p4 @ p5)" by simp
  have "resolved env (if truthy (ar_bookmark a) then [ALERTS_START] else []) (anchors ending) \<and> marks ending = [] \<and> pictures ending = []"
    using b by (auto simp: resolved_def docx_content add_internal_hyperlink_def plain_def split: if_splits)
  with quiet_contents [OF q] show ?thesis by (simp add: parts docx_content)
qed

lemma render_block_renders:
  "render_block env f prov b = Inr es \<Longrightarrow> renders env f [b] es"
  "render_blocks env f prov bs = Inr es \<Longrightarrow> renders env f bs es"
proof (induction env f prov b and env f prov bs arbitrary: es and es rule: render_block_render_blocks.induct)
  case (14 env f prov a ch)
  obtain front where front: "analysis_head env f prov a = Inr front" using 14(2) by auto
  note c = analysis_head_contents [OF front]
  show ?case
  proof (cases "ar_available a")
    case True
    then obtain mid ending where m: "render_blocks env f prov ch = Inr mid" "analysis_tail env a = Inr ending" "es = front @ mid @ ending"
      using 14(2) front by auto
    have "renders env f ch mid" using 14(1) [OF front _ m(1)] True by simp
    with c analysis_tail_contents [OF m(2)] True show ?thesis
      by (auto simp: renders_def resolved_def m(3) docx_content smap_append_Inr)
  next
    case False
    then obtain p where "add_paragraph env (por (ar_unavailable_text a) (JStr (u ''No analysis available.''))) JNull = Inr p"
        "es = front @ [Para p]" using 14(2) front by auto
    with c False plain_items [OF add_paragraph_plain] show ?thesis
      by (auto simp: renders_def resolved_def docx_content)
  qed
next
  case (1 env f prov t l)
  then obtain p where "add_heading env t l = Inr p" "es = [Para p]" by auto
  with add_heading_plain show ?case by (auto intro: renders_quiet)
next
  case (2 env f prov t s)
  then obtain p where "add_paragraph env t (if truthy s then s else JNull) = Inr p" "es = [Para p]" by auto
  with add_paragraph_plain [OF this(1)] show ?case by (auto intro: renders_quiet)
next
  case (15 env f prov)
  then show ?case by (simp add: renders_def resolved_def docx_content)
next
  case (16 env f prov b bs)
  then obtain es1 es2 where "render_block env f prov b = Inr es1" "render_blocks env f prov bs = Inr es2" "es = es1 @ es2" by auto
  with 16 renders_append [of env f "[b]" es1 bs es2] show ?case by auto
next
  case (6 env f prov s)
  have "add_screenshots env f [s] = Inr es" using 6 by (simp add: add_screenshots_def)
  from add_screenshots_contents [OF this] show ?case by (simp add: renders_def resolved_def)
qed (auto intro: renders_quiet navigation_renders incident_renders dest: steps_quiet parts_plain simp: plain_def)

lemma render_document_renders:
  assumes "render_document env f prov d = Inr w"
  shows "renders env f (rd_blocks d) (wd_body w)"
proof -
  obtain title sub audit body where parts: "wd_body w = Para title # sub @ audit @ body"
      and t: "add_heading env (rd_title d) 0 = Inr title" and s: "subtitle env (rd_metadata d) = Inr sub"
      and a: "audit_section env prov (rd_provenance d) = Inr audit" and b: "render_blocks env f prov (rd_blocks d) = Inr body"
    using assms by (auto simp: render_document_def)
  have "quiet sub" using s add_paragraph_plain by (auto simp: subtitle_def split: if_splits)
  moreover have "quiet audit"
    using a add_heading_plain in_turn_quiet line_quiet by (fastforce simp: audit_section_def split: if_splits)
  ultimately have "quiet (Para title # sub @ audit)" using add_heading_plain [OF t] by simp
  with quiet_simps(2) [of "Para title # sub @ audit" "[]"] have q: "quiet (Para title # sub @ audit)" by simp
  have "wd_body w = (Para title # sub @ audit) @ body" by (simp add: parts)
  with quiet_contents [OF q] render_block_renders(2) [OF b] show ?thesis
    by (simp only: renders_def contents_append append_Nil)
qed

text \<open>The children of a composed analysis neither link nor carry a bookmark.\<close>

lemma prose_quiet: "list_all is_prose bs \<Longrightarrow> concat (map links_of_block bs) = [] \<and> concat (map marks_of_block bs) = []"
proof (induction bs)
  case (Cons b bs)
  then show ?case by (cases b) auto
qed simp

definition no_links :: "block \<Rightarrow> bool" where
  "no_links b \<longleftrightarrow> links_of_block b = [] \<and> marks_of_block b = []"

lemma analysis_children_no_links:
  assumes "analysis_children env i fragment = Inr ch" "\<not> is_dict (jget (jget i ''analysis'') ''report_presentation'')"
  shows "list_all no_links ch"
proof -
  have "list_all no_links bs"
    if "build_analysis_presentation env (jget i ''analysis'') (jget i ''analysis_presentation_contract'') = Inr bs" for bs
    using that assms(2)
    by (auto simp: build_analysis_presentation_def language_section_def presentation_find_list_def no_links_def Let_def
        split: if_splits)
  moreover have "list_all no_links bs" if "compact_children env fragment = Inr bs" for bs
    using that by (auto simp: compact_children_def no_links_def split: option.splits)
  ultimately show ?thesis
    using assms(1) by (auto simp: analysis_children_def no_links_def split: sum.splits doc_error.splits if_splits)
qed

lemma analysis_block_no_links:
  assumes "analysis_block env i nd n = Inr (a, ch)" "\<not> is_dict (jget (jget i ''analysis'') ''report_presentation'')"
  shows "list_all no_links ch"
  using assms(1) analysis_children_no_links [OF _ assms(2)]
  by (auto simp: analysis_block_def Let_def split: if_splits)

lemma no_links_concat: "list_all no_links bs \<Longrightarrow> concat (map links_of_block bs) = [] \<and> concat (map marks_of_block bs) = []"
  by (induction bs) (auto simp: no_links_def)

lemma resolved_subset:
  assumes "resolved env ts as" "resolved env us bs" "set ts \<subseteq> set us"
  shows "set as \<subseteq> set bs"
proof
  fix a assume "a \<in> set as"
  then obtain t where t: "t \<in> set ts" "wx_attr env t = Inr a"
    using assms(1) unfolding resolved_def smap_eq_Inr list_all2_conv_all_nth by (metis in_set_conv_nth)
  then have "t \<in> set us" using assms(3) by blast
  then obtain b where "b \<in> set bs" "wx_attr env t = Inr b"
    using assms(2) unfolding resolved_def smap_eq_Inr list_all2_conv_all_nth by (metis in_set_conv_nth)
  with t show "a \<in> set bs" by simp
qed

lemma index_incidents_truthy: "index_incidents env tbl seen items = Inr r \<Longrightarrow> i \<in> set items \<Longrightarrow> truthy (jget i ''id'')"
  by (induction items arbitrary: tbl seen) (auto simp: Let_def split: if_splits)

text \<open>With full coverage, everything a composed report links to carries a bookmark.\<close>

lemma composed_links_are_marked:
  assumes "compose_report env cal plan snapshot = Inr d"
    and "py_iter (por (jget snapshot ''incidents'') (JArr [])) = Inr items"
    and "jget (jget snapshot ''coverage'') ''incidents'' = JStr (u ''all'')"
    and "jget (jget snapshot ''coverage'') ''analyses'' = JStr (u ''all_available'')"
    and "\<forall>i\<in>set items. is_str (jget i ''id'') \<and> \<not> is_dict (jget (jget i ''analysis'') ''report_presentation'')"
  shows "set (concat (map links_of_block (rd_blocks d))) \<subseteq> set (concat (map marks_of_block (rd_blocks d)))"
proof -
  obtain tbl summary st as evs date where c: "composition env cal plan snapshot items tbl items summary st as evs date d"
    using compose_report_composition [OF assms(1)] assms(2) by (metis (no_types, lifting) Inr_inject composition_def)
  have cov: "por (jget snapshot ''coverage'') (JObj []) = jget snapshot ''coverage''"
    using assms(3) jlookup_truthy by (fastforce simp: por_def jget_def split: option.splits)
  have al: "alert_incidents (jget snapshot ''coverage'') tbl items st = items"
    and an: "set (analysis_incidents (jget snapshot ''coverage'') tbl items st) \<subseteq> set items"
    using assms(3,4) by (auto simp: alert_incidents_def analysis_incidents_def)
  let ?ts = "analysis_targets as" and ?bs = "rd_blocks d"
  have b: "?bs = document_blocks (navigation env ?ts items) evs summary as"
    using c by (simp add: composition_def Let_def cov al)
  have p: "list_all is_prose summary"
    using c by (intro read_plan_prose) (auto simp: composition_def Let_def)
  have prose: "x \<notin> set (links_of_block y)" if "y \<in> set summary" for x y
  proof -
    have "is_prose y" using that p by (auto simp: list_all_iff)
    then show ?thesis by (cases y) auto
  qed
  let ?L = "analysis_incidents (jget snapshot ''coverage'') tbl items st"
  have s: "smap (\<lambda>(n, i). analysis_block env i (reference_node env (jhas plan ''general_summary'') st i)
      (alert_number env items i n)) (enumerate 1 ?L) = Inr as"
    using c by (simp add: composition_def Let_def cov al)
  have e: "smap (\<lambda>(n, i). incident_block env (is_canonical snapshot) n (target_of env (analysis_targets as) i) i)
      (enumerate 1 items) = Inr evs"
    using c by (simp add: composition_def Let_def cov al)
  have an_block: "\<exists>i n nd. i \<in> set items \<and> analysis_block env i nd n = Inr (a, ch)" if x: "(a, ch) \<in> set as" for a ch
  proof -
    obtain k where k: "k < length as" "as ! k = (a, ch)" using x by (auto simp: in_set_conv_nth)
    from s have l: "length as = length ?L" and n: "\<And>k. k < length ?L \<Longrightarrow> analysis_block env (?L ! k)
        (reference_node env (jhas plan ''general_summary'') st (?L ! k)) (alert_number env items (?L ! k) (1 + k)) = Inr (as ! k)"
      unfolding smap_enumerate by blast+
    have "?L ! k \<in> set items" using an nth_mem [of k ?L] k(1) l by auto
    with n [of k] k l show ?thesis by auto
  qed
  have ids: "incident_id env i \<noteq> []" if "i \<in> set items" for i
  proof -
    have "index_incidents env [] [] items = Inr (tbl, items)" using c by (simp add: composition_def Let_def)
    from index_incidents_truthy [OF this that] assms(5) that show ?thesis by (auto simp: incident_id_def py_str_def is_str_iff)
  qed
  have marked: "ar_bookmark a \<in> set (concat (map marks_of_block ?bs))"
    if "(a, ch) \<in> set as" "truthy (ar_bookmark a)" for a ch
  proof -
    have "AnalysisReference a ch \<in> set ?bs" using that(1) by (simp only: b document_blocks_mem [OF p refl])
    then show ?thesis using that(2) by (force simp: marks_of_block.simps)
  qed
  have started: "ALERTS_START \<in> set (concat (map marks_of_block ?bs))"
    if x: "(a, ch) \<in> set as" "ar_available a" for a ch
  proof -
    obtain i n nd where i: "i \<in> set items" "analysis_block env i nd n = Inr (a, ch)" using an_block [OF x(1)] by blast
    have f: "ar_incident_id a = JStr (incident_id env i)" "ar_bookmark a = JStr (bookmark_name env (incident_id env i))"
      using analysis_block_fields [OF i(2)] x(2) by blast+
    then have "(JStr (incident_id env i), ar_bookmark a) \<in> set ?ts"
      using x ids [OF i(1)] by (auto simp: analysis_targets_mem bookmark_name_def)
    then have "map_of (rev ?ts) (JStr (incident_id env i)) \<noteq> None" by (metis set_rev weak_map_of_SomeI option.discI)
    moreover have "i \<in> snd ` set (enumerate 1 items)" using i(1) by (simp flip: set_map)
    then obtain k where "(k, i) \<in> set (enumerate 1 items)" by force
    ultimately have "filter (\<lambda>(n, i). map_of (rev ?ts) (JStr (incident_id env i)) \<noteq> None) (enumerate 1 items) \<noteq> []"
      unfolding filter_empty_conv by blast
    then have "\<exists>es. navigation env ?ts items = [AlertNavigation es]" by (simp add: navigation_def Let_def)
    then show ?thesis by (auto simp: b document_blocks_def)
  qed
  have target: "t \<in> set (concat (map marks_of_block ?bs))" if t: "(k, t) \<in> set ?ts" for k t
    using t marked by (fastforce simp: analysis_targets_mem)
  have aimed: "target_of env ?ts i \<in> set (concat (map marks_of_block ?bs))" if x: "truthy (target_of env ?ts i)" for i
  proof -
    obtain t where "map_of (rev ?ts) (JStr (incident_id env i)) = Some t" "target_of env ?ts i = t"
      using x by (cases "map_of (rev ?ts) (JStr (incident_id env i))") (auto simp: target_of_def)
    with target target_of_mem [of ?ts] show ?thesis by blast
  qed
  show ?thesis
  proof
    fix t assume "t \<in> set (concat (map links_of_block ?bs))"
    then obtain x where x: "x \<in> set ?bs" "t \<in> set (links_of_block x)" by auto
    then consider es where "x = AlertNavigation es" "x \<in> set (navigation env ?ts items)"
      | ev where "x = IncidentEvidence ev" "ev \<in> set evs" | a ch where "x = AnalysisReference a ch" "(a, ch) \<in> set as"
      using prose by (auto simp: b document_blocks_def navigation_def Let_def split: if_splits)
    then show "t \<in> set (concat (map marks_of_block ?bs))"
    proof cases
      case 1
      then obtain i where "t = target_of env ?ts i" "map_of (rev ?ts) (JStr (incident_id env i)) \<noteq> None"
        using x(2) by (force simp: navigation_def Let_def split: if_splits)
      then show ?thesis using target target_of_mem [of ?ts] by (fastforce simp: target_of_def)
    next
      case 2
      then obtain k where "k < length evs" "evs ! k = ev" by (auto simp: in_set_conv_nth)
      moreover from e have "length evs = length items" "\<And>k. k < length items \<Longrightarrow> incident_block env (is_canonical snapshot)
          (1 + k) (target_of env ?ts (items ! k)) (items ! k) = Inr (evs ! k)"
        unfolding smap_enumerate by blast+
      ultimately obtain n i where "incident_block env (is_canonical snapshot) n (target_of env ?ts i) i = Inr ev" by metis
      then have "ie_navigation_target ev = target_of env ?ts i" by (rule incident_block_fields)
      then show ?thesis using x(2) 2 aimed by (auto split: if_splits)
    next
      case 3
      obtain i n nd where i: "i \<in> set items" "analysis_block env i nd n = Inr (a, ch)" using an_block [OF 3(2)] by blast
      have "list_all no_links ch" using analysis_block_no_links [OF i(2)] assms(5) i(1) by blast
      with no_links_concat have "concat (map links_of_block ch) = []" by blast
      then show ?thesis using x(2) 3 started by (auto split: if_splits)
    qed
  qed
qed

section \<open>Properties\<close>

text \<open>A rendered report shows every screenshot it has: rendering succeeds only if every screenshot of the document was
  fetched, and then the pictures of the DOCX file are exactly the bytes fetched for them, in order. A fetch asks for the
  frozen version and checksum; only after a \<open>TypeError\<close> it is repeated with bucket and key alone.\<close>

theorem every_screenshot_is_embedded:
  assumes "render_document env f prov d = Inr w"
  defines "shots \<equiv> concat (map rendered_shots (rd_blocks d))"
  shows "length (pictures (wd_body w)) = length shots
    \<and> (\<forall>k<length shots. pictures (wd_body w) ! k \<noteq> [] \<and> (\<exists>g. f = Some g
        \<and> (g (sh_bucket (shots ! k)) (sh_object_key (shots ! k)) (Some (sh_version_id (shots ! k), sh_sha256 (shots ! k)))
             = Inr (pictures (wd_body w) ! k)
           \<or> (\<exists>e. g (sh_bucket (shots ! k)) (sh_object_key (shots ! k)) (Some (sh_version_id (shots ! k), sh_sha256 (shots ! k)))
                = Inl e \<and> ex_class e = type_error
                \<and> g (sh_bucket (shots ! k)) (sh_object_key (shots ! k)) None = Inr (pictures (wd_body w) ! k)))))"
proof -
  have s: "smap (fetch_shot f) shots = Inr (pictures (wd_body w))"
    using render_document_renders [OF assms(1)] by (simp add: renders_def shots_def)
  have "fetch_shot f sh = Inr body \<Longrightarrow> body \<noteq> [] \<and> (\<exists>g. f = Some g
        \<and> (g (sh_bucket sh) (sh_object_key sh) (Some (sh_version_id sh, sh_sha256 sh)) = Inr body
           \<or> (\<exists>e. g (sh_bucket sh) (sh_object_key sh) (Some (sh_version_id sh, sh_sha256 sh)) = Inl e \<and> ex_class e = type_error
                \<and> g (sh_bucket sh) (sh_object_key sh) None = Inr body)))" for sh body
    by (auto simp: fetch_shot_def split: option.splits sum.splits if_splits)
  note shown = this
  have l: "length shots = length (pictures (wd_body w))"
    and n: "\<And>k. k < length shots \<Longrightarrow> fetch_shot f (shots ! k) = Inr (pictures (wd_body w) ! k)"
    using s by (auto simp: smap_eq_Inr list_all2_conv_all_nth)
  show ?thesis using l shown [OF n] by auto
qed


section \<open>A sample report\<close>

fun accept :: "json \<Rightarrow> py_exn + pystr" where
  "accept (JStr s) = Inr s"
| "accept _ = Inl (exn type_error)"

definition sample_docx_env :: docx_env where
  "sample_docx_env = \<lparr>wx_doc = Report_Composition.sample_env, wx_text = accept, wx_xml = accept, wx_attr = accept, wx_style = (\<lambda>s. True),
     wx_hex = (\<lambda>s. Some 10), wx_casefold = (\<lambda>s. s), wx_image = (\<lambda>b. Some (48, 48, 96, 96))\<rparr>"

lemma sample_docx_fields [simp]: "wx_text sample_docx_env = accept" "wx_xml sample_docx_env = accept" "wx_attr sample_docx_env = accept"
  "wx_style sample_docx_env v" "wx_hex sample_docx_env s = Some 10" "wx_doc sample_docx_env = Report_Composition.sample_env"
  by (simp_all add: sample_docx_env_def)

definition one_incident :: json where
  "one_incident = jobj [(''id'', JStr [97]), (''title'', JStr [65]), (''analysis_run_id'', JStr [114]),
     (''report_fragment'', jobj [(''summary'', jobj [(''zh'', JStr [90]), (''en'', JStr [90])])])]"

definition one_snapshot :: json where
  "one_snapshot = jobj [(''composition_profile'', JStr (u ''noc-daily-report-v1'')),
     (''coverage'', jobj [(''incidents'', JStr (u ''all'')), (''analyses'', JStr (u ''all_available''))]),
     (''shift_starts_at'', JStr [84]), (''incidents'', JArr [one_incident])]"

lemma jget_empty [simp]: "jget (JObj []) k = JNull"
  by (simp add: jget_def)

lemma one_incident_id: "incident_id Report_Composition.sample_env one_incident = [97]"
  by (simp add: incident_id_def one_incident_def jget_jobj py_str_def)

lemma sample_renders:
  "\<exists>d w. compose_report (wx_doc sample_docx_env) sample_calendar (sample_plan 65) one_snapshot = Inr d
     \<and> render_document sample_docx_env f False d = Inr w"
proof -
  have s: "py_strip [65] = [65]" by (simp add: py_strip_def py_lstrip_def py_space_def)
  have st: "py_strip [84] = [84]" "py_strip (u ''UTC'') = u ''UTC''"
    by (simp_all add: py_strip_def py_lstrip_def py_space_def u_def)
  let ?env = Report_Composition.sample_env
  have i: "is_dict one_incident" "truthy (jget one_incident ''id'')" "\<not> truthy (jget one_incident ''display_id'')"
     "truthy (jget one_incident ''analysis_run_id'')"
    by (simp_all add: one_incident_def jget_jobj)
  have "index_incidents ?env [] [] [one_incident] = Inr ([([97], one_incident)], [one_incident])"
    by (simp add: i one_incident_id)
  have a: "\<exists>a. analysis_block ?env one_incident None n = Inr (a, [Heading (JStr (u ''Log Analysis'')) 3,
                  BilingualText \<lparr>bt_zh = JStr [90], bt_en = JStr [90],
                     bt_heading_zh = JStr (u ''Chinese''),
                     bt_heading_en = JStr (u ''English'')\<rparr>]) \<and> ar_available a \<and> ar_screenshots a = [] \<and> ar_log_file a = None
                     \<and> ar_bookmark a = JStr (u ''log_analysis_'' @ [97])
                     \<and> (\<exists>h. ar_heading a = JStr h) \<and> ar_summary a = None \<and> ar_key_finds a = None \<and> ar_secondary_finds a = None
                     \<and> ar_likely_cause a = None \<and> ar_recommended_action a = None" for n
    by (simp add: analysis_block_def check_reference_def one_incident_def jget_jobj por_def analysis_children_def
        build_analysis_presentation_def compact_children_def fragment_pair_def text_or_def incident_shots_def Let_def empty_analysis_def
        incident_heading_def section_log_file_def bookmark_name_def incident_id_def py_str_def Report_Composition.sample_env_def str_of_def alert_heading_def)
  have b: "\<exists>e. incident_block ?env True n t one_incident = Inr e \<and> ie_navigation_target e = t \<and> ie_screenshots e = [] 
     \<and> ie_metadata e = [] \<and> ie_link e = None \<and> ie_links e = [] \<and> ie_log_file e = None \<and> (\<exists>h. ie_heading e = JStr h)" for n t
    by (simp add: incident_block_def incident_shots_def one_incident_def jget_jobj por_def evidence_facts_def facts_def present_def
       incident_links_def section_log_file_def incident_heading_def alert_heading_def)
  obtain a where a1: "analysis_block ?env one_incident None 1 = Inr (a, [Heading (JStr (u ''Log Analysis'')) 3,
                  BilingualText \<lparr>bt_zh = JStr [90], bt_en = JStr [90],
                     bt_heading_zh = JStr (u ''Chinese''),
                     bt_heading_en = JStr (u ''English'')\<rparr>])"
     using a [of 1] by blast
  note f = analysis_block_fields [OF a1]
  have t: "analysis_targets [(a, ch)] = [(JStr [97], JStr (u ''log_analysis_'' @ [97]))]" for ch
    using a [of 1] a1 f by (auto simp: analysis_targets_def one_incident_id)
  obtain e where e: "incident_block ?env True 1 (JStr (u ''log_analysis_'' @ [97])) one_incident = Inr e" using b by blast
  have al: "alert_number ?env [one_incident] one_incident 1 = 1"
    by (simp add: alert_number_def enumerate_eq_zip)
  have snap: "jget one_snapshot ''coverage'' = jobj [(''incidents'', JStr (u ''all'')), (''analyses'', JStr (u ''all_available''))]"
    "jget one_snapshot ''composition_profile'' = JStr (u ''noc-daily-report-v1'')" "jget one_snapshot ''incidents'' = JArr [one_incident]"
    "jget one_snapshot ''shift_starts_at'' = JStr [84]"
    by (simp_all add: one_snapshot_def jget_jobj)
  have none: "jget one_snapshot k = JNull" if "k \<notin> {''composition_profile'', ''coverage'', ''shift_starts_at'', ''incidents''}" for k
    using that by (simp add: one_snapshot_def jget_jobj)
  have ix: "index_incidents ?env [] [] [one_incident] = Inr ([([97], one_incident)], [one_incident])"
    by (simp add: i one_incident_id)
  have plan: "read_plan ?env True tbl items (sample_plan 65) = Inr ([BilingualText \<lparr>bt_zh = JStr [65], bt_en = JStr [65], bt_heading_zh = JStr (u ''Chinese Summary''), bt_heading_en = JStr (u ''English Summary'')\<rparr>], no_refs)" for tbl items
    by (simp add: read_plan_def sample_plan_def jget_jobj jhas_def narrative_summary_def required_text_def s)
  have pl: "is_dict (sample_plan 65)" "jhas (sample_plan 65) ''general_summary''" by (simp_all add: sample_plan_def jhas_def)
  have date: "report_date ?env sample_calendar one_snapshot = Some [68]"
    by (simp add: report_date_def snap none parse_shift_timestamp_def por_def st sample_calendar_def Report_Composition.sample_env_def py_str_def str_of_def)
  note facts = a1 [unfolded One_nat_def] e [unfolded One_nat_def] al [unfolded One_nat_def]
  have c: "\<exists>d. compose_report ?env sample_calendar (sample_plan 65) one_snapshot = Inr d
      \<and> rd_blocks d = document_blocks (navigation ?env [(JStr [97], JStr (u ''log_analysis_'' @ [97]))] [one_incident]) [e]
          [BilingualText \<lparr>bt_zh = JStr [65], bt_en = JStr [65], bt_heading_zh = JStr (u ''Chinese Summary''),
            bt_heading_en = JStr (u ''English Summary'')\<rparr>]
          [(a, [Heading (JStr (u ''Log Analysis'')) 3, BilingualText \<lparr>bt_zh = JStr [90], bt_en = JStr [90],
            bt_heading_zh = JStr (u ''Chinese''), bt_heading_en = JStr (u ''English'')\<rparr>])]
      \<and> rd_title d = JStr (u ''Daily Alert & Log Analysis Report'')
      \<and> rd_metadata d = [\<lparr>md_label = JStr (u ''Date''), md_value = JStr [68]\<rparr>,
           \<lparr>md_label = JStr (u ''Shift''), md_value = str_of ?env (JStr (u ''Shift''))\<rparr>]"
    by (simp add: facts compose_report_def snap none por_def is_canonical_def pl ix plan jget_jobj check_def Let_def check_coverage_def alert_incidents_def
        analysis_incidents_def i no_refs_def reference_node_def enumerate_eq_zip al a1 t target_of_def one_incident_id e date jget_or_def)
  obtain h where fa: "ar_available a" "ar_screenshots a = []" "ar_log_file a = None" "ar_bookmark a = JStr (u ''log_analysis_'' @ [97])"
      "ar_heading a = JStr h" "ar_summary a = None" "ar_key_finds a = None" "ar_secondary_finds a = None"
      "ar_likely_cause a = None" "ar_recommended_action a = None"
    using a [of 1] a1 by auto
  obtain h' where fe: "ie_navigation_target e = JStr (u ''log_analysis_'' @ [97])" "ie_screenshots e = []" "ie_metadata e = []"
      "ie_link e = None" "ie_links e = []" "ie_log_file e = None" "ie_heading e = JStr h'"
    using b [of 1 "JStr (u ''log_analysis_'' @ [97])"] e by auto
  have nav: "navigation ?env [(JStr [97], JStr (u ''log_analysis_'' @ [97]))] [one_incident]
      = [AlertNavigation [\<lparr>nv_text = incident_heading ?env ''Incident'' 1 one_incident, nv_target = JStr (u ''log_analysis_'' @ [97])\<rparr>]]"
    by (simp add: navigation_def enumerate_eq_zip one_incident_id target_of_def)
  have hd: "\<exists>h. incident_heading ?env n k one_incident = JStr h" for n k
    by (simp add: incident_heading_def alert_heading_def)
  then obtain g where g: "incident_heading ?env ''Incident'' 1 one_incident = JStr g" by blast
  have "in_turn [] = Inr []" "\<And>x xs. in_turn (x # xs) = sbind x (\<lambda>e. sbind (in_turn xs) (\<lambda>es. Inr (e @ es)))"
    subgoal by (simp add: in_turn_def)
    subgoal for x xs by (cases x; cases "smap id xs") (simp_all add: in_turn_def)
    done
  note turn = this
  obtain d where d: "compose_report ?env sample_calendar (sample_plan 65) one_snapshot = Inr d"
      "rd_blocks d = document_blocks (navigation ?env [(JStr [97], JStr (u ''log_analysis_'' @ [97]))] [one_incident]) [e]
          [BilingualText \<lparr>bt_zh = JStr [65], bt_en = JStr [65], bt_heading_zh = JStr (u ''Chinese Summary''),
            bt_heading_en = JStr (u ''English Summary'')\<rparr>]
          [(a, [Heading (JStr (u ''Log Analysis'')) 3, BilingualText \<lparr>bt_zh = JStr [90], bt_en = JStr [90],
            bt_heading_zh = JStr (u ''Chinese''), bt_heading_en = JStr (u ''English'')\<rparr>])]"
      "rd_title d = JStr (u ''Daily Alert & Log Analysis Report'')"
      "rd_metadata d = [\<lparr>md_label = JStr (u ''Date''), md_value = JStr [68]\<rparr>,
           \<lparr>md_label = JStr (u ''Shift''), md_value = str_of ?env (JStr (u ''Shift''))\<rparr>]"
    using c by blast
  have para: "\<exists>p. add_paragraph sample_docx_env (JStr s) st = Inr p" for s st
    by (simp add: add_paragraph_def add_run_def)
  have "\<exists>w. render_document sample_docx_env f False d = Inr w"
    by (simp add: render_document_def d(2-4) document_blocks_def nav g [unfolded One_nat_def] add_run_def add_paragraph_def add_heading_def footer_of_def
        join_values_def value_of_def subtitle_def audit_section_def add_alert_navigation_def add_bookmark_def bookmark_id_def
        ALERTS_START_def add_internal_hyperlink_def add_incident_evidence_def analysis_head_def analysis_tail_def turn fa fe
        add_screenshots_def when_some_def add_bilingual_text_def language_text_def str_of_def py_str_def)
  with d(1) show ?thesis by simp
qed


definition one_shot :: report_document where
  "one_shot = \<lparr>rd_title = JStr [82], rd_blocks = [Screenshot \<lparr>sh_bucket = JStr [98], sh_object_key = JStr [107], sh_filename = JNull,
     sh_version_id = JStr [118], sh_sha256 = JStr [104], sh_content_type = JNull, sh_byte_size = JNull\<rparr>], rd_metadata = [], rd_provenance = []\<rparr>"

theorem every_screenshot_is_embedded_witness:
  "\<exists>w. render_document sample_docx_env (Some (\<lambda>b k v. Inr [1])) False one_shot = Inr w \<and> length (pictures (wd_body w)) = 1"
proof -
  have "fl (1 / 2) = 1 / 2" by code_simp
  then have "scaled_dimensions sample_docx_env [1] SINGLE_MAX_WIDTH SINGLE_MAX_HEIGHT \<noteq> None"
    by (simp add: scaled_dimensions_def sample_docx_env_def Let_def)
  then obtain w where w: "render_document sample_docx_env (Some (\<lambda>b k v. Inr [1])) False one_shot = Inr w"
    by (auto simp: render_document_def one_shot_def add_run_def add_paragraph_def add_heading_def footer_of_def join_values_def
        value_of_def subtitle_def audit_section_def add_screenshot_def fetch_shot_def add_picture_def integrity_def need_def)
  have "length (concat (map rendered_shots (rd_blocks one_shot))) = 1" by (simp add: one_shot_def)
  with every_screenshot_is_embedded [OF w] w show ?thesis by auto
qed

end
