(* ===== verification/Report_Jobs.thy ===== *)
theory Report_Jobs
  imports Docx_Render
begin

text \<open>
  The daily-report processor of \<^verbatim>\<open>bridge/noc_bridge/worker.py\<close>, with \<^verbatim>\<open>bridge/noc_bridge/daily_report.py\<close>
  and the validator of the report plan in \<^verbatim>\<open>bridge/noc_bridge/validation.py\<close>: from a job message
  and its frozen report snapshot to the three stored report artifacts. It composes the report
  (Report_Composition), renders it (Docx_Render) and serializes its preview (Report_Preview). One call is a function
  of the stored skills, the object store and Hermes' answers, as in Log_Jobs. Arguments stand for
  python-docx's serialization of a document, the order in which a Python set is iterated, and the reads of a
  plan or an artifact that the storage leaves unanswered, whose errors the code swallows; any other
  failing read ends the run like that of a missing object.
\<close>

section \<open>Environment\<close>

record report_env =
  rp_job :: job_env
  rp_docx :: docx_env
  rp_calendar :: calendar
  rp_pack :: "docx \<Rightarrow> bytes"
  rp_rank :: "pystr \<Rightarrow> nat"
  rp_lost :: "pystr \<Rightarrow> pystr \<Rightarrow> bool"

text \<open>Steps that read and extend the store and may fail.\<close>

type_synonym 'a store_step = "bucket_store \<Rightarrow> (py_exn + 'a) \<times> bucket_store"

definition stbind :: "'a store_step \<Rightarrow> ('a \<Rightarrow> 'b store_step) \<Rightarrow> 'b store_step" where
  "stbind f g st = (case f st of (Inl e, st') \<Rightarrow> (Inl e, st') | (Inr x, st') \<Rightarrow> g x st')"

definition pure_step :: "py_exn + 'a \<Rightarrow> 'a store_step" where
  "pure_step r st = (r, st)"

definition read_step :: "(bucket_store \<Rightarrow> py_exn + 'a) \<Rightarrow> 'a store_step" where
  "read_step f st = (f st, st)"

section \<open>The report plan\<close>

text \<open>The forbidden expression: a URL, an incident number or a UUID, ignoring case. A pattern is a list
  of character classes.\<close>

definition matches_at :: "(nat \<Rightarrow> bool) list \<Rightarrow> pystr \<Rightarrow> bool" where
  "matches_at ps s \<longleftrightarrow> length ps \<le> length s \<and> list_all (\<lambda>(p, c). p c) (zip ps s)"

definition re_search :: "(nat \<Rightarrow> bool) list \<Rightarrow> pystr \<Rightarrow> bool" where
  "re_search ps s \<longleftrightarrow> list_ex (\<lambda>k. matches_at ps (drop k s)) [0..<length s]"

definition ignoring_case :: "string \<Rightarrow> (nat \<Rightarrow> bool) list" where
  "ignoring_case w = map (\<lambda>x c. re_lower c = x) (u w)"

definition hex_digit :: "nat \<Rightarrow> bool" where
  "hex_digit c \<longleftrightarrow> (48 \<le> c \<and> c \<le> 57) \<or> (97 \<le> re_lower c \<and> re_lower c \<le> 102)"

definition uuid_pattern :: "(nat \<Rightarrow> bool) list" where
  "uuid_pattern =
    (let hex = (\<lambda>n. replicate n hex_digit); dash = [\<lambda>c. c = 45]
     in hex 8 @ dash @ hex 4 @ dash @ [\<lambda>c. 49 \<le> c \<and> c \<le> 53] @ hex 3 @ dash
        @ [\<lambda>c. c = 56 \<or> c = 57 \<or> re_lower c = 97 \<or> re_lower c = 98] @ hex 3 @ dash @ hex 12)"

definition names_identifier :: "(nat \<Rightarrow> bool) \<Rightarrow> pystr \<Rightarrow> bool" where
  "names_identifier digit s \<longleftrightarrow> re_search (ignoring_case ''http://'') s \<or> re_search (ignoring_case ''https://'') s
     \<or> re_search (ignoring_case ''inc-'' @ [digit]) s \<or> re_search uuid_pattern s"

definition summary_text_ok :: "text_classes \<Rightarrow> json \<Rightarrow> bool" where
  "summary_text_ok tc v = (case v of
      JStr s \<Rightarrow> py_strip s \<noteq> [] \<and> length s \<le> 1600
        \<and> \<not> list_ex (\<lambda>m. py_in (u m) (tc_casefold tc s)) [''object_key'', ''analysis_run_id'', ''bucket'', ''minio'', ''s3://'']
        \<and> \<not> names_identifier (tc_digit tc) s
    | _ \<Rightarrow> False)"

text \<open>\<open>validate_daily_report_result\<close>; every violation is an \<open>OutputValidationError\<close>.\<close>

definition validate_daily_report_result :: "text_classes \<Rightarrow> json \<Rightarrow> bool" where
  "validate_daily_report_result tc d \<longleftrightarrow> is_dict d \<and> set (jkeys d) = {u ''general_summary''}
     \<and> is_dict (jget d ''general_summary'')
     \<and> list_all (\<lambda>k. summary_text_ok tc (jget (jget d ''general_summary'') k)) [''zh'', ''en'']"

definition valid_plan :: "job_env \<Rightarrow> json \<Rightarrow> json \<Rightarrow> bool" where
  "valid_plan env schema d \<longleftrightarrow> je_schema_valid env schema d \<and> validate_daily_report_result (je_classes env) d"

section \<open>The projection for Hermes\<close>

definition compact_fields :: "string list" where
  "compact_fields = [''contract'', ''headline'', ''severity'', ''summary'', ''findings'', ''likely_cause'', ''recommended_action'']"

text \<open>The dictionary comprehension over the set of allowed fields keeps the set's iteration order.\<close>

definition compact_fragment :: "(pystr \<Rightarrow> nat) \<Rightarrow> json \<Rightarrow> json" where
  "compact_fragment rank f =
    (if \<not> is_dict f then JNull
     else (let kept = JObj (map (\<lambda>k. (u k, jget f k)) (filter (jhas f) (sort_key (\<lambda>k. rank (u k)) compact_fields)))
           in case jget kept ''findings'' of
                JArr fs \<Rightarrow> jset kept ''findings'' (JArr (filter is_dict (take 5 fs)))
              | _ \<Rightarrow> kept))"

definition project_incident :: "(pystr \<Rightarrow> nat) \<Rightarrow> nat \<Rightarrow> json \<Rightarrow> json" where
  "project_incident rank n i = JObj [(u ''incident_number'', JInt (int n)), (u ''title'', jget i ''title''),
     (u ''status'', jget i ''status''), (u ''service'', jget i ''service''), (u ''environment'', jget i ''environment''),
     (u ''report_fragment'', compact_fragment rank (jget i ''report_fragment''))]"

definition build_daily_report_input :: "(pystr \<Rightarrow> nat) \<Rightarrow> json \<Rightarrow> py_exn + json" where
  "build_daily_report_input rank snapshot =
    (if \<not> is_dict snapshot then Inl (exn ValueError)
     else sbind (with_exn doc_exn (py_iter (por (jget snapshot ''incidents'') (JArr [])))) (\<lambda>items.
       Inr (JObj [(u ''schema_version'', JStr (u ''daily-report-context-v1'')), (u ''task'', JStr (u ''daily_report'')),
         (u ''language_order'', JArr [JStr (u ''zh-CN''), JStr (u ''en'')]),
         (u ''shift'', JObj [(u ''name'', por (jget snapshot ''shift_display_name'') (jget snapshot ''shift_name'')),
            (u ''timezone'', por (jget snapshot ''shift_timezone'') (JStr (u ''UTC'')))]),
         (u ''incidents'', JArr (map (\<lambda>(n, i). project_incident rank n i) (filter (\<lambda>(n, i). is_dict i) (enumerate 1 items))))])))"

section \<open>Stored objects of a job\<close>

definition report_artifact_key :: "job_env \<Rightarrow> json \<Rightarrow> string \<Rightarrow> pystr" where
  "report_artifact_key env job_id name = u ''reports/'' @ py_str (je_py env) job_id @ u ''/'' @ u name"

definition plan_key :: "job_env \<Rightarrow> json \<Rightarrow> pystr" where
  "plan_key env job_id = artifact_key env job_id ''report-plan.json''"

definition load_saved_plan :: "report_env \<Rightarrow> job_settings \<Rightarrow> json \<Rightarrow> bucket_store \<Rightarrow> json option" where
  "load_saved_plan env cfg job_id st =
    (let bucket = js_artifacts_bucket cfg; key = plan_key (rp_job env) job_id in
     if rp_lost env bucket key then None
     else (case get_object st bucket key None of Inl e \<Rightarrow> None | Inr body \<Rightarrow>
       (case je_decode (rp_job env) body of None \<Rightarrow> None | Some t \<Rightarrow>
       (case he_loads (je_hermes (rp_job env)) t of Some (JObj kvs) \<Rightarrow> Some (JObj kvs) | _ \<Rightarrow> None))))"

definition existing_artifact :: "report_env \<Rightarrow> job_settings \<Rightarrow> json \<Rightarrow> bucket_store \<Rightarrow> string \<Rightarrow> stored_metadata option" where
  "existing_artifact env cfg job_id st name =
    (let bucket = js_reports_bucket cfg; key = report_artifact_key (rp_job env) job_id name in
     if rp_lost env bucket key then None
     else (case read_artifact_metadata (je_store (rp_job env)) st bucket key of Inl e \<Rightarrow> None | Inr m \<Rightarrow> Some m))"

definition existing_report_artifacts ::
  "report_env \<Rightarrow> job_settings \<Rightarrow> json \<Rightarrow> bucket_store \<Rightarrow> (stored_metadata \<times> stored_metadata \<times> stored_metadata) option" where
  "existing_report_artifacts env cfg job_id st =
    (case map (existing_artifact env cfg job_id st) [''report.docx'', ''document.json'', ''document.screenshots.json''] of
       [Some a, Some b, Some c] \<Rightarrow> Some (a, b, c)
     | _ \<Rightarrow> None)"

section \<open>Reading objects by reference\<close>

definition param_error :: py_exn where
  "param_error = exn (OtherException (u ''ParamValidationError'') False)"

text \<open>\<open>get_object\<close> with the parameters of a JSON document; a version id that is false is not passed.\<close>

definition fetch_bytes :: "bucket_store \<Rightarrow> json \<Rightarrow> json \<Rightarrow> json \<Rightarrow> py_exn + bytes" where
  "fetch_bytes st bucket key version = (case (bucket, key) of
      (JStr b, JStr k) \<Rightarrow> if \<not> truthy version then get_object st b k None
        else (case version of JStr v \<Rightarrow> get_object st b k (Some v) | _ \<Rightarrow> Inl param_error)
    | _ \<Rightarrow> Inl param_error)"

definition fetch_verified :: "store_env \<Rightarrow> bucket_store \<Rightarrow> py_exn \<Rightarrow> json \<Rightarrow> json \<Rightarrow> json \<Rightarrow> json \<Rightarrow> py_exn + bytes" where
  "fetch_verified env st mismatch bucket key version sha = sbind (fetch_bytes st bucket key version) (\<lambda>body.
     if truthy sha \<and> JStr (se_hash env body) \<noteq> sha then Inl mismatch else Inr body)"

definition screenshot_fetcher :: "store_env \<Rightarrow> bucket_store \<Rightarrow> fetcher" where
  "screenshot_fetcher env st bucket key pinned =
    (let (version, sha) = (case pinned of None \<Rightarrow> (JNull, JNull) | Some x \<Rightarrow> x)
     in fetch_verified env st (exn EvidenceIntegrityError) bucket key version sha)"

section \<open>Preparation\<close>

text \<open>\<open>len(v)\<close> and \<open>v[0]\<close>.\<close>

fun py_len :: "json \<Rightarrow> py_exn + nat" where
  "py_len (JArr xs) = Inr (length xs)"
| "py_len (JStr s) = Inr (length s)"
| "py_len (JObj kvs) = Inr (length kvs)"
| "py_len _ = Inl (exn type_error)"

fun py_first :: "json \<Rightarrow> py_exn + json" where
  "py_first (JArr (x # xs)) = Inr x"
| "py_first (JStr (c # s)) = Inr (JStr [c])"
| "py_first _ = Inl key_error"

record report_input =
  ri_job_id :: json
  ri_ref :: json
  ri_skill_md :: pystr
  ri_schema :: json
  ri_snapshot :: json
  ri_payload :: json

definition read_snapshot :: "job_env \<Rightarrow> bucket_store \<Rightarrow> json \<Rightarrow> py_exn + json" where
  "read_snapshot env st ref =
     sbind (with_exn doc_exn (jitem ref ''bucket'')) (\<lambda>bucket.
     sbind (with_exn doc_exn (jitem ref ''key'')) (\<lambda>key.
     sbind (fetch_verified (je_store env) st checksum_mismatch bucket key (jget ref ''version_id'') (jget ref ''sha256'')) (\<lambda>body.
     sbind (need (exn EvidenceIntegrityError) (je_decode env body)) (\<lambda>t.
       need (exn EvidenceIntegrityError) (he_loads (je_hermes env) (universal_newlines t))))))"

definition prepare_report :: "report_env \<Rightarrow> skill_row list \<Rightarrow> bucket_store \<Rightarrow> json \<Rightarrow> py_exn + report_input" where
  "prepare_report env rows st m =
    (let job = rp_job env; refs = por (jget m ''object_refs'') (JArr []) in
     if jget m ''job_type'' \<noteq> JStr (u ''daily_report'') then Inl (exn WorkerInputError)
     else if jget m ''skill_name'' \<noteq> JStr (u ''daily-alert-report'') then Inl (exn SkillConfigurationError)
     else if jget m ''incident_id'' \<noteq> JNull then Inl (exn WorkerInputError)
     else
       sbind (py_len refs) (\<lambda>n.
       if n \<noteq> 1 then Inl (exn WorkerInputError) else
       sbind (need key_error (jlookup m (u ''job_id''))) (\<lambda>job_id.
       sbind (job_skill job rows m) (\<lambda>(skill_md, schema).
       sbind (py_first refs) (\<lambda>ref.
       sbind (read_snapshot job st ref) (\<lambda>snapshot.
       sbind (build_daily_report_input (rp_rank env) snapshot) (\<lambda>payload.
         Inr \<lparr>ri_job_id = job_id, ri_ref = ref, ri_skill_md = skill_md, ri_schema = schema, ri_snapshot = snapshot,
           ri_payload = payload\<rparr>)))))))"

section \<open>The plan of a job\<close>

definition report_telemetry :: "job_settings \<Rightarrow> report_input \<Rightarrow> hermes_result \<Rightarrow> nat \<Rightarrow> int \<Rightarrow> json" where
  "report_telemetry cfg i answer attempts duration = merged (hr_telemetry answer)
    [(''hermes_version'', JStr (js_hermes_version cfg)), (''runtime_version'', JStr (js_hermes_version cfg)),
     (''runtime_profile'', JStr (js_profile cfg)), (''input_hash'', jget (ri_ref i) ''sha256''),
     (''snapshot_sha256'', jget (ri_ref i) ''sha256''), (''schema_version'', jget (ri_payload i) ''schema_version''),
     (''output_attempts'', JInt (int attempts)), (''duration_ms'', JInt duration)]"

text \<open>Attempt \<open>k\<close>, with \<open>n\<close> more allowed: the plan and its telemetry, or the exception; and the messages of
  every request. An invalid plan is tried again, with the same request; the last one becomes a
  \<open>HermesInvalidResponse\<close>. \<open>took k\<close> is the time since the first request.\<close>

fun plan_attempts :: "job_env \<Rightarrow> job_settings \<Rightarrow> report_input \<Rightarrow> (nat \<Rightarrow> hermes_turn) \<Rightarrow> (nat \<Rightarrow> int) \<Rightarrow> nat \<Rightarrow> nat
    \<Rightarrow> (py_exn + json \<times> json) \<times> chat_message list list" where
  "plan_attempts env cfg i turns took n k =
    (let request = build_messages (je_hermes env) (ri_payload i) (ri_skill_md i) (ri_schema i) (u ''daily_report'') None;
         again = (case n of 0 \<Rightarrow> (Inl (exn HermesInvalidResponse), [request])
           | Suc n' \<Rightarrow> (let (out, calls) = plan_attempts env cfg i turns took n' (Suc k) in (out, request # calls)))
     in case analyze (je_hermes env) (js_profile cfg) (ht_elapsed (turns k)) (ht_transport (turns k)) of
          Inl c \<Rightarrow> if c = HermesInvalidResponse \<or> is_value_error c then again else (Inl (exn c), [request])
        | Inr answer \<Rightarrow>
            if valid_plan env (ri_schema i) (hr_result answer)
            then (Inr (hr_result answer, report_telemetry cfg i answer (Suc k) (took k)), [request])
            else again)"

definition choose_plan :: "report_env \<Rightarrow> job_settings \<Rightarrow> report_input \<Rightarrow> (nat \<Rightarrow> hermes_turn) \<Rightarrow> (nat \<Rightarrow> int) \<Rightarrow> bucket_store
    \<Rightarrow> (py_exn + json \<times> json option) \<times> chat_message list list" where
  "choose_plan env cfg i turns took st = (case load_saved_plan env cfg (ri_job_id i) st of
      Some p \<Rightarrow> (if valid_plan (rp_job env) (ri_schema i) p then Inr (p, None) else Inl (exn OutputValidationError), [])
    | None \<Rightarrow>
        (case plan_attempts (rp_job env) cfg i turns took (nat (max 1 (js_max_output_attempts cfg)) - 1) 0 of
           (Inl e, calls) \<Rightarrow> (Inl e, calls)
         | (Inr (p, tel), calls) \<Rightarrow> (Inr (p, Some tel), calls)))"

text \<open>A new plan is stored before its telemetry, and both before anything is rendered.\<close>

definition upload_json :: "job_env \<Rightarrow> pystr \<Rightarrow> pystr \<Rightarrow> json \<Rightarrow> unit store_step" where
  "upload_json env bucket key v = stbind (pure_step (json_file env v)) (\<lambda>body.
     stbind (upload_artifact (je_store env) bucket key body) (\<lambda>_. pure_step (Inr ())))"

definition save_plan :: "job_env \<Rightarrow> job_settings \<Rightarrow> json \<Rightarrow> json \<Rightarrow> json option \<Rightarrow> unit store_step" where
  "save_plan env cfg job_id p tel = (case tel of
      None \<Rightarrow> pure_step (Inr ())
    | Some t \<Rightarrow> stbind (upload_json env (js_artifacts_bucket cfg) (plan_key env job_id) p) (\<lambda>_.
        upload_json env (js_artifacts_bucket cfg) (artifact_key env job_id ''report-telemetry.json'') t))"

section \<open>The report\<close>

fun compose_exn :: "compose_error \<Rightarrow> py_exn" where
  "compose_exn (Rejected r) = exn OutputValidationError"
| "compose_exn (Escaped e) = doc_exn e"

definition compose_and_render :: "report_env \<Rightarrow> json \<Rightarrow> json \<Rightarrow> bucket_store \<Rightarrow> py_exn + bytes \<times> json \<times> json list" where
  "compose_and_render env p snapshot st =
     sbind (with_exn compose_exn (compose_report (wx_doc (rp_docx env)) (rp_calendar env) p snapshot)) (\<lambda>d.
     sbind (render_document (rp_docx env) (Some (screenshot_fetcher (je_store (rp_job env)) st)) False d) (\<lambda>w.
       Inr (rp_pack env w, document_to_preview_json d)))"

definition report_provenance :: "job_env \<Rightarrow> job_settings \<Rightarrow> json \<Rightarrow> json \<Rightarrow> json \<Rightarrow> py_exn + provenance" where
  "report_provenance env cfg ref p tel = sbind (json_file env p) (\<lambda>body.
     Inr \<lparr>p_runtime_name = Some (u ''hermes''), p_runtime_version = Some (js_hermes_version cfg),
       p_runtime_profile = Some (js_profile cfg), p_provider = opt_field tel ''provider'',
       p_runtime_model = opt_field tel ''runtime_model'', p_input_manifest_sha256 = opt_field ref ''sha256'',
       p_output_sha256 = Some (se_hash (je_store env) body), p_input_tokens = as_int (jget tel ''input_tokens''),
       p_output_tokens = as_int (jget tel ''output_tokens''), p_duration_ms = as_int (jget tel ''duration_ms'')\<rparr>)"

definition artifact_of :: "stored_metadata \<Rightarrow> artifact" where
  "artifact_of x = \<lparr>a_bucket = Some (sm_bucket x), a_object_key = Some (sm_object_key x), a_version_id = sm_version_id x,
     a_sha256 = Some (sm_sha256 x), a_byte_size = Some (sm_byte_size x), a_content_type = Some (sm_content_type x)\<rparr>"

definition report_result :: "json \<Rightarrow> json \<Rightarrow> stored_metadata \<times> stored_metadata \<times> stored_metadata \<Rightarrow> provenance
    \<Rightarrow> json \<times> json \<times> artifact_metadata" where
  "report_result p tel = (\<lambda>(a, b, c) prov. (p, tel, \<lparr>am_report = Some (artifact_of a), am_document = Some (artifact_of b),
     am_screenshots = Some (artifact_of c), am_provenance = Some prov\<rparr>))"

definition docx_type :: pystr where
  "docx_type = u ''application/vnd.openxmlformats-officedocument.wordprocessingml.document''"

definition upload_report ::
  "report_env \<Rightarrow> job_settings \<Rightarrow> json \<Rightarrow> bytes \<times> json \<times> json list \<Rightarrow> (stored_metadata \<times> stored_metadata \<times> stored_metadata) store_step" where
  "upload_report env cfg job_id = (\<lambda>(docx, preview, shots).
    (let job = rp_job env; bucket = js_reports_bucket cfg; up = upload_artifact_metadata (je_store job) bucket in
     stbind (pure_step (json_file job preview)) (\<lambda>doc.
     stbind (pure_step (json_file job (JArr shots))) (\<lambda>index.
     stbind (up (report_artifact_key job job_id ''report.docx'') docx docx_type) (\<lambda>a.
     stbind (up (report_artifact_key job job_id ''document.json'') doc (u ''application/json'')) (\<lambda>b.
     stbind (up (report_artifact_key job job_id ''document.screenshots.json'') index (u ''application/json'')) (\<lambda>c.
       pure_step (Inr (a, b, c)))))))))"

text \<open>Artifacts of an earlier run are taken as they are; else the report is composed, rendered and stored.\<close>

definition deliver_report ::
  "report_env \<Rightarrow> job_settings \<Rightarrow> report_input \<Rightarrow> json \<Rightarrow> json option \<Rightarrow> (json \<times> json \<times> artifact_metadata) store_step" where
  "deliver_report env cfg i p tel =
    (let t = (case tel of None \<Rightarrow> JObj [] | Some t \<Rightarrow> t);
         finish = (\<lambda>files. stbind (pure_step (report_provenance (rp_job env) cfg (ri_ref i) p t)) (\<lambda>prov.
           pure_step (Inr (report_result p t files prov))))
     in stbind (read_step (\<lambda>st. Inr (existing_report_artifacts env cfg (ri_job_id i) st))) (\<lambda>existing. case existing of
          Some files \<Rightarrow> finish files
        | None \<Rightarrow> stbind (read_step (compose_and_render env p (ri_snapshot i))) (\<lambda>r.
            stbind (upload_report env cfg (ri_job_id i) r) finish)))"

record report_run =
  rr_outcome :: "py_exn + json \<times> json \<times> artifact_metadata"
  rr_store :: bucket_store
  rr_calls :: "chat_message list list"

definition process_daily_report ::
  "report_env \<Rightarrow> job_settings \<Rightarrow> skill_row list \<Rightarrow> (nat \<Rightarrow> hermes_turn) \<Rightarrow> (nat \<Rightarrow> int) \<Rightarrow> bucket_store \<Rightarrow> json \<Rightarrow> report_run" where
  "process_daily_report env cfg rows turns took st m =
    (case prepare_report env rows st m of
       Inl e \<Rightarrow> \<lparr>rr_outcome = Inl e, rr_store = st, rr_calls = []\<rparr>
     | Inr i \<Rightarrow>
        (let (chosen, calls) = choose_plan env cfg i turns took st;
             (out, st') = stbind (pure_step chosen) (\<lambda>(p, tel).
               stbind (save_plan (rp_job env) cfg (ri_job_id i) p tel) (\<lambda>_. deliver_report env cfg i p tel)) st
         in \<lparr>rr_outcome = out, rr_store = st', rr_calls = calls\<rparr>))"

text \<open>The step of the delivery loop.\<close>

definition report_step ::
  "report_env \<Rightarrow> job_settings \<Rightarrow> skill_row list \<Rightarrow> (nat \<Rightarrow> hermes_turn) \<Rightarrow> (nat \<Rightarrow> int) \<Rightarrow> bucket_store \<Rightarrow> artifact_metadata option step" where
  "report_step env cfg rows turns took st m db =
    ((case rr_outcome (process_daily_report env cfg rows turns took st m) of Inl e \<Rightarrow> Inl e | Inr (p, tel, am) \<Rightarrow> Inr (Some am)), db)"

section \<open>What steps write\<close>

text \<open>A step only adds objects, and only under the given bucket and key pairs.\<close>

definition writes :: "(pystr \<times> pystr) set \<Rightarrow> 'a store_step \<Rightarrow> bool" where
  "writes K f \<longleftrightarrow> (\<forall>st r st'. f st = (r, st') \<longrightarrow> (\<exists>new. st' = new @ st \<and> (\<forall>x\<in>set new. (so_bucket x, so_key x) \<in> K)))"

named_theorems step_writes

lemma writesD:
  assumes "writes K f" "f st = (r, st')"
  obtains new where "st' = new @ st" "\<forall>x\<in>set new. (so_bucket x, so_key x) \<in> K"
  using assms unfolding writes_def by blast

lemma writes_pure [step_writes]: "writes K (pure_step r)" "writes K (read_step f)"
  by (auto simp: writes_def pure_step_def read_step_def)

lemma writes_stbind [step_writes]:
  assumes "writes K f" "\<And>x. writes K (g x)"
  shows "writes K (stbind f g)"
  unfolding writes_def
proof (intro allI impI)
  fix st r st' assume run: "stbind f g st = (r, st')"
  obtain r1 st1 where one: "f st = (r1, st1)" by fastforce
  obtain n1 where n1: "st1 = n1 @ st" "\<forall>x\<in>set n1. (so_bucket x, so_key x) \<in> K" using writesD [OF assms(1) one] .
  show "\<exists>new. st' = new @ st \<and> (\<forall>x\<in>set new. (so_bucket x, so_key x) \<in> K)"
  proof (cases r1)
    case (Inl e)
    then show ?thesis using run one n1 by (auto simp: stbind_def)
  next
    case (Inr x)
    then have "g x st1 = (r, st')" using run one by (simp add: stbind_def)
    from writesD [OF assms(2) this] obtain n2 where "st' = n2 @ st1" "\<forall>x\<in>set n2. (so_bucket x, so_key x) \<in> K" .
    then show ?thesis using n1 by (intro exI [of _ "n2 @ n1"]) auto
  qed
qed

lemma writes_upload_file: "(b, k) \<in> K \<Longrightarrow> writes K (upload_file senv b k body ct)"
  by (auto simp: writes_def upload_file_def)

lemma writes_upload_artifact [step_writes]: "(b, k) \<in> K \<Longrightarrow> writes K (upload_artifact senv b k body)"
  using writes_upload_file [of b k K senv body "u ''application/json''"]
  by (fastforce simp: writes_def upload_artifact_def split: sum.splits prod.splits)

lemma writes_upload_metadata [step_writes]: "(b, k) \<in> K \<Longrightarrow> writes K (upload_artifact_metadata senv b k body ct)"
  using writes_upload_file [of b k K senv body ct]
  by (fastforce simp: writes_def upload_artifact_metadata_def split: sum.splits prod.splits)

lemma stbind_Inr:
  assumes "stbind f g st = (Inr y, st'')"
  obtains x st' where "f st = (Inr x, st')" "g x st' = (Inr y, st'')"
  using assms by (auto simp: stbind_def split: prod.splits sum.splits)

lemma pure_step_Inr: "pure_step r st = (Inr x, st') \<longleftrightarrow> r = Inr x \<and> st' = st"
  by (auto simp: pure_step_def)

lemma find_object_append: "\<forall>x\<in>set new. (so_bucket x, so_key x) \<noteq> (b, k) \<Longrightarrow> find_object (new @ st) b k v = find_object st b k v"
  by (induction new) (auto simp: find_object_Cons)

lemma reads_append:
  assumes "\<forall>x\<in>set new. (so_bucket x, so_key x) \<noteq> (b, k)"
  shows "get_object (new @ st) b k v = get_object st b k v"
    "read_artifact_metadata env (new @ st) b k = read_artifact_metadata env st b k"
  using find_object_append [OF assms]
  by (simp_all add: get_object_def read_artifact_metadata_def head_object_def)

section \<open>The objects of a job\<close>

definition report_files :: "string list" where
  "report_files = [''report.docx'', ''document.json'', ''document.screenshots.json'']"

definition plan_objects :: "job_env \<Rightarrow> job_settings \<Rightarrow> json \<Rightarrow> (pystr \<times> pystr) set" where
  "plan_objects env cfg job_id = {(js_artifacts_bucket cfg, plan_key env job_id),
     (js_artifacts_bucket cfg, artifact_key env job_id ''report-telemetry.json'')}"

definition report_objects :: "job_env \<Rightarrow> job_settings \<Rightarrow> json \<Rightarrow> (pystr \<times> pystr) set" where
  "report_objects env cfg job_id = (\<lambda>f. (js_reports_bucket cfg, report_artifact_key env job_id f)) ` set report_files"

lemma keys_differ: "artifact_key env j f \<noteq> report_artifact_key env j' g" "report_artifact_key env j f = report_artifact_key env j g \<longleftrightarrow> f = g"
  "artifact_key env j f = artifact_key env j g \<longleftrightarrow> f = g"
  by (simp_all add: artifact_key_def report_artifact_key_def) (simp add: u_def)

lemma objects_apart: "plan_objects env cfg j \<inter> report_objects env cfg j = {}"
  using keys_differ by (auto simp: plan_objects_def report_objects_def plan_key_def)

lemma writes_mono: "writes K f \<Longrightarrow> K \<subseteq> L \<Longrightarrow> writes L f"
  unfolding writes_def by blast

lemma save_plan_writes: "writes (plan_objects env cfg j) (save_plan env cfg j p tel)"
  unfolding save_plan_def upload_json_def
  by (cases tel) (auto intro!: step_writes simp: plan_objects_def)

lemma upload_report_writes: "writes (report_objects (rp_job env) cfg j) (upload_report env cfg j x)"
  by (cases x) (auto intro!: step_writes simp: upload_report_def Let_def report_objects_def report_files_def)

lemma deliver_report_writes: "writes (report_objects (rp_job env) cfg (ri_job_id i)) (deliver_report env cfg i p tel)"
  unfolding deliver_report_def Let_def
  by (intro step_writes upload_report_writes) (auto intro!: step_writes upload_report_writes split: option.split)

section \<open>Successful runs\<close>

lemma process_daily_report_Inr:
  assumes "rr_outcome (process_daily_report env cfg rows turns took st m) = Inr out"
  obtains i p tel st1 where "prepare_report env rows st m = Inr i"
    "choose_plan env cfg i turns took st = (Inr (p, tel), rr_calls (process_daily_report env cfg rows turns took st m))"
    "save_plan (rp_job env) cfg (ri_job_id i) p tel st = (Inr (), st1)"
    "deliver_report env cfg i p tel st1 = (Inr out, rr_store (process_daily_report env cfg rows turns took st m))"
proof -
  obtain i where i: "prepare_report env rows st m = Inr i"
    using assms by (auto simp: process_daily_report_def split: sum.splits)
  obtain chosen calls where c: "choose_plan env cfg i turns took st = (chosen, calls)" by fastforce
  let ?rest = "\<lambda>(p, tel). stbind (save_plan (rp_job env) cfg (ri_job_id i) p tel) (\<lambda>_. deliver_report env cfg i p tel)"
  obtain r st' where r: "stbind (pure_step chosen) ?rest st = (r, st')" by fastforce
  have run: "process_daily_report env cfg rows turns took st m = \<lparr>rr_outcome = r, rr_store = st', rr_calls = calls\<rparr>"
    using i c r by (simp add: process_daily_report_def)
  then have "r = Inr out" using assms by simp
  with r have "stbind (pure_step chosen) ?rest st = (Inr out, st')" by simp
  then obtain x where x: "chosen = Inr x" "?rest x st = (Inr out, st')"
    by (rule stbind_Inr) (auto simp: pure_step_Inr)
  obtain p tel where [simp]: "x = (p, tel)" by (cases x)
  have "stbind (save_plan (rp_job env) cfg (ri_job_id i) p tel) (\<lambda>_. deliver_report env cfg i p tel) st = (Inr out, st')"
    using x(2) by simp
  then obtain st1 where "save_plan (rp_job env) cfg (ri_job_id i) p tel st = (Inr (), st1)"
      "deliver_report env cfg i p tel st1 = (Inr out, st')"
    by (elim stbind_Inr) simp
  then show thesis using that [OF i] c run x(1) by simp
qed

declare plan_attempts.simps [simp del]

lemma plan_attempts_step:
  assumes "plan_attempts env cfg i turns took n k = (out, calls)"
  defines "request \<equiv> build_messages (je_hermes env) (ri_payload i) (ri_skill_md i) (ri_schema i) (u ''daily_report'') None"
  shows "(\<exists>p tel. out = Inr (p, tel) \<and> valid_plan env (ri_schema i) p \<and> calls = [request])
    \<or> (\<exists>e. out = Inl e \<and> calls = [request])
    \<or> (\<exists>n' calls'. n = Suc n' \<and> plan_attempts env cfg i turns took n' (Suc k) = (out, calls') \<and> calls = request # calls')"
  using assms(1) unfolding plan_attempts.simps [of env cfg i turns took n k] Let_def request_def [symmetric]
  by (cases n) (auto split: sum.splits if_splits prod.splits)

lemma plan_attempts_ok:
  "plan_attempts env cfg i turns took n k = (out, calls) \<Longrightarrow> (\<forall>p tel. out = Inr (p, tel) \<longrightarrow> valid_plan env (ri_schema i) p)
    \<and> length calls \<le> Suc n
    \<and> set calls = {build_messages (je_hermes env) (ri_payload i) (ri_skill_md i) (ri_schema i) (u ''daily_report'') None}"
proof (induction n arbitrary: k calls)
  case 0
  then show ?case by (auto dest!: plan_attempts_step)
next
  case (Suc n)
  from plan_attempts_step [OF Suc.prems] show ?case
  proof (elim disjE)
    assume "\<exists>n' calls'. Suc n = Suc n' \<and> plan_attempts env cfg i turns took n' (Suc k) = (out, calls')
      \<and> calls = build_messages (je_hermes env) (ri_payload i) (ri_skill_md i) (ri_schema i) (u ''daily_report'') None # calls'"
    then obtain calls' where "plan_attempts env cfg i turns took n (Suc k) = (out, calls')"
        "calls = build_messages (je_hermes env) (ri_payload i) (ri_skill_md i) (ri_schema i) (u ''daily_report'') None # calls'"
      by blast
    with Suc.IH [of "Suc k" calls'] show ?thesis by simp
  qed auto
qed

text \<open>The requests depend on the payload, the instructions and the schema only.\<close>

lemma plan_attempts_calls:
  assumes "ri_payload i = ri_payload i'" "ri_skill_md i = ri_skill_md i'" "ri_schema i = ri_schema i'"
  shows "snd (plan_attempts env cfg i turns took n k) = snd (plan_attempts env cfg i' turns took' n k)"
proof (induction n arbitrary: k)
  case 0
  show ?case
    unfolding plan_attempts.simps [of env cfg i turns took 0 k] plan_attempts.simps [of env cfg i' turns took' 0 k] Let_def assms
    by (simp split: sum.split)
next
  case (Suc n)
  then show ?case
    unfolding plan_attempts.simps [of env cfg i turns took "Suc n" k] plan_attempts.simps [of env cfg i' turns took' "Suc n" k] Let_def assms
    by (simp add: case_prod_beta split: sum.split)
qed

text \<open>The chosen plan is valid; it was stored already, or it comes with telemetry.\<close>

lemma choose_plan_cases:
  assumes "choose_plan env cfg i turns took st = (Inr (p, tel), calls)"
  shows "valid_plan (rp_job env) (ri_schema i) p"
    "load_saved_plan env cfg (ri_job_id i) st = Some p \<and> tel = None \<and> calls = []
     \<or> load_saved_plan env cfg (ri_job_id i) st = None \<and> tel \<noteq> None \<and> calls \<noteq> []"
  using assms plan_attempts_ok [of "rp_job env" cfg i turns took "nat (max 1 (js_max_output_attempts cfg)) - 1" 0]
  by (fastforce simp: choose_plan_def split: option.splits if_splits prod.splits sum.splits)+

text \<open>The bytes stored for a plan.\<close>

definition holds_plan :: "job_env \<Rightarrow> job_settings \<Rightarrow> json \<Rightarrow> json \<Rightarrow> bucket_store \<Rightarrow> bool" where
  "holds_plan env cfg job_id p st \<longleftrightarrow> (\<exists>body t. get_object st (js_artifacts_bucket cfg) (plan_key env job_id) None = Inr body
     \<and> je_decode env body = Some t \<and> he_loads (je_hermes env) t = Some p \<and> is_dict p)"

lemma load_saved_plan_Some:
  "load_saved_plan env cfg j st = Some p \<longleftrightarrow> \<not> rp_lost env (js_artifacts_bucket cfg) (plan_key (rp_job env) j)
     \<and> holds_plan (rp_job env) cfg j p st"
  by (auto simp: load_saved_plan_def holds_plan_def Let_def is_dict_iff split: sum.splits option.splits json.splits)

lemma save_plan_stored:
  assumes "save_plan env cfg j p (Some tel) st = (Inr (), st')"
  obtains body where "json_file env p = Inr body"
    "get_object st' (js_artifacts_bucket cfg) (plan_key env j) None = Inr body"
proof -
  obtain st1 where s: "upload_json env (js_artifacts_bucket cfg) (plan_key env j) p st = (Inr (), st1)"
      "upload_json env (js_artifacts_bucket cfg) (artifact_key env j ''report-telemetry.json'') tel st1 = (Inr (), st')"
    using assms by (auto simp: save_plan_def elim!: stbind_Inr)
  obtain body h where b: "json_file env p = Inr body"
      "upload_artifact (je_store env) (js_artifacts_bucket cfg) (plan_key env j) body st = (Inr h, st1)"
    using s(1) by (auto simp: upload_json_def pure_step_Inr elim!: stbind_Inr)
  from upload_artifact_cases [OF b(2)] have g: "get_object st1 (js_artifacts_bucket cfg) (plan_key env j) None = Inr body"
    by (auto simp: get_object_def find_object_Cons truthy_opt_def)
  have "writes {(js_artifacts_bucket cfg, artifact_key env j ''report-telemetry.json'')}
      (upload_json env (js_artifacts_bucket cfg) (artifact_key env j ''report-telemetry.json'') tel)"
    by (auto simp: upload_json_def intro!: step_writes)
  from writesD [OF this s(2)] obtain new where "st' = new @ st1"
      "\<forall>x\<in>set new. (so_bucket x, so_key x) \<in> {(js_artifacts_bucket cfg, artifact_key env j ''report-telemetry.json'')}" .
  then have "get_object st' (js_artifacts_bucket cfg) (plan_key env j) None = Inr body"
    using g reads_append(1) [of new "js_artifacts_bucket cfg" "plan_key env j" st1 None] by (auto simp: plan_key_def keys_differ)
  with b(1) show thesis by (rule that)
qed

text \<open>Which artifacts a store has for a job.\<close>

definition holds_report ::
  "job_env \<Rightarrow> job_settings \<Rightarrow> json \<Rightarrow> stored_metadata \<times> stored_metadata \<times> stored_metadata \<Rightarrow> bucket_store \<Rightarrow> bool" where
  "holds_report env cfg j = (\<lambda>(a, b, c) st.
     map (\<lambda>f. read_artifact_metadata (je_store env) st (js_reports_bucket cfg) (report_artifact_key env j f)) report_files
       = map Inr [a, b, c])"

lemma existing_artifact_Some:
  "existing_artifact env cfg j st f = Some x \<longleftrightarrow> \<not> rp_lost env (js_reports_bucket cfg) (report_artifact_key (rp_job env) j f)
     \<and> read_artifact_metadata (je_store (rp_job env)) st (js_reports_bucket cfg) (report_artifact_key (rp_job env) j f) = Inr x"
  by (auto simp: existing_artifact_def Let_def split: sum.splits)

lemma existing_artifact_None:
  "existing_artifact env cfg j st f = None \<longleftrightarrow> rp_lost env (js_reports_bucket cfg) (report_artifact_key (rp_job env) j f)
     \<or> (\<exists>e. read_artifact_metadata (je_store (rp_job env)) st (js_reports_bucket cfg) (report_artifact_key (rp_job env) j f) = Inl e)"
  by (auto simp: existing_artifact_def Let_def split: sum.splits)

lemma existing_report_artifacts_Some:
  "existing_report_artifacts env cfg j st = Some files \<longleftrightarrow>
    (\<forall>f\<in>set report_files. \<not> rp_lost env (js_reports_bucket cfg) (report_artifact_key (rp_job env) j f))
    \<and> holds_report (rp_job env) cfg j files st"
  by (cases files) (auto simp: existing_report_artifacts_def holds_report_def report_files_def existing_artifact_Some existing_artifact_None
      split: list.splits option.splits)

text \<open>Uploading leaves the three artifacts readable, each with its own metadata.\<close>

lemma metadata_upload_readable:
  assumes "upload_artifact_metadata senv b k body ct st = (Inr x, st')"
  shows "read_artifact_metadata senv st' b k = Inr x" "get_object st' b k None = Inr body"
proof -
  show "read_artifact_metadata senv st' b k = Inr x" by (rule metadata_of_upload [OF assms])
  show "get_object st' b k None = Inr body"
    using assms by (auto simp: upload_artifact_metadata_def split: prod.splits sum.splits dest: read_own_upload)
qed

lemma writes_one: "writes {(b, k)} (upload_artifact_metadata senv b k body ct)"
  by (intro step_writes) simp

lemma metadata_upload_keeps:
  assumes "upload_artifact_metadata senv b k body ct st = (r, st')" "(b', k') \<noteq> (b, k)"
  shows "read_artifact_metadata senv st' b' k' = read_artifact_metadata senv st b' k'"
    "get_object st' b' k' None = get_object st b' k' None"
proof -
  obtain new where "st' = new @ st" "\<forall>x\<in>set new. (so_bucket x, so_key x) \<in> {(b, k)}"
    using writesD [OF writes_one assms(1)] .
  then show "read_artifact_metadata senv st' b' k' = read_artifact_metadata senv st b' k'"
    "get_object st' b' k' None = get_object st b' k' None"
    using reads_append [of new b' k'] assms(2) by auto
qed

lemma upload_report_holds:
  assumes "upload_report env cfg j (docx, preview, shots) st = (Inr files, st')"
  shows "holds_report (rp_job env) cfg j files st'"
    "get_object st' (js_reports_bucket cfg) (report_artifact_key (rp_job env) j ''report.docx'') None = Inr docx"
proof -
  let ?s = "je_store (rp_job env)" and ?b = "js_reports_bucket cfg" and ?k = "report_artifact_key (rp_job env) j"
  obtain doc index a st1 b st2 c where
    1: "upload_artifact_metadata ?s ?b (?k ''report.docx'') docx docx_type st = (Inr a, st1)" and
    2: "upload_artifact_metadata ?s ?b (?k ''document.json'') doc (u ''application/json'') st1 = (Inr b, st2)" and
    3: "upload_artifact_metadata ?s ?b (?k ''document.screenshots.json'') index (u ''application/json'') st2 = (Inr c, st')" and
    f: "files = (a, b, c)"
    using assms by (auto simp: upload_report_def Let_def pure_step_Inr elim!: stbind_Inr)
  note k = metadata_upload_readable [OF 1] metadata_upload_readable [OF 2] metadata_upload_readable [OF 3]
    metadata_upload_keeps [OF 2] metadata_upload_keeps [OF 3]
  show "holds_report (rp_job env) cfg j files st'"
    using k by (simp add: f holds_report_def report_files_def keys_differ)
  show "get_object st' ?b (?k ''report.docx'') None = Inr docx"
    using k by (simp add: keys_differ)
qed

lemma deliver_report_Inr:
  assumes "deliver_report env cfg i p tel st = (Inr out, st')"
  obtains files prov where
    "out = report_result p (case tel of None \<Rightarrow> JObj [] | Some t \<Rightarrow> t) files prov"
    "report_provenance (rp_job env) cfg (ri_ref i) p (case tel of None \<Rightarrow> JObj [] | Some t \<Rightarrow> t) = Inr prov"
    "holds_report (rp_job env) cfg (ri_job_id i) files st'"
    "existing_report_artifacts env cfg (ri_job_id i) st = Some files \<and> st' = st
     \<or> existing_report_artifacts env cfg (ri_job_id i) st = None
       \<and> (\<exists>docx view. compose_and_render env p (ri_snapshot i) st = Inr (docx, view)
         \<and> get_object st' (js_reports_bucket cfg) (report_artifact_key (rp_job env) (ri_job_id i) ''report.docx'') None = Inr docx)"
proof (cases "existing_report_artifacts env cfg (ri_job_id i) st")
  case None
  then obtain r st1 files prov where "compose_and_render env p (ri_snapshot i) st = Inr r"
      "upload_report env cfg (ri_job_id i) r st = (Inr files, st')"
      "report_provenance (rp_job env) cfg (ri_ref i) p (case tel of None \<Rightarrow> JObj [] | Some t \<Rightarrow> t) = Inr prov"
      "out = report_result p (case tel of None \<Rightarrow> JObj [] | Some t \<Rightarrow> t) files prov"
    using assms by (auto simp: deliver_report_def Let_def read_step_def pure_step_Inr elim!: stbind_Inr)
  with None upload_report_holds show thesis by (cases r) (intro that; blast)
next
  case (Some files)
  obtain prov where "report_provenance (rp_job env) cfg (ri_ref i) p (case tel of None \<Rightarrow> JObj [] | Some t \<Rightarrow> t) = Inr prov"
      "out = report_result p (case tel of None \<Rightarrow> JObj [] | Some t \<Rightarrow> t) files prov" "st' = st"
    using assms by (auto simp: deliver_report_def Let_def read_step_def Some pure_step_Inr elim!: stbind_Inr)
  with Some show thesis by (intro that) (auto simp: existing_report_artifacts_Some)
qed

text \<open>With its artifacts stored, a job delivers them again and stores nothing.\<close>

lemma deliver_report_again:
  assumes "existing_report_artifacts env cfg (ri_job_id i) st = Some files"
    and "report_provenance (rp_job env) cfg (ri_ref i) p (case tel of None \<Rightarrow> JObj [] | Some t \<Rightarrow> t) = Inr prov"
  shows "deliver_report env cfg i p tel st = (Inr (report_result p (case tel of None \<Rightarrow> JObj [] | Some t \<Rightarrow> t) files prov), st)"
  using assms by (simp add: deliver_report_def Let_def read_step_def stbind_def pure_step_def)

lemma report_provenance_Inr:
  "report_provenance env cfg ref p tel = Inr prov \<Longrightarrow>
    (\<exists>body. json_file env p = Inr body \<and> p_output_sha256 prov = Some (se_hash (je_store env) body))
    \<and> (\<forall>tel'. \<exists>prov'. report_provenance env cfg ref p tel' = Inr prov' \<and> p_output_sha256 prov' = p_output_sha256 prov)"
  by (auto simp: report_provenance_def)

text \<open>Preparation reads the snapshot only.\<close>

lemma prepare_report_grown:
  assumes "prepare_report env rows st m = Inr i" "\<forall>x\<in>set new. (JStr (so_bucket x), JStr (so_key x)) \<noteq> (jget (ri_ref i) ''bucket'', jget (ri_ref i) ''key'')"
  shows "prepare_report env rows (new @ st) m = Inr i"
proof -
  have item: "jitem v k = Inr x \<Longrightarrow> jget v k = x" for v k x
    by (auto simp: jitem_def jget_def split: if_splits option.splits)
  have ok: "with_exn f r = Inr x \<longleftrightarrow> r = Inr x" for f :: "doc_error \<Rightarrow> py_exn" and r :: "doc_error + json" and x
    by (cases r) auto
  have bytes: "fetch_bytes (new @ st) b k v = fetch_bytes st b k v" if "\<forall>x\<in>set new. (JStr (so_bucket x), JStr (so_key x)) \<noteq> (b, k)" for b k v
    using that find_object_append [of new] by (auto simp: fetch_bytes_def get_object_def split: json.splits)
  then have same: "read_snapshot (rp_job env) (new @ st) (ri_ref i) = read_snapshot (rp_job env) st (ri_ref i)"
    by (auto simp: read_snapshot_def fetch_verified_def ok dest!: item intro!: sbind_cong) (use bytes assms(2) in auto)
  from assms(1) same show ?thesis
    by (auto simp: prepare_report_def Let_def split: if_splits)
qed

section \<open>Verified pictures\<close>

lemma with_exn_Inr: "with_exn f r = Inr x \<longleftrightarrow> r = Inr x"
  by (cases r) auto

lemma sbind_eq_Inl: "sbind r f = Inl e \<longleftrightarrow> r = Inl e \<or> (\<exists>x. r = Inr x \<and> f x = Inl e)"
  by (cases r) auto

lemma screenshot_fetcher_errors: "screenshot_fetcher env st b k pinned = Inl e \<Longrightarrow> ex_class e \<noteq> type_error"
  by (auto simp: screenshot_fetcher_def fetch_verified_def fetch_bytes_def get_object_def client_error_def param_error_def
      exn_def type_error_def sbind_eq_Inl u_def split: option.splits json.splits if_splits prod.splits)

lemma fetched_shot_verified:
  assumes "fetch_shot (Some (screenshot_fetcher env st)) sh = Inr body" "truthy (sh_sha256 sh)"
  shows "sh_sha256 sh = JStr (se_hash env body)"
proof -
  have "screenshot_fetcher env st (sh_bucket sh) (sh_object_key sh) (Some (sh_version_id sh, sh_sha256 sh)) = Inr body"
    using assms(1) screenshot_fetcher_errors by (auto simp: fetch_shot_def split: sum.splits if_splits)
  then show ?thesis using assms(2) by (auto simp: screenshot_fetcher_def fetch_verified_def split: if_splits)
qed

section \<open>The projection\<close>

text \<open>What of a snapshot is for Hermes: agreement on these fields.\<close>

definition agree :: "string list \<Rightarrow> json \<Rightarrow> json \<Rightarrow> bool" where
  "agree ks d d' \<longleftrightarrow> (\<forall>k\<in>set ks. jlookup d (u k) = jlookup d' (u k))"

definition same_incident :: "json \<Rightarrow> json \<Rightarrow> bool" where
  "same_incident i i' \<longleftrightarrow> is_dict i = is_dict i' \<and> agree [''title'', ''status'', ''service'', ''environment''] i i'
     \<and> is_dict (jget i ''report_fragment'') = is_dict (jget i' ''report_fragment'')
     \<and> agree compact_fields (jget i ''report_fragment'') (jget i' ''report_fragment'')"

definition same_for_hermes :: "json \<Rightarrow> json \<Rightarrow> bool" where
  "same_for_hermes s s' \<longleftrightarrow> agree [''shift_display_name'', ''shift_name'', ''shift_timezone''] s s'
     \<and> (\<exists>xs ys. jget s ''incidents'' = JArr xs \<and> jget s' ''incidents'' = JArr ys \<and> list_all2 same_incident xs ys)"

lemma agreeD: "agree ks d d' \<Longrightarrow> k \<in> set ks \<Longrightarrow> jget d k = jget d' k \<and> jhas d k = jhas d' k"
  by (simp add: agree_def jget_def jhas_def)

lemma compact_fragment_agree:
  assumes "is_dict f = is_dict f'" "agree compact_fields f f'"
  shows "compact_fragment rank f = compact_fragment rank f'"
proof -
  have "map (\<lambda>k. (u k, jget f k)) (filter (jhas f) ks) = map (\<lambda>k. (u k, jget f' k)) (filter (jhas f') ks)"
    if "set ks \<subseteq> set compact_fields" for ks
    using that agreeD [OF assms(2)] by (induction ks) auto
  from this [of "sort_key (\<lambda>k. rank (u k)) compact_fields"] assms(1) show ?thesis
    by (simp add: compact_fragment_def)
qed

lemma project_incident_same: "same_incident i i' \<Longrightarrow> project_incident rank n i = project_incident rank n i'"
  using compact_fragment_agree by (auto simp: same_incident_def project_incident_def dest: agreeD)

lemma projected_incidents_same:
  "list_all2 same_incident xs ys \<Longrightarrow>
    map (\<lambda>(n, i). project_incident rank n i) (filter (\<lambda>(n, i). is_dict i) (enumerate k xs))
      = map (\<lambda>(n, i). project_incident rank n i) (filter (\<lambda>(n, i). is_dict i) (enumerate k ys))"
  by (induction xs ys arbitrary: k rule: list_all2_induct) (auto simp: project_incident_same, auto simp: same_incident_def)

lemma input_same:
  assumes "same_for_hermes s s'" "is_dict s" "is_dict s'"
  shows "build_daily_report_input rank s = build_daily_report_input rank s'"
proof -
  obtain xs ys where i: "jget s ''incidents'' = JArr xs" "jget s' ''incidents'' = JArr ys" "list_all2 same_incident xs ys"
    using assms(1) by (auto simp: same_for_hermes_def)
  have "por (JArr zs) (JArr []) = JArr zs" for zs by (cases zs) (auto simp: por_def)
  with i(1,2) assms agreeD [of "[''shift_display_name'', ''shift_name'', ''shift_timezone'']" s s'] projected_incidents_same [OF i(3)]
  show ?thesis by (simp add: build_daily_report_input_def same_for_hermes_def)
qed

section \<open>Properties\<close>

definition job_objects :: "job_env \<Rightarrow> job_settings \<Rightarrow> json \<Rightarrow> (pystr \<times> pystr) set" where
  "job_objects env cfg j = plan_objects env cfg j \<union> report_objects env cfg j"

text \<open>The frozen snapshot is not an object the job itself writes.\<close>

definition snapshot_is_foreign :: "report_env \<Rightarrow> job_settings \<Rightarrow> report_input \<Rightarrow> bool" where
  "snapshot_is_foreign env cfg i \<longleftrightarrow> (\<forall>(b, k)\<in>job_objects (rp_job env) cfg (ri_job_id i).
     (JStr b, JStr k) \<noteq> (jget (ri_ref i) ''bucket'', jget (ri_ref i) ''key''))"

lemma process_daily_report_adds:
  assumes "prepare_report env rows st m = Inr i"
  obtains new where "rr_store (process_daily_report env cfg rows turns took st m) = new @ st"
    "\<forall>x\<in>set new. (so_bucket x, so_key x) \<in> job_objects (rp_job env) cfg (ri_job_id i)"
proof -
  obtain chosen calls where c: "choose_plan env cfg i turns took st = (chosen, calls)" by fastforce
  let ?rest = "\<lambda>(p, tel). stbind (save_plan (rp_job env) cfg (ri_job_id i) p tel) (\<lambda>_. deliver_report env cfg i p tel)"
  have w: "writes (job_objects (rp_job env) cfg (ri_job_id i)) (stbind (pure_step chosen) ?rest)"
    by (auto intro!: step_writes intro: writes_mono [OF save_plan_writes] writes_mono [OF deliver_report_writes]
        simp: job_objects_def split: prod.split)
  have "stbind (pure_step chosen) ?rest st = (rr_outcome (process_daily_report env cfg rows turns took st m),
      rr_store (process_daily_report env cfg rows turns took st m))"
    using assms c by (simp add: process_daily_report_def split: prod.split)
  from writesD [OF w this] show thesis using that .
qed

lemma report_kept:
  assumes "writes (plan_objects env cfg j) f" "f st = (r, st')"
  shows "holds_report env cfg j files st' \<longleftrightarrow> holds_report env cfg j files st"
proof -
  obtain new where new: "st' = new @ st" "\<forall>x\<in>set new. (so_bucket x, so_key x) \<in> plan_objects env cfg j"
    using writesD [OF assms(1,2)] .
  have "read_artifact_metadata (je_store env) st' (js_reports_bucket cfg) (report_artifact_key env j f)
      = read_artifact_metadata (je_store env) st (js_reports_bucket cfg) (report_artifact_key env j f)" if "f \<in> set report_files" for f
  proof -
    have "\<forall>x\<in>set new. (so_bucket x, so_key x) \<noteq> (js_reports_bucket cfg, report_artifact_key env j f)"
      using new(2) objects_apart [of env cfg j] that by (auto simp: report_objects_def)
    then show ?thesis unfolding new(1) by (rule reads_append)
  qed
  then show "holds_report env cfg j files st' \<longleftrightarrow> holds_report env cfg j files st"
    by (cases files) (simp add: holds_report_def report_files_def)
qed

text \<open>The result of a successful run: its plan, and artifacts that its store holds.\<close>

lemma successful_run:
  assumes "rr_outcome (process_daily_report env cfg rows turns took st m) = Inr (p, tel, am)" "prepare_report env rows st m = Inr i"
  obtains telo st1 files prov where
    "choose_plan env cfg i turns took st = (Inr (p, telo), rr_calls (process_daily_report env cfg rows turns took st m))"
    "save_plan (rp_job env) cfg (ri_job_id i) p telo st = (Inr (), st1)"
    "deliver_report env cfg i p telo st1 = (Inr (p, tel, am), rr_store (process_daily_report env cfg rows turns took st m))"
    "(p, tel, am) = report_result p (case telo of None \<Rightarrow> JObj [] | Some t \<Rightarrow> t) files prov"
    "report_provenance (rp_job env) cfg (ri_ref i) p (case telo of None \<Rightarrow> JObj [] | Some t \<Rightarrow> t) = Inr prov"
    "holds_report (rp_job env) cfg (ri_job_id i) files (rr_store (process_daily_report env cfg rows turns took st m))"
proof -
  obtain i' q telo st1 where i: "prepare_report env rows st m = Inr i'"
    and c: "choose_plan env cfg i' turns took st = (Inr (q, telo), rr_calls (process_daily_report env cfg rows turns took st m))"
    and s: "save_plan (rp_job env) cfg (ri_job_id i') q telo st = (Inr (), st1)"
    and d: "deliver_report env cfg i' q telo st1 = (Inr (p, tel, am), rr_store (process_daily_report env cfg rows turns took st m))"
    using process_daily_report_Inr [OF assms(1)] .
  have [simp]: "i' = i" using i assms(2) by simp
  obtain files prov where f: "(p, tel, am) = report_result q (case telo of None \<Rightarrow> JObj [] | Some t \<Rightarrow> t) files prov"
    "report_provenance (rp_job env) cfg (ri_ref i') q (case telo of None \<Rightarrow> JObj [] | Some t \<Rightarrow> t) = Inr prov"
    "holds_report (rp_job env) cfg (ri_job_id i') files (rr_store (process_daily_report env cfg rows turns took st m))"
    using deliver_report_Inr [OF d] .
  have [simp]: "q = p" using f(1) by (cases files) (simp add: report_result_def)
  show thesis using that [of telo st1 files prov] c s d f by simp
qed

text \<open>A run that finds a plan.\<close>

lemma process_with_plan:
  assumes "prepare_report env rows st m = Inr i" "load_saved_plan env cfg (ri_job_id i) st = Some p"
    and "deliver_report env cfg i p None st = (out, st')"
  shows "process_daily_report env cfg rows turns took st m
    = (if valid_plan (rp_job env) (ri_schema i) p then \<lparr>rr_outcome = out, rr_store = st', rr_calls = []\<rparr>
       else \<lparr>rr_outcome = Inl (exn OutputValidationError), rr_store = st, rr_calls = []\<rparr>)"
  using assms by (simp add: process_daily_report_def choose_plan_def save_plan_def stbind_def pure_step_def)

lemma second_preparation:
  assumes "prepare_report env rows st m = Inr i" "snapshot_is_foreign env cfg i"
  shows "prepare_report env rows (rr_store (process_daily_report env cfg rows turns took st m)) m = Inr i"
proof -
  obtain new where "rr_store (process_daily_report env cfg rows turns took st m) = new @ st"
      "\<forall>x\<in>set new. (so_bucket x, so_key x) \<in> job_objects (rp_job env) cfg (ri_job_id i)"
    using process_daily_report_adds [OF assms(1)] .
  then show ?thesis using prepare_report_grown [OF assms(1), of new] assms(2) by (auto simp: snapshot_is_foreign_def)
qed

text \<open>A plan in the store stays there.\<close>

lemma plan_kept:
  assumes "writes (report_objects env cfg j) f" "f st = (r, st')"
  shows "get_object st' (js_artifacts_bucket cfg) (plan_key env j) None = get_object st (js_artifacts_bucket cfg) (plan_key env j) None"
proof -
  obtain new where "st' = new @ st" "\<forall>x\<in>set new. (so_bucket x, so_key x) \<in> report_objects env cfg j"
    using writesD [OF assms] .
  moreover from this(2) have "\<forall>x\<in>set new. (so_bucket x, so_key x) \<noteq> (js_artifacts_bucket cfg, plan_key env j)"
    using objects_apart [of env cfg j] by (auto simp: plan_objects_def)
  ultimately show ?thesis using reads_append(1) by simp
qed


text \<open>C35. A lost read of the plan mixes two reports: if a job has succeeded and is run again while the storage does
  not answer the read of its plan, the error is taken for a missing plan. Hermes is asked again, and the new
  plan \<open>q\<close> replaces the stored one and gives the reported hash of the output, next to the artifacts of the old plan.\<close>

theorem lost_plan_read_mixes_reports:
  assumes "prepare_report env rows st m = Inr i" "snapshot_is_foreign env cfg i" "\<And>b k. \<not> rp_lost env b k"
    and "rr_outcome (process_daily_report env cfg rows turns took st m) = Inr (p, tel, am)"
    and "st' = rr_store (process_daily_report env cfg rows turns took st m)"
    and "env' = env\<lparr>rp_lost := \<lambda>b k. b = js_artifacts_bucket cfg \<and> k = plan_key (rp_job env) (ri_job_id i)\<rparr>"
    and "rr_outcome (process_daily_report env' cfg rows turns' took' st' m) = Inr (q, tel', am')"
  shows "let r' = process_daily_report env' cfg rows turns' took' st' m in
     rr_calls r' \<noteq> []
   \<and> (am_report am', am_document am', am_screenshots am') = (am_report am, am_document am, am_screenshots am)
   \<and> (\<exists>body prov. json_file (rp_job env) q = Inr body \<and> am_provenance am' = Some prov
        \<and> p_output_sha256 prov = Some (se_hash (je_store (rp_job env)) body)
        \<and> get_object (rr_store r') (js_artifacts_bucket cfg) (plan_key (rp_job env) (ri_job_id i)) None = Inr body)"
proof -
  let ?j = "ri_job_id i" and ?s = "process_daily_report env' cfg rows turns' took' st' m"
  have job: "rp_job env' = rp_job env" "rp_rank env' = rp_rank env" using assms(6) by simp_all
  have "prepare_report env rows st' m = Inr i" unfolding assms(5) by (rule second_preparation [OF assms(1,2)])
  then have prep: "prepare_report env' rows st' m = Inr i" unfolding prepare_report_def job .
  have lost: "load_saved_plan env' cfg ?j st' = None" using assms(6) by (simp add: load_saved_plan_def)
  obtain telo files prov where f: "(p, tel, am) = report_result p (case telo of None \<Rightarrow> JObj [] | Some t \<Rightarrow> t) files prov"
      "holds_report (rp_job env) cfg ?j files st'"
    unfolding assms(5) using successful_run [OF assms(4,1)] .
  obtain tel0 st2 files' prov' where c: "choose_plan env' cfg i turns' took' st' = (Inr (q, tel0), rr_calls ?s)"
      and s: "save_plan (rp_job env) cfg ?j q tel0 st' = (Inr (), st2)"
      and d: "deliver_report env' cfg i q tel0 st2 = (Inr (q, tel', am'), rr_store ?s)"
      and g: "(q, tel', am') = report_result q (case tel0 of None \<Rightarrow> JObj [] | Some t \<Rightarrow> t) files' prov'"
      and p: "report_provenance (rp_job env) cfg (ri_ref i) q (case tel0 of None \<Rightarrow> JObj [] | Some t \<Rightarrow> t) = Inr prov'"
    using successful_run [OF assms(7) prep, unfolded job] .
  have asked: "tel0 \<noteq> None" "rr_calls ?s \<noteq> []" using choose_plan_cases(2) [OF c] lost by auto
  have kept: "holds_report (rp_job env) cfg ?j files st2" using report_kept [OF save_plan_writes s] f(2) by blast
  have "existing_report_artifacts env' cfg ?j st2 = Some files"
    using kept assms(6) job by (simp add: existing_report_artifacts_Some keys_differ plan_key_def not_sym [OF keys_differ(1)])
  from deliver_report_again [OF this, of q tel0 prov'] p d job
  have same: "(q, tel', am') = report_result q (case tel0 of None \<Rightarrow> JObj [] | Some t \<Rightarrow> t) files prov'" "rr_store ?s = st2"
    by simp_all
  obtain body where "json_file (rp_job env) q = Inr body"
      "get_object st2 (js_artifacts_bucket cfg) (plan_key (rp_job env) ?j) None = Inr body"
    using s asked(1) by (auto elim: save_plan_stored)
  moreover obtain body' where "json_file (rp_job env) q = Inr body'" "p_output_sha256 prov' = Some (se_hash (je_store (rp_job env)) body')"
    using report_provenance_Inr [OF p] by auto
  ultimately show ?thesis
    using asked(2) same f(1) by (cases files) (auto simp: Let_def report_result_def)
qed


text \<open>C37. Hermes sees the projection of a snapshot only: two jobs of the same skill whose snapshots agree on the shift's
  name and time zone and, incident by incident, on title, status, service, environment and the allowed fields of the
  report fragment send the same requests, whatever else is in the snapshots, and at most
  \<open>max(1, hermes_max_output_attempts)\<close> of them.\<close>

theorem hermes_sees_the_projection_only:
  assumes "prepare_report env rows st m = Inr i" "prepare_report env rows' st' m' = Inr i'"
    and "job_skill (rp_job env) rows m = job_skill (rp_job env) rows' m'"
    and "same_for_hermes (ri_snapshot i) (ri_snapshot i')"
    and "load_saved_plan env cfg (ri_job_id i) st = None" "load_saved_plan env cfg (ri_job_id i') st' = None"
  shows "let calls = rr_calls (process_daily_report env cfg rows turns took st m);
             calls' = rr_calls (process_daily_report env cfg rows' turns took' st' m')
    in calls = calls' \<and> length calls \<le> nat (max 1 (js_max_output_attempts cfg))"
proof -
  have "is_dict (ri_snapshot i)" "is_dict (ri_snapshot i')"
    and built: "build_daily_report_input (rp_rank env) (ri_snapshot i) = Inr (ri_payload i)"
      "build_daily_report_input (rp_rank env) (ri_snapshot i') = Inr (ri_payload i')"
    and skill: "job_skill (rp_job env) rows m = Inr (ri_skill_md i, ri_schema i)" "job_skill (rp_job env) rows' m' = Inr (ri_skill_md i', ri_schema i')"
    using assms(1,2) by (auto simp: prepare_report_def build_daily_report_input_def Let_def split: if_splits)
  with input_same [OF assms(4)] have same: "ri_payload i = ri_payload i'" by simp
  have calls: "rr_calls (process_daily_report env cfg rws turns tk s x)
      = snd (plan_attempts (rp_job env) cfg j turns tk (nat (max 1 (js_max_output_attempts cfg)) - 1) 0)"
    if "prepare_report env rws s x = Inr j" "load_saved_plan env cfg (ri_job_id j) s = None" for rws s x j tk
    using that by (auto simp: process_daily_report_def choose_plan_def split: prod.splits sum.splits)
  have "length (snd (plan_attempts (rp_job env) cfg i turns took (nat (max 1 (js_max_output_attempts cfg)) - 1) 0))
      \<le> nat (max 1 (js_max_output_attempts cfg))"
    using plan_attempts_ok [of "rp_job env" cfg i turns took "nat (max 1 (js_max_output_attempts cfg)) - 1" 0] by (auto simp: prod_eq_iff)
  then show ?thesis
    using same skill assms(3) plan_attempts_calls [of i i'] calls [OF assms(1,5)] calls [OF assms(2,6)] by (simp add: Let_def)
qed

section \<open>A sample job\<close>

definition report_loads :: "pystr \<Rightarrow> json option" where
  "report_loads s = Some (if s = [66] then JObj [] else if s = [115] then one_snapshot
     else if s = [116] then jset one_snapshot ''incidents'' (JArr [jset one_incident ''id'' (JStr [98])])
     else if s = [113] then sample_plan 66 else sample_plan 65)"

definition sample_report_env :: "(pystr \<Rightarrow> pystr \<Rightarrow> bool) \<Rightarrow> report_env" where
  "sample_report_env lost = \<lparr>rp_job = (sample_job_env Some)\<lparr>
       je_dumps_compact := (\<lambda>v. if v = sample_plan 66 then [113] else [112]),
       je_hermes := \<lparr>he_loads = report_loads, he_dumps = (\<lambda>v. [])\<rparr>,
       je_store := \<lparr>se_hash = (\<lambda>b. b), se_assign_version = (\<lambda>st b k. None), se_uploads = (\<lambda>b k. True)\<rparr>\<rparr>,
     rp_docx = sample_docx_env, rp_calendar = sample_calendar, rp_pack = (\<lambda>w. [1]), rp_rank = length, rp_lost = lost\<rparr>"

definition report_turn :: "nat \<Rightarrow> hermes_turn" where
  "report_turn c = \<lparr>ht_transport = Reply (JObj [(u ''choices'', JArr [JObj [(u ''message'',
     JObj [(u ''content'', JStr [c])])]])]), ht_elapsed = 7\<rparr>"

definition snapshot_store :: "nat \<Rightarrow> bucket_store" where
  "snapshot_store c = [\<lparr>so_bucket = u ''reports'', so_key = u ''snap'', so_body = [c], so_version = None, so_type = []\<rparr>]"

definition sample_ref :: json where
  "sample_ref = JObj [(u ''bucket'', JStr (u ''reports'')), (u ''key'', JStr (u ''snap''))]"

definition sample_report_job :: json where
  "sample_report_job = JObj [(u ''job_id'', JStr (u ''j'')), (u ''job_type'', JStr (u ''daily_report'')),
     (u ''skill_name'', JStr (u ''daily-alert-report'')), (u ''skill_snapshot_id'', JStr [1]), (u ''object_refs'', JArr [sample_ref])]"

definition report_skill :: skill_row where
  "report_skill = sample_snap\<lparr>sn_name := u ''daily-alert-report''\<rparr>"

abbreviation report_sample :: "(pystr \<Rightarrow> pystr \<Rightarrow> bool) \<Rightarrow> nat \<Rightarrow> bucket_store \<Rightarrow> report_run" where
  "report_sample lost c st \<equiv> process_daily_report (sample_report_env lost) (sample_job_settings 2) [report_skill]
     (\<lambda>k. report_turn c) (\<lambda>k. 0) st sample_report_job"

lemma sample_report_skill: "job_skill (rp_job (sample_report_env lost)) [report_skill] sample_report_job = Inr ([65], JObj [])"
proof -
  have v: "verify_snapshot_row sample_skill_env report_skill None = Inr ()"
    by (simp add: verify_snapshot_row_def row_digest_def report_skill_def sample_snap_def sample_content_def guard_def)
  have "materialize_snapshot_tree sample_skill_env [report_skill] report_skill [] None \<lparr>ws_files = [], ws_ids = [], ws_names = []\<rparr>
      = Inr (write_snapshot_files report_skill \<lparr>ws_files = [], ws_ids = [], ws_names = []\<rparr>)"
    by (subst materialize_snapshot_tree.simps) (simp add: v)
  then have "materialize_snapshot sample_skill_env [report_skill] (u ''daily-alert-report'') None (Some [1]) None
      = Inr [(u ''daily-alert-report'', [65], [66], [67])]"
    by (simp add: materialize_snapshot_def fetch_skill_snapshot_def truthy_opt_def v write_snapshot_files_def)
      (simp add: report_skill_def sample_snap_def v [unfolded report_skill_def sample_snap_def])
  moreover have "jget sample_report_job ''skill_name'' = JStr (u ''daily-alert-report'')" "opt_field sample_report_job ''skill_hash'' = None"
    "opt_field sample_report_job ''skill_snapshot_id'' = Some [1]" "opt_field sample_report_job ''skill_execution_hash'' = None"
    by (simp_all add: sample_report_job_def jget_def opt_field_def)
  ultimately show ?thesis
    by (simp add: job_skill_def sample_report_env_def sample_job_env_def need_def universal_newlines_fixed report_loads_def)
qed

lemma sample_snapshot_read:
  "find_object st (u ''reports'') (u ''snap'') None = find_object (snapshot_store c) (u ''reports'') (u ''snap'') None \<Longrightarrow>
    read_snapshot (rp_job (sample_report_env lost)) st sample_ref = Inr (the (report_loads [c]))"
  by (simp add: read_snapshot_def sample_ref_def jitem_def jget_def fetch_verified_def fetch_bytes_def get_object_def truthy_opt_def
      snapshot_store_def find_object_Cons sample_report_env_def sample_job_env_def need_def universal_newlines_fixed)
    (simp add: report_loads_def)

lemma sample_report_prepared:
  obtains i where "prepare_report (sample_report_env lost) [report_skill] (snapshot_store c) sample_report_job = Inr i"
    "ri_job_id i = JStr (u ''j'')" "ri_ref i = sample_ref" "ri_skill_md i = [65]" "ri_schema i = JObj []"
    "ri_snapshot i = the (report_loads [c])"
proof -
  have m: "jget sample_report_job ''job_type'' = JStr (u ''daily_report'')" "jget sample_report_job ''skill_name'' = JStr (u ''daily-alert-report'')"
    "jget sample_report_job ''incident_id'' = JNull" "jlookup sample_report_job (u ''job_id'') = Some (JStr (u ''j''))"
    "por (jget sample_report_job ''object_refs'') (JArr []) = JArr [sample_ref]"
    by (simp_all add: sample_report_job_def jget_def por_def)
  have "is_dict (the (report_loads [c])) \<and> (\<exists>items. py_iter (por (jget (the (report_loads [c])) ''incidents'') (JArr [])) = Inr items)"
    by (simp add: report_loads_def one_snapshot_def jget_jobj sample_plan_def por_def)
  then obtain payload where "build_daily_report_input (rp_rank (sample_report_env lost)) (the (report_loads [c])) = Inr payload"
    by (auto simp: build_daily_report_input_def)
  then show thesis
    by (intro that [of "\<lparr>ri_job_id = JStr (u ''j''), ri_ref = sample_ref, ri_skill_md = [65], ri_schema = JObj [],
          ri_snapshot = the (report_loads [c]), ri_payload = payload\<rparr>"])
      (simp_all add: prepare_report_def Let_def m sample_report_skill sample_snapshot_read need_def)
qed

lemma sample_keys:
  "artifact_key (rp_job (sample_report_env lost)) (JStr (u ''j'')) f = u ''jobs/j/'' @ u f"
  "report_artifact_key (rp_job (sample_report_env lost)) (JStr (u ''j'')) f = u ''reports/j/'' @ u f"
  by (simp_all add: artifact_key_def report_artifact_key_def py_str_def u_def)

lemma sample_foreign:
  assumes "ri_job_id i = JStr (u ''j'')" "ri_ref i = sample_ref"
  shows "snapshot_is_foreign (sample_report_env lost) (sample_job_settings 2) i"
proof -
  have "jget sample_ref ''key'' = JStr (u ''snap'')" by (simp add: sample_ref_def jget_def)
  then show ?thesis
    using assms by (simp add: snapshot_is_foreign_def job_objects_def plan_objects_def report_objects_def report_files_def plan_key_def sample_keys)
qed

lemma sample_answers:
  assumes "c \<in> {112, 113}"
  obtains answer where "analyze (je_hermes (rp_job (sample_report_env lost))) pr e (ht_transport (report_turn c)) = Inr answer"
    "hr_result answer = the (report_loads [c])"
proof -
  have "py_strip [c] = [c]" "\<not> py_prefix fence [c]"
    using assms by (auto simp: py_strip_def py_lstrip_def py_space_def fence_def)
  moreover have "\<exists>kvs. report_loads [c] = Some (JObj kvs)"
    using assms by (auto simp: report_loads_def sample_plan_def jobj_def)
  ultimately show thesis
    using that by (auto simp: analyze_def report_turn_def assistant_message_def jget_def read_content_def
        parse_structured_content_def sample_report_env_def por_def Let_def u_def)
qed

lemma sample_plan_valid:
  assumes "65 \<le> c" "c \<le> 90"
  shows "valid_plan (rp_job (sample_report_env lost)) schema (sample_plan c)"
proof -
  have short: "\<not> re_search ps [c]" if "1 < length ps" for ps
    using that by (simp add: re_search_def matches_at_def)
  have "\<not> names_identifier d [c]" for d
    by (simp add: names_identifier_def short ignoring_case_def u_def uuid_pattern_def Let_def)
  moreover have "py_strip [c] = [c]" using assms by (simp add: py_strip_def py_lstrip_def py_space_def)
  moreover have "\<not> py_in (u m) [c]" if "m \<in> {''object_key'', ''analysis_run_id'', ''bucket'', ''minio'', ''s3://''}" for m
    using that by (auto simp: u_def)
  ultimately have "summary_text_ok plain_classes (JStr [c])"
    by (simp add: summary_text_ok_def plain_classes_def)
  then show ?thesis
    by (simp add: valid_plan_def validate_daily_report_result_def sample_report_env_def sample_job_env_def sample_plan_def jget_jobj)
      (simp add: jobj_def)
qed

lemma sample_provenance: "\<exists>prov. report_provenance (rp_job (sample_report_env lost)) cfg ref p tel = Inr prov"
  by (simp add: report_provenance_def json_file_def need_def sample_report_env_def sample_job_env_def)

lemma sample_uploads:
  "\<exists>st'. save_plan (rp_job (sample_report_env lost)) cfg j p tel st = (Inr (), st')"
  "\<exists>files st'. upload_report (sample_report_env lost) cfg j r st = (Inr files, st')"
proof -
  let ?job = "rp_job (sample_report_env lost)"
  have f: "\<exists>body. json_file ?job v = Inr body" for v
    by (simp add: json_file_def need_def sample_report_env_def sample_job_env_def)
  have a: "\<exists>h st'. upload_artifact (je_store ?job) b k body st = (Inr h, st')" for b k body st
    by (simp add: upload_artifact_def upload_file_def sample_report_env_def)
  have m: "\<exists>x st'. upload_artifact_metadata (je_store ?job) b k body ct st = (Inr x, st')" for b k body ct st
    by (simp add: upload_artifact_metadata_def upload_file_def sample_report_env_def read_artifact_metadata_def head_object_def
        get_object_def find_object_Cons truthy_opt_def)
  have j: "\<exists>st'. upload_json ?job b k v st = (Inr (), st')" for b k v st
  proof -
    obtain body where "json_file ?job v = Inr body" using f by blast
    moreover obtain h st' where "upload_artifact (je_store ?job) b k body st = (Inr h, st')" using a by blast
    ultimately show ?thesis by (simp add: upload_json_def stbind_def pure_step_def)
  qed
  show "\<exists>st'. save_plan ?job cfg j p tel st = (Inr (), st')"
  proof (cases tel)
    case (Some t)
    obtain st1 where "upload_json ?job (js_artifacts_bucket cfg) (plan_key ?job j) p st = (Inr (), st1)" using j by blast
    moreover obtain st2 where "upload_json ?job (js_artifacts_bucket cfg) (artifact_key ?job j ''report-telemetry.json'') t st1 = (Inr (), st2)"
      using j by blast
    ultimately show ?thesis by (simp add: Some save_plan_def stbind_def)
  qed (simp add: save_plan_def pure_step_def)
  obtain docx preview shots where r: "r = (docx, preview, shots)" by (cases r)
  obtain d i where di: "json_file ?job preview = Inr d" "json_file ?job (JArr shots) = Inr i" using f by blast
  obtain x1 s1 where 1: "upload_artifact_metadata (je_store ?job) (js_reports_bucket cfg)
      (report_artifact_key ?job j ''report.docx'') docx docx_type st = (Inr x1, s1)" using m by blast
  obtain x2 s2 where 2: "upload_artifact_metadata (je_store ?job) (js_reports_bucket cfg)
      (report_artifact_key ?job j ''document.json'') d (u ''application/json'') s1 = (Inr x2, s2)" using m by blast
  obtain x3 s3 where 3: "upload_artifact_metadata (je_store ?job) (js_reports_bucket cfg)
      (report_artifact_key ?job j ''document.screenshots.json'') i (u ''application/json'') s2 = (Inr x3, s3)" using m by blast
  show "\<exists>files st'. upload_report (sample_report_env lost) cfg j r st = (Inr files, st')"
    by (simp add: r upload_report_def Let_def stbind_def pure_step_def di 1 2 3)
qed

lemma sample_delivers:
  assumes "existing_report_artifacts (sample_report_env lost) cfg (ri_job_id i) st \<noteq> None
    \<or> (\<exists>r. compose_and_render (sample_report_env lost) p (ri_snapshot i) st = Inr r)"
  shows "\<exists>am st'. deliver_report (sample_report_env lost) cfg i p tel st
    = (Inr (p, (case tel of None \<Rightarrow> JObj [] | Some t \<Rightarrow> t), am), st')"
proof -
  let ?t = "case tel of None \<Rightarrow> JObj [] | Some t \<Rightarrow> t"
  obtain prov where prov: "report_provenance (rp_job (sample_report_env lost)) cfg (ri_ref i) p ?t = Inr prov"
    using sample_provenance by blast
  have r: "\<exists>am. report_result p ?t files prov = (p, ?t, am)" for files
    by (cases files) (simp add: report_result_def)
  show ?thesis
  proof (cases "existing_report_artifacts (sample_report_env lost) cfg (ri_job_id i) st")
    case None
    with assms obtain x where x: "compose_and_render (sample_report_env lost) p (ri_snapshot i) st = Inr x" by auto
    obtain files st' where "upload_report (sample_report_env lost) cfg (ri_job_id i) x st = (Inr files, st')"
      using sample_uploads(2) by blast
    with None x prov r [of files] show ?thesis
      by (auto simp: deliver_report_def Let_def stbind_def read_step_def pure_step_def)
  next
    case (Some files)
    with prov r [of files] show ?thesis
      by (auto simp: deliver_report_def Let_def stbind_def read_step_def pure_step_def)
  qed
qed

lemma sample_succeeds:
  assumes "c \<in> {112, 113}" "prepare_report (sample_report_env lost) [report_skill] st sample_report_job = Inr i"
    and "load_saved_plan (sample_report_env lost) (sample_job_settings 2) (ri_job_id i) st = None"
    and "\<And>st' p tel. save_plan (rp_job (sample_report_env lost)) (sample_job_settings 2) (ri_job_id i) p tel st = (Inr (), st') \<Longrightarrow>
      existing_report_artifacts (sample_report_env lost) (sample_job_settings 2) (ri_job_id i) st' \<noteq> None
      \<or> (\<exists>r. compose_and_render (sample_report_env lost) (the (report_loads [c])) (ri_snapshot i) st' = Inr r)"
  shows "\<exists>tel am. rr_outcome (report_sample lost c st) = Inr (the (report_loads [c]), tel, am)"
proof -
  let ?env = "sample_report_env lost" and ?p = "the (report_loads [c])"
  obtain answer where a: "analyze (je_hermes (rp_job ?env)) (js_profile (sample_job_settings 2)) (ht_elapsed (report_turn c))
      (ht_transport (report_turn c)) = Inr answer" "hr_result answer = ?p"
    using sample_answers [OF assms(1)] by blast
  have "valid_plan (rp_job ?env) (ri_schema i) ?p"
    using assms(1) sample_plan_valid by (auto simp: report_loads_def)
  with a have "\<exists>tel calls. plan_attempts (rp_job ?env) (sample_job_settings 2) i (\<lambda>k. report_turn c) (\<lambda>k. 0) n 0
      = (Inr (?p, tel), calls)" for n
    unfolding plan_attempts.simps [of "rp_job ?env" "sample_job_settings 2" i "\<lambda>k. report_turn c" "\<lambda>k. 0" n 0] by (simp add: Let_def)
  then obtain tel calls where "plan_attempts (rp_job ?env) (sample_job_settings 2) i (\<lambda>k. report_turn c) (\<lambda>k. 0)
      (nat (max 1 (js_max_output_attempts (sample_job_settings 2))) - 1) 0 = (Inr (?p, tel), calls)"
    by blast
  then have c: "choose_plan ?env (sample_job_settings 2) i (\<lambda>k. report_turn c) (\<lambda>k. 0) st = (Inr (?p, Some tel), calls)"
    using assms(3) by (simp add: choose_plan_def)
  obtain st1 where s: "save_plan (rp_job ?env) (sample_job_settings 2) (ri_job_id i) ?p (Some tel) st = (Inr (), st1)"
    using sample_uploads(1) by blast
  obtain am st' where "deliver_report ?env (sample_job_settings 2) i ?p (Some tel) st1 = (Inr (?p, tel, am), st')"
    using sample_delivers [OF assms(4) [OF s], of "Some tel"] by auto
  then show ?thesis
    using assms(2) c s by (simp add: process_daily_report_def stbind_def pure_step_def)
qed

abbreviation first_report :: report_run where
  "first_report \<equiv> report_sample (\<lambda>b k. False) 112 (snapshot_store 115)"

lemma snapshot_store_reads:
  "get_object (snapshot_store c) (u ''artifacts'') k None = Inl client_error"
  "k \<noteq> u ''snap'' \<Longrightarrow> read_artifact_metadata senv (snapshot_store c) b k = Inl client_error"
  by (simp_all add: snapshot_store_def get_object_def find_object_def truthy_opt_def read_artifact_metadata_def head_object_def u_def)

lemma snapshot_store_plain:
  assumes "ri_job_id i = JStr (u ''j'')"
  shows "load_saved_plan (sample_report_env lost) (sample_job_settings 2) (ri_job_id i) (snapshot_store c) = None"
    "\<not> holds_report (rp_job (sample_report_env lost)) cfg (ri_job_id i) files (snapshot_store c)"
proof -
  have b: "js_artifacts_bucket (sample_job_settings 2) = u ''artifacts''" by (simp add: sample_job_settings_def)
  show "load_saved_plan (sample_report_env lost) (sample_job_settings 2) (ri_job_id i) (snapshot_store c) = None"
    by (simp add: load_saved_plan_def Let_def b snapshot_store_reads)
  have "report_artifact_key (rp_job (sample_report_env lost)) (JStr (u ''j'')) ''report.docx'' \<noteq> u ''snap''"
    unfolding sample_keys by (simp add: u_def)
  then show "\<not> holds_report (rp_job (sample_report_env lost)) cfg (ri_job_id i) files (snapshot_store c)"
    using assms by (cases files) (simp add: holds_report_def report_files_def snapshot_store_reads)
qed

lemma sample_composed: "\<exists>r. compose_and_render (sample_report_env lost) (sample_plan 65) one_snapshot st = Inr r"
proof -
  obtain d w where "compose_report (wx_doc sample_docx_env) sample_calendar (sample_plan 65) one_snapshot = Inr d"
      "render_document sample_docx_env (Some (screenshot_fetcher (je_store (rp_job (sample_report_env lost))) st)) False d = Inr w"
    using sample_renders by blast
  then show ?thesis by (simp add: compose_and_render_def sample_report_env_def del: sample_docx_fields)
qed

lemma first_report_succeeds:
  obtains i tel am where "prepare_report (sample_report_env (\<lambda>b k. False)) [report_skill] (snapshot_store 115) sample_report_job = Inr i"
    "ri_job_id i = JStr (u ''j'')" "snapshot_is_foreign (sample_report_env (\<lambda>b k. False)) (sample_job_settings 2) i"
    "ri_snapshot i = one_snapshot" "rr_outcome first_report = Inr (sample_plan 65, tel, am)"
    "holds_plan (rp_job (sample_report_env (\<lambda>b k. False))) (sample_job_settings 2) (ri_job_id i) (sample_plan 65) (rr_store first_report)"
proof -
  let ?env = "sample_report_env (\<lambda>b k. False)" and ?cfg = "sample_job_settings 2"
  obtain i where i: "prepare_report ?env [report_skill] (snapshot_store 115) sample_report_job = Inr i"
      "ri_job_id i = JStr (u ''j'')" "ri_ref i = sample_ref" "ri_snapshot i = the (report_loads [115])"
    using sample_report_prepared .
  have p: "the (report_loads [112]) = sample_plan 65" "the (report_loads [115]) = one_snapshot" by (simp_all add: report_loads_def)
  have "\<exists>tel am. rr_outcome first_report = Inr (the (report_loads [112]), tel, am)"
    using sample_composed by (intro sample_succeeds [OF _ i(1) snapshot_store_plain(1) [OF i(2)]]) (simp_all add: p i(4))
  then obtain tel am where out: "rr_outcome first_report = Inr (sample_plan 65, tel, am)" unfolding p by blast
  obtain telo st1 where c: "choose_plan ?env ?cfg i (\<lambda>k. report_turn 112) (\<lambda>k. 0) (snapshot_store 115) = (Inr (sample_plan 65, telo), rr_calls first_report)"
      and s: "save_plan (rp_job ?env) ?cfg (ri_job_id i) (sample_plan 65) telo (snapshot_store 115) = (Inr (), st1)"
      and d: "deliver_report ?env ?cfg i (sample_plan 65) telo st1 = (Inr (sample_plan 65, tel, am), rr_store first_report)"
    using successful_run [OF out i(1)] .
  obtain t where "telo = Some t"
    using choose_plan_cases(2) [OF c] snapshot_store_plain(1) [OF i(2)] by auto
  then obtain body where b: "json_file (rp_job ?env) (sample_plan 65) = Inr body"
      "get_object st1 (js_artifacts_bucket ?cfg) (plan_key (rp_job ?env) (ri_job_id i)) None = Inr body"
    using save_plan_stored s by blast
  have "sample_plan 65 \<noteq> sample_plan 66" by (simp add: sample_plan_def jobj_def)
  with b(1) have "body = [112]" by (simp add: json_file_def need_def sample_report_env_def sample_job_env_def)
  with b(2) plan_kept [OF deliver_report_writes d] have "holds_plan (rp_job ?env) ?cfg (ri_job_id i) (sample_plan 65) (rr_store first_report)"
    by (simp add: holds_plan_def) (simp add: sample_report_env_def sample_job_env_def report_loads_def sample_plan_def)
  then show thesis using that i(1,2,4) sample_foreign [OF i(2,3)] out p(2) by simp
qed



text \<open>The plan's object, unanswered.\<close>

definition plan_lost :: "pystr \<Rightarrow> pystr \<Rightarrow> bool" where
  "plan_lost b k \<longleftrightarrow> b = u ''artifacts'' \<and> k = u ''jobs/j/report-plan.json''"

theorem lost_plan_read_mixes_reports_witness:
  "\<exists>tel am tel' am'. rr_outcome first_report = Inr (sample_plan 65, tel, am)
     \<and> rr_outcome (report_sample plan_lost 113 (rr_store first_report)) = Inr (sample_plan 66, tel', am')
     \<and> am_report am' = am_report am \<and> map_option p_output_sha256 (am_provenance am') = Some (Some [113])"
proof -
  let ?env = "sample_report_env (\<lambda>b k. False)" and ?env' = "sample_report_env plan_lost" and ?cfg = "sample_job_settings 2"
  have lost: "\<not> rp_lost ?env b k" for b k by (simp add: sample_report_env_def)
  obtain i tel am where i: "prepare_report ?env [report_skill] (snapshot_store 115) sample_report_job = Inr i" "ri_job_id i = JStr (u ''j'')"
    "snapshot_is_foreign ?env ?cfg i" "rr_outcome first_report = Inr (sample_plan 65, tel, am)"
    using first_report_succeeds .
  have job: "rp_job ?env' = rp_job ?env" "rp_rank ?env' = rp_rank ?env" by (simp_all add: sample_report_env_def)
  have pk: "js_artifacts_bucket ?cfg = u ''artifacts''" "js_reports_bucket ?cfg = u ''reports''"
    "plan_key (rp_job ?env) (ri_job_id i) = u ''jobs/j/report-plan.json''"
    unfolding i(2) plan_key_def sample_keys by (simp_all add: sample_job_settings_def u_def)
  have env': "?env' = ?env\<lparr>rp_lost := \<lambda>b k. b = js_artifacts_bucket ?cfg \<and> k = plan_key (rp_job ?env) (ri_job_id i)\<rparr>"
    unfolding pk by (simp add: sample_report_env_def plan_lost_def fun_eq_iff)
  have "prepare_report ?env [report_skill] (rr_store first_report) sample_report_job = Inr i"
    by (rule second_preparation [OF i(1,3)])
  then have prep: "prepare_report ?env' [report_skill] (rr_store first_report) sample_report_job = Inr i"
    unfolding prepare_report_def job .
  obtain files where files: "holds_report (rp_job ?env) ?cfg (ri_job_id i) files (rr_store first_report)"
    using successful_run [OF i(4,1)] .
  have load: "load_saved_plan ?env' ?cfg (ri_job_id i) (rr_store first_report) = None"
    unfolding load_saved_plan_def Let_def job pk by (simp add: sample_report_env_def plan_lost_def)
  have free: "\<not> rp_lost ?env' (u ''reports'') k" for k
    by (simp add: sample_report_env_def plan_lost_def u_def)
  have p: "the (report_loads [113]) = sample_plan 66" by (simp add: report_loads_def)
  have "\<exists>tel am. rr_outcome (report_sample plan_lost 113 (rr_store first_report)) = Inr (the (report_loads [113]), tel, am)"
  proof (rule sample_succeeds [OF _ prep load])
    fix st' p tel
    assume "save_plan (rp_job ?env') ?cfg (ri_job_id i) p tel (rr_store first_report) = (Inr (), st')"
    then have "holds_report (rp_job ?env') ?cfg (ri_job_id i) files st'"
      using report_kept [OF save_plan_writes] files unfolding job by blast
    then have "existing_report_artifacts ?env' ?cfg (ri_job_id i) st' = Some files"
      unfolding existing_report_artifacts_Some pk using free by blast
    then show "existing_report_artifacts ?env' ?cfg (ri_job_id i) st' \<noteq> None
      \<or> (\<exists>r. compose_and_render ?env' (the (report_loads [113])) (ri_snapshot i) st' = Inr r)" by simp
  qed simp
  then obtain tel' am' where second: "rr_outcome (report_sample plan_lost 113 (rr_store first_report)) = Inr (sample_plan 66, tel', am')"
    unfolding p by blast
  have "json_file (rp_job ?env) (sample_plan 66) = Inr [113]" "se_hash (je_store (rp_job ?env)) [113] = [113]"
    by (simp_all add: json_file_def need_def sample_report_env_def sample_job_env_def)
  with lost_plan_read_mixes_reports [OF i(1,3) lost i(4) refl env' second] i(4) second show ?thesis
    unfolding Let_def by auto
qed

text \<open>Another job over a snapshot with another incident id.\<close>

theorem hermes_sees_the_projection_only_witness:
  "rr_calls (report_sample (\<lambda>b k. False) 112 (snapshot_store 116)) = rr_calls first_report"
proof -
  let ?env = "sample_report_env (\<lambda>b k. False)"
  obtain i where i: "prepare_report ?env [report_skill] (snapshot_store 115) sample_report_job = Inr i" "ri_job_id i = JStr (u ''j'')"
      "ri_snapshot i = the (report_loads [115])"
    using sample_report_prepared .
  obtain i' where i': "prepare_report ?env [report_skill] (snapshot_store 116) sample_report_job = Inr i'" "ri_job_id i' = JStr (u ''j'')"
      "ri_snapshot i' = the (report_loads [116])"
    using sample_report_prepared .
  have "same_incident one_incident (jset one_incident ''id'' (JStr [98]))"
    by (simp add: same_incident_def agree_def jlookup_jset one_incident_def)
  moreover have "jget one_snapshot ''incidents'' = JArr [one_incident]" "is_dict one_snapshot"
    by (simp_all add: one_snapshot_def jget_jobj)
  ultimately have "same_for_hermes (ri_snapshot i) (ri_snapshot i')"
    unfolding i(3) i'(3) by (simp add: report_loads_def same_for_hermes_def agree_def jlookup_jset)
  from hermes_sees_the_projection_only [OF i(1) i'(1) refl this snapshot_store_plain(1) [OF i(2)] snapshot_store_plain(1) [OF i'(2)],
      of "\<lambda>k. report_turn 112" "\<lambda>k. 0" "\<lambda>k. 0"]
  show ?thesis unfolding Let_def by auto
qed

end
