(* ===== verification/Incidents.thy ===== *)
theory Incidents
  imports Analysis_Api
begin

text \<open>
  The incidents API, \<^verbatim>\<open>apps/api/app/api/v1/routers/incidents.py\<close>: allocation of display ids,
  creation, update and deletion of incidents, their lists with the derived columns, readiness and
  the timeline. The state holds the tables the handlers use. Requests arrive as validated by the
  schemas of \<^verbatim>\<open>schemas.py\<close>, which are checked first here; a failing statement ends its request with
  an internal error and leaves the tables as they were. Rows that other transactions commit between
  a read and a write, MinIO's answers, fresh identifiers, the clock, \<open>str.isdigit\<close> and \<open>int\<close> are
  arguments. Permissions are those of Sessions; audit entries are not kept.
\<close>

section \<open>Tables\<close>

text \<open>An evidence row whose incident was deleted has the empty text, which is no UUID, as its incident id.\<close>

record incidents_db =
  nd_shifts :: "shift_row list"
  nd_incidents :: "incident_row list"
  nd_evidence :: evidence_db
  nd_runs :: "analysis_run list"
  nd_meta :: "job_meta list"
  nd_jobs :: job_db
  nd_events :: "outbox_event list"

record incident_env =
  ie_digit :: "nat \<Rightarrow> bool"
  ie_int :: "pystr \<Rightarrow> int option"

text \<open>The evidence tables as the purge code sees them.\<close>

definition evidence_view :: "incidents_db \<Rightarrow> evidence_db" where
  "evidence_view db = (nd_evidence db)\<lparr>incident_ids := map in_id (nd_incidents db),
     analysis_evidence_ids := concat (map (\<lambda>r. case rn_log_evidence_id r of None \<Rightarrow> [] | Some e \<Rightarrow> [e]) (nd_runs db))\<rparr>"

definition display_id :: "incident_row \<Rightarrow> pystr" where
  "display_id r = jstr (in_column r ''display_id'')"

definition get_row :: "incidents_db \<Rightarrow> uuid \<Rightarrow> incident_row option" where
  "get_row db i = find_first (\<lambda>r. in_id r = i) (nd_incidents db)"

section \<open>Column constraints\<close>

definition COLUMN_LIMITS :: "(string \<times> nat) list" where
  "COLUMN_LIMITS = [(''display_id'', 20), (''title'', 500), (''service'', 200), (''environment'', 50), (''status'', 20),
     (''alert_source'', 200), (''trigger_value'', 500), (''teams_url'', 500), (''grafana_url'', 500)]"

definition NOT_NULL :: "string list" where
  "NOT_NULL = [''display_id'', ''title'', ''service'', ''environment'', ''status'']"

definition fits_columns :: "incident_row \<Rightarrow> bool" where
  "fits_columns r \<longleftrightarrow> list_all (\<lambda>(k, n). case in_column r k of JStr s \<Rightarrow> length s \<le> n | _ \<Rightarrow> k \<notin> set NOT_NULL) COLUMN_LIMITS"

section \<open>Display ids\<close>

definition next_display_id :: "incident_env \<Rightarrow> incident_row list \<Rightarrow> doc_error + pystr" where
  "next_display_id env rows =
     sbind (sfold (\<lambda>suffix highest. if suffix \<noteq> [] \<and> list_all (ie_digit env) suffix
         then (case ie_int env suffix of None \<Rightarrow> Inl Value_Error | Some n \<Rightarrow> Inr (max highest n)) else Inr highest)
       (map (drop 4) (filter (py_prefix (u ''INC-'')) (map display_id rows))) 1000)
     (\<lambda>highest. Inr (u ''INC-'' @ int_str (highest + 1)))"

section \<open>Derived columns\<close>

record incident_out =
  io_row :: incident_row
  io_has_log :: bool
  io_analysis_status :: pystr

definition active_log :: "evidence_row \<Rightarrow> bool" where
  "active_log e \<longleftrightarrow> e_type e = u ''LOG'' \<and> e_lifecycle e = ACTIVE"

fun analysis_status_name :: "job_status \<Rightarrow> pystr" where
  "analysis_status_name COMPLETED = u ''completed''"
| "analysis_status_name FAILED = u ''failed''"
| "analysis_status_name QUEUED = u ''queued''"
| "analysis_status_name RETRYING = u ''retrying''"
| "analysis_status_name _ = u ''running''"

text \<open>The two queries over all incidents of a response; a later row of the second one wins.\<close>

definition current_states :: "job_db \<Rightarrow> uuid list \<Rightarrow> analysis_run list \<Rightarrow> (uuid \<times> pystr) list" where
  "current_states js ids runs = concat (map (\<lambda>r. case jobs js (ar_job_id r) of None \<Rightarrow> []
       | Some j \<Rightarrow> [(rn_incident_id r, analysis_status_name (j_status j))])
     (filter (\<lambda>r. rn_incident_id r \<in> set ids \<and> rn_current r) runs))"

definition attach_derived :: "incidents_db \<Rightarrow> incident_row list \<Rightarrow> incident_out list" where
  "attach_derived db rows =
    (let ids = map in_id rows;
         logs = map e_incident_id (filter (\<lambda>e. e_incident_id e \<in> set ids \<and> active_log e) (evidence (nd_evidence db)));
         states = current_states (nd_jobs db) ids (nd_runs db)
     in map (\<lambda>r. \<lparr>io_row = r, io_has_log = in_id r \<in> set logs,
          io_analysis_status = (case map_of (rev states) (in_id r) of None \<Rightarrow> u ''not_analyzed'' | Some s \<Rightarrow> s)\<rparr>) rows)"

section \<open>Reading\<close>

record list_query =
  lq_limit :: nat
  lq_offset :: nat
  lq_shift :: "uuid option"
  lq_status :: "pystr option"
  lq_service :: "pystr option"
  lq_environment :: "pystr option"
  lq_has_log :: "bool option"

definition column_is :: "string \<Rightarrow> pystr option \<Rightarrow> incident_row \<Rightarrow> bool" where
  "column_is k wanted r \<longleftrightarrow> (case truthy_opt wanted of None \<Rightarrow> True | Some w \<Rightarrow> in_column r k = JStr w)"

definition selected :: "incidents_db \<Rightarrow> list_query \<Rightarrow> incident_row \<Rightarrow> bool" where
  "selected db q r \<longleftrightarrow> (case lq_shift q of None \<Rightarrow> True | Some s \<Rightarrow> in_shift_id r = Some s)
     \<and> column_is ''status'' (lq_status q) r \<and> column_is ''service'' (lq_service q) r \<and> column_is ''environment'' (lq_environment q) r
     \<and> (case lq_has_log q of None \<Rightarrow> True
        | Some b \<Rightarrow> b = list_ex (\<lambda>e. e_incident_id e = in_id r \<and> active_log e) (evidence (nd_evidence db)))"

text \<open>Rows with equal sort keys come in the order of the table.\<close>

definition list_incidents :: "incidents_db \<Rightarrow> list_query \<Rightarrow> incident_out list \<times> nat" where
  "list_incidents db q =
    (let rows = filter (selected db q) (nd_incidents db);
         ordered = (case lq_shift q of Some s \<Rightarrow> sort_key in_created_at rows | None \<Rightarrow> sort_key (\<lambda>r. - in_triggered_at r) rows);
         page = (if lq_limit q = 0 then drop (lq_offset q) ordered else take (lq_limit q) (drop (lq_offset q) ordered))
     in (attach_derived db page, length rows))"

definition list_incident_readiness :: "incidents_db \<Rightarrow> uuid \<Rightarrow> (uuid \<times> json \<times> bool \<times> pystr) list" where
  "list_incident_readiness db shift =
    (let rows = sort_key in_created_at (filter (\<lambda>r. in_shift_id r = Some shift) (nd_incidents db))
     in map (\<lambda>(r, d). (in_id r, in_column r ''title'', io_has_log d, io_analysis_status d)) (zip rows (attach_derived db rows)))"

definition incident_not_found :: http_error where
  "incident_not_found = HTTP 404 (u ''Incident not found'')"

definition get_incident :: "incidents_db \<Rightarrow> uuid \<Rightarrow> http_error + incident_out" where
  "get_incident db i = (case get_row db i of None \<Rightarrow> Inl incident_not_found | Some r \<Rightarrow> Inr (hd (attach_derived db [r])))"

section \<open>Timeline\<close>

record timeline_event =
  te_type :: string
  te_label :: pystr
  te_at :: time
  te_detail :: json

text \<open>\<open>str.title\<close> of an ASCII text; \<open>start\<close> says whether a letter here begins a word.\<close>

fun py_title :: "bool \<Rightarrow> pystr \<Rightarrow> pystr" where
  "py_title start [] = []"
| "py_title start (c # s) =
    (if 97 \<le> c \<and> c \<le> 122 then (if start then c - 32 else c) # py_title False s
     else if 65 \<le> c \<and> c \<le> 90 then (if start then c else c + 32) # py_title False s
     else c # py_title True s)"

definition evidence_label :: "pystr \<Rightarrow> pystr" where
  "evidence_label t = (if t = u ''SCREENSHOT'' then u ''Screenshot attached'' else if t = u ''LOG'' then u ''Log attached''
     else py_title True t @ u '' attached'')"

definition evidence_events :: "incidents_db \<Rightarrow> uuid \<Rightarrow> timeline_event list" where
  "evidence_events db i = map (\<lambda>e. \<lparr>te_type = ''evidence_attached'', te_label = evidence_label (e_type e), te_at = e_created_at e,
       te_detail = JObj [(u ''evidence_type'', JStr (e_type e)), (u ''filename'', JStr (e_filename e))]\<rparr>)
     (sort_key e_created_at (filter (\<lambda>e. e_incident_id e = i) (evidence (nd_evidence db))))"

definition job_kind :: "pystr \<Rightarrow> pystr" where
  "job_kind t = (if t = u ''log_triage'' then u ''Analysis'' else u ''Report generation'')"

definition job_events :: "job_meta \<Rightarrow> job_row \<Rightarrow> timeline_event list" where
  "job_events m j =
    (let kind = job_kind (jm_type m);
         about = [(u ''job_id'', JStr (jm_id m)), (u ''job_type'', JStr (jm_type m))];
         event = (\<lambda>t suffix time detail. \<lparr>te_type = t, te_label = kind @ u suffix, te_at = time, te_detail = JObj (about @ detail)\<rparr>);
         problem = [(u ''error_code'', jopt (j_error_code j)), (u ''error_message'', jopt (j_error_message j))];
         ended = (case j_completed_at j of Some t \<Rightarrow> t | None \<Rightarrow> jm_queued_at m)
     in [event ''job_requested'' '' requested'' (jm_queued_at m) []]
      @ (case j_started_at j of None \<Rightarrow> [] | Some t \<Rightarrow> [event ''job_started'' '' started'' t []])
      @ (if j_completed_at j = None \<and> j_status j \<noteq> RETRYING then []
         else if j_status j = COMPLETED then [event ''job_completed'' '' completed'' ended []]
         else if j_status j = RETRYING then [event ''job_retrying'' '' retrying'' ended problem]
         else if j_status j = FAILED then [event ''job_failed'' '' failed'' ended problem] else []))"

definition incident_job_events :: "incidents_db \<Rightarrow> uuid \<Rightarrow> timeline_event list" where
  "incident_job_events db i = concat (map (\<lambda>m. case jobs (nd_jobs db) (jm_id m) of None \<Rightarrow> [] | Some j \<Rightarrow> job_events m j)
     (sort_key jm_queued_at (filter (\<lambda>m. jm_incident_id m = Some i) (nd_meta db))))"

definition get_incident_timeline :: "incidents_db \<Rightarrow> uuid \<Rightarrow> http_error + timeline_event list" where
  "get_incident_timeline db i = (case get_row db i of
      None \<Rightarrow> Inl incident_not_found
    | Some r \<Rightarrow> Inr (sort_key te_at (
        [\<lparr>te_type = ''triggered'', te_label = u ''Triggered'', te_at = in_triggered_at r,
           te_detail = (if truthy (in_column r ''alert_source'') then JObj [(u ''alert_source'', in_column r ''alert_source'')] else JNull)\<rparr>,
         \<lparr>te_type = ''incident_created'', te_label = u ''Incident created'', te_at = in_created_at r, te_detail = JNull\<rparr>]
        @ evidence_events db i @ incident_job_events db i
        @ (case in_recovered_at r of None \<Rightarrow> []
           | Some t \<Rightarrow> [\<lparr>te_type = ''recovered'', te_label = u ''Recovered'', te_at = t, te_detail = JNull\<rparr>]))))"

section \<open>Creation\<close>

record incident_body =
  ib_title :: pystr
  ib_service :: pystr
  ib_environment :: pystr
  ib_status :: pystr
  ib_alert_source :: "pystr option"
  ib_triggered_at :: time
  ib_recovered_at :: "time option"
  ib_trigger_value :: "pystr option"
  ib_teams_url :: "pystr option"
  ib_grafana_url :: "pystr option"
  ib_notes :: "pystr option"

definition STATUSES :: "pystr list" where
  "STATUSES = [u ''open'', u ''investigating'', u ''recovered'']"

definition text_between :: "nat \<Rightarrow> nat \<Rightarrow> pystr \<Rightarrow> bool" where
  "text_between lo hi s \<longleftrightarrow> lo \<le> length s \<and> length s \<le> hi"

definition accepts_create :: "incident_body \<Rightarrow> bool" where
  "accepts_create b \<longleftrightarrow> text_between 1 500 (ib_title b) \<and> text_between 1 200 (ib_service b)
     \<and> text_between 1 100 (ib_environment b) \<and> ib_status b \<in> set STATUSES"

definition unprocessable :: "string \<Rightarrow> http_error" where
  "unprocessable s = HTTP 422 (u s)"

text \<open>The rule on status and recovery time, as both handlers check it.\<close>

definition check_recovery :: "json \<Rightarrow> time option \<Rightarrow> http_error + unit" where
  "check_recovery status recovered =
    (if status = JStr (u ''recovered'') \<and> recovered = None then Inl (unprocessable ''Recovered incidents require recovered_at.'')
     else if status \<noteq> JStr (u ''recovered'') \<and> recovered \<noteq> None
     then Inl (unprocessable ''Only recovered incidents may have recovered_at.'') else Inr ())"

definition new_incident :: "uuid \<Rightarrow> pystr \<Rightarrow> uuid option \<Rightarrow> uuid \<Rightarrow> time \<Rightarrow> incident_body \<Rightarrow> incident_row" where
  "new_incident i display shift user now b = \<lparr>in_id = i, in_shift_id = shift, in_created_at = now,
     in_triggered_at = ib_triggered_at b, in_recovered_at = ib_recovered_at b,
     in_column = (\<lambda>k. JNull)(''display_id'' := JStr display, ''title'' := JStr (ib_title b), ''service'' := JStr (ib_service b),
       ''environment'' := JStr (ib_environment b), ''status'' := JStr (ib_status b), ''alert_source'' := jopt (ib_alert_source b),
       ''trigger_value'' := jopt (ib_trigger_value b), ''teams_url'' := jopt (ib_teams_url b),
       ''grafana_url'' := jopt (ib_grafana_url b), ''notes'' := jopt (ib_notes b), ''created_by'' := JStr user,
       ''updated_by'' := JStr user)\<rparr>"

text \<open>One attempt: the display id is chosen from the rows it reads, then other transactions commit
  their rows, then it inserts. \<open>None\<close> is the \<open>IntegrityError\<close> of a duplicate display id.\<close>

definition create_attempt ::
  "incident_env \<Rightarrow> uuid \<Rightarrow> uuid \<Rightarrow> time \<Rightarrow> incident_row list \<Rightarrow> incident_body \<Rightarrow> incidents_db
    \<Rightarrow> (http_error + incident_row) option \<times> incidents_db" where
  "create_attempt env i user now others b db =
    (case next_display_id env (nd_incidents db) of
       Inl e \<Rightarrow> (Some (Inl internal_error), db)
     | Inr display \<Rightarrow>
        (let r = new_incident i display (map_option sf_id (find_first active_shift (nd_shifts db))) user now b;
             db' = db\<lparr>nd_incidents := nd_incidents db @ others\<rparr>
         in if \<not> fits_columns r then (Some (Inl internal_error), db')
            else if display \<in> display_id ` set (nd_incidents db') then (None, db')
            else (Some (Inr r), db\<lparr>nd_incidents := nd_incidents db' @ [r]\<rparr>)))"

text \<open>Two attempts; \<open>others k\<close> are the rows committed by other transactions during attempt \<open>k\<close>.\<close>

definition create_incident ::
  "incident_env \<Rightarrow> (nat \<Rightarrow> uuid) \<Rightarrow> uuid \<Rightarrow> time \<Rightarrow> (nat \<Rightarrow> incident_row list) \<Rightarrow> incident_body \<Rightarrow> incidents_db
    \<Rightarrow> (http_error + incident_out) \<times> incidents_db" where
  "create_incident env ids user now others b db =
    (let respond = (\<lambda>res. case res of Inl e \<Rightarrow> Inl e
           | Inr r \<Rightarrow> Inr \<lparr>io_row = r, io_has_log = False, io_analysis_status = u ''not_analyzed''\<rparr>)
     in if \<not> accepts_create b then (Inl (HTTP 422 []), db)
        else case check_recovery (JStr (ib_status b)) (ib_recovered_at b) of
          Inl e \<Rightarrow> (Inl e, db)
        | Inr _ \<Rightarrow> (case create_attempt env (ids 0) user now (others 0) b db of
            (Some res, db1) \<Rightarrow> (respond res, db1)
          | (None, db1) \<Rightarrow> (case create_attempt env (ids 1) user now (others 1) b db1 of
              (Some res, db2) \<Rightarrow> (respond res, db2)
            | (None, db2) \<Rightarrow> (Inl internal_error, db2))))"

section \<open>Update\<close>

text \<open>The fields that were set; \<open>Some None\<close> is an explicit null.\<close>

record incident_changes =
  ch_title :: "pystr option option"
  ch_status :: "pystr option option"
  ch_recovered_at :: "time option option"
  ch_notes :: "pystr option option"

definition accepts_update :: "incident_changes \<Rightarrow> bool" where
  "accepts_update c \<longleftrightarrow> (case ch_title c of Some (Some s) \<Rightarrow> text_between 1 500 s | _ \<Rightarrow> True)
     \<and> (case ch_status c of Some (Some s) \<Rightarrow> s \<in> set STATUSES | _ \<Rightarrow> True)"

definition set_field :: "string \<Rightarrow> pystr option option \<Rightarrow> (string \<Rightarrow> json) \<Rightarrow> string \<Rightarrow> json" where
  "set_field k change f = (case change of None \<Rightarrow> f | Some v \<Rightarrow> f(k := jopt v))"

definition apply_changes :: "uuid \<Rightarrow> incident_changes \<Rightarrow> incident_row \<Rightarrow> incident_row" where
  "apply_changes user c r = r\<lparr>in_recovered_at := (case ch_recovered_at c of None \<Rightarrow> in_recovered_at r | Some t \<Rightarrow> t),
     in_column := (set_field ''notes'' (ch_notes c) (set_field ''status'' (ch_status c) (set_field ''title'' (ch_title c)
       (in_column r))))(''updated_by'' := JStr user)\<rparr>"

definition update_incident ::
  "uuid \<Rightarrow> incident_changes \<Rightarrow> uuid \<Rightarrow> incidents_db \<Rightarrow> (http_error + incident_out) \<times> incidents_db" where
  "update_incident user c i db =
    (if \<not> accepts_update c then (Inl (HTTP 422 []), db)
     else case get_row db i of None \<Rightarrow> (Inl incident_not_found, db)
     | Some r \<Rightarrow>
        (case check_recovery (case ch_status c of None \<Rightarrow> in_column r ''status'' | Some s \<Rightarrow> jopt s)
            (case ch_recovered_at c of None \<Rightarrow> in_recovered_at r | Some t \<Rightarrow> t) of
          Inl e \<Rightarrow> (Inl e, db)
        | Inr _ \<Rightarrow>
           (let r' = apply_changes user c r;
                db' = db\<lparr>nd_incidents := map (\<lambda>x. if in_id x = i then r' else x) (nd_incidents db)\<rparr>
            in if \<not> fits_columns r' then (Inl internal_error, db) else (Inr (hd (attach_derived db' [r'])), db'))))"

section \<open>Deletion\<close>

text \<open>\<open>request_purge\<close> for every evidence row in turn: the references of the first protected one, or the plans.\<close>

fun request_purges :: "time \<Rightarrow> evidence_row list \<Rightarrow> evidence_db \<Rightarrow> pystr list + purge_plan list \<times> evidence_db" where
  "request_purges now [] e = Inr ([], e)"
| "request_purges now (r # rs) e = (case request_purge now r e of
      Inl refs \<Rightarrow> Inl refs
    | Inr (plan, e1) \<Rightarrow> (case request_purges now rs e1 of
        Inl refs \<Rightarrow> Inl refs | Inr (plans, e2) \<Rightarrow> Inr (plan # plans, e2)))"

definition evidence_of :: "uuid \<Rightarrow> incidents_db \<Rightarrow> evidence_row list" where
  "evidence_of i db = filter (\<lambda>e. e_incident_id e = i) (evidence (nd_evidence db))"

text \<open>The transaction after the purges were requested.\<close>

definition remove_incident :: "uuid \<Rightarrow> evidence_db \<Rightarrow> incidents_db \<Rightarrow> incidents_db" where
  "remove_incident i e db =
    (let gone = map e_id (evidence_of i db);
         job_ids = map jm_id (filter (\<lambda>m. jm_incident_id m = Some i) (nd_meta db))
     in db\<lparr>nd_incidents := filter (\<lambda>r. in_id r \<noteq> i) (nd_incidents db),
          nd_evidence := e\<lparr>evidence := map (\<lambda>r. if e_incident_id r = i then r\<lparr>e_incident_id := []\<rparr> else r) (evidence e),
            ocr_evidence_ids := filter (\<lambda>x. x \<notin> set gone) (ocr_evidence_ids e),
            intents := filter (\<lambda>x. i_incident_id x \<noteq> i) (intents e)\<rparr>,
          nd_runs := filter (\<lambda>r. rn_incident_id r \<noteq> i) (nd_runs db),
          nd_meta := filter (\<lambda>m. jm_incident_id m \<noteq> Some i) (nd_meta db),
          nd_jobs := (nd_jobs db)\<lparr>jobs := jobs (nd_jobs db) |` (- set job_ids)\<rparr>,
          nd_events := filter (\<lambda>o1. o_job_id o1 \<notin> set job_ids) (nd_events db)\<rparr>)"

text \<open>The storage clean-up after the commit; \<open>answer\<close> is MinIO's for an evidence id.\<close>

fun purge_plans :: "(uuid \<Rightarrow> storage_result) \<Rightarrow> purge_plan list \<Rightarrow> evidence_db \<Rightarrow> storage_op list \<times> evidence_db" where
  "purge_plans answer [] e = ([], e)"
| "purge_plans answer (p # ps) e =
    (let (res, x) = purge_storage (answer (pp_evidence_id p)) p;
         (xs, e') = purge_plans answer ps (if res = Storage_Ok then mark_purged (pp_evidence_id p) e else e)
     in (x # xs, e'))"

definition delete_incident ::
  "(uuid \<Rightarrow> storage_result) \<Rightarrow> time \<Rightarrow> uuid \<Rightarrow> incidents_db \<Rightarrow> (http_error + unit) \<times> storage_op list \<times> incidents_db" where
  "delete_incident answer now i db =
    (case get_row db i of None \<Rightarrow> (Inl incident_not_found, [], db)
     | Some r \<Rightarrow> (case request_purges now (evidence_of i db) (evidence_view db) of
         Inl refs \<Rightarrow> (Inl (HTTP 409 (u ''Incident evidence is retained: evidence is retained by: '' @ py_join (u '', '') refs)), [], db)
       | Inr (plans, e) \<Rightarrow>
          (let db1 = remove_incident i e db; (xs, e') = purge_plans answer plans (nd_evidence db1)
           in (Inr (), xs, db1\<lparr>nd_evidence := e'\<rparr>))))"

section \<open>Well-formed tables\<close>

definition incident_row_ok :: "incident_row \<Rightarrow> bool" where
  "incident_row_ok r \<longleftrightarrow> in_column r ''status'' \<in> JStr ` set STATUSES
     \<and> (in_column r ''status'' = JStr (u ''recovered'') \<longleftrightarrow> in_recovered_at r \<noteq> None) \<and> fits_columns r"

definition incidents_ok :: "incident_row list \<Rightarrow> bool" where
  "incidents_ok rows \<longleftrightarrow> list_all incident_row_ok rows \<and> distinct (map in_id rows) \<and> distinct (map display_id rows)"

lemma incidents_ok_append: "incidents_ok (xs @ ys) \<Longrightarrow> incidents_ok xs \<and> incidents_ok ys"
  by (auto simp: incidents_ok_def)

lemma incidents_ok_filter: "incidents_ok rows \<Longrightarrow> incidents_ok (filter p rows)"
  by (auto simp: incidents_ok_def list_all_iff distinct_map inj_on_def)

lemma check_recovery_ok: "check_recovery s t = Inr x \<Longrightarrow> s = JStr (u ''recovered'') \<longleftrightarrow> t \<noteq> None"
  by (auto simp: check_recovery_def split: if_splits)

lemma new_incident_fields [simp]: "in_id (new_incident i d s user now b) = i" "display_id (new_incident i d s user now b) = d"
  "in_column (new_incident i d s user now b) ''status'' = JStr (ib_status b)"
  "in_recovered_at (new_incident i d s user now b) = ib_recovered_at b"
  by (simp_all add: new_incident_def display_id_def)

lemma create_attempt_cases:
  assumes "create_attempt env i user now others b db = (res, db')"
  obtains "res = Some (Inl internal_error)" "db' = db \<or> db' = db\<lparr>nd_incidents := nd_incidents db @ others\<rparr>"
  | "res = None" "db' = db\<lparr>nd_incidents := nd_incidents db @ others\<rparr>"
  | d r where "res = Some (Inr r)" "db' = db\<lparr>nd_incidents := nd_incidents db @ others @ [r]\<rparr>" "fits_columns r"
      "next_display_id env (nd_incidents db) = Inr d" "d \<notin> display_id ` set (nd_incidents db @ others)"
      "r = new_incident i d (map_option sf_id (find_first active_shift (nd_shifts db))) user now b"
  using assms by (auto simp: create_attempt_def Let_def split: sum.splits if_splits)

text \<open>One attempt keeps the tables well-formed.\<close>

lemma create_attempt_ok:
  assumes "create_attempt env i user now others b db = (res, db')" "incidents_ok (nd_incidents db @ others)"
    and "i \<notin> in_id ` set (nd_incidents db @ others)" "accepts_create b" "check_recovery (JStr (ib_status b)) (ib_recovered_at b) = Inr x"
  shows "incidents_ok (nd_incidents db')"
  using assms(1)
proof (cases rule: create_attempt_cases)
  case (3 d r)
  have "incident_row_ok r"
    using 3(3,6) assms(4,5) check_recovery_ok by (auto simp: incident_row_ok_def accepts_create_def)
  then show ?thesis using 3 assms(2,3) by (auto simp: incidents_ok_def)
qed (use incidents_ok_append [OF assms(2)] assms(2) in auto)

lemma create_incident_ok:
  assumes "incidents_ok (nd_incidents db @ others 0 @ others 1)"
    and "\<And>k. ids k \<notin> in_id ` set (nd_incidents db @ others 0 @ others 1)"
  shows "incidents_ok (nd_incidents (snd (create_incident env ids user now others b db)))"
proof (cases "accepts_create b \<and> check_recovery (JStr (ib_status b)) (ib_recovered_at b) = Inr ()")
  case True
  have ok: "incidents_ok (nd_incidents db @ others 0)" using assms(1) incidents_ok_append [of "nd_incidents db @ others 0"] by simp
  obtain res db1 where 1: "create_attempt env (ids 0) user now (others 0) b db = (res, db1)" by fastforce
  have ok1: "incidents_ok (nd_incidents db1)" using create_attempt_ok [OF 1 ok] assms(2) [of 0] True by auto
  show ?thesis
  proof (cases res)
    case (Some r)
    then show ?thesis using 1 True ok1 by (simp add: create_incident_def)
  next
    case None
    obtain res2 db2 where 2: "create_attempt env (ids 1) user now (others 1) b db1 = (res2, db2)" by fastforce
    have "nd_incidents db1 = nd_incidents db @ others 0" using 1 None by (cases rule: create_attempt_cases) auto
    then have "incidents_ok (nd_incidents db2)"
      using create_attempt_ok [OF 2] assms(1) assms(2) [of 1] True by auto
    then show ?thesis using 1 2 None True by (auto simp: create_incident_def split: option.split)
  qed
next
  case False
  then show ?thesis using incidents_ok_append [OF assms(1)]
    by (auto simp: create_incident_def Let_def split: sum.split if_splits)
qed

lemma apply_changes_fields [simp]: "in_id (apply_changes user c r) = in_id r" "display_id (apply_changes user c r) = display_id r"
  by (simp_all add: apply_changes_def display_id_def set_field_def split: option.split)

lemma get_row_Some: "get_row db i = Some r \<Longrightarrow> r \<in> set (nd_incidents db) \<and> in_id r = i"
  by (auto simp: get_row_def dest: find_first_Some)

lemma apply_changes_ok:
  assumes "incident_row_ok r" "accepts_update c" "fits_columns (apply_changes user c r)"
    and "check_recovery (case ch_status c of None \<Rightarrow> in_column r ''status'' | Some s \<Rightarrow> jopt s)
        (case ch_recovered_at c of None \<Rightarrow> in_recovered_at r | Some t \<Rightarrow> t) = Inr x"
  shows "incident_row_ok (apply_changes user c r)"
proof -
  have s: "in_column (apply_changes user c r) ''status'' = (case ch_status c of None \<Rightarrow> in_column r ''status'' | Some s \<Rightarrow> jopt s)"
    by (simp add: apply_changes_def set_field_def split: option.split)
  have "in_column (apply_changes user c r) ''status'' \<noteq> JNull"
    using assms(3) by (auto simp: fits_columns_def COLUMN_LIMITS_def NOT_NULL_def)
  then have "in_column (apply_changes user c r) ''status'' \<in> JStr ` set STATUSES"
    using assms(1,2) unfolding s by (auto simp: incident_row_ok_def accepts_update_def jopt_def split: option.splits)
  moreover have "in_recovered_at (apply_changes user c r) = (case ch_recovered_at c of None \<Rightarrow> in_recovered_at r | Some t \<Rightarrow> t)"
    by (simp add: apply_changes_def)
  ultimately show ?thesis using check_recovery_ok [OF assms(4)] assms(3) s by (simp add: incident_row_ok_def)
qed

lemma update_incident_ok:
  assumes "incidents_ok (nd_incidents db)"
  shows "incidents_ok (nd_incidents (snd (update_incident user c i db)))"
proof (cases "snd (update_incident user c i db) = db")
  case False
  then obtain r x where r: "get_row db i = Some r" "accepts_update c" "fits_columns (apply_changes user c r)"
      "check_recovery (case ch_status c of None \<Rightarrow> in_column r ''status'' | Some s \<Rightarrow> jopt s)
        (case ch_recovered_at c of None \<Rightarrow> in_recovered_at r | Some t \<Rightarrow> t) = Inr x"
    and db': "nd_incidents (snd (update_incident user c i db))
      = map (\<lambda>x. if in_id x = i then apply_changes user c r else x) (nd_incidents db)"
    by (auto simp: update_incident_def Let_def split: option.splits sum.splits if_splits)
  have mem: "r \<in> set (nd_incidents db)" "in_id r = i" using get_row_Some [OF r(1)] by auto
  have only: "x = r" if "x \<in> set (nd_incidents db)" "in_id x = i" for x
    using that mem assms by (auto simp: incidents_ok_def distinct_map inj_on_def)
  have "incident_row_ok r" using assms mem by (auto simp: incidents_ok_def list_all_iff)
  with r have ok: "incident_row_ok (apply_changes user c r)" by (metis apply_changes_ok)
  have "map in_id (nd_incidents (snd (update_incident user c i db))) = map in_id (nd_incidents db)"
    "map display_id (nd_incidents (snd (update_incident user c i db))) = map display_id (nd_incidents db)"
    unfolding db' using mem only by (auto simp: comp_def)
  moreover have "list_all incident_row_ok (nd_incidents (snd (update_incident user c i db)))"
    unfolding db' using assms ok by (auto simp: incidents_ok_def list_all_iff)
  ultimately show ?thesis using assms by (simp only: incidents_ok_def)
qed (use assms in simp)

lemma remove_incident_rows: "nd_incidents (remove_incident i e db) = filter (\<lambda>r. in_id r \<noteq> i) (nd_incidents db)"
  by (simp add: remove_incident_def Let_def)

lemma delete_incident_cases:
  obtains e where "delete_incident answer now i db = (Inl e, [], db)"
  | r plans e ops e' where "get_row db i = Some r" "request_purges now (evidence_of i db) (evidence_view db) = Inr (plans, e)"
      "purge_plans answer plans (nd_evidence (remove_incident i e db)) = (ops, e')"
      "delete_incident answer now i db = (Inr (), ops, (remove_incident i e db)\<lparr>nd_evidence := e'\<rparr>)"
proof (cases "get_row db i")
  case None
  then show ?thesis using that(1) by (simp add: delete_incident_def)
next
  case (Some r)
  show ?thesis
  proof (cases "request_purges now (evidence_of i db) (evidence_view db)")
    case (Inl refs)
    then show ?thesis using that(1) Some by (simp add: delete_incident_def)
  next
    case (Inr x)
    obtain plans e where x: "x = (plans, e)" by (cases x)
    obtain ops e' where "purge_plans answer plans (nd_evidence (remove_incident i e db)) = (ops, e')" by fastforce
    then show ?thesis using that(2) Some Inr x by (simp add: delete_incident_def Let_def)
  qed
qed

lemma delete_incident_ok:
  assumes "incidents_ok (nd_incidents db)"
  shows "incidents_ok (nd_incidents (snd (snd (delete_incident answer now i db))))"
  by (cases rule: delete_incident_cases [of answer now i db])
    (auto simp: assms remove_incident_rows incidents_ok_filter)

section \<open>Display ids are new\<close>

text \<open>What \<open>str.isdigit\<close> and \<open>int\<close> do with decimal numerals.\<close>

definition parses_numbers :: "incident_env \<Rightarrow> bool" where
  "parses_numbers env \<longleftrightarrow> (\<forall>c. 48 \<le> c \<and> c \<le> 57 \<longrightarrow> ie_digit env c) \<and> (\<forall>n\<ge>0. ie_int env (int_str n) = Some n)"

lemma nat_digits_are_digits: "list_all (\<lambda>c. 48 \<le> c \<and> c \<le> 57) (nat_digits n)"
proof (induction n rule: nat_digits.induct)
  case (1 n)
  then show ?case by (subst nat_digits.simps) auto
qed

lemma highest_bounds:
  assumes "sfold (\<lambda>suffix highest. if suffix \<noteq> [] \<and> list_all (ie_digit env) suffix
         then (case ie_int env suffix of None \<Rightarrow> Inl Value_Error | Some n \<Rightarrow> Inr (max highest n)) else Inr highest) xs h = Inr h'"
  shows "h \<le> h' \<and> (\<forall>s\<in>set xs. s \<noteq> [] \<and> list_all (ie_digit env) s \<longrightarrow> (\<exists>n. ie_int env s = Some n \<and> n \<le> h'))"
  using assms
proof (induction xs arbitrary: h)
  case (Cons x xs)
  then show ?case by (fastforce split: if_splits option.splits)
qed simp

lemma next_display_id_new:
  assumes "next_display_id env rows = Inr d" "parses_numbers env"
  obtains n where "d = u ''INC-'' @ int_str n" "1000 < n"
    "\<And>r m. r \<in> set rows \<Longrightarrow> 0 \<le> m \<Longrightarrow> display_id r = u ''INC-'' @ int_str m \<Longrightarrow> m < n"
proof -
  obtain h where h: "sfold (\<lambda>suffix highest. if suffix \<noteq> [] \<and> list_all (ie_digit env) suffix
         then (case ie_int env suffix of None \<Rightarrow> Inl Value_Error | Some n \<Rightarrow> Inr (max highest n)) else Inr highest)
       (map (drop 4) (filter (py_prefix (u ''INC-'')) (map display_id rows))) 1000 = Inr h" and d: "d = u ''INC-'' @ int_str (h + 1)"
    using assms(1) by (auto simp: next_display_id_def)
  note b = highest_bounds [OF h]
  show thesis
  proof (rule that [OF d])
    show "1000 < h + 1" using b by simp
    fix r m assume r: "r \<in> set rows" "0 \<le> m" "display_id r = u ''INC-'' @ int_str m"
    have "list_all (ie_digit env) (int_str m)"
      using nat_digits_are_digits [of "nat m"] r(2) assms(2) by (auto simp: int_str_def parses_numbers_def list_all_iff)
    moreover have "int_str m \<noteq> []" using r(2) by (simp add: int_str_def)
    moreover have "int_str m \<in> set (map (drop 4) (filter (py_prefix (u ''INC-'')) (map display_id rows)))"
      using r(1,3) by (force simp: py_prefix_iff u_def)
    ultimately obtain n where "ie_int env (int_str m) = Some n" "n \<le> h" using b by blast
    then show "m < h + 1" using assms(2) r(2) by (simp add: parses_numbers_def)
  qed
qed

text \<open>A request that sees all rows succeeds in its first attempt or not at all.\<close>

lemma create_alone:
  assumes "fst (create_incident env ids user now (\<lambda>k. []) b db) = Inr out" "parses_numbers env"
  obtains d where "next_display_id env (nd_incidents db) = Inr d" "display_id (io_row out) = d" "in_id (io_row out) = ids 0"
    "snd (create_incident env ids user now (\<lambda>k. []) b db) = db\<lparr>nd_incidents := nd_incidents db @ [io_row out]\<rparr>"
    "d \<notin> display_id ` set (nd_incidents db)"
proof -
  have v: "accepts_create b" "check_recovery (JStr (ib_status b)) (ib_recovered_at b) = Inr ()"
    using assms(1) by (auto simp: create_incident_def Let_def split: if_splits sum.splits)
  obtain res db1 where 1: "create_attempt env (ids 0) user now [] b db = (res, db1)" by fastforce
  show thesis
    using 1
  proof (cases rule: create_attempt_cases)
    case 2
    have "create_attempt env (ids 0) user now [] b db = (None, db1)" using 1 2(1) by simp
    then obtain d where d: "next_display_id env (nd_incidents db) = Inr d" "d \<in> display_id ` set (nd_incidents db)"
      by (auto simp: create_attempt_def Let_def split: sum.splits if_splits)
    obtain r where r: "r \<in> set (nd_incidents db)" "display_id r = d" using d(2) by blast
    show thesis
    proof (rule next_display_id_new [OF d(1) assms(2)])
      fix n assume n: "d = u ''INC-'' @ int_str n" "1000 < n"
        and less: "\<And>r m. r \<in> set (nd_incidents db) \<Longrightarrow> 0 \<le> m \<Longrightarrow> display_id r = u ''INC-'' @ int_str m \<Longrightarrow> m < n"
      have "n < n" using less [OF r(1), of n] r(2) n by simp
      then show thesis by simp
    qed
  next
    case 1
    then show thesis using \<open>create_attempt env (ids 0) user now [] b db = (res, db1)\<close> v assms(1) by (simp add: create_incident_def)
  next
    case (3 d r)
    then have run: "create_incident env ids user now (\<lambda>k. []) b db
        = (Inr \<lparr>io_row = r, io_has_log = False, io_analysis_status = u ''not_analyzed''\<rparr>, db\<lparr>nd_incidents := nd_incidents db @ [r]\<rparr>)"
      using 1 v by (simp add: create_incident_def)
    have "io_row out = r" using run assms(1) by auto
    then show thesis using 3(4,5,6) run by (intro that [of d]) auto
  qed
qed

section \<open>Deletions\<close>

definition deletable :: "evidence_db \<Rightarrow> evidence_row \<Rightarrow> bool" where
  "deletable e r \<longleftrightarrow> e_lifecycle r = PURGED \<or> references_for e (e_id r) = []"

lemma references_for_update [simp]: "references_for (update_evidence i f e) = references_for e"
  by (auto simp: references_for_def update_evidence_def fun_eq_iff)

lemma request_purges_refused: "\<exists>r\<in>set rs. \<not> deletable e r \<Longrightarrow> \<exists>refs. request_purges now rs e = Inl refs"
proof (induction rs arbitrary: e)
  case (Cons r rs)
  have same: "deletable (update_evidence i f e) = deletable e" for i f by (simp add: deletable_def fun_eq_iff)
  show ?case
  proof (cases "deletable e r")
    case True
    define e1 where "e1 = (if e_lifecycle r = PURGED then e else update_evidence (e_id r) (tombstone now) e)"
    have r: "request_purge now r e = Inr (purge_plan_of r, e1)" using True by (auto simp: e1_def request_purge_def deletable_def)
    have e1: "deletable e1 = deletable e" using same by (simp add: e1_def)
    have "\<exists>r\<in>set rs. \<not> deletable e1 r" using Cons.prems True e1 by auto
    then obtain refs where "request_purges now rs e1 = Inl refs" using Cons.IH by blast
    then show ?thesis using r by simp
  next
    case False
    then show ?thesis by (simp add: request_purge_def deletable_def)
  qed
qed simp

definition tombstoned :: "time \<Rightarrow> evidence_row list \<Rightarrow> evidence_row \<Rightarrow> evidence_row" where
  "tombstoned now rs r = (if \<exists>x\<in>set rs. e_id x = e_id r \<and> e_lifecycle x \<noteq> PURGED then tombstone now r else r)"

lemma tombstone_simps [simp]: "e_id (tombstone now r) = e_id r" "e_incident_id (tombstone now r) = e_incident_id r"
  "e_lifecycle (tombstone now r) = PURGE_PENDING" "tombstone now (tombstone now r) = tombstone now r"
  by (simp_all add: tombstone_def)

lemma tombstoned_simps [simp]: "e_id (tombstoned now rs r) = e_id r" "e_incident_id (tombstoned now rs r) = e_incident_id r"
  by (simp_all add: tombstoned_def)

lemma request_purges_accepted:
  "\<forall>r\<in>set rs. deletable e r \<Longrightarrow>
    request_purges now rs e = Inr (map purge_plan_of rs, e\<lparr>evidence := map (tombstoned now rs) (evidence e)\<rparr>)"
proof (induction rs arbitrary: e)
  case Nil
  have "tombstoned now [] = id" by (simp add: tombstoned_def fun_eq_iff)
  then show ?case by simp
next
  case (Cons r rs)
  have same: "deletable (update_evidence i f e) = deletable e" for i f by (simp add: deletable_def fun_eq_iff)
  show ?case
  proof (cases "e_lifecycle r = PURGED")
    case True
    then have "tombstoned now (r # rs) = tombstoned now rs" by (auto simp: tombstoned_def fun_eq_iff)
    then show ?thesis using True Cons by (simp add: request_purge_def)
  next
    case False
    then have refs: "references_for e (e_id r) = []" using Cons.prems by (simp add: deletable_def)
    have "tombstoned now rs (if e_id x = e_id r then tombstone now x else x) = tombstoned now (r # rs) x" for x
      using False by (auto simp: tombstoned_def)
    then have "map (tombstoned now rs) (evidence (update_evidence (e_id r) (tombstone now) e)) = map (tombstoned now (r # rs)) (evidence e)"
      by (simp add: update_evidence_def)
    moreover have "(update_evidence (e_id r) (tombstone now) e)\<lparr>evidence := x\<rparr> = e\<lparr>evidence := x\<rparr>" for x
      by (simp add: update_evidence_def)
    ultimately show ?thesis using False refs Cons.IH [of "update_evidence (e_id r) (tombstone now) e"] Cons.prems same
      by (simp add: request_purge_def)
  qed
qed

definition cleaned :: "(uuid \<Rightarrow> storage_result) \<Rightarrow> purge_plan list \<Rightarrow> evidence_row \<Rightarrow> evidence_row" where
  "cleaned answer ps r = (if \<exists>p\<in>set ps. pp_evidence_id p = e_id r \<and> fst (purge_storage (answer (pp_evidence_id p)) p) = Storage_Ok
     then r\<lparr>e_lifecycle := PURGED\<rparr> else r)"

lemma cleaned_simps [simp]: "e_id (cleaned answer ps r) = e_id r" "e_incident_id (cleaned answer ps r) = e_incident_id r"
  "e_lifecycle (cleaned answer ps r) \<in> {e_lifecycle r, PURGED}"
  by (auto simp: cleaned_def)

lemma purge_plans_result:
  "purge_plans answer ps e = (map (\<lambda>p. DeleteObject (pp_bucket p) (pp_object_key p) (truthy_opt (pp_version_id p))) ps,
     e\<lparr>evidence := map (cleaned answer ps) (evidence e)\<rparr>)"
proof (induction ps arbitrary: e)
  case Nil
  have "cleaned answer [] = id" by (simp add: cleaned_def fun_eq_iff)
  then show ?case by simp
next
  case (Cons p ps)
  let ?ok = "fst (purge_storage (answer (pp_evidence_id p)) p) = Storage_Ok"
  have op: "snd (purge_storage out p) = DeleteObject (pp_bucket p) (pp_object_key p) (truthy_opt (pp_version_id p))" for out
    by (simp add: purge_storage_def)
  have m: "mark_purged i e = e\<lparr>evidence := map (\<lambda>r. if e_id r = i then r\<lparr>e_lifecycle := PURGED\<rparr> else r) (evidence e)\<rparr>" for i
    by (simp add: mark_purged_def update_evidence_def)
  have "cleaned answer ps (if e_id r = pp_evidence_id p then r\<lparr>e_lifecycle := PURGED\<rparr> else r) = cleaned answer (p # ps) r" if ?ok for r
    using that by (cases "e_id r = pp_evidence_id p") (auto simp: cleaned_def)
  moreover have "cleaned answer ps = cleaned answer (p # ps)" if "\<not> ?ok"
    using that by (simp add: cleaned_def fun_eq_iff)
  ultimately show ?case
    by (cases ?ok) (simp_all add: Cons.IH m op case_prod_beta Let_def comp_def)
qed

section \<open>One answer for one incident\<close>

lemma map_of_filter_key: "map_of (filter (\<lambda>p. fst p = k) xs) k = map_of xs k"
  by (induction xs) auto

lemma current_states_key:
  "i \<in> set ids \<Longrightarrow> filter (\<lambda>p. fst p = i) (current_states js ids runs) = filter (\<lambda>p. fst p = i) (current_states js [i] runs)"
  by (induction runs) (auto simp: current_states_def split: option.split)

lemma attach_derived_each: "attach_derived db rows = map (\<lambda>r. hd (attach_derived db [r])) rows"
proof -
  have s: "map_of (rev (current_states js ids runs)) i = map_of (rev (current_states js [i] runs)) i" if "i \<in> set ids" for i ids js runs
    using map_of_filter_key [of i "rev (current_states js ids runs)"] map_of_filter_key [of i "rev (current_states js [i] runs)"]
      current_states_key [OF that, of js runs]
    by (simp add: rev_filter [symmetric])
  have "in_id r \<in> set (map e_incident_id (filter (\<lambda>e. e_incident_id e \<in> set (map in_id rows) \<and> active_log e) evs))
      \<longleftrightarrow> in_id r \<in> set (map e_incident_id (filter (\<lambda>e. e_incident_id e \<in> set (map in_id [r]) \<and> active_log e) evs))"
    if "r \<in> set rows" for r evs
    using that by (auto intro!: image_eqI)
  note log = this
  show ?thesis
    unfolding attach_derived_def Let_def
  proof (rule map_cong [OF refl])
    fix r assume r: "r \<in> set rows"
    then have i: "in_id r \<in> set (map in_id rows)" by simp
    show "\<lparr>io_row = r, io_has_log = in_id r \<in> set (map e_incident_id (filter (\<lambda>e. e_incident_id e \<in> set (map in_id rows)
          \<and> active_log e) (evidence (nd_evidence db)))),
        io_analysis_status = (case map_of (rev (current_states (nd_jobs db) (map in_id rows) (nd_runs db))) (in_id r) of
          None \<Rightarrow> u ''not_analyzed'' | Some s \<Rightarrow> s)\<rparr>
      = hd (map (\<lambda>r'. \<lparr>io_row = r', io_has_log = in_id r' \<in> set (map e_incident_id (filter (\<lambda>e. e_incident_id e \<in> set (map in_id [r])
          \<and> active_log e) (evidence (nd_evidence db)))),
        io_analysis_status = (case map_of (rev (current_states (nd_jobs db) (map in_id [r]) (nd_runs db))) (in_id r') of
          None \<Rightarrow> u ''not_analyzed'' | Some s \<Rightarrow> s)\<rparr>) [r])"
      unfolding log [OF r] s [OF i] by simp
  qed
qed

section \<open>Properties\<close>

text \<open>The handlers that change tables, with whatever other transactions commit meanwhile.\<close>

inductive incident_step :: "incident_env \<Rightarrow> incidents_db \<Rightarrow> incidents_db \<Rightarrow> bool" for env where
  create: "incidents_ok (nd_incidents db @ others 0 @ others 1) \<Longrightarrow> (\<And>k. ids k \<notin> in_id ` set (nd_incidents db @ others 0 @ others 1))
    \<Longrightarrow> incident_step env db (snd (create_incident env ids user now others b db))"
| update: "incident_step env db (snd (update_incident user c i db))"
| delete: "incident_step env db (snd (snd (delete_incident answer now i db)))"


text \<open>C39. Display ids are new, but not for good: a request that sees all rows gets \<open>INC-n\<close> with \<open>n\<close> above
  1000 and above the number of every existing incident, in its first attempt. Deleting this incident at once always
  succeeds, and then the next incident gets the same display id.\<close>

theorem display_ids_are_new_until_deleted:
  assumes "parses_numbers env" "fst (create_incident env ids user now (\<lambda>k. []) b db) = Inr out"
    and "ids 0 \<notin> in_id ` set (nd_incidents db)" "ids 0 \<notin> e_incident_id ` set (evidence (nd_evidence db))"
  shows "\<exists>n. display_id (io_row out) = u ''INC-'' @ int_str n \<and> 1000 < n
   \<and> (\<forall>r\<in>set (nd_incidents db). display_id r \<noteq> display_id (io_row out)
        \<and> (\<forall>m\<ge>0. display_id r = u ''INC-'' @ int_str m \<longrightarrow> m < n))
   \<and> (case delete_incident answer t (in_id (io_row out)) (snd (create_incident env ids user now (\<lambda>k. []) b db)) of
        (res, ops, db2) \<Rightarrow> res = Inr () \<and> ops = [] \<and> next_display_id env (nd_incidents db2) = Inr (display_id (io_row out)))"
proof -
  obtain d where d: "next_display_id env (nd_incidents db) = Inr d" "display_id (io_row out) = d" "in_id (io_row out) = ids 0"
    "snd (create_incident env ids user now (\<lambda>k. []) b db) = db\<lparr>nd_incidents := nd_incidents db @ [io_row out]\<rparr>"
    "d \<notin> display_id ` set (nd_incidents db)"
    using create_alone [OF assms(2,1)] .
  let ?db1 = "db\<lparr>nd_incidents := nd_incidents db @ [io_row out]\<rparr>"
  have new: "in_id x \<noteq> ids 0" if "x \<in> set (nd_incidents db)" for x
    using assms(3) that by (metis image_eqI)
  then have "find_first (\<lambda>r. in_id r = ids 0) (nd_incidents db) = None" by (auto simp: find_first_None_iff)
  then have row: "get_row ?db1 (ids 0) = Some (io_row out)" by (simp add: get_row_def find_first_append d(3))
  have rows: "filter (\<lambda>r. in_id r \<noteq> ids 0) (nd_incidents ?db1) = nd_incidents db"
    using new d(3) by (auto intro!: filter_True)
  have "e_incident_id x \<noteq> ids 0" if "x \<in> set (evidence (nd_evidence db))" for x
    using assms(4) that by (metis image_eqI)
  then have "evidence_of (ids 0) ?db1 = []" by (auto simp: evidence_of_def filter_empty_conv)
  then have del: "case delete_incident answer t (in_id (io_row out)) ?db1 of
      (res, ops, db2) \<Rightarrow> res = Inr () \<and> ops = [] \<and> nd_incidents db2 = nd_incidents db"
    using row rows by (simp add: delete_incident_def d(3) Let_def remove_incident_rows)
  obtain n where "d = u ''INC-'' @ int_str n" "1000 < n"
    "\<And>r m. r \<in> set (nd_incidents db) \<Longrightarrow> 0 \<le> m \<Longrightarrow> display_id r = u ''INC-'' @ int_str m \<Longrightarrow> m < n"
    using next_display_id_new [OF d(1) assms(1)] by metis
  moreover have "display_id r \<noteq> d" if "r \<in> set (nd_incidents db)" for r
    using d(5) that by (metis image_eqI)
  ultimately show ?thesis using d del by (intro exI [of _ n]) auto
qed

text \<open>C40. Deleting an incident spares what is referenced: it is refused without any change if an evidence row of it that is not
  purged is referenced by an OCR run, an analysis or a report snapshot. Otherwise exactly the objects of its evidence are
  deleted from storage, its runs, jobs, dispatch events and upload intents are gone, its evidence stays as detached
  tombstones, and everything of other incidents is as before.\<close>

theorem deletion_spares_referenced_evidence:
  assumes "distinct (map e_id (evidence (nd_evidence db)))" "i \<noteq> []" "get_row db i \<noteq> None"
  shows "case delete_incident answer now i db of
      (Inl e, ops, db') \<Rightarrow> ops = [] \<and> db' = db \<and> (\<exists>r\<in>set (evidence_of i db). \<not> deletable (evidence_view db) r)
    | (Inr _, ops, db') \<Rightarrow> (\<forall>r\<in>set (evidence_of i db). deletable (evidence_view db) r)
        \<and> ops = map (\<lambda>r. DeleteObject (e_bucket r) (e_object_key r) (truthy_opt (e_version_id r))) (evidence_of i db)
        \<and> get_row db' i = None \<and> evidence_of i db' = [] \<and> (\<forall>r\<in>set (nd_runs db'). rn_incident_id r \<noteq> i)
        \<and> (\<forall>m\<in>set (nd_meta db). jm_incident_id m = Some i \<longrightarrow> jobs (nd_jobs db') (jm_id m) = None
             \<and> (\<forall>o1\<in>set (nd_events db'). o_job_id o1 \<noteq> jm_id m))
        \<and> (\<forall>x\<in>set (intents (nd_evidence db')). i_incident_id x \<noteq> i)
        \<and> (\<forall>k<length (evidence (nd_evidence db)).
             let r = evidence (nd_evidence db) ! k; r' = evidence (nd_evidence db') ! k in
             if e_incident_id r = i then e_id r' = e_id r \<and> e_incident_id r' = [] \<and> e_lifecycle r' \<in> {PURGE_PENDING, PURGED}
             else r' = r)
        \<and> nd_incidents db' = filter (\<lambda>r. in_id r \<noteq> i) (nd_incidents db)"
proof (cases "\<forall>r\<in>set (evidence_of i db). deletable (evidence_view db) r")
  case False
  then obtain refs where "request_purges now (evidence_of i db) (evidence_view db) = Inl refs"
    using request_purges_refused by blast
  then have "delete_incident answer now i db
      = (Inl (HTTP 409 (u ''Incident evidence is retained: evidence is retained by: '' @ py_join (u '', '') refs)), [], db)"
    using assms(3) by (auto simp: delete_incident_def)
  then show ?thesis using False by simp
next
  case True
  let ?gone = "evidence_of i db" and ?plans = "map purge_plan_of (evidence_of i db)"
  let ?tomb = "map (tombstoned now ?gone) (evidence (nd_evidence db))"
  let ?e = "(evidence_view db)\<lparr>evidence := ?tomb\<rparr>"
  define final where "final r = cleaned answer ?plans (let x = tombstoned now ?gone r in if e_incident_id x = i then x\<lparr>e_incident_id := []\<rparr> else x)" for r
  let ?db' = "(remove_incident i ?e db)\<lparr>nd_evidence := (nd_evidence (remove_incident i ?e db))\<lparr>evidence := map final (evidence (nd_evidence db))\<rparr>\<rparr>"
  have ev: "evidence (evidence_view db) = evidence (nd_evidence db)" by (simp add: evidence_view_def)
  have run: "delete_incident answer now i db
      = (Inr (), map (\<lambda>r. DeleteObject (e_bucket r) (e_object_key r) (truthy_opt (e_version_id r))) ?gone, ?db')"
    using assms(3) request_purges_accepted [OF True, of now] ev
    by (auto simp: delete_incident_def purge_plans_result Let_def purge_plan_of_def remove_incident_def final_def comp_def)
  have detached: "e_id (final r) = e_id r \<and> e_incident_id (final r) = [] \<and> e_lifecycle (final r) \<in> {PURGE_PENDING, PURGED}"
    if "r \<in> set (evidence (nd_evidence db))" "e_incident_id r = i" for r
  proof -
    have "e_lifecycle (tombstoned now ?gone r) \<in> {PURGE_PENDING, PURGED}"
      using that by (auto simp: tombstoned_def evidence_of_def)
    then show ?thesis using that by (auto simp: final_def Let_def cleaned_def)
  qed
  have kept: "final r = r" if "r \<in> set (evidence (nd_evidence db))" "e_incident_id r \<noteq> i" for r
  proof -
    have "\<not> (\<exists>x\<in>set ?gone. e_id x = e_id r)"
      using that assms(1) by (auto simp: evidence_of_def distinct_map inj_on_def)
    then show ?thesis using that by (auto simp: final_def tombstoned_def cleaned_def purge_plan_of_def Let_def)
  qed
  have none: "evidence_of i ?db' = []"
  proof -
    have "e_incident_id (final r) \<noteq> i" if "r \<in> set (evidence (nd_evidence db))" for r
      using detached [OF that] kept [OF that] assms(2) by (cases "e_incident_id r = i") auto
    then show ?thesis by (simp add: evidence_of_def filter_empty_conv)
  qed
  have row: "get_row ?db' i = None"
    by (simp add: get_row_def find_first_None_iff remove_incident_rows)
  have rest: "\<forall>r\<in>set (nd_runs ?db'). rn_incident_id r \<noteq> i" "\<forall>x\<in>set (intents (nd_evidence ?db')). i_incident_id x \<noteq> i"
    "nd_incidents ?db' = filter (\<lambda>r. in_id r \<noteq> i) (nd_incidents db)"
    by (simp_all add: remove_incident_def Let_def)
  have own_jobs: "\<forall>m\<in>set (nd_meta db). jm_incident_id m = Some i \<longrightarrow> jobs (nd_jobs ?db') (jm_id m) = None
      \<and> (\<forall>o1\<in>set (nd_events ?db'). o_job_id o1 \<noteq> jm_id m)"
    by (auto simp: remove_incident_def Let_def)
  have each: "\<forall>k<length (evidence (nd_evidence db)).
      let r = evidence (nd_evidence db) ! k; r' = evidence (nd_evidence ?db') ! k in
      if e_incident_id r = i then e_id r' = e_id r \<and> e_incident_id r' = [] \<and> e_lifecycle r' \<in> {PURGE_PENDING, PURGED} else r' = r"
    using detached [OF nth_mem] kept [OF nth_mem] by (simp add: Let_def)
  show ?thesis
    unfolding run prod.case sum.case by (intro conjI True refl none row rest own_jobs each)
qed

text \<open>Lists and details agree: every entry of every page of the incident list, with its has-log flag and
  analysis status, is what the detail request for that incident answers.\<close>

theorem list_agrees_with_detail:
  assumes "distinct (map in_id (nd_incidents db))" "out \<in> set (fst (list_incidents db q))"
  shows "get_incident db (in_id (io_row out)) = Inr out"
proof -
  have "\<exists>rows. fst (list_incidents db q) = attach_derived db rows \<and> set rows \<subseteq> set (nd_incidents db)"
    by (auto simp: list_incidents_def Let_def split: option.split dest!: in_set_takeD in_set_dropD)
  then obtain rows where rows: "fst (list_incidents db q) = attach_derived db rows" "set rows \<subseteq> set (nd_incidents db)" by blast
  then obtain r where r: "r \<in> set rows" "out = hd (attach_derived db [r])"
    using assms(2) attach_derived_each [of db rows] by auto
  then have "io_row out = r" by (simp add: attach_derived_def Let_def)
  moreover have "get_row db (in_id r) = Some r"
  proof -
    have "r \<in> set (nd_incidents db)" using r(1) rows(2) by blast
    then obtain x where x: "get_row db (in_id r) = Some x"
      by (cases "get_row db (in_id r)") (auto simp: get_row_def find_first_None_iff)
    with get_row_Some [OF x] \<open>r \<in> set (nd_incidents db)\<close> assms(1) show ?thesis by (auto simp: distinct_map inj_on_def)
  qed
  ultimately show ?thesis using r(2) by (simp add: get_incident_def)
qed

text \<open>The label for screenshots is never used: no evidence type that an upload may have is \<open>SCREENSHOT\<close>.\<close>

lemma screenshot_label_is_never_used:
  "t \<in> set (map u [''ALERT_SCREENSHOT'', ''LOG'', ''GRAFANA_SCREENSHOT'', ''SUPPORTING_DOCUMENT'', ''OTHER''])
    \<Longrightarrow> evidence_label t \<noteq> u ''Screenshot attached''"
  by (auto simp: evidence_label_def u_def)

lemma filter_insort_key_length: "length (filter p (insort_key f x xs)) = length (filter p (x # xs))"
  by (induction xs) auto

lemma filter_sort_key: "length (filter p (sort_key f xs)) = length (filter p xs)"
  by (induction xs) (simp_all add: filter_insort_key_length)

lemma count_job_requests:
  "length (filter (\<lambda>e. te_type e = ''job_requested'') (job_events m j)) = 1"
  "filter (\<lambda>e. te_type e = ''evidence_attached'') (job_events m j) = []"
  by (auto simp: job_events_def Let_def split: option.split)

lemma timeline_parts:
  assumes "get_incident_timeline db i = Inr es"
  obtains first last where "es = sort_key te_at (first @ evidence_events db i @ incident_job_events db i @ last)"
    "filter (\<lambda>e. te_type e = ''evidence_attached'') first = []" "filter (\<lambda>e. te_type e = ''job_requested'') first = []"
    "filter (\<lambda>e. te_type e = ''evidence_attached'') last = []" "filter (\<lambda>e. te_type e = ''job_requested'') last = []"
proof -
  from assms obtain r where r: "get_row db i = Some r" by (cases "get_row db i") (auto simp: get_incident_timeline_def)
  show thesis
    by (rule that [OF trans [OF Inr_inject [OF trans [OF assms [symmetric]
          get_incident_timeline_def [of db i, unfolded r option.case]]] refl]])
      (simp_all split: option.split)
qed

text \<open>The timeline is ordered and complete: its events are sorted by time, and it has one attachment event for every
  evidence row of the incident and one request event for every job of it.\<close>

theorem timeline_is_ordered_and_complete:
  assumes "get_incident_timeline db i = Inr es"
  shows "sorted (map te_at es)
   \<and> length (filter (\<lambda>e. te_type e = ''evidence_attached'') es) = length (evidence_of i db)
   \<and> length (filter (\<lambda>e. te_type e = ''job_requested'') es)
       = length (filter (\<lambda>m. jm_incident_id m = Some i \<and> jobs (nd_jobs db) (jm_id m) \<noteq> None) (nd_meta db))"
proof -
  have e: "filter (\<lambda>e. te_type e = ''evidence_attached'') (evidence_events db i) = evidence_events db i"
    "filter (\<lambda>e. te_type e = ''job_requested'') (evidence_events db i) = []"
    by (simp_all add: evidence_events_def filter_map comp_def)
  have j: "filter (\<lambda>e. te_type e = ''evidence_attached'') (concat (map (\<lambda>m. case jobs js (jm_id m) of None \<Rightarrow> [] | Some j \<Rightarrow> job_events m j) ms)) = []"
    "length (filter (\<lambda>e. te_type e = ''job_requested'') (concat (map (\<lambda>m. case jobs js (jm_id m) of None \<Rightarrow> [] | Some j \<Rightarrow> job_events m j) ms)))
      = length (filter (\<lambda>m. jobs js (jm_id m) \<noteq> None) ms)" for ms js
    by (induction ms) (auto simp: count_job_requests [unfolded One_nat_def] split: option.split)
  have c: "length (filter (\<lambda>m. jobs (nd_jobs db) (jm_id m) \<noteq> None) (sort_key jm_queued_at (filter (\<lambda>m. jm_incident_id m = Some i) (nd_meta db))))
      = length (filter (\<lambda>m. jm_incident_id m = Some i \<and> jobs (nd_jobs db) (jm_id m) \<noteq> None) (nd_meta db))"
    by (simp add: filter_sort_key conj_commute)
  have n: "length (evidence_events db i) = length (evidence_of i db)"
    by (simp add: evidence_events_def evidence_of_def)
  from assms obtain first last where es: "es = sort_key te_at (first @ evidence_events db i @ incident_job_events db i @ last)"
    and f: "filter (\<lambda>e. te_type e = ''evidence_attached'') first = []" "filter (\<lambda>e. te_type e = ''job_requested'') first = []"
    and l: "filter (\<lambda>e. te_type e = ''evidence_attached'') last = []" "filter (\<lambda>e. te_type e = ''job_requested'') last = []"
    by (rule timeline_parts)
  have "sorted (map te_at es)" unfolding es by (rule sorted_sort_key)
  moreover have "length (filter (\<lambda>e. te_type e = ''evidence_attached'') es) = length (evidence_of i db)"
    unfolding es filter_sort_key by (simp add: f l e incident_job_events_def j n)
  moreover have "length (filter (\<lambda>e. te_type e = ''job_requested'') es)
      = length (filter (\<lambda>m. jm_incident_id m = Some i \<and> jobs (nd_jobs db) (jm_id m) \<noteq> None) (nd_meta db))"
    unfolding es filter_sort_key filter_append length_append f l e incident_job_events_def j c by simp
  ultimately show ?thesis by blast
qed

section \<open>A sample table\<close>

definition decimal_value :: "pystr \<Rightarrow> int" where
  "decimal_value s = foldl (\<lambda>n c. n * 10 + (int c - 48)) 0 s"

definition sample_incident_env :: incident_env where
  "sample_incident_env = \<lparr>ie_digit = (\<lambda>c. 48 \<le> c \<and> c \<le> 57), ie_int = (\<lambda>s. Some (decimal_value s))\<rparr>"

lemma decimal_value_digits: "decimal_value (nat_digits n) = int n"
proof (induction n rule: nat_digits.induct)
  case (1 n)
  have "int n = int (n div 10) * 10 + int (n mod 10)" using div_mult_mod_eq [of n 10] by linarith
  then have n: "int (n div 10) * 10 + int (n mod 10) = int n" by (rule sym)
  have app: "decimal_value (xs @ [48 + k]) = decimal_value xs * 10 + int k" for xs k by (simp add: decimal_value_def)
  show ?case
  proof (cases "n < 10")
    case True
    then show ?thesis by (simp add: nat_digits.simps [of n] decimal_value_def)
  next
    case False
    then have "nat_digits n = nat_digits (n div 10) @ [48 + n mod 10]" by (simp add: nat_digits.simps [of n])
    then show ?thesis using 1 [OF False] n by (simp only: app)
  qed
qed

lemma sample_parses: "parses_numbers sample_incident_env"
  by (auto simp: parses_numbers_def sample_incident_env_def int_str_def decimal_value_digits)

definition no_incidents :: incidents_db where
  "no_incidents = \<lparr>nd_shifts = [], nd_incidents = [], nd_evidence = \<lparr>incident_ids = [], evidence = [], intents = [],
     ocr_evidence_ids = [], analysis_evidence_ids = [], snapshots = []\<rparr>, nd_runs = [], nd_meta = [],
     nd_jobs = \<lparr>jobs = (\<lambda>j. None), reports = []\<rparr>, nd_events = []\<rparr>"

definition sample_body :: incident_body where
  "sample_body = \<lparr>ib_title = u ''t'', ib_service = u ''s'', ib_environment = u ''e'', ib_status = u ''open'', ib_alert_source = None,
     ib_triggered_at = 5, ib_recovered_at = None, ib_trigger_value = None, ib_teams_url = None, ib_grafana_url = None, ib_notes = None\<rparr>"

abbreviation sample_create :: "(http_error + incident_out) \<times> incidents_db" where
  "sample_create \<equiv> create_incident sample_incident_env (\<lambda>k. [105]) [117] 7 (\<lambda>k. []) sample_body no_incidents"

lemma sample_created: "\<exists>out. fst sample_create = Inr out \<and> display_id (io_row out) = u ''INC-1001''"
  by (simp add: create_incident_def accepts_create_def sample_body_def text_between_def STATUSES_def check_recovery_def u_def
      create_attempt_def no_incidents_def next_display_id_def int_str_def nat_digits.simps Let_def fits_columns_def COLUMN_LIMITS_def
      NOT_NULL_def new_incident_def jopt_def display_id_def)


theorem display_ids_are_new_until_deleted_witness:
  "case delete_incident (\<lambda>i. Storage_Ok) 9 [105] (snd sample_create) of
     (res, ops, db2) \<Rightarrow> res = Inr () \<and> next_display_id sample_incident_env (nd_incidents db2) = Inr (u ''INC-1001'')"
proof -
  obtain out where out: "fst sample_create = Inr out" "display_id (io_row out) = u ''INC-1001''" using sample_created by blast
  have "[105] \<notin> in_id ` set (nd_incidents no_incidents)" "[105] \<notin> e_incident_id ` set (evidence (nd_evidence no_incidents))"
    by (simp_all add: no_incidents_def)
  note t = display_ids_are_new_until_deleted [OF sample_parses out(1) this, of "\<lambda>i. Storage_Ok" 9]
  have "in_id (io_row out) = [105]" using create_alone [OF out(1) sample_parses] by metis
  with t out(2) show ?thesis by auto
qed

definition sample_incident :: incident_row where
  "sample_incident = new_incident [105] (u ''INC-1001'') None [117] 7 sample_body"

definition sample_shot_row :: evidence_row where
  "sample_shot_row = \<lparr>e_id = [101], e_incident_id = [105], e_type = u ''ALERT_SCREENSHOT'', e_bucket = [98], e_object_key = [107],
     e_filename = [102], e_mime_type = None, e_byte_size = 1, e_sha256 = [], e_version_id = None, e_uploaded_by = [117],
     e_created_at = 8, e_lifecycle = ACTIVE, e_deleted_at = None\<rparr>"

definition one_incident_db :: incidents_db where
  "one_incident_db = no_incidents\<lparr>nd_incidents := [sample_incident],
     nd_evidence := (nd_evidence no_incidents)\<lparr>evidence := [sample_shot_row]\<rparr>\<rparr>"

lemma one_incident_facts: "distinct (map e_id (evidence (nd_evidence one_incident_db)))" "get_row one_incident_db [105] \<noteq> None"
  "evidence_of [105] one_incident_db = [sample_shot_row]" "deletable (evidence_view one_incident_db) sample_shot_row"
  by (simp_all add: one_incident_db_def no_incidents_def get_row_def sample_incident_def evidence_of_def sample_shot_row_def
      deletable_def references_for_def evidence_view_def)

theorem deletion_spares_referenced_evidence_witness:
  "fst (snd (delete_incident (\<lambda>i. Storage_Failure) 9 [105] one_incident_db)) = [DeleteObject [98] [107] None]"
  using deletion_spares_referenced_evidence [OF one_incident_facts(1) _ one_incident_facts(2), of "\<lambda>i. Storage_Failure" 9]
    one_incident_facts(3,4)
  by (auto simp: sample_shot_row_def truthy_opt_def split: prod.splits sum.splits)

theorem list_agrees_with_detail_witness:
  "\<exists>out. fst (list_incidents one_incident_db \<lparr>lq_limit = 25, lq_offset = 0, lq_shift = None, lq_status = None, lq_service = None,
      lq_environment = None, lq_has_log = Some False\<rparr>) = [out] \<and> get_incident one_incident_db [105] = Inr out"
proof -
  let ?q = "\<lparr>lq_limit = 25, lq_offset = 0, lq_shift = None, lq_status = None, lq_service = None,
      lq_environment = None, lq_has_log = Some False\<rparr>"
  obtain out where out: "fst (list_incidents one_incident_db ?q) = [out]" "in_id (io_row out) = [105]"
    by (simp add: list_incidents_def one_incident_db_def no_incidents_def selected_def column_is_def truthy_opt_def sample_shot_row_def
        active_log_def attach_derived_def sample_incident_def u_def)
  have "distinct (map in_id (nd_incidents one_incident_db))" by (simp add: one_incident_db_def)
  from list_agrees_with_detail [OF this, of out ?q] out show ?thesis by auto
qed

theorem timeline_is_ordered_and_complete_witness:
  "\<exists>es. get_incident_timeline one_incident_db [105] = Inr es
     \<and> length (filter (\<lambda>e. te_type e = ''evidence_attached'') es) = 1"
proof -
  obtain es where e: "get_incident_timeline one_incident_db [105] = Inr es"
    using one_incident_facts(2) by (auto simp: get_incident_timeline_def)
  from timeline_is_ordered_and_complete [OF e] one_incident_facts(3) e show ?thesis by auto
qed

end
