(* ===== verification/Spec2Isabelle.thy ===== *)
theory Spec2Isabelle
  imports Ai_Worker Outbox Evidence Log_Validation Preprocess Report_Composition Shifts Sessions Report_Versions Skill_Execution Analysis_Runs Hermes_Client Reconcile_Fallback Report_Jobs Incidents
begin

text \<open>
  Verification of noc-report (work in progress header).
\<close>

section \<open>Properties that span components\<close>



end
